(* ===== verification/Prelude.thy ===== *)
theory Prelude
  imports Complex_Main "HOL-Library.Sublist" "HOL-Library.AList"
begin

text \<open>
  Shared vocabulary of the development.

  \<^item> Go strings are byte strings, modelled by \<^typ>\<open>string\<close>; the functions of package
    \<^verbatim>\<open>strings\<close> and \<^verbatim>\<open>unicode/utf8\<close> that the repository uses are defined here on bytes.
  \<^item> Go \<^verbatim>\<open>float64\<close> values are \<open>gofloat\<close>: an exact rational, an infinity or NaN.
  \<^item> Values of type \<^verbatim>\<open>any\<close> (decoded JSON) are \<open>goval\<close>; a Go map is an association list,
    the order of which stands for one iteration order.
  \<^item> An error value is \<open>Errorf format arguments\<close>, a fallible result is a sum with the error left.
  \<^item> \<^verbatim>\<open>int\<close> and \<^verbatim>\<open>int64\<close> are \<^typ>\<open>int\<close> with \<open>wrap64\<close> written where the code can overflow.
\<close>

named_theorems str_simps "definitions of the string functions"
named_theorems spec_simps "definitions unfolded in the proofs about specifications"

section \<open>Errors and results\<close>

datatype goerr = Errorf string "string list"

type_synonym 'a result = "goerr + 'a"

definition ok :: "'a result \<Rightarrow> bool" where
  "ok r = (case r of Inl _ \<Rightarrow> False | Inr _ \<Rightarrow> True)"

definition bindR :: "'a result \<Rightarrow> ('a \<Rightarrow> 'b result) \<Rightarrow> 'b result" where
  "bindR r f = (case r of Inl e \<Rightarrow> Inl e | Inr x \<Rightarrow> f x)"

lemma ok_simps [simp]: "ok (Inr x)" "\<not> ok (Inl e)"
  by (simp_all add: ok_def)

lemma ok_iff: "ok r \<longleftrightarrow> (\<exists>x. r = Inr x)"
  by (cases r) auto

lemma bindR_simps [simp]: "bindR (Inl e) f = Inl e" "bindR (Inr x) f = f x"
  by (simp_all add: bindR_def)

lemma bindR_Inr_iff: "bindR r f = Inr y \<longleftrightarrow> (\<exists>x. r = Inr x \<and> f x = Inr y)"
  by (cases r) auto

lemma bindR_Inr_elim [elim!]:
  assumes "bindR r f = Inr y"
  obtains x where "r = Inr x" "f x = Inr y"
  using assms by (auto simp: bindR_Inr_iff)

section \<open>Machine integers\<close>

definition wrap64 :: "int \<Rightarrow> int" where
  "wrap64 x = (x + 2 ^ 63) mod 2 ^ 64 - 2 ^ 63"

definition in64 :: "int \<Rightarrow> bool" where
  "in64 x = (- (2 ^ 63) \<le> x \<and> x < 2 ^ 63)"

lemma wrap64_id [simp]: "in64 x \<Longrightarrow> wrap64 x = x"
  by (simp add: wrap64_def in64_def)

lemma in64_wrap64 [simp]: "in64 (wrap64 x)"
proof -
  have "0 \<le> (x + 2 ^ 63) mod 2 ^ 64" "(x + 2 ^ 63) mod 2 ^ 64 < (2 ^ 64 :: int)"
    by (rule pos_mod_sign pos_mod_bound, simp)+
  then show ?thesis unfolding wrap64_def in64_def by simp
qed

section \<open>Floating point values\<close>

datatype gofloat = Fin rat | PosInf | NegInf | NaN

instantiation gofloat :: ord
begin

fun less_gofloat :: "gofloat \<Rightarrow> gofloat \<Rightarrow> bool" where
  "less_gofloat (Fin x) (Fin y) = (x < y)"
| "less_gofloat (Fin x) PosInf = True"
| "less_gofloat NegInf (Fin y) = True"
| "less_gofloat NegInf PosInf = True"
| "less_gofloat _ _ = False"

definition less_eq_gofloat :: "gofloat \<Rightarrow> gofloat \<Rightarrow> bool" where
  "less_eq_gofloat x y = (x < y \<or> (x = y \<and> x \<noteq> NaN))"

instance ..

end

definition isNaN :: "gofloat \<Rightarrow> bool" where
  "isNaN x = (x = NaN)"

definition isInf :: "gofloat \<Rightarrow> bool" where
  "isInf x = (x = PosInf \<or> x = NegInf)"

lemma gofloat_le_Fin [simp]: "(Fin x \<le> Fin y) = (x \<le> y)"
  by (auto simp: less_eq_gofloat_def)

lemma not_less_Fin: "\<not> isNaN x \<Longrightarrow> \<not> isInf x \<Longrightarrow> (\<exists>q. x = Fin q)"
  by (cases x) (auto simp: isNaN_def isInf_def)

text \<open>The conversion \<^verbatim>\<open>int(f)\<close> truncates towards zero; outside the range of \<^verbatim>\<open>int64\<close> the
  amd64 instruction yields the smallest integer.\<close>

definition trunc_rat :: "rat \<Rightarrow> int" where
  "trunc_rat q = (if q < 0 then - \<lfloor>- q\<rfloor> else \<lfloor>q\<rfloor>)"

definition int_of_gofloat :: "gofloat \<Rightarrow> int" where
  "int_of_gofloat f = (case f of Fin q \<Rightarrow> (if in64 (trunc_rat q) then trunc_rat q else - (2 ^ 63))
                       | _ \<Rightarrow> - (2 ^ 63))"

lemma trunc_rat_of_int [simp]: "trunc_rat (of_int i) = i"
  by (simp add: trunc_rat_def flip: of_int_minus)

section \<open>Dynamic values\<close>

datatype goval =
    VNil
  | VBool bool
  | VFloat gofloat
  | VInt int
  | VStr string
  | VArr "goval list"
  | VObj "(string \<times> goval) list"
  | VStrs "string list"
  | VInts "int list"
  | VStrMap "(string \<times> string) list"

type_synonym gomap = "(string \<times> goval) list"

text \<open>Indexing a map yields the zero value for a missing key.\<close>

definition mget :: "gomap \<Rightarrow> string \<Rightarrow> goval" where
  "mget m k = (case map_of m k of Some v \<Rightarrow> v | None \<Rightarrow> VNil)"

definition has_key :: "gomap \<Rightarrow> string \<Rightarrow> bool" where
  "has_key m k = (map_of m k \<noteq> None)"

definition mput :: "string \<Rightarrow> goval \<Rightarrow> gomap \<Rightarrow> gomap" where
  "mput k v m = AList.update k v m"

definition mdel :: "string \<Rightarrow> gomap \<Rightarrow> gomap" where
  "mdel k m = AList.delete k m"

definition wf_map :: "('k \<times> 'v) list \<Rightarrow> bool" where
  "wf_map m = distinct (map fst m)"

lemma mget_mput [simp]: "mget (mput k v m) k' = (if k = k' then v else mget m k')"
  by (auto simp: mget_def mput_def update_conv')

lemma mget_mdel [simp]: "mget (mdel k m) k' = (if k = k' then VNil else mget m k')"
  by (auto simp: mget_def mdel_def delete_conv')

lemma has_key_mput [simp]: "has_key (mput k v m) k' = (k = k' \<or> has_key m k')"
  by (auto simp: has_key_def mput_def update_conv')

lemma has_key_mdel [simp]: "has_key (mdel k m) k' = (k \<noteq> k' \<and> has_key m k')"
  by (auto simp: has_key_def mdel_def delete_conv')

lemma wf_map_mput [simp]: "wf_map m \<Longrightarrow> wf_map (mput k v m)"
  by (simp add: wf_map_def mput_def distinct_update)

lemma wf_map_mdel [simp]: "wf_map m \<Longrightarrow> wf_map (mdel k m)"
  by (simp add: wf_map_def mdel_def distinct_delete)

lemma mget_absent [simp]: "\<not> has_key m k \<Longrightarrow> mget m k = VNil"
  by (simp add: has_key_def mget_def)

lemma has_key_iff: "has_key m k \<longleftrightarrow> k \<in> fst ` set m"
  by (simp add: has_key_def map_of_eq_None_iff)

text \<open>Type assertions \<^verbatim>\<open>v.(T)\<close> in their two-result form.\<close>

fun as_bool :: "goval \<Rightarrow> bool option" where
  "as_bool (VBool b) = Some b" | "as_bool _ = None"

fun as_str :: "goval \<Rightarrow> string option" where
  "as_str (VStr s) = Some s" | "as_str _ = None"

fun as_arr :: "goval \<Rightarrow> goval list option" where
  "as_arr (VArr xs) = Some xs" | "as_arr _ = None"

fun as_obj :: "goval \<Rightarrow> gomap option" where
  "as_obj (VObj m) = Some m" | "as_obj _ = None"

fun numeric :: "goval \<Rightarrow> gofloat option" where
  "numeric (VFloat f) = Some f" | "numeric _ = None"

definition str_or_empty :: "goval \<Rightarrow> string" where
  "str_or_empty v = (case as_str v of Some s \<Rightarrow> s | None \<Rightarrow> [])"

definition truthy :: "goval \<Rightarrow> bool" where
  "truthy v = (as_bool v = Some True)"

lemma as_bool_Some [simp]: "as_bool v = Some b \<longleftrightarrow> v = VBool b" by (cases v) auto
lemma as_str_Some [simp]: "as_str v = Some s \<longleftrightarrow> v = VStr s" by (cases v) auto
lemma as_arr_Some [simp]: "as_arr v = Some xs \<longleftrightarrow> v = VArr xs" by (cases v) auto
lemma as_obj_Some [simp]: "as_obj v = Some m \<longleftrightarrow> v = VObj m" by (cases v) auto
lemma numeric_Some [simp]: "numeric v = Some f \<longleftrightarrow> v = VFloat f" by (cases v) auto

lemma truthy_iff [simp]: "truthy v \<longleftrightarrow> v = VBool True"
  by (simp add: truthy_def)

lemma str_or_empty_VStr [simp]: "str_or_empty (VStr s) = s"
  by (simp add: str_or_empty_def)

section \<open>Characters and strings\<close>

definition byte :: "char \<Rightarrow> nat" where
  "byte c = of_char c"

definition is_digit :: "char \<Rightarrow> bool" where
  "is_digit c = (48 \<le> byte c \<and> byte c \<le> 57)"

definition is_lower :: "char \<Rightarrow> bool" where
  "is_lower c = (97 \<le> byte c \<and> byte c \<le> 122)"

definition is_upper :: "char \<Rightarrow> bool" where
  "is_upper c = (65 \<le> byte c \<and> byte c \<le> 90)"

definition is_hex :: "char \<Rightarrow> bool" where
  "is_hex c = (is_digit c \<or> (97 \<le> byte c \<and> byte c \<le> 102))"

definition is_alnum :: "char \<Rightarrow> bool" where
  "is_alnum c = (is_digit c \<or> is_lower c \<or> is_upper c)"

lemma byte_char_of [simp]: "byte (char_of n) = n mod 256"
  by (simp add: byte_def)

lemma byte_less [simp]: "byte c < 256"
  by (metis byte_def mod_less_divisor of_char_mod_256 zero_less_numeral)

lemma byte_inject [simp]: "byte c = byte d \<longleftrightarrow> c = d"
  by (simp add: byte_def)

definition has_prefix :: "string \<Rightarrow> string \<Rightarrow> bool" where
  "has_prefix s p = prefix p s"

definition has_suffix :: "string \<Rightarrow> string \<Rightarrow> bool" where
  "has_suffix s p = suffix p s"

definition contains :: "string \<Rightarrow> string \<Rightarrow> bool" where
  "contains s t = sublist t s"

definition trim_prefix :: "string \<Rightarrow> string \<Rightarrow> string" where
  "trim_prefix s p = (if prefix p s then drop (length p) s else s)"

definition trim_suffix :: "string \<Rightarrow> string \<Rightarrow> string" where
  "trim_suffix s p = (if suffix p s then take (length s - length p) s else s)"

lemma trim_prefix_append [simp]: "trim_prefix (p @ s) p = s"
  by (simp add: trim_prefix_def)

text \<open>\<^verbatim>\<open>strings.TrimLeft\<close> and \<^verbatim>\<open>strings.TrimRight\<close> for a cutset of ASCII bytes.\<close>

definition trim_left_set :: "string \<Rightarrow> string \<Rightarrow> string" where
  "trim_left_set s cs = dropWhile (\<lambda>c. c \<in> set cs) s"

definition trim_right_set :: "string \<Rightarrow> string \<Rightarrow> string" where
  "trim_right_set s cs = rev (dropWhile (\<lambda>c. c \<in> set cs) (rev s))"

text \<open>\<^verbatim>\<open>strings.ReplaceAll\<close> for a pattern of one byte, and \<^verbatim>\<open>strings.Split\<close> on one byte.\<close>

definition replace_char :: "char \<Rightarrow> string \<Rightarrow> string \<Rightarrow> string" where
  "replace_char c t s = concat (map (\<lambda>x. if x = c then t else [x]) s)"

fun split_on :: "char \<Rightarrow> string \<Rightarrow> string list" where
  "split_on c [] = [[]]"
| "split_on c (x # xs) = (if x = c then [] # split_on c xs
     else (case split_on c xs of [] \<Rightarrow> [[x]] | y # ys \<Rightarrow> (x # y) # ys))"

text \<open>\<^verbatim>\<open>strings.Cut\<close> and \<^verbatim>\<open>strings.Join\<close>.\<close>

fun cut_on :: "char \<Rightarrow> string \<Rightarrow> string \<times> string \<times> bool" where
  "cut_on c [] = ([], [], False)"
| "cut_on c (x # xs) = (if x = c then ([], xs, True)
     else (case cut_on c xs of (a, b, f) \<Rightarrow> (x # a, b, f)))"

fun join_with :: "string \<Rightarrow> string list \<Rightarrow> string" where
  "join_with sep [] = []"
| "join_with sep [x] = x"
| "join_with sep (x # y # xs) = x @ sep @ join_with sep (y # xs)"

lemma split_on_nonempty [simp]: "split_on c s \<noteq> []"
  by (cases s) (auto split: list.splits)

lemma concat_split_on: "concat (split_on c s) = replace_char c [] s"
proof (induction s)
  case (Cons x s)
  obtain y ys where "split_on c s = y # ys" by (metis split_on_nonempty list.exhaust)
  with Cons show ?case by (auto simp: replace_char_def)
qed (simp add: replace_char_def)

lemma split_on_first: "split_on c s = a # b # r \<Longrightarrow> prefix (a @ [c]) s"
  by (induction s arbitrary: a b r) (auto split: if_splits list.splits)

subsection \<open>Runes\<close>

definition is_cont :: "char \<Rightarrow> bool" where
  "is_cont c = (128 \<le> byte c \<and> byte c \<le> 191)"

definition between :: "nat \<Rightarrow> nat \<Rightarrow> char \<Rightarrow> bool" where
  "between lo hi c = (lo \<le> byte c \<and> byte c \<le> hi)"

text \<open>The width that \<^verbatim>\<open>utf8.DecodeRune\<close> reports; an invalid encoding has width one.\<close>

definition rune_width :: "string \<Rightarrow> nat" where
  "rune_width s = (case s of
     a # b # c # d # _ \<Rightarrow>
       if between 194 223 a \<and> is_cont b then 2
       else if (a = char_of (224::nat) \<and> between 160 191 b \<or> (between 225 236 a \<or> between 238 239 a) \<and> is_cont b
                \<or> a = char_of (237::nat) \<and> between 128 159 b) \<and> is_cont c then 3
       else if (a = char_of (240::nat) \<and> between 144 191 b \<or> between 241 243 a \<and> is_cont b
                \<or> a = char_of (244::nat) \<and> between 128 143 b) \<and> is_cont c \<and> is_cont d then 4
       else 1
   | [a, b, c] \<Rightarrow>
       if between 194 223 a \<and> is_cont b then 2
       else if (a = char_of (224::nat) \<and> between 160 191 b \<or> (between 225 236 a \<or> between 238 239 a) \<and> is_cont b
                \<or> a = char_of (237::nat) \<and> between 128 159 b) \<and> is_cont c then 3
       else 1
   | [a, b] \<Rightarrow> if between 194 223 a \<and> is_cont b then 2 else 1
   | _ \<Rightarrow> 1)"

function runes :: "string \<Rightarrow> string list" where
  "runes s = (if s = [] then [] else take (rune_width s) s # runes (drop (rune_width s) s))"
  by pat_completeness auto

lemma rune_width_pos [simp]: "0 < rune_width s"
  by (auto simp: rune_width_def split: list.splits)

termination runes
  by (relation "measure length") (auto simp: Suc_leI)

declare runes.simps [simp del]

definition rune_count :: "string \<Rightarrow> nat" where
  "rune_count s = length (runes s)"

definition lower_byte :: "char \<Rightarrow> char" where
  "lower_byte c = (if is_upper c then char_of (byte c + 32) else c)"

definition bytes :: "nat list \<Rightarrow> string" where
  "bytes ns = map char_of ns"

text \<open>\<^verbatim>\<open>strings.ToLower\<close>: ASCII letters, and the two other runes whose lower case is ASCII; an
  invalid byte becomes U+FFFD.  The case tables of the remaining scripts are not reproduced.\<close>

definition lower_rune :: "string \<Rightarrow> string" where
  "lower_rune r = (case r of [c] \<Rightarrow> (if byte c < 128 then [lower_byte c] else bytes [239, 191, 189])
     | _ \<Rightarrow> if r = bytes [196, 176] then ''i'' else if r = bytes [226, 132, 170] then ''k'' else r)"

definition to_lower :: "string \<Rightarrow> string" where
  "to_lower s = concat (map lower_rune (runes s))"

text \<open>\<^verbatim>\<open>strings.EqualFold\<close> against an ASCII string: besides the letters' two cases, U+017F folds to
  \<^verbatim>\<open>s\<close> and U+212A to \<^verbatim>\<open>k\<close>.\<close>

definition fold_rune :: "string \<Rightarrow> string" where
  "fold_rune r = (case r of [c] \<Rightarrow> (if byte c < 128 then [lower_byte c] else bytes [239, 191, 189])
     | _ \<Rightarrow> if r = bytes [197, 191] then ''s'' else if r = bytes [226, 132, 170] then ''k'' else r)"

definition equal_fold :: "string \<Rightarrow> string \<Rightarrow> bool" where
  "equal_fold s t = (map fold_rune (runes s) = map fold_rune (runes t))"

subsection \<open>White space\<close>

text \<open>The UTF-8 encodings of the runes for which \<^verbatim>\<open>unicode.IsSpace\<close> holds.\<close>

definition space_encodings :: "string list" where
  "space_encodings = map bytes
    ([[9], [10], [11], [12], [13], [32], [194, 133], [194, 160], [225, 154, 128]] @
     map (\<lambda>k. [226, 128, k]) [128, 129, 130, 131, 132, 133, 134, 135, 136, 137, 138, 168, 169, 175] @
     [[226, 129, 159], [227, 128, 128]])"

function strip_prefixes :: "string list \<Rightarrow> string \<Rightarrow> string" where
  "strip_prefixes ps s = (case find (\<lambda>p. p \<noteq> [] \<and> prefix p s) ps of
     None \<Rightarrow> s | Some p \<Rightarrow> strip_prefixes ps (drop (length p) s))"
  by pat_completeness auto

termination strip_prefixes
proof (relation "measure (\<lambda>(ps, s). length s)")
  fix ps s p
  assume "find (\<lambda>p. p \<noteq> [] \<and> prefix p s) ps = Some p"
  then have "p \<noteq> []" "prefix p s" by (auto simp: find_Some_iff)
  then have "0 < length p" "length p \<le> length s" by (auto dest: prefix_length_le)
  then have "length s - length p < length s" by linarith
  then show "((ps, drop (length p) s), (ps, s)) \<in> measure (\<lambda>(ps, s). length s)" by simp
qed simp

declare strip_prefixes.simps [simp del]

definition trim_left_space :: "string \<Rightarrow> string" where
  "trim_left_space s = strip_prefixes space_encodings s"

definition trim_right_space :: "string \<Rightarrow> string" where
  "trim_right_space s = rev (strip_prefixes (map rev space_encodings) (rev s))"

definition trim_space :: "string \<Rightarrow> string" where
  "trim_space s = trim_right_space (trim_left_space s)"

definition stripped :: "string list \<Rightarrow> string \<Rightarrow> bool" where
  "stripped ps s = (\<forall>p \<in> set ps. p \<noteq> [] \<longrightarrow> \<not> prefix p s)"

lemma stripped_strip [simp]: "stripped ps (strip_prefixes ps s)"
proof (induction ps s rule: strip_prefixes.induct)
  case (1 ps s)
  then show ?case
    by (subst strip_prefixes.simps)
      (auto simp: stripped_def find_None_iff split: option.splits)
qed

lemma strip_stripped: "stripped ps s \<Longrightarrow> strip_prefixes ps s = s"
  by (subst strip_prefixes.simps) (auto simp: stripped_def find_Some_iff split: option.splits)

lemma suffix_strip: "suffix (strip_prefixes ps s) s"
proof (induction ps s rule: strip_prefixes.induct)
  case (1 ps s)
  then show ?case
    by (subst strip_prefixes.simps)
      (auto split: option.splits intro: suffix_order.order_trans suffix_drop)
qed

lemma stripped_prefix: "stripped ps s \<Longrightarrow> prefix t s \<Longrightarrow> stripped ps t"
  by (auto simp: stripped_def dest: prefix_order.order_trans)

lemma trim_left_stripped [simp]: "stripped space_encodings (trim_left_space s)"
  by (simp add: trim_left_space_def)

lemma prefix_trim_right: "prefix (trim_right_space s) s"
  using suffix_strip [of "map rev space_encodings" "rev s"]
  by (simp add: trim_right_space_def suffix_to_prefix)

lemma trim_space_idem [simp]: "trim_space (trim_space s) = trim_space s"
proof -
  have "stripped space_encodings (trim_space s)"
    unfolding trim_space_def using prefix_trim_right stripped_prefix trim_left_stripped by blast
  then have "trim_left_space (trim_space s) = trim_space s"
    by (simp add: trim_left_space_def strip_stripped)
  moreover have "trim_right_space (trim_space s) = trim_space s"
    by (simp add: trim_space_def trim_right_space_def strip_stripped)
  ultimately show ?thesis by (simp add: trim_space_def)
qed

lemma trim_space_Nil [simp]: "trim_space [] = []"
proof -
  have "stripped ps []" for ps by (simp add: stripped_def)
  then show ?thesis
    by (simp add: trim_space_def trim_left_space_def trim_right_space_def strip_stripped)
qed

definition visible :: "char \<Rightarrow> bool" where
  "visible c = (32 < byte c \<and> byte c < 128)"

lemma space_ends:
  "p \<in> set space_encodings \<Longrightarrow> p \<noteq> [] \<and> \<not> visible (hd p) \<and> \<not> visible (last p)"
  by (auto simp: space_encodings_def bytes_def visible_def)

lemma stripped_visible:
  assumes "visible (hd s)" "\<forall>p \<in> set ps. p \<noteq> [] \<and> \<not> visible (hd p)"
  shows "stripped ps s"
  using assms by (auto simp: stripped_def prefix_def)

lemma trim_left_visible: "visible (hd s) \<Longrightarrow> trim_left_space s = s"
  using space_ends by (simp add: trim_left_space_def strip_stripped stripped_visible)

lemma trim_right_visible: "visible (last s) \<Longrightarrow> trim_right_space s = s"
  using space_ends
  by (simp add: trim_right_space_def strip_stripped stripped_visible hd_rev)

lemma trim_space_visible: "visible (hd s) \<Longrightarrow> visible (last s) \<Longrightarrow> trim_space s = s"
  by (simp add: trim_space_def trim_left_visible trim_right_visible)

lemma space_not_visible: "p \<in> set space_encodings \<Longrightarrow> c \<in> set p \<Longrightarrow> \<not> visible c"
  by (auto simp: space_encodings_def bytes_def visible_def)

lemma trim_space_append_visible:
  assumes "t \<noteq> []" "visible (hd t)" "visible (last t)"
  shows "trim_space (trim_space s @ t) = trim_space s @ t"
proof -
  have st: "stripped space_encodings (trim_space s)"
    unfolding trim_space_def using prefix_trim_right stripped_prefix trim_left_stripped by blast
  have "stripped space_encodings (trim_space s @ t)"
    unfolding stripped_def
  proof (intro ballI impI notI)
    fix p assume p: "p \<in> set space_encodings" "p \<noteq> []" "prefix p (trim_space s @ t)"
    then consider "prefix p (trim_space s)" | us where "p = trim_space s @ us" "prefix us t" "us \<noteq> []"
      by (metis append_Nil2 prefix_append prefix_order.refl)
    then show False
    proof cases
      case 1 then show ?thesis using st p by (auto simp: stripped_def)
    next
      case 2
      then have "hd t \<in> set p" using assms(1) by (auto simp: prefix_def)
      then show ?thesis using space_not_visible p assms(2) by blast
    qed
  qed
  then have "trim_left_space (trim_space s @ t) = trim_space s @ t"
    by (simp add: trim_left_space_def strip_stripped)
  then show ?thesis using assms by (simp add: trim_space_def [of "trim_space s @ t"] trim_right_visible)
qed

subsection \<open>Hexadecimal text\<close>

definition hex_digit :: "nat \<Rightarrow> char" where
  "hex_digit n = (if n < 10 then char_of (48 + n) else char_of (87 + n))"

definition hex_encode :: "string \<Rightarrow> string" where
  "hex_encode s = concat (map (\<lambda>c. [hex_digit (byte c div 16), hex_digit (byte c mod 16)]) s)"

lemma is_hex_hex_digit [simp]: "n < 16 \<Longrightarrow> is_hex (hex_digit n)"
  by (auto simp: is_hex_def is_digit_def hex_digit_def)

lemma hex_encode_hex: "list_all is_hex (hex_encode s)"
  by (induction s) (simp_all add: hex_encode_def list_all_iff div_less_iff_less_mult)

lemma length_hex_encode [simp]: "length (hex_encode s) = 2 * length s"
  by (induction s) (simp_all add: hex_encode_def)

lemma is_hex_visible: "is_hex c \<Longrightarrow> visible c"
  by (auto simp: is_hex_def is_digit_def visible_def)

section \<open>Decimal numbers\<close>

definition digit_char :: "nat \<Rightarrow> char" where
  "digit_char d = char_of (48 + d)"

fun show_nat :: "nat \<Rightarrow> string" where
  "show_nat n = (if n < 10 then [digit_char n] else show_nat (n div 10) @ [digit_char (n mod 10)])"

declare show_nat.simps [simp del]

definition show_int :: "int \<Rightarrow> string" where
  "show_int i = (if i < 0 then ''-'' @ show_nat (nat (- i)) else show_nat (nat i))"

definition digits_val :: "string \<Rightarrow> nat" where
  "digits_val s = foldl (\<lambda>a c. a * 10 + (byte c - 48)) 0 s"

text \<open>\<^verbatim>\<open>strconv.Atoi\<close> and \<^verbatim>\<open>strconv.ParseInt(_, 10, 64)\<close>.\<close>

definition atoi :: "string \<Rightarrow> int option" where
  "atoi s = (let neg = prefix ''-'' s;
                 ds = (if neg \<or> prefix ''+'' s then tl s else s);
                 v = int (digits_val ds)
             in if ds = [] \<or> \<not> list_all is_digit ds then None
                else if neg then (if v \<le> 2 ^ 63 then Some (- v) else None)
                else (if v < 2 ^ 63 then Some v else None))"

lemma byte_digit_char [simp]: "d < 10 \<Longrightarrow> byte (digit_char d) = 48 + d"
  by (simp add: digit_char_def)

lemma is_digit_digit_char [simp]: "d < 10 \<Longrightarrow> is_digit (digit_char d)"
  by (simp add: is_digit_def)

lemma show_nat_digits [simp]: "list_all is_digit (show_nat n)"
  by (induction n rule: show_nat.induct) (subst show_nat.simps, simp)

lemma show_nat_nonempty [simp]: "show_nat n \<noteq> []"
  by (subst show_nat.simps) simp

lemma digits_val_show_nat [simp]: "digits_val (show_nat n) = n"
proof (induction n rule: show_nat.induct)
  case (1 n)
  then show ?case by (subst show_nat.simps) (simp add: digits_val_def)
qed

lemma digit_not_sign:
  assumes "list_all is_digit s"
  shows "\<not> prefix ''-'' s" "\<not> prefix ''+'' s"
  using assms by (auto simp: prefix_def is_digit_def byte_def)

lemma atoi_show_int:
  assumes "in64 i"
  shows "atoi (show_int i) = Some i"
proof (cases "i < 0")
  case True
  then show ?thesis using assms
    by (simp add: atoi_def show_int_def in64_def Let_def)
next
  case False
  then show ?thesis using assms digit_not_sign [OF show_nat_digits [of "nat i"]]
    by (simp add: atoi_def show_int_def in64_def Let_def)
qed

lemma atoi_in64: "atoi s = Some i \<Longrightarrow> in64 i"
  by (auto simp: atoi_def Let_def in64_def split: if_splits)

lemma show_nat_inject [simp]: "show_nat m = show_nat n \<longleftrightarrow> m = n"
  by (metis digits_val_show_nat)

end
