(* ===== verification/Domain_State.thy ===== *)
theory Domain_State
  imports Prelude
begin

text \<open>
  The state machines of \<^verbatim>\<open>internal/domain/state.go\<close>: deployments, payment orders and refunds, each
  as the transition table of the source and the validator that looks it up.  The locale
  \<open>state_machine\<close> states what the callers rely on (a terminal state has no successor), its
  extension \<open>ranked_machine\<close> adds that a move other than a retry goes forward; histories are the
  lists of states that a validator accepts one after the other.
\<close>

section \<open>Validated histories\<close>

definition history :: "('s \<Rightarrow> 's \<Rightarrow> unit result) \<Rightarrow> 's list \<Rightarrow> bool" where
  "history check xs = successively (\<lambda>a b. ok (check a b)) xs"

lemma history_simps [simp]:
  "history check []" "history check [x]"
  "history check (x # y # xs) = (ok (check x y) \<and> history check (y # xs))"
  by (simp_all add: history_def)

locale state_machine =
  fixes check :: "'s \<Rightarrow> 's \<Rightarrow> unit result" and terminal :: "'s \<Rightarrow> bool"
  assumes terminal_stuck: "terminal a \<Longrightarrow> \<not> ok (check a b)"
    and live: "\<not> terminal a \<Longrightarrow> \<exists>b. ok (check a b)"
begin

lemma terminal_iff: "terminal a \<longleftrightarrow> (\<forall>b. \<not> ok (check a b))"
  using terminal_stuck live by blast

lemma history_ends_at_terminal:
  assumes "history check (xs @ t # ys)" "terminal t"
  shows "ys = []"
proof (cases ys)
  case (Cons y zs)
  with assms(1) have "ok (check t y)"
    by (simp add: history_def successively_append_iff)
  with assms(2) show ?thesis using terminal_stuck by blast
qed simp

end

locale ranked_machine = state_machine +
  fixes rank :: "'s \<Rightarrow> nat" and top :: nat
  assumes forward: "ok (check a b) \<Longrightarrow> a \<noteq> b \<Longrightarrow> rank a < rank b"
    and rank_top: "rank a \<le> top"
begin

lemma history_ranks:
  "history check (a # xs) \<Longrightarrow> x \<in> set xs \<Longrightarrow> x = a \<or> rank a < rank x"
proof (induction xs arbitrary: a)
  case (Cons b xs)
  then have step: "ok (check a b)" and rest: "history check (b # xs)" by simp_all
  from Cons.prems Cons.IH [OF rest] have "x = b \<or> rank b < rank x" by auto
  moreover have "b = a \<or> rank a < rank b" using forward [OF step] by blast
  ultimately show ?case by auto
qed simp

text \<open>Apart from immediate retries no state is visited twice, so a history has boundedly many
  different stages.\<close>

lemma history_distinct:
  "history check xs \<Longrightarrow> distinct (remdups_adj xs)"
proof (induction xs rule: remdups_adj.induct)
  case (3 x y xs)
  then have rest: "history check (y # xs)" and step: "ok (check x y)" by simp_all
  show ?case
  proof (cases "x = y")
    case False
    then have "rank x < rank y" using forward step by blast
    then have "x \<notin> set (y # xs)" using history_ranks [OF rest, of x] False by auto
    with 3 False rest show ?thesis by (simp add: remdups_adj_set)
  qed (use 3 rest in simp)
qed simp_all

lemma history_sorted:
  "history check xs \<Longrightarrow> sorted (map rank xs)"
proof (induction xs)
  case (Cons a xs)
  then have "history check xs" by (cases xs) simp_all
  with Cons show ?case using history_ranks [of a xs] by (auto intro: less_imp_le)
qed simp

lemma stages_bounded:
  assumes "inj rank" "history check xs"
  shows "length (remdups_adj xs) \<le> Suc top"
proof -
  have "distinct (map rank (remdups_adj xs))"
    using history_distinct [OF assms(2)] inj_on_subset [OF assms(1) subset_UNIV]
    by (simp add: distinct_map)
  moreover have "set (map rank (remdups_adj xs)) \<subseteq> {..top}" using rank_top by auto
  ultimately show ?thesis
    using card_mono [of "{..top}" "set (map rank (remdups_adj xs))"]
      distinct_card [of "map rank (remdups_adj xs)"] by simp
qed

end

section \<open>Transition tables\<close>

definition allowed :: "('s \<times> ('s \<times> bool) list) list \<Rightarrow> 's \<Rightarrow> 's \<Rightarrow> bool" where
  "allowed table a b = (case map_of table a of None \<Rightarrow> False | Some row \<Rightarrow> map_of row b = Some True)"

datatype deployment_state = DeploymentQueued | DeploymentPulling | DeploymentStarting
  | DeploymentChecking | DeploymentSwitching | DeploymentSucceeded | DeploymentRollingBack
  | DeploymentFailed

fun deployment_text :: "deployment_state \<Rightarrow> string" where
  "deployment_text DeploymentQueued = ''queued''"
| "deployment_text DeploymentPulling = ''pulling''"
| "deployment_text DeploymentStarting = ''starting''"
| "deployment_text DeploymentChecking = ''health_checking''"
| "deployment_text DeploymentSwitching = ''switching_route''"
| "deployment_text DeploymentSucceeded = ''succeeded''"
| "deployment_text DeploymentRollingBack = ''rolling_back''"
| "deployment_text DeploymentFailed = ''failed''"

definition deploymentTransitions :: "(deployment_state \<times> (deployment_state \<times> bool) list) list" where
  "deploymentTransitions =
    [(DeploymentQueued, [(DeploymentPulling, True), (DeploymentFailed, True)]),
     (DeploymentPulling, [(DeploymentStarting, True), (DeploymentRollingBack, True), (DeploymentFailed, True)]),
     (DeploymentStarting, [(DeploymentChecking, True), (DeploymentRollingBack, True), (DeploymentFailed, True)]),
     (DeploymentChecking, [(DeploymentChecking, True), (DeploymentSwitching, True),
        (DeploymentRollingBack, True), (DeploymentFailed, True)]),
     (DeploymentSwitching, [(DeploymentSucceeded, True), (DeploymentRollingBack, True)]),
     (DeploymentRollingBack, [(DeploymentFailed, True)])]"

definition ValidateDeploymentTransition :: "deployment_state \<Rightarrow> deployment_state \<Rightarrow> unit result" where
  "ValidateDeploymentTransition a b =
    (if \<not> allowed deploymentTransitions a b
     then Inl (Errorf ''invalid deployment transition %q -> %q'' [deployment_text a, deployment_text b])
     else Inr ())"

datatype order_state = OrderPending | OrderPaid | OrderClosed | OrderRefunding | OrderRefunded

fun order_text :: "order_state \<Rightarrow> string" where
  "order_text OrderPending = ''pending''"
| "order_text OrderPaid = ''paid''"
| "order_text OrderClosed = ''closed''"
| "order_text OrderRefunding = ''refunding''"
| "order_text OrderRefunded = ''refunded''"

definition orderTransitions :: "(order_state \<times> (order_state \<times> bool) list) list" where
  "orderTransitions =
    [(OrderPending, [(OrderPaid, True), (OrderClosed, True)]),
     (OrderPaid, [(OrderRefunding, True)]),
     (OrderRefunding, [(OrderRefunded, True), (OrderPaid, True)])]"

definition ValidateOrderTransition :: "order_state \<Rightarrow> order_state \<Rightarrow> unit result" where
  "ValidateOrderTransition a b =
    (if \<not> allowed orderTransitions a b
     then Inl (Errorf ''invalid order transition %q -> %q'' [order_text a, order_text b])
     else Inr ())"

datatype refund_state = RefundProcessing | RefundSucceeded | RefundFailed

fun refund_text :: "refund_state \<Rightarrow> string" where
  "refund_text RefundProcessing = ''processing''"
| "refund_text RefundSucceeded = ''succeeded''"
| "refund_text RefundFailed = ''failed''"

definition refundTransitions :: "(refund_state \<times> (refund_state \<times> bool) list) list" where
  "refundTransitions = [(RefundProcessing, [(RefundSucceeded, True), (RefundFailed, True)])]"

definition ValidateRefundTransition :: "refund_state \<Rightarrow> refund_state \<Rightarrow> unit result" where
  "ValidateRefundTransition a b =
    (if \<not> allowed refundTransitions a b
     then Inl (Errorf ''invalid refund transition %q -> %q'' [refund_text a, refund_text b])
     else Inr ())"

lemmas table_simps = allowed_def deploymentTransitions_def orderTransitions_def refundTransitions_def

section \<open>The three machines\<close>

definition deployment_terminal :: "deployment_state \<Rightarrow> bool" where
  "deployment_terminal s = (s \<in> {DeploymentSucceeded, DeploymentFailed})"

definition deployment_rank :: "deployment_state \<Rightarrow> nat" where
  "deployment_rank s = (case s of DeploymentQueued \<Rightarrow> 0 | DeploymentPulling \<Rightarrow> 1 | DeploymentStarting \<Rightarrow> 2
     | DeploymentChecking \<Rightarrow> 3 | DeploymentSwitching \<Rightarrow> 4 | DeploymentRollingBack \<Rightarrow> 5
     | DeploymentFailed \<Rightarrow> 6 | DeploymentSucceeded \<Rightarrow> 7)"

definition order_terminal :: "order_state \<Rightarrow> bool" where
  "order_terminal s = (s \<in> {OrderClosed, OrderRefunded})"

definition refund_terminal :: "refund_state \<Rightarrow> bool" where
  "refund_terminal s = (s \<in> {RefundSucceeded, RefundFailed})"

definition refund_rank :: "refund_state \<Rightarrow> nat" where
  "refund_rank s = (case s of RefundProcessing \<Rightarrow> 0 | RefundSucceeded \<Rightarrow> 1 | RefundFailed \<Rightarrow> 2)"

text \<open>The accepted moves of each validator, as one rewrite rule.\<close>

lemma deployment_ok [simp]:
  "ok (ValidateDeploymentTransition a b) \<longleftrightarrow>
    (case a of DeploymentQueued \<Rightarrow> b = DeploymentPulling \<or> b = DeploymentFailed
     | DeploymentPulling \<Rightarrow> b = DeploymentStarting \<or> b = DeploymentRollingBack \<or> b = DeploymentFailed
     | DeploymentStarting \<Rightarrow> b = DeploymentChecking \<or> b = DeploymentRollingBack \<or> b = DeploymentFailed
     | DeploymentChecking \<Rightarrow> b = DeploymentChecking \<or> b = DeploymentSwitching
         \<or> b = DeploymentRollingBack \<or> b = DeploymentFailed
     | DeploymentSwitching \<Rightarrow> b = DeploymentSucceeded \<or> b = DeploymentRollingBack
     | DeploymentRollingBack \<Rightarrow> b = DeploymentFailed
     | _ \<Rightarrow> False)"
  by (cases a; cases b) (simp_all add: ValidateDeploymentTransition_def table_simps)

lemma order_ok [simp]:
  "ok (ValidateOrderTransition a b) \<longleftrightarrow>
    (case a of OrderPending \<Rightarrow> b = OrderPaid \<or> b = OrderClosed
     | OrderPaid \<Rightarrow> b = OrderRefunding
     | OrderRefunding \<Rightarrow> b = OrderRefunded \<or> b = OrderPaid
     | _ \<Rightarrow> False)"
  by (cases a; cases b) (simp_all add: ValidateOrderTransition_def table_simps)

lemma refund_ok [simp]:
  "ok (ValidateRefundTransition a b) \<longleftrightarrow> a = RefundProcessing \<and> b \<noteq> RefundProcessing"
  by (cases a; cases b) (simp_all add: ValidateRefundTransition_def table_simps)

interpretation deployment: ranked_machine ValidateDeploymentTransition deployment_terminal
  deployment_rank 7
proof (unfold_locales, goal_cases)
  case (1 a b) then show ?case by (cases a) (auto simp: deployment_terminal_def)
next
  case (2 a) then show ?case by (cases a) (auto simp: deployment_terminal_def)
next
  case (3 a b) then show ?case by (cases a) (auto simp: deployment_rank_def)
next
  case (4 a) then show ?case by (cases a) (auto simp: deployment_rank_def)
qed

interpretation order: state_machine ValidateOrderTransition order_terminal
proof (unfold_locales, goal_cases)
  case (1 a b) then show ?case by (cases a) (auto simp: order_terminal_def)
next
  case (2 a) then show ?case by (cases a) (auto simp: order_terminal_def)
qed

interpretation refund: ranked_machine ValidateRefundTransition refund_terminal refund_rank 2
proof (unfold_locales, goal_cases)
  case (1 a b) then show ?case by (cases a) (auto simp: refund_terminal_def)
next
  case (2 a) then show ?case by (cases a) (auto simp: refund_terminal_def)
next
  case (3 a b) then show ?case by (cases b) (auto simp: refund_rank_def)
next
  case (4 a) then show ?case by (cases a) (auto simp: refund_rank_def)
qed

lemma inj_deployment_rank: "inj deployment_rank"
  by (rule injI) (auto simp: deployment_rank_def split: deployment_state.splits)

section \<open>Successful deployments\<close>

fun stage :: "deployment_state \<Rightarrow> nat \<Rightarrow> deployment_state list" where
  "stage DeploymentQueued n = [DeploymentPulling, DeploymentStarting] @ replicate (Suc n) DeploymentChecking
      @ [DeploymentSwitching, DeploymentSucceeded]"
| "stage DeploymentPulling n = [DeploymentStarting] @ replicate (Suc n) DeploymentChecking
      @ [DeploymentSwitching, DeploymentSucceeded]"
| "stage DeploymentStarting n = replicate (Suc n) DeploymentChecking
      @ [DeploymentSwitching, DeploymentSucceeded]"
| "stage DeploymentChecking n = replicate n DeploymentChecking @ [DeploymentSwitching, DeploymentSucceeded]"
| "stage DeploymentSwitching n = [DeploymentSucceeded]"
| "stage _ n = []"

lemma rolling_back_never_succeeds:
  "history ValidateDeploymentTransition (a # xs) \<Longrightarrow> a \<in> {DeploymentRollingBack, DeploymentFailed} \<Longrightarrow>
   DeploymentSucceeded \<notin> set xs"
proof (induction xs arbitrary: a)
  case (Cons b xs)
  then have "b = DeploymentFailed" by auto
  with Cons.IH [of b] Cons.prems show ?case by simp
qed simp

lemma success_suffix:
  "history ValidateDeploymentTransition (a # xs) \<Longrightarrow> last (a # xs) = DeploymentSucceeded \<Longrightarrow>
   \<exists>n. xs = stage a n"
proof (induction xs arbitrary: a)
  case Nil
  then show ?case by simp
next
  case (Cons b xs)
  then have rest: "history ValidateDeploymentTransition (b # xs)"
    and step: "ok (ValidateDeploymentTransition a b)"
    and last: "last (b # xs) = DeploymentSucceeded" by simp_all
  have "b \<notin> {DeploymentRollingBack, DeploymentFailed}"
    using rolling_back_never_succeeds [OF rest] last last_in_set [of "b # xs"]
    by (metis deployment_state.distinct insertE last_ConsL last_ConsR last_in_set singletonD)
  moreover obtain n where n: "xs = stage b n" using Cons.IH [OF rest last] by blast
  ultimately show ?case using step
    by (cases a; cases b)
      (auto intro: exI [of _ n] exI [of _ "Suc n"] simp: replicate_append_same)
qed

text \<open>A deployment job that goes from queued to succeeded along validated transitions has pulled
  the image, started the container, passed through at least one health check and switched the route,
  in that order and without any other state; only the health check may repeat.\<close>

theorem deployment_success_history:
  assumes "history ValidateDeploymentTransition (DeploymentQueued # xs)"
    and "last (DeploymentQueued # xs) = DeploymentSucceeded"
  shows "\<exists>n. xs = [DeploymentPulling, DeploymentStarting] @ replicate (Suc n) DeploymentChecking
      @ [DeploymentSwitching, DeploymentSucceeded]"
  using success_suffix [OF assms] by simp

theorem deployment_success_history_witness:
  "history ValidateDeploymentTransition [DeploymentQueued, DeploymentPulling, DeploymentStarting,
      DeploymentChecking, DeploymentChecking, DeploymentSwitching, DeploymentSucceeded] \<and>
   (\<exists>n. [DeploymentPulling, DeploymentStarting, DeploymentChecking, DeploymentChecking,
      DeploymentSwitching, DeploymentSucceeded] =
      [DeploymentPulling, DeploymentStarting] @ replicate (Suc n) DeploymentChecking
      @ [DeploymentSwitching, DeploymentSucceeded])"
  using deployment_success_history [of "[DeploymentPulling, DeploymentStarting, DeploymentChecking,
      DeploymentChecking, DeploymentSwitching, DeploymentSucceeded]"] by simp

lemma refunded_history:
  "history ValidateOrderTransition (a # xs) \<Longrightarrow> last (a # xs) = OrderRefunded \<Longrightarrow>
   a = OrderPending \<Longrightarrow> \<exists>n. xs = concat (replicate (Suc n) [OrderPaid, OrderRefunding]) @ [OrderRefunded]"
proof -
  have paid: "history ValidateOrderTransition (OrderPaid # ys) \<Longrightarrow> last (OrderPaid # ys) = OrderRefunded \<Longrightarrow>
     \<exists>n. OrderPaid # ys = concat (replicate (Suc n) [OrderPaid, OrderRefunding]) @ [OrderRefunded]" for ys
  proof (induction ys rule: length_induct)
    case (1 ys)
    from 1 obtain zs where ys: "ys = OrderRefunding # zs" by (cases ys) auto
    from 1 ys obtain b ws where zs: "zs = b # ws" by (cases zs) auto
    show ?case
    proof (cases b)
      case OrderPaid
      have "length ws < length ys" "history ValidateOrderTransition (OrderPaid # ws)"
        "last (OrderPaid # ws) = OrderRefunded"
        using 1(2,3) ys zs OrderPaid by simp_all
      with 1(1) obtain n where
        "OrderPaid # ws = concat (replicate (Suc n) [OrderPaid, OrderRefunding]) @ [OrderRefunded]"
        by blast
      then show ?thesis using ys zs OrderPaid by (intro exI [of _ "Suc n"]) simp
    next
      case OrderRefunded
      with 1 ys zs have "ws = []" by (cases ws) auto
      then show ?thesis using ys zs OrderRefunded by (intro exI [of _ 0]) simp
    qed (use 1 ys zs in auto)
  qed
  assume h: "history ValidateOrderTransition (a # xs)" "last (a # xs) = OrderRefunded" "a = OrderPending"
  then obtain b ys where xs: "xs = b # ys" by (cases xs) auto
  show ?thesis
  proof (cases b)
    case OrderPaid
    then show ?thesis using h xs paid [of ys] by simp
  next
    case OrderClosed
    then show ?thesis using h xs by (cases ys) auto
  qed (use h xs in auto)
qed

text \<open>An order that ends refunded alternates between paid and refunding, starting with paid; in
  particular it has been paid, and a closed order is never refunded.\<close>

theorem order_refunded_history:
  assumes "history ValidateOrderTransition (OrderPending # xs)"
    and "last (OrderPending # xs) = OrderRefunded"
  shows "\<exists>n. xs = concat (replicate (Suc n) [OrderPaid, OrderRefunding]) @ [OrderRefunded]"
  using refunded_history assms by blast

theorem order_refunded_history_witness:
  "history ValidateOrderTransition [OrderPending, OrderPaid, OrderRefunding, OrderPaid, OrderRefunding,
      OrderRefunded] \<and>
   (\<exists>n. [OrderPaid, OrderRefunding, OrderPaid, OrderRefunding, OrderRefunded] =
      concat (replicate (Suc n) [OrderPaid, OrderRefunding]) @ [OrderRefunded])"
  using order_refunded_history [of "[OrderPaid, OrderRefunding, OrderPaid, OrderRefunding, OrderRefunded]"]
  by simp

end
