(* ===== verification/Worker_Db.thy ===== *)
theory Worker_Db
  imports Domain_State
begin

text \<open>
  The tables the worker shares with the web server: applications with their routes, releases and deployment
  jobs, and usage with its prices, charges and bills.  Times are nanoseconds, quantities of type
  \<^verbatim>\<open>numeric\<close> are rationals.  A table is a list of rows in insertion order; a missing index of a \<^verbatim>\<open>bigserial\<close> is
  the length of the table plus one, since no handler deletes rows of those tables.
\<close>

section \<open>Rows\<close>

record user_app =
  ua_id :: string
  ua_user :: string
  ua_product :: string
  ua_slug :: string
  ua_service :: string
  ua_host :: string
  ua_instance :: string
  ua_status :: string
  ua_reason :: "string option"
  ua_suspended :: "int option"
  ua_release :: "string option"
  ua_mapping :: bool
  ua_created :: int
  ua_deleted :: "int option"
  ua_refresh_days :: "int option"
  ua_refreshed :: int
  ua_refresh_next :: "int option"

record app_route =
  rt_app :: string
  rt_instance :: string
  rt_release :: string
  rt_path :: string
  rt_host :: string
  rt_port :: int
  rt_container :: string
  rt_network :: string
  rt_container_id :: string
  rt_host_port :: "int option"

record app_release =
  rl_id :: string
  rl_app :: string
  rl_version :: string
  rl_number :: int
  rl_snapshot :: gomap
  rl_state :: string
  rl_container_id :: string
  rl_host_port :: "int option"

record deployment_job =
  jb_id :: string
  jb_app :: string
  jb_release :: string
  jb_key :: string
  jb_operation :: string
  jb_source :: "string option"
  jb_state :: deployment_state
  jb_attempts :: int
  jb_available :: int
  jb_created :: int
  jb_error :: "string option"

record deployment_event =
  de_job :: string
  de_from :: deployment_state
  de_to :: deployment_state
  de_message :: string

record port_mapping =
  pt_app :: string
  pt_release :: string
  pt_key :: string
  pt_container_port :: int
  pt_host_port :: int
  pt_remark :: string

record secret_version =
  sv_id :: string
  sv_app :: string
  sv_key :: string
  sv_value :: string

record system_settings =
  ss_reserve :: int
  ss_domain :: string
  ss_port_min :: int
  ss_port_max :: int
  ss_delete_days :: int

record usage_event =
  ev_user :: string
  ev_app :: "string option"
  ev_code :: string
  ev_quantity :: rat
  ev_unit :: string
  ev_start :: int
  ev_end :: int
  ev_price :: "string option"
  ev_key :: string
  ev_aggregated :: "int option"

record usage_aggregate =
  ag_id :: int
  ag_user :: string
  ag_app :: "string option"
  ag_code :: string
  ag_unit :: string
  ag_start :: int
  ag_end :: int
  ag_price :: "string option"
  ag_quantity :: rat
  ag_sealed :: "int option"
  ag_disposition :: string

record pricing_item =
  it_id :: string
  it_code :: string
  it_unit :: string
  it_active :: bool

record pricing_version =
  pr_id :: string
  pr_item :: string
  pr_version :: int
  pr_micros :: int
  pr_rounding :: string
  pr_minimum :: rat
  pr_free :: rat
  pr_effective :: int

record usage_charge =
  uc_id :: int
  uc_user :: string
  uc_app :: "string option"
  uc_code :: string
  uc_start :: int
  uc_end :: int
  uc_price :: string
  uc_quantity :: rat
  uc_amount :: int
  uc_entry :: "int option"

record billing_attempt =
  bt_user :: string
  bt_app :: "string option"
  bt_code :: string
  bt_start :: int
  bt_end :: int
  bt_price :: string
  bt_amount :: int
  bt_status :: string
  bt_balance :: int
  bt_credit :: int

record credit_consumption =
  cc_grant :: string
  cc_charge :: int
  cc_amount :: int

record bill =
  bl_id :: string
  bl_user :: string
  bl_start :: int
  bl_end :: int
  bl_total :: int

record bill_item =
  bi_bill :: string
  bi_charge :: int
  bi_app :: "string option"
  bi_slug :: "string option"
  bi_code :: string
  bi_unit :: string
  bi_quantity :: rat
  bi_price :: string
  bi_micros :: int
  bi_amount :: int
  bi_start :: int
  bi_end :: int

record notification =
  nt_user :: string
  nt_key :: string
  nt_kind :: string
  nt_severity :: string

record balance_alert =
  ba_user :: string
  ba_enabled :: bool
  ba_threshold :: int
  ba_cooldown :: int
  ba_last :: "int option"
  ba_below :: bool

record egress_sample =
  eg_sample :: string
  eg_app :: string
  eg_cumulative :: int
  eg_delta :: int
  eg_observed :: int
  eg_source :: string
  eg_processed :: "int option"

record egress_total =
  et_app :: string
  et_bytes :: int
  et_observed :: int
  et_source :: string

record egress_cursor =
  ec_app :: string
  ec_billed :: int

record stop_job =
  sj_id :: string
  sj_app :: string
  sj_release :: "string option"
  sj_container :: string
  sj_key :: string
  sj_status :: string
  sj_attempts :: int
  sj_available :: int
  sj_updated :: int
  sj_created :: int
  sj_error :: "string option"

record deletion_job =
  dj_id :: string
  dj_app :: string
  dj_status :: string
  dj_attempts :: int
  dj_available :: int
  dj_updated :: int
  dj_created :: int
  dj_error :: "string option"

record app_backup =
  ab_id :: string
  ab_app :: string
  ab_status :: string

record restore_job =
  rj_app :: string
  rj_status :: string

record backup_deletion_job =
  bd_backup :: string
  bd_user :: string
  bd_status :: string
  bd_attempts :: int
  bd_available :: int
  bd_error :: "string option"

record access_grant =
  gr_app :: string
  gr_user :: string

record worker_db =
  apps :: "user_app list"
  routes :: "app_route list"
  releases :: "app_release list"
  jobs :: "deployment_job list"
  job_events :: "deployment_event list"
  mappings :: "port_mapping list"
  secret_versions :: "secret_version list"
  settings :: "system_settings option"
  events :: "usage_event list"
  aggregates :: "usage_aggregate list"
  items :: "pricing_item list"
  prices :: "pricing_version list"
  charges :: "usage_charge list"
  attempts :: "billing_attempt list"
  consumptions :: "credit_consumption list"
  bills :: "bill list"
  bill_items :: "bill_item list"
  notifications :: "notification list"
  alerts :: "balance_alert list"
  samples :: "egress_sample list"
  egress_totals :: "egress_total list"
  cursors :: "egress_cursor list"
  runtime_metrics :: "(string \<times> (gofloat \<times> int)) list"
  storage_metrics :: "((string \<times> string) \<times> int) list"
  stop_jobs :: "stop_job list"
  deletion_jobs :: "deletion_job list"
  backups :: "app_backup list"
  restore_jobs :: "restore_job list"
  backup_deletions :: "backup_deletion_job list"
  access_grants :: "access_grant list"

definition empty_worker_db :: worker_db where
  "empty_worker_db = \<lparr>apps = [], routes = [], releases = [], jobs = [], job_events = [], mappings = [],
     secret_versions = [], settings = None, events = [], aggregates = [], items = [], prices = [], charges = [],
     attempts = [], consumptions = [], bills = [], bill_items = [], notifications = [], alerts = [], samples = [],
     egress_totals = [], cursors = [], runtime_metrics = [], storage_metrics = [],
     stop_jobs = [], deletion_jobs = [], backups = [], restore_jobs = [], backup_deletions = [], access_grants = []\<rparr>"

section \<open>Prices\<close>

text \<open>\<^verbatim>\<open>resolve_pricing_version\<close> of the schema: the latest version in effect of the active item.\<close>

definition later_price :: "pricing_version \<Rightarrow> pricing_version \<Rightarrow> bool" where
  "later_price a b = (pr_effective b < pr_effective a \<or> (pr_effective a = pr_effective b \<and> pr_version b < pr_version a))"

fun latest_price :: "pricing_version list \<Rightarrow> pricing_version option" where
  "latest_price [] = None"
| "latest_price (v # vs) = (case latest_price vs of None \<Rightarrow> Some v
     | Some u \<Rightarrow> if later_price u v then Some u else Some v)"

definition resolve_pricing_version :: "string \<Rightarrow> string \<Rightarrow> int \<Rightarrow> worker_db \<Rightarrow> string option" where
  "resolve_pricing_version code unit t w = map_option pr_id (latest_price (filter (\<lambda>v. pr_effective v \<le> t \<and>
     (\<exists>i \<in> set (items w). it_id i = pr_item v \<and> it_active i \<and> it_code i = code \<and> it_unit i = unit)) (prices w)))"

section \<open>Numbers\<close>

definition round_half_away :: "rat \<Rightarrow> int" where
  "round_half_away q = (if q < 0 then - \<lfloor>- q + 1 / 2\<rfloor> else \<lfloor>q + 1 / 2\<rfloor>)"

text \<open>A value stored in a \<^verbatim>\<open>numeric(30,12)\<close> column; 18 digits before the point fit.\<close>

definition numeric12 :: "rat \<Rightarrow> rat option" where
  "numeric12 q = (let v = of_int (round_half_away (q * 10 ^ 12)) / 10 ^ 12 in if \<bar>v\<bar> < 10 ^ 18 then Some v else None)"

lemma numeric12_one: "numeric12 1 = Some 1"
  by (simp add: numeric12_def round_half_away_def floor_eq_iff)

section \<open>Statements\<close>

text \<open>\<^verbatim>\<open>INSERT INTO usage_events ... ON CONFLICT DO NOTHING\<close>: the key is user, code, window and idempotency key; the
  authorization and the public ingress of an application are recorded once.\<close>

definition event_key :: "usage_event \<Rightarrow> string \<times> string \<times> int \<times> int \<times> string" where
  "event_key e = (ev_user e, ev_code e, ev_start e, ev_end e, ev_key e)"

definition once_per_app :: "string \<Rightarrow> bool" where
  "once_per_app code = (code = ''product.authorization'' \<or> code = ''network.public_ingress'')"

definition event_conflict :: "usage_event \<Rightarrow> usage_event \<Rightarrow> bool" where
  "event_conflict e x = (event_key x = event_key e \<or>
     (once_per_app (ev_code e) \<and> ev_code x = ev_code e \<and> ev_app e \<noteq> None \<and> ev_app x = ev_app e))"

definition event_insert :: "usage_event \<Rightarrow> worker_db \<Rightarrow> (unit \<times> worker_db) option" where
  "event_insert e w = (case numeric12 (ev_quantity e) of None \<Rightarrow> None
     | Some q \<Rightarrow> if q < 0 \<or> \<not> ev_start e < ev_end e then None
        else if list_ex (event_conflict e) (events w) then Some ((), w)
        else Some ((), w\<lparr>events := events w @ [e\<lparr>ev_quantity := q\<rparr>]\<rparr>))"

text \<open>\<^verbatim>\<open>INSERT INTO user_notifications ... ON CONFLICT(user_id,event_key) DO NOTHING\<close>.\<close>

definition notify :: "notification \<Rightarrow> worker_db \<Rightarrow> worker_db" where
  "notify n w = (if list_ex (\<lambda>m. nt_user m = nt_user n \<and> nt_key m = nt_key n) (notifications w) then w
     else w\<lparr>notifications := notifications w @ [n]\<rparr>)"

definition app_of :: "string \<Rightarrow> worker_db \<Rightarrow> user_app option" where
  "app_of i w = find (\<lambda>a. ua_id a = i) (apps w)"

definition app_update :: "(user_app \<Rightarrow> bool) \<Rightarrow> (user_app \<Rightarrow> user_app) \<Rightarrow> worker_db \<Rightarrow> worker_db" where
  "app_update p f w = w\<lparr>apps := map (\<lambda>a. if p a then f a else a) (apps w)\<rparr>"

definition release_update :: "(app_release \<Rightarrow> bool) \<Rightarrow> (app_release \<Rightarrow> app_release) \<Rightarrow> worker_db \<Rightarrow> worker_db" where
  "release_update p f w = w\<lparr>releases := map (\<lambda>r. if p r then f r else r) (releases w)\<rparr>"

end
