(* ===== verification/Database.thy ===== *)
theory Database
  imports Worker_Db
begin

text \<open>
  The PostgreSQL database as the money-moving handlers see it, and the transactions they run.

  A table is a list of row records in insertion order.  A statement is a function on the database:
  \<open>query\<close> reads, \<open>exec\<close> changes rows or is refused by a constraint (\<^const>\<open>None\<close>).  A handler is a
  program over statements; \<open>faults\<close> says which statement of the run fails (lost connection,
  serialization failure, a parameter that is not a UUID), so every theorem about all fault schedules
  covers every point at which a transaction can be cut off.  A handler that returns without a commit
  leaves the database as it was, which is the deferred \<^verbatim>\<open>tx.Rollback\<close>.  Serializable transactions and
  the row locks of the source make concurrent handlers equivalent to some sequence of such runs.
\<close>

section \<open>Responses\<close>

datatype response =
    Error nat string string
  | Json nat gomap
  | Plain nat string

definition internalError :: response where
  "internalError = Error 500 ''internal_error'' ''internal server error''"

fun status_of :: "response \<Rightarrow> nat" where
  "status_of (Error n c m) = n"
| "status_of (Json n b) = n"
| "status_of (Plain n t) = n"

section \<open>Transactions\<close>

type_synonym faults = "nat \<Rightarrow> bool"

datatype ('s, 'r, 'a) txout = Stop 'r | Commit 's 'r | Next 's nat 'a

type_synonym ('s, 'r, 'a) tx = "faults \<Rightarrow> nat \<Rightarrow> 's \<Rightarrow> ('s, 'r, 'a) txout"

definition bindT :: "('s, 'r, 'a) tx \<Rightarrow> ('a \<Rightarrow> ('s, 'r, 'b) tx) \<Rightarrow> ('s, 'r, 'b) tx" where
  "bindT m k flt n s = (case m flt n s of Stop r \<Rightarrow> Stop r | Commit t r \<Rightarrow> Commit t r
     | Next t n' a \<Rightarrow> k a flt n' t)"

definition reply :: "'r \<Rightarrow> ('s, 'r, 'a) tx" where
  "reply r flt n s = Stop r"

definition done_tx :: "'a \<Rightarrow> ('s, 'r, 'a) tx" where
  "done_tx a flt n s = Next s n a"

definition commit :: "'r \<Rightarrow> 'r \<Rightarrow> ('s, 'r, 'a) tx" where
  "commit err r flt n s = (if flt n then Stop err else Commit s r)"

definition query :: "'r \<Rightarrow> ('s \<Rightarrow> 'a) \<Rightarrow> ('s, 'r, 'a) tx" where
  "query err f flt n s = (if flt n then Stop err else Next s (Suc n) (f s))"

definition exec :: "'r \<Rightarrow> ('s \<Rightarrow> ('a \<times> 's) option) \<Rightarrow> ('s, 'r, 'a) tx" where
  "exec err f flt n s = (if flt n then Stop err
     else case f s of None \<Rightarrow> Stop err | Some (a, t) \<Rightarrow> Next t (Suc n) a)"

text \<open>\<open>require\<close> is a query whose missing row is an error (\<^verbatim>\<open>Scan\<close> on no rows).\<close>

definition require :: "'r \<Rightarrow> ('s \<Rightarrow> 'a option) \<Rightarrow> ('s, 'r, 'a) tx" where
  "require err f flt n s = (if flt n then Stop err
     else case f s of None \<Rightarrow> Stop err | Some a \<Rightarrow> Next s (Suc n) a)"

definition run :: "('s, 'r, 'r) tx \<Rightarrow> faults \<Rightarrow> 's \<Rightarrow> 'r \<times> 's" where
  "run m flt s = (case m flt 0 s of Stop r \<Rightarrow> (r, s) | Commit t r \<Rightarrow> (r, t) | Next t n r \<Rightarrow> (r, s))"

definition no_faults :: faults where
  "no_faults n = False"

lemma no_faults_simp [simp]: "\<not> no_faults n"
  by (simp add: no_faults_def)

lemma tx_no_faults [simp]:
  "reply r no_faults n s = Stop r"
  "done_tx a no_faults n s = Next s n a"
  "commit err r no_faults n s = Commit s r"
  "query err f no_faults n s = Next s (Suc n) (f s)"
  "exec err g no_faults n s = (case g s of None \<Rightarrow> Stop err | Some (b, t) \<Rightarrow> Next t (Suc n) b)"
  "require err h no_faults n s = (case h s of None \<Rightarrow> Stop err | Some c \<Rightarrow> Next s (Suc n) c)"
  by (simp_all add: reply_def done_tx_def commit_def query_def exec_def require_def)

section \<open>Atomicity\<close>

text \<open>A transactional program, cut off anywhere, answers with one of its errors and commits nothing;
  otherwise it behaves as without faults.\<close>

definition transactional :: "'r set \<Rightarrow> ('s, 'r, 'a) tx \<Rightarrow> bool" where
  "transactional errs m = (\<forall>flt n s. m flt n s \<in> Stop ` errs \<or> m flt n s = m no_faults n s)"

named_theorems tx_intros "introduction rules for transactional programs"

lemma transactional_bind [tx_intros]:
  assumes "transactional errs m" and "\<And>a. transactional errs (k a)"
  shows "transactional errs (bindT m k)"
  unfolding transactional_def
proof (intro allI)
  fix flt n s
  consider e where "m flt n s = Stop e" "e \<in> errs" | "m flt n s = m no_faults n s"
    using assms(1) unfolding transactional_def by blast
  then show "bindT m k flt n s \<in> Stop ` errs \<or> bindT m k flt n s = bindT m k no_faults n s"
  proof cases
    case 2
    show ?thesis
    proof (cases "m no_faults n s")
      case (Next t n' a)
      with 2 assms(2) [of a] show ?thesis unfolding bindT_def transactional_def by (auto split: txout.splits)
    qed (use 2 in \<open>auto simp: bindT_def\<close>)
  qed (simp add: bindT_def)
qed

lemma transactional_basic [tx_intros]:
  "transactional errs (reply r)" "transactional errs (done_tx a)"
  "err \<in> errs \<Longrightarrow> transactional errs (commit err r)"
  "err \<in> errs \<Longrightarrow> transactional errs (query err f)"
  "err \<in> errs \<Longrightarrow> transactional errs (exec err g)"
  "err \<in> errs \<Longrightarrow> transactional errs (require err h)"
  by (auto simp: transactional_def reply_def done_tx_def commit_def query_def exec_def require_def
      split: option.splits)

lemma transactional_if [tx_intros]:
  "transactional errs a \<Longrightarrow> transactional errs b \<Longrightarrow> transactional errs (if c then a else b)"
  by simp

lemma transactional_option [tx_intros]:
  "transactional errs a \<Longrightarrow> (\<And>x. transactional errs (b x)) \<Longrightarrow>
   transactional errs (case v of None \<Rightarrow> a | Some x \<Rightarrow> b x)"
  by (cases v) simp_all

lemma transactional_sum [tx_intros]:
  "(\<And>x. transactional errs (a x)) \<Longrightarrow> (\<And>x. transactional errs (b x)) \<Longrightarrow>
   transactional errs (case v of Inl x \<Rightarrow> a x | Inr x \<Rightarrow> b x)"
  by (cases v) simp_all

lemma transactional_prod [tx_intros]:
  "(\<And>x y. transactional errs (a x y)) \<Longrightarrow> transactional errs (case v of (x, y) \<Rightarrow> a x y)"
  by (cases v) simp

lemma transactional_mono: "transactional errs m \<Longrightarrow> errs \<subseteq> errs' \<Longrightarrow> transactional errs' m"
  unfolding transactional_def by blast

lemma run_transactional:
  assumes "transactional errs m"
  shows "(\<exists>e \<in> errs. run m flt s = (e, s)) \<or> run m flt s = run m no_faults s"
proof -
  consider e where "m flt 0 s = Stop e" "e \<in> errs" | "m flt 0 s = m no_faults 0 s"
    using assms unfolding transactional_def by blast
  then show ?thesis by cases (auto simp: run_def)
qed

section \<open>Programs that leave a part of the database alone\<close>

text \<open>A program that leaves a part \<open>f\<close> of the database as it is.\<close>

definition unchanged :: "('s \<Rightarrow> 'x) \<Rightarrow> ('s, 'r, 'a) tx \<Rightarrow> bool" where
  "unchanged f m = (\<forall>flt n s. case m flt n s of Stop r \<Rightarrow> True | Commit t r \<Rightarrow> f t = f s | Next t n' a \<Rightarrow> f t = f s)"

named_theorems unchanged_intros "introduction rules for programs that leave a part of the database as it is"

lemma unchanged_Next: "unchanged f m \<Longrightarrow> m flt n s = Next t n' a \<Longrightarrow> f t = f s"
  unfolding unchanged_def by (drule spec [of _ flt], drule spec [of _ n], drule spec [of _ s]) simp

lemma unchanged_Commit: "unchanged f m \<Longrightarrow> m flt n s = Commit t r \<Longrightarrow> f t = f s"
  unfolding unchanged_def by (drule spec [of _ flt], drule spec [of _ n], drule spec [of _ s]) simp

lemma unchanged_bind [unchanged_intros]:
  assumes "unchanged f m" and "\<And>a. unchanged f (k a)"
  shows "unchanged f (bindT m k)"
  unfolding unchanged_def bindT_def
  by (auto split: txout.splits dest: unchanged_Commit [OF assms(1)])
    (metis unchanged_Next unchanged_Commit assms)+

lemma unchanged_basic [unchanged_intros]:
  "unchanged f (reply r)" "unchanged f (done_tx a)" "unchanged f (commit err r)" "unchanged f (query err g)"
  "unchanged f (require err h)"
  by (auto simp: unchanged_def reply_def done_tx_def commit_def query_def require_def split: option.splits)

lemma unchanged_exec: "(\<And>d a d'. g d = Some (a, d') \<Longrightarrow> f d' = f d) \<Longrightarrow> unchanged f (exec err g)"
  by (auto simp: unchanged_def exec_def split: option.splits)

lemma unchanged_if [unchanged_intros]:
  "unchanged f a \<Longrightarrow> unchanged f b \<Longrightarrow> unchanged f (if c then a else b)"
  by simp

lemma unchanged_option [unchanged_intros]:
  "unchanged f a \<Longrightarrow> (\<And>x. unchanged f (b x)) \<Longrightarrow> unchanged f (case v of None \<Rightarrow> a | Some x \<Rightarrow> b x)"
  by (cases v) simp_all

lemma unchanged_sum [unchanged_intros]:
  "(\<And>x. unchanged f (a x)) \<Longrightarrow> (\<And>x. unchanged f (b x)) \<Longrightarrow> unchanged f (case v of Inl x \<Rightarrow> a x | Inr x \<Rightarrow> b x)"
  by (cases v) simp_all

lemma unchanged_prod [unchanged_intros]:
  "(\<And>x y. unchanged f (a x y)) \<Longrightarrow> unchanged f (case v of (x, y) \<Rightarrow> a x y)"
  by (cases v) simp

lemma unchanged_run: "unchanged f m \<Longrightarrow> f (snd (run m flt d)) = f d"
  by (auto simp: run_def split: txout.splits dest: unchanged_Commit)

section \<open>Rows\<close>

record user =
  u_id :: string
  u_status :: string

record wallet =
  w_id :: string
  w_user :: string
  w_balance :: int
  w_version :: int

record ledger_entry =
  le_id :: int
  le_wallet :: string
  le_type :: string
  le_ref :: string
  le_amount :: int
  le_after :: int

record credit_grant =
  cg_id :: string
  cg_user :: string
  cg_amount :: int
  cg_remaining :: int
  cg_ref :: string
  cg_note :: string
  cg_expires :: "int option"
  cg_created :: int

record checkin =
  ck_user :: string
  ck_date :: string
  ck_reward :: int
  ck_entry :: int

record checkin_settings =
  cs_enabled :: bool
  cs_min :: int
  cs_max :: int

record invite =
  iv_id :: string
  iv_code :: string
  iv_inviter :: string
  iv_invited :: "string option"
  iv_reward :: int

record payment_method =
  pm_name :: string
  pm_type :: string
  pm_min :: int
  pm_enabled :: bool

record provider_config =
  pc_provider :: string
  pc_enabled :: bool
  pc_merchant :: string
  pc_endpoint :: string
  pc_secret :: string
  pc_type :: string
  pc_methods :: "payment_method list"
  pc_amounts :: "gofloat list"

record payment_order =
  po_id :: string
  po_user :: string
  po_provider :: string
  po_type :: string
  po_amount :: int
  po_status :: string
  po_key :: string
  po_ref :: "string option"

record order_event =
  oe_order :: string
  oe_from :: string
  oe_to :: string
  oe_message :: string

record refund =
  rf_id :: string
  rf_order :: string
  rf_user :: string
  rf_provider :: string
  rf_amount :: int
  rf_status :: string
  rf_reason :: string
  rf_entry :: "int option"
  rf_completed :: "int option"

record refund_event =
  re_refund :: string
  re_from :: "string option"
  re_to :: string

record provider_operation =
  op_order :: string
  op_provider :: string
  op_operation :: string
  op_result :: string
  op_status :: string
  op_message :: string

record audit_log =
  al_actor :: string
  al_subject :: "string option"
  al_action :: string
  al_type :: string
  al_resource :: string
  al_request :: string

record db =
  users :: "user list"
  wallets :: "wallet list"
  ledger :: "ledger_entry list"
  grants :: "credit_grant list"
  checkins :: "checkin list"
  checkin_conf :: "checkin_settings option"
  invites :: "invite list"
  providers :: "provider_config list"
  orders :: "payment_order list"
  order_events :: "order_event list"
  refunds :: "refund list"
  refund_events :: "refund_event list"
  provider_ops :: "provider_operation list"
  audits :: "audit_log list"
  work :: worker_db

definition empty_db :: db where
  "empty_db = \<lparr>users = [], wallets = [], ledger = [], grants = [], checkins = [], checkin_conf = None,
     invites = [], providers = [], orders = [], order_events = [], refunds = [], refund_events = [],
     provider_ops = [], audits = [], work = empty_worker_db\<rparr>"

text \<open>Statements on the worker's tables.\<close>

definition queryW :: "'r \<Rightarrow> (worker_db \<Rightarrow> 'a) \<Rightarrow> (db, 'r, 'a) tx" where
  "queryW err f = query err (\<lambda>d. f (work d))"

definition requireW :: "'r \<Rightarrow> (worker_db \<Rightarrow> 'a option) \<Rightarrow> (db, 'r, 'a) tx" where
  "requireW err f = require err (\<lambda>d. f (work d))"

definition execW :: "'r \<Rightarrow> (worker_db \<Rightarrow> ('a \<times> worker_db) option) \<Rightarrow> (db, 'r, 'a) tx" where
  "execW err f = exec err (\<lambda>d. map_option (\<lambda>(a, w). (a, d\<lparr>work := w\<rparr>)) (f (work d)))"

definition updateW :: "'r \<Rightarrow> (worker_db \<Rightarrow> worker_db) \<Rightarrow> (db, 'r, unit) tx" where
  "updateW err f = execW err (\<lambda>w. Some ((), f w))"

lemma work_no_faults [simp]:
  "queryW err f no_faults n s = Next s (Suc n) (f (work s))"
  "requireW err g no_faults n s = (case g (work s) of None \<Rightarrow> Stop err | Some c \<Rightarrow> Next s (Suc n) c)"
  "execW err h no_faults n s = (case h (work s) of None \<Rightarrow> Stop err | Some (b, w) \<Rightarrow> Next (s\<lparr>work := w\<rparr>) (Suc n) b)"
  "updateW err k no_faults n s = Next (s\<lparr>work := k (work s)\<rparr>) (Suc n) ()"
  by (auto simp: queryW_def requireW_def execW_def updateW_def split: option.split)

lemma transactional_work [tx_intros]:
  "err \<in> errs \<Longrightarrow> transactional errs (queryW err f)" "err \<in> errs \<Longrightarrow> transactional errs (requireW err g)"
  "err \<in> errs \<Longrightarrow> transactional errs (execW err h)" "err \<in> errs \<Longrightarrow> transactional errs (updateW err k)"
  by (simp_all add: queryW_def requireW_def execW_def updateW_def transactional_basic)

lemma unchanged_work:
  assumes "\<And>d w. f (d\<lparr>work := w\<rparr>) = f d"
  shows "unchanged f (queryW err g)" "unchanged f (requireW err h)" "unchanged f (execW err k)" "unchanged f (updateW err u)"
  using assms by (auto simp: queryW_def requireW_def execW_def updateW_def intro!: unchanged_basic unchanged_exec)

section \<open>Statements on wallets and ledger\<close>

definition wallet_of :: "string \<Rightarrow> db \<Rightarrow> wallet option" where
  "wallet_of uid d = find (\<lambda>w. w_user w = uid) (wallets d)"

definition next_entry_id :: "db \<Rightarrow> int" where
  "next_entry_id d = int (length (ledger d)) + 1"

text \<open>\<^verbatim>\<open>INSERT INTO wallet_ledger_entries\<close>: the amount is not zero, the wallet exists, and the business
  reference is new for the wallet and the type.\<close>

definition ledger_insert :: "string \<Rightarrow> string \<Rightarrow> string \<Rightarrow> int \<Rightarrow> int \<Rightarrow> db \<Rightarrow> (int \<times> db) option" where
  "ledger_insert wid ty ref amount after d =
    (if amount = 0 \<or> wid \<notin> w_id ` set (wallets d) \<or>
        list_ex (\<lambda>e. le_wallet e = wid \<and> le_type e = ty \<and> le_ref e = ref) (ledger d)
     then None
     else Some (next_entry_id d, d\<lparr>ledger := ledger d @ [\<lparr>le_id = next_entry_id d, le_wallet = wid, le_type = ty,
        le_ref = ref, le_amount = amount, le_after = after\<rparr>]\<rparr>))"

text \<open>\<^verbatim>\<open>UPDATE wallets SET balance_cents=$1,version=version+1 WHERE id=$2 AND ...\<close>; no row is no error.\<close>

definition wallet_set :: "(wallet \<Rightarrow> bool) \<Rightarrow> int \<Rightarrow> db \<Rightarrow> (unit \<times> db) option" where
  "wallet_set p b d = Some ((), d\<lparr>wallets := map (\<lambda>w. if p w then w\<lparr>w_balance := b, w_version := w_version w + 1\<rparr> else w)
     (wallets d)\<rparr>)"

text \<open>\<^verbatim>\<open>UPDATE wallets SET balance_cents=balance_cents+$1,...\<close>: a result outside \<^verbatim>\<open>bigint\<close> is an error.\<close>

definition wallet_add :: "string \<Rightarrow> int \<Rightarrow> db \<Rightarrow> (unit \<times> db) option" where
  "wallet_add wid amount d =
    (if list_ex (\<lambda>w. w_id w = wid \<and> \<not> in64 (w_balance w + amount)) (wallets d) then None
     else Some ((), d\<lparr>wallets := map (\<lambda>w. if w_id w = wid
        then w\<lparr>w_balance := w_balance w + amount, w_version := w_version w + 1\<rparr> else w) (wallets d)\<rparr>))"

definition audit :: "string \<Rightarrow> string option \<Rightarrow> string \<Rightarrow> string \<Rightarrow> string \<Rightarrow> string \<Rightarrow> db \<Rightarrow> (unit \<times> db) option" where
  "audit actor subject action ty resource request d = Some ((), d\<lparr>audits := audits d @
     [\<lparr>al_actor = actor, al_subject = subject, al_action = action, al_type = ty, al_resource = resource,
       al_request = request\<rparr>]\<rparr>)"

section \<open>The ledger invariant\<close>

fun chain :: "int \<Rightarrow> ledger_entry list \<Rightarrow> bool" where
  "chain b [] = True"
| "chain b (e # es) = (le_after e = b + le_amount e \<and> chain (le_after e) es)"

definition entries_of :: "string \<Rightarrow> ledger_entry list \<Rightarrow> ledger_entry list" where
  "entries_of wid es = filter (\<lambda>e. le_wallet e = wid) es"

definition total_of :: "string \<Rightarrow> ledger_entry list \<Rightarrow> int" where
  "total_of wid es = sum_list (map le_amount (entries_of wid es))"

definition entry_key :: "ledger_entry \<Rightarrow> string \<times> string \<times> string" where
  "entry_key e = (le_wallet e, le_type e, le_ref e)"

text \<open>A wallet's balance is the sum of its ledger entries and is not negative, and the recorded balance
  after each entry is the running sum; no business reference occurs twice; ids count up.\<close>

definition wallet_ok :: "ledger_entry list \<Rightarrow> wallet \<Rightarrow> bool" where
  "wallet_ok es w = (w_balance w = total_of (w_id w) es \<and> 0 \<le> w_balance w \<and> w_balance w < 2 ^ 63 \<and>
     chain 0 (entries_of (w_id w) es))"

definition entries_ok :: "ledger_entry list \<Rightarrow> bool" where
  "entries_ok es = (distinct (map entry_key es) \<and> (\<forall>e \<in> set es. le_amount e \<noteq> 0) \<and>
     map le_id es = map (\<lambda>i. int i + 1) [0..<length es])"

definition ledger_ok :: "db \<Rightarrow> bool" where
  "ledger_ok d = (distinct (map w_id (wallets d)) \<and> distinct (map w_user (wallets d)) \<and>
     (\<forall>w \<in> set (wallets d). wallet_ok (ledger d) w) \<and> entries_ok (ledger d))"

lemma chain_snoc: "chain b (es @ [e]) \<longleftrightarrow> chain b es \<and> le_after e = b + sum_list (map le_amount es) + le_amount e"
proof (induction es arbitrary: b)
  case (Cons a es)
  show ?case unfolding append_Cons chain.simps Cons.IH by (auto simp only: list.map sum_list.Cons add.assoc)
qed simp

lemma entries_of_snoc: "entries_of wid (es @ [e]) = entries_of wid es @ (if le_wallet e = wid then [e] else [])"
  by (simp add: entries_of_def)

lemma total_of_snoc: "total_of wid (es @ [e]) = total_of wid es + (if le_wallet e = wid then le_amount e else 0)"
  by (simp add: total_of_def entries_of_snoc)

text \<open>The one step all money movements share: an entry is appended for a wallet and the balance of that
  wallet becomes the recorded one.\<close>

definition move_money :: "string \<Rightarrow> string \<Rightarrow> string \<Rightarrow> int \<Rightarrow> db \<Rightarrow> db" where
  "move_money wid ty ref amount d =
    (let after = total_of wid (ledger d) + amount in
     d\<lparr>ledger := ledger d @ [\<lparr>le_id = next_entry_id d, le_wallet = wid, le_type = ty, le_ref = ref,
         le_amount = amount, le_after = after\<rparr>],
       wallets := map (\<lambda>w. if w_id w = wid then w\<lparr>w_balance := after, w_version := w_version w + 1\<rparr> else w) (wallets d)\<rparr>)"

lemma wallet_of_Some: "wallet_of uid d = Some w \<Longrightarrow> w \<in> set (wallets d) \<and> w_user w = uid"
  by (auto simp: wallet_of_def find_Some_iff)

lemma ledger_ok_balance: "ledger_ok d \<Longrightarrow> w \<in> set (wallets d) \<Longrightarrow> w_balance w = total_of (w_id w) (ledger d)"
  unfolding ledger_ok_def wallet_ok_def by blast

lemma ledger_ok_range: "ledger_ok d \<Longrightarrow> w \<in> set (wallets d) \<Longrightarrow> 0 \<le> w_balance w \<and> w_balance w < 2 ^ 63"
  unfolding ledger_ok_def wallet_ok_def by blast

lemma entries_ok_snoc:
  assumes "entries_ok es" "entry_key e \<notin> entry_key ` set es" "le_amount e \<noteq> 0" "le_id e = int (length es) + 1"
  shows "entries_ok (es @ [e])"
  using assms by (auto simp: entries_ok_def)

lemma wallet_ok_other: "wallet_ok es w \<Longrightarrow> le_wallet e \<noteq> w_id w \<Longrightarrow> wallet_ok (es @ [e]) w"
  by (simp add: wallet_ok_def total_of_snoc entries_of_snoc)

lemma wallet_ok_moved:
  assumes "wallet_ok es w" "le_wallet e = w_id w" "le_after e = total_of (w_id w) es + le_amount e"
    "w_id w' = w_id w" "w_balance w' = le_after e" "0 \<le> le_after e" "le_after e < 2 ^ 63"
  shows "wallet_ok (es @ [e]) w'"
  using assms unfolding wallet_ok_def by (simp add: total_of_snoc entries_of_snoc chain_snoc total_of_def)

lemma ledger_ok_move_money:
  assumes ok: "ledger_ok d" and w: "w \<in> set (wallets d)" and amount: "amount \<noteq> 0"
    and fresh: "\<not> list_ex (\<lambda>e. le_wallet e = w_id w \<and> le_type e = ty \<and> le_ref e = ref) (ledger d)"
    and range: "0 \<le> w_balance w + amount" "w_balance w + amount < 2 ^ 63"
  shows "ledger_ok (move_money (w_id w) ty ref amount d)"
proof -
  define e where "e = \<lparr>le_id = next_entry_id d, le_wallet = w_id w, le_type = ty, le_ref = ref,
     le_amount = amount, le_after = total_of (w_id w) (ledger d) + amount\<rparr>"
  define f where "f v = (if w_id v = w_id w then v\<lparr>w_balance := le_after e, w_version := w_version v + 1\<rparr> else v)" for v :: wallet
  have d': "move_money (w_id w) ty ref amount d = d\<lparr>ledger := ledger d @ [e], wallets := map f (wallets d)\<rparr>"
    unfolding f_def by (simp add: move_money_def e_def Let_def)
  have bal: "w_balance w = total_of (w_id w) (ledger d)" using ok w by (rule ledger_ok_balance)
  have ids: "w_id \<circ> f = w_id" "w_user \<circ> f = w_user" by (auto simp: fun_eq_iff f_def)
  have "entry_key e \<notin> entry_key ` set (ledger d)"
    using fresh by (auto simp: entry_key_def list_ex_iff e_def)
  then have entries: "entries_ok (ledger d @ [e])"
    using ok amount by (intro entries_ok_snoc) (auto simp: ledger_ok_def e_def next_entry_id_def)
  have "wallet_ok (ledger d @ [e]) (f v)" if "v \<in> set (wallets d)" for v
  proof -
    have v: "wallet_ok (ledger d) v" using ok that by (simp add: ledger_ok_def)
    show ?thesis
    proof (cases "w_id v = w_id w")
      case True
      then show ?thesis
        by (intro wallet_ok_moved [OF v]) (use True bal range in \<open>simp_all add: f_def e_def\<close>)
    qed (use v in \<open>simp add: f_def e_def wallet_ok_other\<close>)
  qed
  then show ?thesis using ok entries by (auto simp: d' ledger_ok_def ids)
qed

lemma ledger_ok_cong:
  "ledger d = ledger d' \<Longrightarrow> wallets d = wallets d' \<Longrightarrow> ledger_ok d = ledger_ok d'"
  by (simp add: ledger_ok_def)

text \<open>The invariant of the money handlers: the ledger invariant and the constraint that an order's amount is
  positive.\<close>

definition money_ok :: "db \<Rightarrow> bool" where
  "money_ok d = (ledger_ok d \<and> (\<forall>x \<in> set (orders d). 0 < po_amount x))"

end
