(* ===== verification/Wallets.thy ===== *)
theory Wallets
  imports Database
begin

text \<open>
  The handlers that change wallets directly: \<^verbatim>\<open>adjustWallet\<close> (\<^verbatim>\<open>server.go\<close>), \<^verbatim>\<open>grantCredit\<close>
  (\<^verbatim>\<open>credit_features.go\<close>), \<^verbatim>\<open>performCheckin\<close> and \<^verbatim>\<open>updateCheckinSettings\<close> (\<^verbatim>\<open>checkin_features.go\<close>) and
  \<^verbatim>\<open>redeemInvite\<close> (\<^verbatim>\<open>invite_features.go\<close>).  A request body arrives as the result of \<^verbatim>\<open>decodeJSON\<close>; the
  identifiers the database generates, the clock and the random source are arguments.  The locale
  \<open>ledger_service\<close> is the contract every money handler keeps, and is interpreted on them.
\<close>

section \<open>Requests\<close>

record principal =
  p_id :: string
  p_request :: string

record adjust_request =
  aq_amount :: int
  aq_ref :: string
  aq_note :: string

record grant_request =
  gq_amount :: int
  gq_ref :: string
  gq_note :: string
  gq_expires :: "int option"

record checkin_settings_request =
  sq_enabled :: bool
  sq_min :: int
  sq_max :: int

definition begin_tx :: "('s, response, unit) tx" where
  "begin_tx = query internalError (\<lambda>_. ())"

definition invalid_request :: "goerr \<Rightarrow> response" where
  "invalid_request e = (case e of Errorf f args \<Rightarrow> Error 400 ''invalid_request'' f)"

section \<open>Adjusting a wallet\<close>

definition find_entry :: "string \<Rightarrow> string \<Rightarrow> string \<Rightarrow> db \<Rightarrow> ledger_entry option" where
  "find_entry wid ty ref d = find (\<lambda>e. le_wallet e = wid \<and> le_type e = ty \<and> le_ref e = ref) (ledger d)"

definition adjustWallet :: "principal \<Rightarrow> string \<Rightarrow> adjust_request result \<Rightarrow> (db, response, response) tx" where
  "adjustWallet p userID body = (case body of Inl e \<Rightarrow> reply (invalid_request e) | Inr q \<Rightarrow>
    (let ref = trim_space (aq_ref q); amount = aq_amount q in
     if amount = 0 \<or> ref = [] \<or> length ref > 128
     then reply (Error 400 ''validation_failed'' ''non-zero amount and business reference are required'')
     else bindT begin_tx (\<lambda>_.
     bindT (query internalError (wallet_of userID)) (\<lambda>row. case row of
       None \<Rightarrow> reply (Error 404 ''user_not_found'' ''wallet not found'')
     | Some w \<Rightarrow>
       let newBalance = wrap64 (w_balance w + amount) in
       if newBalance < 0
       then reply (Error 409 ''insufficient_balance'' ''wallet balance cannot become negative'')
       else bindT (query internalError (find_entry (w_id w) ''adjustment'' ref)) (\<lambda>existing. case existing of
         Some e \<Rightarrow>
           if le_amount e \<noteq> amount
           then reply (Error 409 ''idempotency_conflict'' ''business reference is already used with a different amount'')
           else commit internalError (Json 200 [(''entryId'', VInt (le_id e)), (''balanceCents'', VInt (w_balance w)),
                  (''version'', VInt (w_version w)), (''idempotent'', VBool True)])
       | None \<Rightarrow>
         bindT (exec internalError (ledger_insert (w_id w) ''adjustment'' ref amount newBalance)) (\<lambda>entryID.
         bindT (exec internalError (wallet_set (\<lambda>v. w_id v = w_id w \<and> w_balance v = w_balance w) newBalance)) (\<lambda>_.
         bindT (exec internalError (audit (p_id p) (Some userID) ''wallet.adjustment'' ''wallet'' userID (p_request p))) (\<lambda>_.
         commit internalError (Json 200 [(''entryId'', VInt entryID), (''balanceCents'', VInt newBalance),
           (''version'', VInt (w_version w + 1))])))))))))"

section \<open>Granting credit\<close>

definition sameOptionalTime :: "int option \<Rightarrow> int option \<Rightarrow> bool" where
  "sameOptionalTime a b = (case (a, b) of (Some x, Some y) \<Rightarrow> x = y | (None, None) \<Rightarrow> True | _ \<Rightarrow> False)"

text \<open>Times are nanoseconds; the database keeps microseconds.\<close>

definition truncate_micros :: "int \<Rightarrow> int" where
  "truncate_micros t = t - t mod 1000"

definition active_user :: "string \<Rightarrow> db \<Rightarrow> user option" where
  "active_user uid d = find (\<lambda>u. u_id u = uid \<and> u_status u = ''active'') (users d)"

definition find_grant :: "string \<Rightarrow> string \<Rightarrow> db \<Rightarrow> credit_grant option" where
  "find_grant uid ref d = find (\<lambda>g. cg_user g = uid \<and> cg_ref g = ref) (grants d)"

definition grant_insert :: "credit_grant \<Rightarrow> db \<Rightarrow> (string \<times> db) option" where
  "grant_insert g d =
    (if cg_id g \<in> cg_id ` set (grants d) \<or> find_grant (cg_user g) (cg_ref g) d \<noteq> None
        \<or> \<not> (0 < cg_amount g \<and> 0 \<le> cg_remaining g \<and> cg_remaining g \<le> cg_amount g)
     then None else Some (cg_id g, d\<lparr>grants := grants d @ [g]\<rparr>))"

definition grantCredit :: "principal \<Rightarrow> int \<Rightarrow> string \<Rightarrow> string \<Rightarrow> grant_request result \<Rightarrow> (db, response, response) tx" where
  "grantCredit p now newID userID body = (case body of Inl e \<Rightarrow> reply (invalid_request e) | Inr q \<Rightarrow>
    (let ref = trim_space (gq_ref q); note = trim_space (gq_note q); amount = gq_amount q in
     if amount \<le> 0 \<or> amount > 1000000000000 \<or> ref = [] \<or> has_prefix ref ''subscription-credit/''
        \<or> length ref > 128 \<or> length note > 500
     then reply (Error 400 ''validation_failed'' ''positive amount and business reference are required'')
     else if (case gq_expires q of Some t \<Rightarrow> \<not> t > now | None \<Rightarrow> False)
     then reply (Error 400 ''validation_failed'' ''credit expiration must be in the future'')
     else let expires = map_option truncate_micros (gq_expires q) in
     bindT begin_tx (\<lambda>_.
     bindT (query internalError (active_user userID)) (\<lambda>row. case row of
       None \<Rightarrow> reply (Error 404 ''user_not_found'' ''active user not found'')
     | Some u \<Rightarrow>
       bindT (query internalError (find_grant userID ref)) (\<lambda>existing. case existing of
         Some g \<Rightarrow>
           if cg_amount g \<noteq> amount \<or> cg_note g \<noteq> note \<or> \<not> sameOptionalTime (cg_expires g) expires
           then reply (Error 409 ''idempotency_conflict''
                  ''business reference is already used with different credit parameters'')
           else commit internalError (Json 200 [(''id'', VStr (cg_id g)), (''amountCents'', VInt (cg_amount g)),
                  (''idempotent'', VBool True)])
       | None \<Rightarrow>
         bindT (exec internalError (grant_insert \<lparr>cg_id = newID, cg_user = userID, cg_amount = amount,
            cg_remaining = amount, cg_ref = ref, cg_note = note, cg_expires = expires, cg_created = now\<rparr>)) (\<lambda>gid.
         bindT (exec internalError (audit (p_id p) (Some userID) ''credit.grant'' ''credit_grant'' gid (p_request p))) (\<lambda>_.
         commit internalError (Json 201 [(''id'', VStr gid), (''amountCents'', VInt amount),
           (''remainingCents'', VInt amount)]))))))))"

section \<open>Daily check-in\<close>

text \<open>\<open>rnd span\<close> is \<^verbatim>\<open>rand.Int(rand.Reader, span)\<close>.\<close>

definition secureReward :: "(int \<Rightarrow> int result) \<Rightarrow> int \<Rightarrow> int \<Rightarrow> int result" where
  "secureReward rnd minimum maximum =
    (if minimum < 0 \<or> maximum < minimum then Inl (Errorf ''invalid reward range'' [])
     else bindR (rnd (wrap64 (maximum - minimum + 1))) (\<lambda>v. Inr (wrap64 (minimum + v))))"

definition find_checkin :: "string \<Rightarrow> string \<Rightarrow> db \<Rightarrow> checkin option" where
  "find_checkin uid date d = find (\<lambda>c. ck_user c = uid \<and> ck_date c = date) (checkins d)"

definition checkin_insert :: "checkin \<Rightarrow> db \<Rightarrow> (unit \<times> db) option" where
  "checkin_insert c d =
    (if find_checkin (ck_user c) (ck_date c) d \<noteq> None \<or> \<not> (0 \<le> ck_reward c \<and> ck_reward c \<le> 10000)
     then None else Some ((), d\<lparr>checkins := checkins d @ [c]\<rparr>))"

definition performCheckin :: "principal \<Rightarrow> string \<Rightarrow> (int \<Rightarrow> int result) \<Rightarrow> (db, response, response) tx" where
  "performCheckin p today rnd =
    bindT begin_tx (\<lambda>_.
    bindT (require internalError checkin_conf) (\<lambda>cs.
    if \<not> cs_enabled cs then reply (Error 409 ''checkin_disabled'' ''daily check-in is currently disabled'')
    else bindT (require internalError (wallet_of (p_id p))) (\<lambda>w.
    bindT (query internalError (find_checkin (p_id p) today)) (\<lambda>existing. case existing of
      Some c \<Rightarrow> commit internalError (Json 200 [(''rewardCents'', VInt (ck_reward c)),
         (''balanceCents'', VInt (w_balance w)), (''checkedDate'', VStr today), (''idempotent'', VBool True)])
    | None \<Rightarrow> (case secureReward rnd (cs_min cs) (cs_max cs) of
        Inl e \<Rightarrow> reply internalError
      | Inr reward \<Rightarrow>
        let newBalance = wrap64 (w_balance w + reward) in
        bindT (exec internalError (ledger_insert (w_id w) ''checkin_reward'' (''checkin/'' @ today) reward newBalance)) (\<lambda>entryID.
        bindT (exec internalError (wallet_set (\<lambda>v. w_id v = w_id w \<and> w_version v = w_version w) newBalance)) (\<lambda>_.
        bindT (exec internalError (checkin_insert \<lparr>ck_user = p_id p, ck_date = today, ck_reward = reward,
            ck_entry = entryID\<rparr>)) (\<lambda>_.
        commit internalError (Json 201 [(''rewardCents'', VInt reward), (''balanceCents'', VInt newBalance),
          (''checkedDate'', VStr today), (''idempotent'', VBool False)])))))))))"

definition updateCheckinSettings :: "principal \<Rightarrow> checkin_settings_request result \<Rightarrow> (db, response, response) tx" where
  "updateCheckinSettings p body = (case body of Inl e \<Rightarrow> reply (invalid_request e) | Inr q \<Rightarrow>
    if sq_min q < 1 \<or> sq_max q < sq_min q \<or> sq_max q > 10000
    then reply (Error 400 ''validation_failed'' ''reward range must be between 1 and 10000 cents'')
    else bindT begin_tx (\<lambda>_.
    bindT (exec internalError (\<lambda>d. Some ((), d\<lparr>checkin_conf := map_option (\<lambda>_. \<lparr>cs_enabled = sq_enabled q,
       cs_min = sq_min q, cs_max = sq_max q\<rparr>) (checkin_conf d)\<rparr>))) (\<lambda>_.
    bindT (exec internalError (audit (p_id p) (Some (p_id p)) ''checkin.settings.update'' ''daily_checkin_settings''
       ''singleton'' (p_request p))) (\<lambda>_.
    commit internalError (Json 200 [(''enabled'', VBool (sq_enabled q)), (''minRewardCents'', VInt (sq_min q)),
      (''maxRewardCents'', VInt (sq_max q))])))))"

section \<open>Invitations\<close>

definition open_invite :: "string \<Rightarrow> db \<Rightarrow> invite option" where
  "open_invite code d = find (\<lambda>i. iv_code i = code \<and> iv_invited i = None) (invites d)"

definition redeemInvite :: "principal \<Rightarrow> string result \<Rightarrow> (db, response, response) tx" where
  "redeemInvite p body = (case body of Inl e \<Rightarrow> reply (invalid_request e) | Inr code0 \<Rightarrow>
    (let code = to_lower (trim_space code0) in
     if length code \<noteq> 24 then reply (Error 400 ''validation_failed'' ''invite code is invalid'')
     else bindT begin_tx (\<lambda>_.
     bindT (query internalError (open_invite code)) (\<lambda>row. case row of
       None \<Rightarrow> reply (Error 404 ''invite_not_found'' ''invite code is unavailable'')
     | Some i \<Rightarrow>
       if iv_inviter i = p_id p then reply (Error 400 ''invite_self'' ''cannot redeem your own invite'')
       else bindT (query internalError (\<lambda>d. list_ex (\<lambda>v. iv_invited v = Some (p_id p)) (invites d))) (\<lambda>already.
       if already then reply (Error 409 ''invite_already_redeemed'' ''this account already redeemed an invite'')
       else bindT (require internalError (wallet_of (iv_inviter i))) (\<lambda>w.
       bindT (if iv_reward i > 0
              then bindT (exec internalError (ledger_insert (w_id w) ''grant'' (''invite/'' @ iv_id i) (iv_reward i)
                       (wrap64 (w_balance w + iv_reward i)))) (\<lambda>_.
                   exec internalError (wallet_add (w_id w) (iv_reward i)))
              else done_tx ()) (\<lambda>_.
       bindT (exec internalError (\<lambda>d. Some ((), d\<lparr>invites := map (\<lambda>v. if iv_id v = iv_id i \<and> iv_invited v = None
           then v\<lparr>iv_invited := Some (p_id p)\<rparr> else v) (invites d)\<rparr>))) (\<lambda>_.
       bindT (exec internalError (audit (p_id p) (Some (iv_inviter i)) ''invite.reward'' ''user_invite'' (iv_id i) (p_request p))) (\<lambda>_.
       commit internalError (Json 200 [(''rewardCents'', VInt (iv_reward i)), (''rewardedUserId'', VStr (iv_inviter i))]))))))))))"

section \<open>The contract of a money handler\<close>

text \<open>\<open>room\<close> says that no balance is so close to the largest \<^verbatim>\<open>bigint\<close> that a reward could overflow it.\<close>

definition room :: "db \<Rightarrow> bool" where
  "room d = (\<forall>w \<in> set (wallets d). w_balance w + 10000 < 2 ^ 63)"

locale ledger_service =
  fixes handle :: "'req \<Rightarrow> (db, 'resp, 'resp) tx" and admissible :: "'req \<Rightarrow> bool"
    and errors :: "'resp set"
  assumes atomic: "transactional errors (handle q)"
    and keeps: "admissible q \<Longrightarrow> money_ok d \<Longrightarrow> room d \<Longrightarrow> money_ok (snd (run (handle q) no_faults d))"
    and appends: "prefix (ledger d) (ledger (snd (run (handle q) no_faults d)))"
    and same_wallets: "map w_id (wallets (snd (run (handle q) no_faults d))) = map w_id (wallets d)"
begin

lemma run_cases: "(\<exists>e \<in> errors. run (handle q) flt d = (e, d)) \<or> run (handle q) flt d = run (handle q) no_faults d"
  using atomic by (rule run_transactional)

lemma keeps_any: "admissible q \<Longrightarrow> money_ok d \<Longrightarrow> room d \<Longrightarrow> money_ok (snd (run (handle q) flt d))"
  using run_cases [of q flt d] keeps [of q d] by auto

lemma appends_any: "prefix (ledger d) (ledger (snd (run (handle q) flt d)))"
  using run_cases [of q flt d] appends [of d q] by auto

lemma same_wallets_any: "map w_id (wallets (snd (run (handle q) flt d))) = map w_id (wallets d)"
  using run_cases [of q flt d] same_wallets [of q d] by auto

text \<open>Histories: requests served one after the other, each with its own faults.\<close>

inductive serves :: "db \<Rightarrow> ('req \<times> faults) list \<Rightarrow> db \<Rightarrow> bool" where
  none: "serves d [] d"
| one: "room d \<Longrightarrow> admissible q \<Longrightarrow> serves (snd (run (handle q) flt d)) qs d' \<Longrightarrow> serves d ((q, flt) # qs) d'"

lemma serves_money_ok: "serves d qs d' \<Longrightarrow> money_ok d \<Longrightarrow> money_ok d'"
  by (induction rule: serves.induct) (simp_all add: keeps_any)

lemma serves_appends: "serves d qs d' \<Longrightarrow> prefix (ledger d) (ledger d')"
  by (induction rule: serves.induct) (auto intro: prefix_order.order_trans appends_any)

end

section \<open>Money movements inside the handlers\<close>

lemma ledger_insert_Some:
  assumes "ledger_insert wid ty ref amount after d = Some (i, d1)"
  shows "amount \<noteq> 0 \<and> \<not> list_ex (\<lambda>e. le_wallet e = wid \<and> le_type e = ty \<and> le_ref e = ref) (ledger d) \<and>
    i = next_entry_id d \<and> wallets d1 = wallets d \<and>
    d1 = d\<lparr>ledger := ledger d @ [\<lparr>le_id = next_entry_id d, le_wallet = wid, le_type = ty,
        le_ref = ref, le_amount = amount, le_after = after\<rparr>]\<rparr>"
  using assms by (auto simp: ledger_insert_def split: if_splits)

lemma insert_then_set:
  assumes "ledger_ok d" "w \<in> set (wallets d)" "ledger_insert (w_id w) ty ref amount after d = Some (i, d1)"
    "\<forall>v \<in> set (wallets d). P v \<longleftrightarrow> w_id v = w_id w" "after = w_balance w + amount"
  shows "wallet_set P after d1 = Some ((), move_money (w_id w) ty ref amount d)"
proof -
  have after: "after = total_of (w_id w) (ledger d) + amount"
    using ledger_ok_balance [OF assms(1,2)] assms(5) by simp
  have "map (\<lambda>v. if P v then v\<lparr>w_balance := after, w_version := w_version v + 1\<rparr> else v) (wallets d) =
     map (\<lambda>v. if w_id v = w_id w then v\<lparr>w_balance := after, w_version := w_version v + 1\<rparr> else v) (wallets d)"
    using assms(4) by (intro map_cong) auto
  then show ?thesis using ledger_insert_Some [OF assms(3)]
    unfolding wallet_set_def move_money_def Let_def after [symmetric] by auto
qed

lemma insert_then_add:
  assumes "ledger_ok d" "w \<in> set (wallets d)" "ledger_insert (w_id w) ty ref amount after d = Some (i, d1)"
    "wallet_add (w_id w) amount d1 = Some ((), d2)" "after = wrap64 (w_balance w + amount)"
  shows "d2 = move_money (w_id w) ty ref amount d \<and> in64 (w_balance w + amount)"
proof -
  have d1: "d1 = d\<lparr>ledger := ledger d @ [\<lparr>le_id = next_entry_id d, le_wallet = w_id w, le_type = ty,
        le_ref = ref, le_amount = amount, le_after = after\<rparr>]\<rparr>"
    using ledger_insert_Some [OF assms(3)] by simp
  have range: "in64 (w_balance w + amount)"
    using assms(2,4) d1 by (auto simp: wallet_add_def list_ex_iff split: if_splits)
  then have after: "after = total_of (w_id w) (ledger d) + amount"
    using ledger_ok_balance [OF assms(1,2)] assms(5) by simp
  have "w_balance v + amount = after" if "v \<in> set (wallets d)" "w_id v = w_id w" for v
    using ledger_ok_balance [OF assms(1) that(1)] that(2) after by simp
  then have "map (\<lambda>v. if w_id v = w_id w then v\<lparr>w_balance := w_balance v + amount, w_version := w_version v + 1\<rparr> else v) (wallets d) =
     map (\<lambda>v. if w_id v = w_id w then v\<lparr>w_balance := after, w_version := w_version v + 1\<rparr> else v) (wallets d)"
    by (intro map_cong) auto
  then show ?thesis using assms(4) range
    unfolding wallet_add_def move_money_def Let_def after [symmetric] d1 by (auto split: if_splits)
qed

lemma distinct_ids_eq:
  "distinct (map w_id ws) \<Longrightarrow> v \<in> set ws \<Longrightarrow> w \<in> set ws \<Longrightarrow> w_id v = w_id w \<Longrightarrow> v = w"
  by (meson distinct_map inj_onD)

lemma wallet_unique:
  assumes "ledger_ok d" "w \<in> set (wallets d)"
  shows "\<forall>v \<in> set (wallets d). (w_id v = w_id w \<and> w_balance v = w_balance w) \<longleftrightarrow> w_id v = w_id w"
    "\<forall>v \<in> set (wallets d). (w_id v = w_id w \<and> w_version v = w_version w) \<longleftrightarrow> w_id v = w_id w"
  using assms distinct_ids_eq unfolding ledger_ok_def by blast+

lemma ledger_ok_audit [simp]: "ledger_ok (d\<lparr>audits := a\<rparr>) = ledger_ok d"
  by (rule ledger_ok_cong) simp_all

lemma ledger_ok_checkins [simp]: "ledger_ok (d\<lparr>checkins := a\<rparr>) = ledger_ok d"
  by (rule ledger_ok_cong) simp_all

lemma ledger_ok_grants [simp]: "ledger_ok (d\<lparr>grants := a\<rparr>) = ledger_ok d"
  by (rule ledger_ok_cong) simp_all

lemma ledger_ok_invites [simp]: "ledger_ok (d\<lparr>invites := a\<rparr>) = ledger_ok d"
  by (rule ledger_ok_cong) simp_all

lemma ledger_ok_conf [simp]: "ledger_ok (d\<lparr>checkin_conf := a\<rparr>) = ledger_ok d"
  by (rule ledger_ok_cong) simp_all

lemmas ledger_ok_updates = ledger_ok_audit ledger_ok_checkins ledger_ok_grants ledger_ok_invites ledger_ok_conf

lemma wrap64_nonneg_sum:
  assumes "0 \<le> b" "b < 2 ^ 63" "in64 a" "0 \<le> wrap64 (b + a)"
  shows "wrap64 (b + a) = b + a \<and> 0 \<le> b + a \<and> b + a < 2 ^ 63"
proof (cases "b + a < 2 ^ 63")
  case True
  then have "in64 (b + a)" using assms by (simp add: in64_def)
  then show ?thesis using True assms(4) by simp
next
  case False
  define x where "x = b + a - 2 ^ 63"
  have x: "0 \<le> x" "x < 2 ^ 64" "b + a + 2 ^ 63 = x + 2 ^ 64"
    using False assms by (simp_all add: x_def in64_def)
  then have "wrap64 (b + a) = x - 2 ^ 63" unfolding wrap64_def x(3) by simp
  then show ?thesis using assms by (simp add: x_def in64_def)
qed

section \<open>Atomicity\<close>

lemma transactional_begin [tx_intros]: "internalError \<in> errs \<Longrightarrow> transactional errs begin_tx"
  unfolding begin_tx_def by (intro tx_intros)

lemma begin_tx_no_faults [simp]: "begin_tx no_faults n s = Next s (Suc n) ()"
  by (simp add: begin_tx_def)

lemma transactional_adjustWallet [tx_intros]: "transactional {internalError} (adjustWallet p u b)"
  unfolding adjustWallet_def Let_def by (intro tx_intros) simp_all

lemma transactional_grantCredit [tx_intros]: "transactional {internalError} (grantCredit p now i u b)"
  unfolding grantCredit_def Let_def by (intro tx_intros) simp_all

lemma transactional_performCheckin [tx_intros]: "transactional {internalError} (performCheckin p t rnd)"
  unfolding performCheckin_def Let_def by (intro tx_intros) simp_all

lemma transactional_updateCheckinSettings [tx_intros]: "transactional {internalError} (updateCheckinSettings p b)"
  unfolding updateCheckinSettings_def by (intro tx_intros) simp_all

lemma transactional_redeemInvite [tx_intros]: "transactional {internalError} (redeemInvite p b)"
  unfolding redeemInvite_def Let_def by (intro tx_intros) simp_all

section \<open>Effects of the handlers\<close>

lemmas run_simps = run_def bindT_def

text \<open>Without faults an adjustment either leaves the database as it is or moves the money and logs it.\<close>

lemma adjustWallet_effect:
  assumes "ledger_ok d" "run (adjustWallet p u b) no_faults d = (r, d')"
    "\<forall>q. b = Inr q \<longrightarrow> in64 (aq_amount q)"
  shows "d' = d \<or> (\<exists>w q. b = Inr q \<and> wallet_of u d = Some w \<and> aq_amount q \<noteq> 0 \<and>
     \<not> list_ex (\<lambda>e. le_wallet e = w_id w \<and> le_type e = ''adjustment'' \<and> le_ref e = trim_space (aq_ref q)) (ledger d) \<and>
     0 \<le> w_balance w + aq_amount q \<and> w_balance w + aq_amount q < 2 ^ 63 \<and>
     r = Json 200 [(''entryId'', VInt (next_entry_id d)), (''balanceCents'', VInt (w_balance w + aq_amount q)),
           (''version'', VInt (w_version w + 1))] \<and>
     (\<exists>a. d' = (move_money (w_id w) ''adjustment'' (trim_space (aq_ref q)) (aq_amount q) d)\<lparr>audits := a\<rparr>))"
proof (cases "d' = d")
  case False
  from assms(2) False obtain q w where q: "b = Inr q" "wallet_of u d = Some w" "\<not> wrap64 (w_balance w + aq_amount q) < 0"
    by (auto simp: run_simps adjustWallet_def Let_def split: sum.splits if_splits option.splits)
  have w: "w \<in> set (wallets d)" using wallet_of_Some [OF q(2)] by simp
  have nb: "wrap64 (w_balance w + aq_amount q) = w_balance w + aq_amount q"
    "0 \<le> w_balance w + aq_amount q" "w_balance w + aq_amount q < 2 ^ 63"
    using wrap64_nonneg_sum [of "w_balance w" "aq_amount q"] ledger_ok_range [OF assms(1) w] assms(3) q by auto
  from assms(2) False q obtain i d1 where li:
    "ledger_insert (w_id w) ''adjustment'' (trim_space (aq_ref q)) (aq_amount q) (w_balance w + aq_amount q) d = Some (i, d1)"
    by (auto simp: run_simps adjustWallet_def Let_def nb(1) split: if_splits option.splits)
  note ins = ledger_insert_Some [OF li] and mv = insert_then_set [OF assms(1) w li wallet_unique(1) [OF assms(1) w] refl]
  show ?thesis
    using assms(2) False q(1,2) ins mv nb li
    by (auto simp: run_simps adjustWallet_def Let_def audit_def split: if_splits option.splits)
qed simp

section \<open>Frame of the handlers\<close>

text \<open>No statement of a money handler removes or rewrites a ledger entry or changes which wallets exist.\<close>

definition frame :: "db \<Rightarrow> db \<Rightarrow> bool" where
  "frame d d' = (prefix (ledger d) (ledger d') \<and> map w_id (wallets d') = map w_id (wallets d))"

definition framed :: "(db, 'r, 'a) tx \<Rightarrow> bool" where
  "framed m = (\<forall>n s. case m no_faults n s of Stop r \<Rightarrow> True | Commit t r \<Rightarrow> frame s t | Next t n' a \<Rightarrow> frame s t)"

named_theorems frame_intros "introduction rules for framed programs"

lemma frame_refl [simp]: "frame d d"
  by (simp add: frame_def)

lemma frame_trans: "frame a b \<Longrightarrow> frame b c \<Longrightarrow> frame a c"
  by (auto simp: frame_def intro: prefix_order.order_trans)

lemma framed_bind [frame_intros]:
  assumes "framed m" and "\<And>a. framed (k a)"
  shows "framed (bindT m k)"
  unfolding framed_def
proof (intro allI)
  fix n s
  show "case bindT m k no_faults n s of Stop r \<Rightarrow> True | Commit t r \<Rightarrow> frame s t | Next t n' a \<Rightarrow> frame s t"
  proof (cases "m no_faults n s")
    case (Next t n' a)
    then have "frame s t" using assms(1) unfolding framed_def by (metis txout.simps(12))
    moreover have "case k a no_faults n' t of Stop r \<Rightarrow> True | Commit t' r \<Rightarrow> frame t t' | Next t' n'' b \<Rightarrow> frame t t'"
      using assms(2) [of a] unfolding framed_def by blast
    ultimately show ?thesis using Next
      by (auto simp: bindT_def split: txout.splits intro: frame_trans)
  next
    case (Commit t r)
    then show ?thesis using assms(1) unfolding framed_def bindT_def by (metis txout.simps(11))
  qed (simp add: bindT_def)
qed

lemma framed_basic [frame_intros]:
  "framed (reply r)" "framed (done_tx a)" "framed (commit err r)" "framed (query err f)" "framed (require err h)"
  "framed begin_tx"
  by (auto simp: framed_def split: option.splits)

lemma framed_exec:
  "(\<And>s a t. f s = Some (a, t) \<Longrightarrow> frame s t) \<Longrightarrow> framed (exec err f)"
  by (auto simp: framed_def split: option.splits)

lemma framed_if [frame_intros]: "framed a \<Longrightarrow> framed b \<Longrightarrow> framed (if c then a else b)"
  by simp

lemma framed_option [frame_intros]:
  "framed a \<Longrightarrow> (\<And>x. framed (b x)) \<Longrightarrow> framed (case v of None \<Rightarrow> a | Some x \<Rightarrow> b x)"
  by (cases v) simp_all

lemma framed_sum [frame_intros]:
  "(\<And>x. framed (a x)) \<Longrightarrow> (\<And>x. framed (b x)) \<Longrightarrow> framed (case v of Inl x \<Rightarrow> a x | Inr x \<Rightarrow> b x)"
  by (cases v) simp_all

lemma framed_prod [frame_intros]: "(\<And>x y. framed (a x y)) \<Longrightarrow> framed (case v of (x, y) \<Rightarrow> a x y)"
  by (cases v) simp

lemma framed_statements [frame_intros]:
  "framed (exec err (ledger_insert w t r a b))" "framed (exec err (wallet_set p b))"
  "framed (exec err (wallet_add w a))" "framed (exec err (audit x1 x2 x3 x4 x5 x6))"
  "framed (exec err (grant_insert g))" "framed (exec err (checkin_insert c))"
  by (rule framed_exec; auto simp: frame_def ledger_insert_def wallet_set_def wallet_add_def audit_def
      grant_insert_def checkin_insert_def o_def split: if_splits)+

lemma framed_same [frame_intros]:
  "framed (exec err (\<lambda>d. Some (a d, d\<lparr>invites := f d\<rparr>)))" "framed (exec err (\<lambda>d. Some (a d, d\<lparr>checkin_conf := g d\<rparr>)))"
  by (rule framed_exec; auto simp: frame_def)+

lemma framed_run:
  assumes "framed m"
  shows "frame d (snd (run m no_faults d))"
proof -
  have "case m no_faults 0 d of Stop r \<Rightarrow> True | Commit t r \<Rightarrow> frame d t | Next t n' a \<Rightarrow> frame d t"
    using assms unfolding framed_def by blast
  then show ?thesis by (auto simp: run_def split: txout.splits)
qed

lemma framed_adjustWallet [frame_intros]: "framed (adjustWallet p u b)"
  unfolding adjustWallet_def Let_def by (intro frame_intros)

lemma framed_grantCredit [frame_intros]: "framed (grantCredit p now i u b)"
  unfolding grantCredit_def Let_def by (intro frame_intros)

lemma framed_performCheckin [frame_intros]: "framed (performCheckin p t rnd)"
  unfolding performCheckin_def Let_def by (intro frame_intros)

lemma framed_updateCheckinSettings [frame_intros]: "framed (updateCheckinSettings p b)"
  unfolding updateCheckinSettings_def by (intro frame_intros)

lemma framed_redeemInvite [frame_intros]: "framed (redeemInvite p b)"
  unfolding redeemInvite_def Let_def by (intro frame_intros)

section \<open>The remaining effects\<close>

lemma grantCredit_effect:
  assumes "run (grantCredit p now i u b) no_faults d = (r, d')"
  shows "ledger d' = ledger d \<and> wallets d' = wallets d \<and>
    (d' = d \<or> (\<exists>q a. b = Inr q \<and> find_grant u (trim_space (gq_ref q)) d = None \<and> status_of r = 201 \<and>
       d' = d\<lparr>grants := grants d @ [\<lparr>cg_id = i, cg_user = u, cg_amount = gq_amount q, cg_remaining = gq_amount q,
          cg_ref = trim_space (gq_ref q), cg_note = trim_space (gq_note q),
          cg_expires = map_option truncate_micros (gq_expires q), cg_created = now\<rparr>], audits := a\<rparr>))"
  using assms
  by (auto simp: run_simps grantCredit_def Let_def audit_def grant_insert_def
      split: sum.splits if_splits option.splits)

lemma updateCheckinSettings_effect:
  assumes "run (updateCheckinSettings p b) no_faults d = (r, d')"
  shows "ledger d' = ledger d \<and> wallets d' = wallets d"
  using assms
  by (auto simp: run_simps updateCheckinSettings_def audit_def split: sum.splits if_splits option.splits)

lemma performCheckin_effect:
  assumes "ledger_ok d" "room d" "run (performCheckin p t rnd) no_faults d = (r, d')"
  shows "d' = d \<or> (\<exists>w cs reward. checkin_conf d = Some cs \<and> cs_enabled cs \<and> wallet_of (p_id p) d = Some w \<and>
     find_checkin (p_id p) t d = None \<and> secureReward rnd (cs_min cs) (cs_max cs) = Inr reward \<and>
     reward \<noteq> 0 \<and> 0 \<le> reward \<and> reward \<le> 10000 \<and>
     \<not> list_ex (\<lambda>e. le_wallet e = w_id w \<and> le_type e = ''checkin_reward'' \<and> le_ref e = ''checkin/'' @ t) (ledger d) \<and>
     r = Json 201 [(''rewardCents'', VInt reward), (''balanceCents'', VInt (w_balance w + reward)),
          (''checkedDate'', VStr t), (''idempotent'', VBool False)] \<and>
     d' = (move_money (w_id w) ''checkin_reward'' (''checkin/'' @ t) reward d)
            \<lparr>checkins := checkins d @ [\<lparr>ck_user = p_id p, ck_date = t, ck_reward = reward, ck_entry = next_entry_id d\<rparr>]\<rparr>)"
proof (cases "d' = d")
  case False
  from assms(3) False obtain cs w reward where c: "checkin_conf d = Some cs" "cs_enabled cs"
    "wallet_of (p_id p) d = Some w" "find_checkin (p_id p) t d = None"
    "secureReward rnd (cs_min cs) (cs_max cs) = Inr reward"
    by (auto simp: run_simps performCheckin_def Let_def split: sum.splits if_splits option.splits)
  have w: "w \<in> set (wallets d)" using wallet_of_Some [OF c(3)] by simp
  define nb where "nb = wrap64 (w_balance w + reward)"
  from assms(3) False c obtain i d1 where li:
    "ledger_insert (w_id w) ''checkin_reward'' (''checkin/'' @ t) reward nb d = Some (i, d1)"
    by (auto simp: run_simps performCheckin_def Let_def nb_def split: if_splits option.splits)
  obtain d2 where ws: "wallet_set (\<lambda>v. w_id v = w_id w \<and> w_version v = w_version w) nb d1 = Some ((), d2)"
    by (simp add: wallet_set_def)
  have ck: "checkins d2 = checkins d" using ws ledger_insert_Some [OF li] by (auto simp: wallet_set_def)
  from assms(3) False c li ws have bound: "0 \<le> reward" "reward \<le> 10000"
    by (auto simp: run_simps performCheckin_def Let_def checkin_insert_def nb_def split: if_splits option.splits)
  have nb: "nb = w_balance w + reward"
  proof -
    have "in64 (w_balance w + reward)"
      using bound ledger_ok_range [OF assms(1) w] assms(2) w by (force simp: room_def in64_def)
    then show ?thesis by (simp add: nb_def)
  qed
  have d2: "d2 = move_money (w_id w) ''checkin_reward'' (''checkin/'' @ t) reward d"
    using insert_then_set [OF assms(1) w li wallet_unique(2) [OF assms(1) w] nb] ws by simp
  show ?thesis
    using assms(3) False c li ws bound ledger_insert_Some [OF li] ck
    by (auto simp: run_simps performCheckin_def Let_def checkin_insert_def nb_def [symmetric] nb d2
        split: if_splits option.splits)
qed simp

lemma redeemInvite_effect:
  assumes "ledger_ok d" "run (redeemInvite p b) no_faults d = (r, d')"
  shows "(ledger d' = ledger d \<and> wallets d' = wallets d) \<or>
    (\<exists>w (i::invite) a iv. wallet_of (iv_inviter i) d = Some w \<and> 0 < iv_reward i \<and> w_balance w + iv_reward i < 2 ^ 63 \<and>
     \<not> list_ex (\<lambda>e. le_wallet e = w_id w \<and> le_type e = ''grant'' \<and> le_ref e = ''invite/'' @ iv_id i) (ledger d) \<and>
     d' = (move_money (w_id w) ''grant'' (''invite/'' @ iv_id i) (iv_reward i) d)\<lparr>invites := iv, audits := a\<rparr>)"
proof (cases "ledger d' = ledger d \<and> wallets d' = wallets d")
  case False
  then have ne: "d' \<noteq> d" by auto
  from assms(2) ne obtain i w where c: "open_invite (to_lower (trim_space (case b of Inr c \<Rightarrow> c))) d = Some i"
    "wallet_of (iv_inviter i) d = Some w" "\<not> list_ex (\<lambda>v. iv_invited v = Some (p_id p)) (invites d)"
    by (auto simp: run_simps redeemInvite_def Let_def split: sum.splits if_splits option.splits)
  have w: "w \<in> set (wallets d)" using wallet_of_Some [OF c(2)] by simp
  have pos: "0 < iv_reward i"
    using assms(2) ne c False
    by (auto simp: run_simps redeemInvite_def Let_def audit_def split: sum.splits if_splits option.splits)
  define nb where "nb = wrap64 (w_balance w + iv_reward i)"
  from assms(2) ne c pos obtain e d1 d2 where li:
    "ledger_insert (w_id w) ''grant'' (''invite/'' @ iv_id i) (iv_reward i) nb d = Some (e, d1)"
    "wallet_add (w_id w) (iv_reward i) d1 = Some ((), d2)"
    by (auto simp: run_simps redeemInvite_def Let_def nb_def split: sum.splits if_splits option.splits)
  have d2: "d2 = move_money (w_id w) ''grant'' (''invite/'' @ iv_id i) (iv_reward i) d" "in64 (w_balance w + iv_reward i)"
    using insert_then_add [OF assms(1) w li] by (simp_all add: nb_def)
  have "\<exists>iv a. d' = d2\<lparr>invites := iv, audits := a\<rparr>"
    using assms(2) ne c pos li
    by (auto simp: run_simps redeemInvite_def Let_def nb_def [symmetric] audit_def
        split: sum.splits if_splits option.splits)
  moreover have "w_balance w + iv_reward i < 2 ^ 63" using d2(2) by (simp add: in64_def)
  moreover have "\<not> list_ex (\<lambda>e. le_wallet e = w_id w \<and> le_type e = ''grant'' \<and> le_ref e = ''invite/'' @ iv_id i) (ledger d)"
    using ledger_insert_Some [OF li(1)] by blast
  ultimately show ?thesis using c(2) pos unfolding d2(1) by blast
qed simp

section \<open>The wallet service\<close>

datatype wallet_request =
    AdjustWallet principal string "adjust_request result"
  | GrantCredit principal int string string "grant_request result"
  | PerformCheckin principal string "int \<Rightarrow> int result"
  | UpdateCheckinSettings principal "checkin_settings_request result"
  | RedeemInvite principal "string result"

fun serve_wallet :: "wallet_request \<Rightarrow> (db, response, response) tx" where
  "serve_wallet (AdjustWallet p u b) = adjustWallet p u b"
| "serve_wallet (GrantCredit p now i u b) = grantCredit p now i u b"
| "serve_wallet (PerformCheckin p t rnd) = performCheckin p t rnd"
| "serve_wallet (UpdateCheckinSettings p b) = updateCheckinSettings p b"
| "serve_wallet (RedeemInvite p b) = redeemInvite p b"

text \<open>An amount in a decoded body is a 64 bit integer.\<close>

fun wallet_admissible :: "wallet_request \<Rightarrow> bool" where
  "wallet_admissible (AdjustWallet p u (Inr q)) = in64 (aq_amount q)"
| "wallet_admissible _ = True"

lemma adjustWallet_keeps:
  assumes "ledger_ok d" "\<forall>q. b = Inr q \<longrightarrow> in64 (aq_amount q)"
  shows "ledger_ok (snd (run (adjustWallet p u b) no_faults d))"
proof -
  obtain r d' where r: "run (adjustWallet p u b) no_faults d = (r, d')" by fastforce
  from adjustWallet_effect [OF assms(1) r assms(2)] show ?thesis
    using assms(1) r by (auto simp: ledger_ok_move_money wallet_of_Some)
qed

lemma performCheckin_keeps:
  assumes "ledger_ok d" "room d"
  shows "ledger_ok (snd (run (performCheckin p t rnd) no_faults d))"
proof -
  obtain r d' where r: "run (performCheckin p t rnd) no_faults d = (r, d')" by fastforce
  have "w_balance w + reward < 2 ^ 63 \<and> 0 \<le> w_balance w + reward"
    if "wallet_of u d = Some w" "0 \<le> reward" "reward \<le> 10000" for u w reward
    using wallet_of_Some [OF that(1)] that(2,3) assms ledger_ok_range [OF assms(1)] by (force simp: room_def)
  with performCheckin_effect [OF assms r] show ?thesis
    using assms(1) r by (auto simp: ledger_ok_move_money wallet_of_Some)
qed

lemma redeemInvite_keeps:
  assumes "ledger_ok d"
  shows "ledger_ok (snd (run (redeemInvite p b) no_faults d))"
proof -
  obtain r d' where r: "run (redeemInvite p b) no_faults d = (r, d')" by fastforce
  have "0 \<le> w_balance w" if "wallet_of u d = Some w" for u w
    using wallet_of_Some [OF that] ledger_ok_range [OF assms] by blast
  with redeemInvite_effect [OF assms r] show ?thesis
    using assms r ledger_ok_cong [of d' d]
    by (auto simp: ledger_ok_move_money wallet_of_Some add_nonneg_nonneg)
qed

lemma serve_wallet_ledger_ok:
  assumes "wallet_admissible q" "ledger_ok d" "room d"
  shows "ledger_ok (snd (run (serve_wallet q) no_faults d))"
proof (cases q)
  case (AdjustWallet p u b)
  then show ?thesis using assms adjustWallet_keeps [of d b] by (cases b) auto
next
  case (GrantCredit p now i u b)
  then show ?thesis using assms grantCredit_effect [of p now i u b d] ledger_ok_cong
    by (metis prod.collapse serve_wallet.simps(2))
next
  case (UpdateCheckinSettings p b)
  then show ?thesis using assms updateCheckinSettings_effect [of p b d] ledger_ok_cong
    by (metis prod.collapse serve_wallet.simps(4))
qed (use assms in \<open>simp_all add: performCheckin_keeps redeemInvite_keeps\<close>)

lemma unchanged_orders_statements [unchanged_intros]:
  "unchanged orders (exec err (ledger_insert w t r a b))" "unchanged orders (exec err (wallet_set p b))"
  "unchanged orders (exec err (wallet_add w a))" "unchanged orders (exec err (audit x1 x2 x3 x4 x5 x6))"
  "unchanged orders (exec err (grant_insert g))" "unchanged orders (exec err (checkin_insert c))"
  "unchanged orders (exec err (\<lambda>d. Some (e1 d, d\<lparr>invites := f1 d\<rparr>)))"
  "unchanged orders (exec err (\<lambda>d. Some (e2 d, d\<lparr>checkin_conf := f2 d\<rparr>)))"
  by (rule unchanged_exec; auto simp: ledger_insert_def wallet_set_def wallet_add_def audit_def grant_insert_def
      checkin_insert_def split: if_splits)+

lemma unchanged_orders_wallet: "unchanged orders (serve_wallet q)"
  by (cases q; simp only: serve_wallet.simps adjustWallet_def grantCredit_def performCheckin_def
      updateCheckinSettings_def redeemInvite_def Let_def begin_tx_def; intro unchanged_intros)

interpretation wallet_service: ledger_service serve_wallet wallet_admissible "{internalError}"
proof (unfold_locales, goal_cases)
  case (1 q)
  then show ?case by (cases q) (simp_all add: tx_intros)
next
  case (2 q d)
  then show ?case using serve_wallet_ledger_ok [of q d] unchanged_run [OF unchanged_orders_wallet, of q no_faults d]
    by (simp add: money_ok_def)
next
  case (3 d q)
  have "framed (serve_wallet q)" by (cases q) (simp_all add: frame_intros)
  from framed_run [OF this] show ?case by (simp add: frame_def)
next
  case (4 q d)
  have "framed (serve_wallet q)" by (cases q) (simp_all add: frame_intros)
  from framed_run [OF this] show ?case by (simp add: frame_def)
qed

section \<open>Idempotency\<close>

lemma find_entry_None: "find_entry wid ty ref d = None \<longleftrightarrow>
   \<not> list_ex (\<lambda>e. le_wallet e = wid \<and> le_type e = ty \<and> le_ref e = ref) (ledger d)"
  by (auto simp: find_entry_def find_None_iff list_ex_iff)

lemma find_append_single: "find P xs = None \<Longrightarrow> P x \<Longrightarrow> find P (xs @ [x]) = Some x"
  by (induction xs) (auto split: if_splits)

lemma find_entry_move_money:
  "\<not> list_ex (\<lambda>e. le_wallet e = wid \<and> le_type e = ty \<and> le_ref e = ref) (ledger d) \<Longrightarrow>
   find_entry wid ty ref (move_money wid ty ref amount d) =
     Some \<lparr>le_id = next_entry_id d, le_wallet = wid, le_type = ty, le_ref = ref, le_amount = amount,
           le_after = total_of wid (ledger d) + amount\<rparr>"
  by (auto simp: find_entry_def move_money_def Let_def find_None_iff list_ex_iff intro!: find_append_single)

lemma find_map_same:
  "(\<And>x. P (f x) = P x) \<Longrightarrow> find P (map f xs) = map_option f (find P xs)"
  by (induction xs) auto

lemma wallet_of_move_money:
  "wallet_of u (move_money wid ty ref amount d) =
    map_option (\<lambda>v. if w_id v = wid then v\<lparr>w_balance := total_of wid (ledger d) + amount, w_version := w_version v + 1\<rparr> else v)
      (wallet_of u d)"
  by (simp add: wallet_of_def move_money_def Let_def find_map_same)

text \<open>Replaying a successful wallet credit (same user, reference and amount) changes nothing and
  answers with the entry that was created the first time, as long as the balance still admits the
  amount; a replay with another amount is refused.\<close>

theorem adjustWallet_replay:
  assumes "ledger_ok d" "in64 (aq_amount q)" "0 < aq_amount q"
    and "run (adjustWallet p u (Inr q)) no_faults d = (r, d')" "d' \<noteq> d"
    and "\<forall>w. wallet_of u d' = Some w \<longrightarrow> w_balance w + aq_amount q < 2 ^ 63"
  shows "\<exists>entry balance version.
     r = Json 200 [(''entryId'', VInt entry), (''balanceCents'', VInt balance), (''version'', VInt version)] \<and>
     run (adjustWallet p' u (Inr q)) no_faults d' =
       (Json 200 [(''entryId'', VInt entry), (''balanceCents'', VInt balance), (''version'', VInt version),
          (''idempotent'', VBool True)], d') \<and>
     (\<forall>x. x \<noteq> aq_amount q \<and> in64 x \<and> 0 < x \<and> x \<le> aq_amount q \<longrightarrow>
        run (adjustWallet p' u (Inr (q\<lparr>aq_amount := x\<rparr>))) no_faults d' =
          (Error 409 ''idempotency_conflict'' ''business reference is already used with a different amount'', d'))"
proof -
  obtain w a where e: "wallet_of u d = Some w" "aq_amount q \<noteq> 0"
    "\<not> list_ex (\<lambda>e. le_wallet e = w_id w \<and> le_type e = ''adjustment'' \<and> le_ref e = trim_space (aq_ref q)) (ledger d)"
    "r = Json 200 [(''entryId'', VInt (next_entry_id d)), (''balanceCents'', VInt (w_balance w + aq_amount q)),
           (''version'', VInt (w_version w + 1))]"
    "d' = (move_money (w_id w) ''adjustment'' (trim_space (aq_ref q)) (aq_amount q) d)\<lparr>audits := a\<rparr>"
    using adjustWallet_effect [OF assms(1,4)] assms(2,5) by auto
  let ?m = "move_money (w_id w) ''adjustment'' (trim_space (aq_ref q)) (aq_amount q) d"
  have bal: "w_balance w = total_of (w_id w) (ledger d)" "0 \<le> w_balance w"
    using ledger_ok_balance [OF assms(1)] ledger_ok_range [OF assms(1)] wallet_of_Some [OF e(1)] by auto
  have wd: "wallet_of u d' = Some (w\<lparr>w_balance := w_balance w + aq_amount q, w_version := w_version w + 1\<rparr>)"
    using wallet_of_move_money [of u "w_id w" "''adjustment''" "trim_space (aq_ref q)" "aq_amount q" d] e(1,5) bal(1)
    by (simp add: wallet_of_def)
  have fe: "find_entry (w_id w) ''adjustment'' (trim_space (aq_ref q)) d' = Some \<lparr>le_id = next_entry_id d,
       le_wallet = w_id w, le_type = ''adjustment'', le_ref = trim_space (aq_ref q), le_amount = aq_amount q,
       le_after = total_of (w_id w) (ledger d) + aq_amount q\<rparr>"
    using find_entry_move_money [OF e(3)] e(5) by (simp add: find_entry_def)
  define w' where "w' = w\<lparr>w_balance := w_balance w + aq_amount q, w_version := w_version w + 1\<rparr>"
  have w': "wallet_of u d' = Some w'" "w_id w' = w_id w" using wd by (simp_all add: w'_def)
  have "\<not> wrap64 (w_balance w' + x) < 0" if "0 < x" "x \<le> aq_amount q" for x
  proof -
    have "in64 (w_balance w' + x)" using that assms(3,6) w'(1) bal(2) by (auto simp: in64_def w'_def)
    then show ?thesis using that bal(2) assms(3) by (simp add: w'_def)
  qed
  moreover have "\<not> (aq_amount q = 0 \<or> trim_space (aq_ref q) = [] \<or> length (trim_space (aq_ref q)) > 128)"
    using assms(4,5) by (auto simp: run_simps adjustWallet_def Let_def)
  ultimately have again: "run (adjustWallet p' u (Inr (q\<lparr>aq_amount := x\<rparr>))) no_faults d' =
      (if x = aq_amount q then (Json 200 [(''entryId'', VInt (next_entry_id d)), (''balanceCents'', VInt (w_balance w')),
          (''version'', VInt (w_version w')), (''idempotent'', VBool True)], d')
       else (Error 409 ''idempotency_conflict'' ''business reference is already used with a different amount'', d'))"
    if "0 < x" "x \<le> aq_amount q" for x
    using that w' fe by (auto simp: run_simps adjustWallet_def Let_def)
  have r: "r = Json 200 [(''entryId'', VInt (next_entry_id d)), (''balanceCents'', VInt (w_balance w')), (''version'', VInt (w_version w'))]"
    by (simp add: e(4) w'_def)
  have "q\<lparr>aq_amount := aq_amount q\<rparr> = q" by simp
  with again [of "aq_amount q"] assms(3) again r show ?thesis
    by (intro exI conjI) auto
qed
definition example_wallet_db :: db where
  "example_wallet_db = empty_db\<lparr>wallets := [\<lparr>w_id = ''W'', w_user = ''U'', w_balance = 0, w_version = 0\<rparr>],
     checkin_conf := Some \<lparr>cs_enabled = True, cs_min = 1, cs_max = 10\<rparr>\<rparr>"

lemma example_wallet_db_ok [simp]: "ledger_ok example_wallet_db" "room example_wallet_db"
  by (simp_all add: example_wallet_db_def empty_db_def ledger_ok_def wallet_ok_def entries_ok_def total_of_def
      entries_of_def room_def)

definition example_admin :: principal where
  "example_admin = \<lparr>p_id = ''A'', p_request = ''req''\<rparr>"

definition example_adjust :: "int \<Rightarrow> adjust_request" where
  "example_adjust n = \<lparr>aq_amount = n, aq_ref = ''x'', aq_note = []\<rparr>"

lemma trim_x [simp]: "trim_space ''x'' = ''x''"
  by (simp add: trim_space_visible visible_def byte_def)

lemmas example_run_simps = run_simps adjustWallet_def Let_def example_adjust_def example_wallet_db_def empty_db_def
  wallet_of_def wrap64_def find_entry_def ledger_insert_def wallet_set_def audit_def next_entry_id_def example_admin_def

lemma example_credit:
  "\<exists>r d'. run (adjustWallet example_admin ''U'' (Inr (example_adjust 500))) no_faults example_wallet_db = (r, d') \<and>
     d' \<noteq> example_wallet_db \<and> wallet_of ''U'' d' = Some \<lparr>w_id = ''W'', w_user = ''U'', w_balance = 500, w_version = 1\<rparr>"
  by (simp add: example_run_simps)

theorem adjustWallet_replay_witness:
  "\<exists>d' entry balance version.
     run (adjustWallet example_admin ''U'' (Inr (example_adjust 500))) no_faults example_wallet_db =
       (Json 200 [(''entryId'', VInt entry), (''balanceCents'', VInt balance), (''version'', VInt version)], d') \<and>
     run (adjustWallet example_admin ''U'' (Inr (example_adjust 500))) no_faults d' =
       (Json 200 [(''entryId'', VInt entry), (''balanceCents'', VInt balance), (''version'', VInt version),
          (''idempotent'', VBool True)], d')"
proof -
  obtain r d' where r: "run (adjustWallet example_admin ''U'' (Inr (example_adjust 500))) no_faults example_wallet_db = (r, d')"
    "d' \<noteq> example_wallet_db" "wallet_of ''U'' d' = Some \<lparr>w_id = ''W'', w_user = ''U'', w_balance = 500, w_version = 1\<rparr>"
    using example_credit by blast
  have "in64 (aq_amount (example_adjust 500))" "0 < aq_amount (example_adjust 500)"
    by (simp_all add: example_adjust_def in64_def)
  from adjustWallet_replay [OF example_wallet_db_ok(1) this r(1,2), of example_admin] r show ?thesis
    by (auto simp: example_adjust_def)
qed

text \<open>A replayed debit is not idempotent: the balance check comes before the lookup of the reference,
  so when the first debit emptied the wallet its replay answers 409 \<^verbatim>\<open>insufficient_balance\<close> instead of the
  recorded entry.\<close>

theorem adjustWallet_debit_replay_refused:
  "\<exists>d1 d2 r. run (adjustWallet example_admin ''U'' (Inr (example_adjust 500))) no_faults example_wallet_db = (r, d1) \<and>
     run (adjustWallet example_admin ''U'' (Inr ((example_adjust (- 500))\<lparr>aq_ref := ''y''\<rparr>))) no_faults d1 =
       (Json 200 [(''entryId'', VInt 2), (''balanceCents'', VInt 0), (''version'', VInt 2)], d2) \<and>
     run (adjustWallet example_admin ''U'' (Inr ((example_adjust (- 500))\<lparr>aq_ref := ''y''\<rparr>))) no_faults d2 =
       (Error 409 ''insufficient_balance'' ''wallet balance cannot become negative'', d2)"
proof -
  have y: "trim_space ''y'' = ''y''" by (simp add: trim_space_visible visible_def byte_def)
  show ?thesis by (simp add: example_run_simps y)
qed

lemma secureReward_range:
  assumes "secureReward rnd lo hi = Inr v" "\<forall>span x. rnd span = Inr x \<longrightarrow> 0 \<le> x \<and> x < span" "hi \<le> 10000"
  shows "lo \<le> v \<and> v \<le> hi"
proof -
  from assms(1) obtain x where x: "0 \<le> lo" "lo \<le> hi" "rnd (wrap64 (hi - lo + 1)) = Inr x" "v = wrap64 (lo + x)"
    by (auto simp: secureReward_def split: if_splits)
  have "wrap64 (hi - lo + 1) = hi - lo + 1" using x(1,2) assms(3) by (intro wrap64_id) (simp add: in64_def)
  then have "0 \<le> x" "x < hi - lo + 1" using assms(2) x(3) by metis+
  moreover from this have "wrap64 (lo + x) = lo + x" using x(1,2) assms(3) by (intro wrap64_id) (simp add: in64_def)
  ultimately show ?thesis using x(4) by simp
qed

lemma checkin_replay:
  assumes "find_checkin (p_id p) t d \<noteq> None"
  shows "snd (run (performCheckin p t rnd) flt d) = d"
proof -
  have "snd (run (performCheckin p t rnd) no_faults d) = d"
    using assms by (auto simp: run_simps performCheckin_def split: option.splits)
  then show ?thesis using run_transactional [OF transactional_performCheckin, of p t rnd flt d] by auto
qed

text \<open>A daily check-in that changes anything pays the user's wallet one reward within the configured
  range and records it; every further check-in of that user on that day, under any faults, changes
  nothing.\<close>

theorem checkin_once_a_day:
  assumes "ledger_ok d" "room d" "checkin_conf d = Some cs" "cs_max cs \<le> 10000"
    and "\<forall>span x. rnd span = Inr x \<longrightarrow> 0 \<le> x \<and> x < span"
    and "run (performCheckin p t rnd) flt d = (r, d')" "d' \<noteq> d"
  shows "\<exists>w reward. wallet_of (p_id p) d = Some w \<and> cs_min cs \<le> reward \<and> reward \<le> cs_max cs \<and>
    wallet_of (p_id p) d' = Some (w\<lparr>w_balance := w_balance w + reward, w_version := w_version w + 1\<rparr>) \<and>
    (\<forall>p' rnd' flt'. p_id p' = p_id p \<longrightarrow> snd (run (performCheckin p' t rnd') flt' d') = d')"
proof -
  have "run (performCheckin p t rnd) no_faults d = (r, d')"
    using run_transactional [OF transactional_performCheckin, of p t rnd flt d] assms(6,7) by auto
  from performCheckin_effect [OF assms(1,2) this] assms(3,7) obtain w reward where e:
    "wallet_of (p_id p) d = Some w" "secureReward rnd (cs_min cs) (cs_max cs) = Inr reward"
    "d' = (move_money (w_id w) ''checkin_reward'' (''checkin/'' @ t) reward d)
            \<lparr>checkins := checkins d @ [\<lparr>ck_user = p_id p, ck_date = t, ck_reward = reward, ck_entry = next_entry_id d\<rparr>]\<rparr>"
    by auto
  have bal: "w_balance w = total_of (w_id w) (ledger d)"
    using ledger_ok_balance [OF assms(1)] wallet_of_Some [OF e(1)] by blast
  have "wallet_of (p_id p) d' = wallet_of (p_id p) (move_money (w_id w) ''checkin_reward'' (''checkin/'' @ t) reward d)"
    by (simp add: e(3) wallet_of_def)
  then have w': "wallet_of (p_id p) d' = Some (w\<lparr>w_balance := w_balance w + reward, w_version := w_version w + 1\<rparr>)"
    using e(1) bal by (simp add: wallet_of_move_money)
  have "\<lparr>ck_user = p_id p, ck_date = t, ck_reward = reward, ck_entry = next_entry_id d\<rparr> \<in> set (checkins d')"
    by (simp add: e(3))
  then have "find_checkin (p_id p) t d' \<noteq> None" unfolding find_checkin_def find_None_iff
    by (metis checkin.select_convs(1,2))
  then show ?thesis
    using e(1) w' secureReward_range [OF e(2) assms(5,4)] checkin_replay by metis
qed

theorem checkin_once_a_day_witness:
  "\<exists>r d' w reward. run (performCheckin \<lparr>p_id = ''U'', p_request = []\<rparr> ''2026-01-01'' (\<lambda>span. if 0 < span then Inr 0 else Inl (Errorf [] []))) no_faults
      example_wallet_db = (r, d') \<and> wallet_of ''U'' example_wallet_db = Some w \<and> 1 \<le> reward \<and> reward \<le> 10 \<and>
      wallet_of ''U'' d' = Some (w\<lparr>w_balance := w_balance w + reward, w_version := w_version w + 1\<rparr>)"
proof -
  let ?p = "\<lparr>p_id = ''U'', p_request = []\<rparr>" and ?rnd = "\<lambda>span::int. if 0 < span then Inr 0 else Inl (Errorf [] []) :: int result"
  obtain r d' where r: "run (performCheckin ?p ''2026-01-01'' ?rnd) no_faults example_wallet_db = (r, d')" by fastforce
  have "checkins (snd (run (performCheckin ?p ''2026-01-01'' ?rnd) no_faults example_wallet_db)) \<noteq> checkins example_wallet_db"
    by (simp add: run_simps performCheckin_def Let_def example_wallet_db_def empty_db_def wallet_of_def find_checkin_def
        secureReward_def wrap64_def ledger_insert_def wallet_set_def checkin_insert_def)
  then have ne: "d' \<noteq> example_wallet_db" using r by auto
  have cs: "checkin_conf example_wallet_db = Some \<lparr>cs_enabled = True, cs_min = 1, cs_max = 10\<rparr>"
    by (simp add: example_wallet_db_def)
  have rnd: "\<forall>span x. ?rnd span = Inr x \<longrightarrow> 0 \<le> x \<and> x < span" by auto
  from checkin_once_a_day [OF example_wallet_db_ok cs _ rnd r ne] obtain w reward where
    "wallet_of ''U'' example_wallet_db = Some w" "1 \<le> reward" "reward \<le> 10"
    "wallet_of ''U'' d' = Some (w\<lparr>w_balance := w_balance w + reward, w_version := w_version w + 1\<rparr>)" by auto
  with r show ?thesis by blast
qed

end
