(* ===== verification/Secretbox_Config.thy ===== *)
theory Secretbox_Config
  imports Prelude
begin

text \<open>
  \<^verbatim>\<open>internal/config/config.go\<close> and \<^verbatim>\<open>internal/secretbox/secretbox.go\<close>, with the variants of
  \<^verbatim>\<open>encoding/base64\<close> that the repository uses.  The process environment is a function from names to
  values (empty when unset).  AES-GCM is the pair of arguments \<open>seal\<close> and \<open>unseal\<close>; what the package
  relies on is that opening a sealed text with the same key, nonce and context gives the text back,
  and that nothing else opens.
\<close>

section \<open>Base64\<close>

definition std_alphabet :: string where
  "std_alphabet = ''ABCDEFGHIJKLMNOPQRSTUVWXYZabcdefghijklmnopqrstuvwxyz0123456789+/''"

definition url_alphabet :: string where
  "url_alphabet = ''ABCDEFGHIJKLMNOPQRSTUVWXYZabcdefghijklmnopqrstuvwxyz0123456789-_''"

definition b64_val :: "string \<Rightarrow> char \<Rightarrow> nat option" where
  "b64_val alphabet c = map_of (zip alphabet [0..<64]) c"

fun b64_enc :: "string \<Rightarrow> bool \<Rightarrow> string \<Rightarrow> string" where
  "b64_enc al padded (a # b # c # rest) =
     [al ! (byte a div 4), al ! ((byte a mod 4) * 16 + byte b div 16),
      al ! ((byte b mod 16) * 4 + byte c div 64), al ! (byte c mod 64)] @ b64_enc al padded rest"
| "b64_enc al padded [a, b] =
     [al ! (byte a div 4), al ! ((byte a mod 4) * 16 + byte b div 16), al ! ((byte b mod 16) * 4)]
       @ (if padded then ''='' else [])"
| "b64_enc al padded [a] =
     [al ! (byte a div 4), al ! ((byte a mod 4) * 16)] @ (if padded then ''=='' else [])"
| "b64_enc al padded [] = []"

definition byte1 :: "nat \<Rightarrow> nat \<Rightarrow> char" where "byte1 v w = char_of (v * 4 + w div 16)"
definition byte2 :: "nat \<Rightarrow> nat \<Rightarrow> char" where "byte2 w x = char_of ((w mod 16) * 16 + x div 4)"
definition byte3 :: "nat \<Rightarrow> nat \<Rightarrow> char" where "byte3 x y = char_of ((x mod 4) * 64 + y)"

fun b64_dec :: "string \<Rightarrow> bool \<Rightarrow> string \<Rightarrow> string option" where
  "b64_dec al padded (a # b # c # d # rest) =
    (case (b64_val al a, b64_val al b) of (Some v, Some w) \<Rightarrow>
       if padded \<and> c = CHR ''='' then (if d = CHR ''='' \<and> rest = [] then Some [byte1 v w] else None)
       else (case b64_val al c of None \<Rightarrow> None
         | Some x \<Rightarrow>
            if padded \<and> d = CHR ''='' then (if rest = [] then Some [byte1 v w, byte2 w x] else None)
            else (case b64_val al d of None \<Rightarrow> None
              | Some y \<Rightarrow> map_option (\<lambda>t. byte1 v w # byte2 w x # byte3 x y # t) (b64_dec al padded rest)))
     | _ \<Rightarrow> None)"
| "b64_dec al padded [a, b, c] =
    (if padded then None
     else case (b64_val al a, b64_val al b, b64_val al c) of
       (Some v, Some w, Some x) \<Rightarrow> Some [byte1 v w, byte2 w x] | _ \<Rightarrow> None)"
| "b64_dec al padded [a, b] =
    (if padded then None
     else case (b64_val al a, b64_val al b) of (Some v, Some w) \<Rightarrow> Some [byte1 v w] | _ \<Rightarrow> None)"
| "b64_dec al padded [a] = None"
| "b64_dec al padded [] = Some []"

text \<open>The decoder skips carriage returns and line feeds and is not strict about trailing bits.\<close>

definition b64_decode :: "string \<Rightarrow> bool \<Rightarrow> string \<Rightarrow> string option" where
  "b64_decode al padded s = b64_dec al padded (filter (\<lambda>c. byte c \<noteq> 10 \<and> byte c \<noteq> 13) s)"

lemma alphabets:
  "length std_alphabet = 64" "length url_alphabet = 64" "distinct std_alphabet" "distinct url_alphabet"
  "CHR ''='' \<notin> set std_alphabet" "CHR ''='' \<notin> set url_alphabet"
  "\<forall>c \<in> set std_alphabet. byte c \<noteq> 10 \<and> byte c \<noteq> 13" "\<forall>c \<in> set url_alphabet. byte c \<noteq> 10 \<and> byte c \<noteq> 13"
  by (simp_all add: std_alphabet_def url_alphabet_def byte_def)

definition good_alphabet :: "string \<Rightarrow> bool" where
  "good_alphabet al = (length al = 64 \<and> distinct al \<and> CHR ''='' \<notin> set al \<and>
     (\<forall>c \<in> set al. byte c \<noteq> 10 \<and> byte c \<noteq> 13))"

lemma good_alphabets [simp]: "good_alphabet std_alphabet" "good_alphabet url_alphabet"
  by (auto simp: good_alphabet_def alphabets)

lemma b64_val_nth [simp]: "good_alphabet al \<Longrightarrow> v < 64 \<Longrightarrow> b64_val al (al ! v) = Some v"
  using map_of_zip_nth [of al "[0..<64]" v] by (simp add: b64_val_def good_alphabet_def)

lemma nth_not_pad: "good_alphabet al \<Longrightarrow> v < 64 \<Longrightarrow> al ! v \<noteq> CHR ''=''"
  unfolding good_alphabet_def using nth_mem [of v al] by metis

lemma sextet_bounds [simp]:
  "byte a div 4 < 64" "(byte a mod 4) * 16 + byte b div 16 < 64"
  "(byte b mod 16) * 4 + byte c div 64 < 64" "(byte a mod 4) * 16 < 64" "(byte b mod 16) * 4 < 64"
  using byte_less [of a] byte_less [of b] byte_less [of c] by linarith+

lemma byte1_eq [simp]: "byte1 (byte a div 4) ((byte a mod 4) * 16 + byte b div 16) = a"
  "byte1 (byte a div 4) ((byte a mod 4) * 16) = a"
proof -
  have "((byte a mod 4) * 16 + byte b div 16) div 16 = byte a mod 4"
    using byte_less [of b] by linarith
  then show "byte1 (byte a div 4) ((byte a mod 4) * 16 + byte b div 16) = a"
    by (simp add: byte1_def byte_def)
qed (simp add: byte1_def byte_def)

lemma byte2_eq [simp]:
  "byte2 ((byte a mod 4) * 16 + byte b div 16) ((byte b mod 16) * 4 + byte c div 64) = b"
  "byte2 ((byte a mod 4) * 16 + byte b div 16) ((byte b mod 16) * 4) = b"
proof -
  have w: "((byte a mod 4) * 16 + byte b div 16) mod 16 = byte b div 16"
    using byte_less [of b] by (simp add: less_mult_imp_div_less)
  have "((byte b mod 16) * 4 + byte c div 64) div 4 = byte b mod 16"
    using byte_less [of c] by linarith
  then show "byte2 ((byte a mod 4) * 16 + byte b div 16) ((byte b mod 16) * 4 + byte c div 64) = b"
    unfolding byte2_def w by (simp add: byte_def)
  show "byte2 ((byte a mod 4) * 16 + byte b div 16) ((byte b mod 16) * 4) = b"
    unfolding byte2_def w by (simp add: byte_def)
qed

lemma byte3_eq [simp]: "byte3 ((byte b mod 16) * 4 + byte c div 64) (byte c mod 64) = c"
proof -
  have "((byte b mod 16) * 4 + byte c div 64) mod 4 = byte c div 64"
    using byte_less [of c] by (simp add: less_mult_imp_div_less)
  then show ?thesis unfolding byte3_def by (simp add: byte_def)
qed

lemma b64_dec_enc: "good_alphabet al \<Longrightarrow> b64_dec al padded (b64_enc al padded s) = Some s"
  by (induction al padded s rule: b64_enc.induct) (simp_all add: nth_not_pad)

lemma b64_enc_chars: "good_alphabet al \<Longrightarrow> c \<in> set (b64_enc al padded s) \<Longrightarrow> c \<in> set al \<or> c = CHR ''=''"
  by (induction al padded s rule: b64_enc.induct) (auto simp: good_alphabet_def split: if_splits)

lemma byte_pad: "byte CHR ''='' \<noteq> 10" "byte CHR ''='' \<noteq> 13"
  by (simp_all add: byte_def)

lemma b64_round_trip:
  assumes "good_alphabet al"
  shows "b64_decode al padded (b64_enc al padded s) = Some s"
proof -
  have "filter (\<lambda>c. byte c \<noteq> 10 \<and> byte c \<noteq> 13) (b64_enc al padded s) = b64_enc al padded s"
    using b64_enc_chars [OF assms, of _ padded s] assms byte_pad
    by (intro filter_True ballI) (metis good_alphabet_def)
  then show ?thesis using b64_dec_enc [OF assms] by (simp add: b64_decode_def)
qed

section \<open>Secret box\<close>

type_synonym sealer = "string \<Rightarrow> string \<Rightarrow> string \<Rightarrow> string \<Rightarrow> string"
type_synonym opener = "string \<Rightarrow> string \<Rightarrow> string \<Rightarrow> string \<Rightarrow> string option"

definition secret_prefix :: string where
  "secret_prefix = ''cmsec:v1:''"

definition nonce_size :: nat where
  "nonce_size = 12"

record Box =
  box_key :: string

text \<open>A 32 byte key is always accepted by \<^verbatim>\<open>aes.NewCipher\<close> and \<^verbatim>\<open>cipher.NewGCM\<close>.\<close>

definition New :: "string \<Rightarrow> Box result" where
  "New key = (if length key \<noteq> 32 then Inl (Errorf ''secret encryption key must be exactly 32 bytes'' [])
     else Inr \<lparr>box_key = key\<rparr>)"

definition IsEncrypted :: "string \<Rightarrow> bool" where
  "IsEncrypted v = has_prefix v secret_prefix"

text \<open>\<open>nonce\<close> is what \<^verbatim>\<open>rand.Read\<close> delivers, or its error.\<close>

definition Encrypt :: "sealer \<Rightarrow> Box \<Rightarrow> string result \<Rightarrow> string \<Rightarrow> string \<Rightarrow> string result" where
  "Encrypt seal b nonce ctx plaintext =
    (if plaintext = [] then Inr []
     else case nonce of Inl e \<Rightarrow> Inl e
     | Inr n \<Rightarrow> Inr (secret_prefix @ b64_enc url_alphabet False (n @ seal (box_key b) n plaintext ctx)))"

definition Decrypt :: "opener \<Rightarrow> Box \<Rightarrow> string \<Rightarrow> string \<Rightarrow> string result" where
  "Decrypt unseal b ctx v =
    (if v = [] then Inr []
     else if \<not> IsEncrypted v then Inr v
     else case b64_decode url_alphabet False (trim_prefix v secret_prefix) of
       None \<Rightarrow> Inl (Errorf ''invalid encrypted secret payload'' [])
     | Some payload \<Rightarrow>
        if length payload < nonce_size then Inl (Errorf ''invalid encrypted secret payload'' [])
        else case unseal (box_key b) (take nonce_size payload) (drop nonce_size payload) ctx of
          None \<Rightarrow> Inl (Errorf ''secret authentication failed: %w'' [])
        | Some plaintext \<Rightarrow> Inr plaintext)"

lemma IsEncrypted_prefix [simp]: "IsEncrypted (secret_prefix @ s)"
  by (simp add: IsEncrypted_def has_prefix_def)

lemma secret_prefix_nonempty [simp]: "secret_prefix \<noteq> []"
  by (simp add: secret_prefix_def)

text \<open>C34: What the secret box encrypts it decrypts again under the same context, for every plaintext
  (empty ones and ones that look encrypted included), and a non-empty stored value is marked as
  encrypted.\<close>

theorem secretbox_round_trip:
  assumes "\<forall>k n p a. length n = nonce_size \<longrightarrow> unseal k n (seal k n p a) a = Some p"
    and "Encrypt seal b nonce ctx plaintext = Inr v"
    and "\<forall>n. nonce = Inr n \<longrightarrow> length n = nonce_size"
  shows "Decrypt unseal b ctx v = Inr plaintext \<and> (plaintext \<noteq> [] \<longrightarrow> IsEncrypted v)"
proof (cases "plaintext = []")
  case True
  with assms(2) show ?thesis by (simp add: Encrypt_def Decrypt_def)
next
  case False
  with assms(2) obtain n where n: "nonce = Inr n"
    and v: "v = secret_prefix @ b64_enc url_alphabet False (n @ seal (box_key b) n plaintext ctx)"
    by (auto simp: Encrypt_def split: sum.splits)
  have len: "length n = nonce_size" using assms(3) n by blast
  then have "unseal (box_key b) n (seal (box_key b) n plaintext ctx) ctx = Some plaintext"
    using assms(1) by blast
  then show ?thesis
    unfolding v Decrypt_def using len by (simp add: b64_round_trip)
qed

definition toy_seal :: sealer where
  "toy_seal k n p a = rev p @ a"

definition toy_open :: opener where
  "toy_open k n c a = (if suffix a c then Some (rev (take (length c - length a) c)) else None)"

theorem secretbox_round_trip_witness:
  "\<exists>v. Encrypt toy_seal \<lparr>box_key = replicate 32 CHR ''k''\<rparr> (Inr ''123456789012'') ''app'' ''pw'' = Inr v \<and>
     Decrypt toy_open \<lparr>box_key = replicate 32 CHR ''k''\<rparr> ''app'' v = Inr ''pw'' \<and> IsEncrypted v"
proof -
  have aead: "\<forall>k n p a. length n = nonce_size \<longrightarrow> toy_open k n (toy_seal k n p a) a = Some p"
    by (simp add: toy_seal_def toy_open_def suffix_def)
  obtain v where v: "Encrypt toy_seal \<lparr>box_key = replicate 32 CHR ''k''\<rparr> (Inr ''123456789012'') ''app'' ''pw'' = Inr v"
    by (simp add: Encrypt_def)
  show ?thesis
    using secretbox_round_trip [OF aead v] v by (simp add: nonce_size_def)
qed



section \<open>Configuration\<close>

record Config =
  Addr :: string
  DatabaseURL :: string
  SessionTTLHours :: int
  TrustedProxyCIDRs :: "string list"
  DockerSocket :: string
  DockerExecutor :: bool
  RuntimeOwner :: string
  RouterContainer :: string
  RouterToken :: string
  BackupVolume :: string
  BackupStoragePath :: string
  BackupHelperImage :: string
  SecretsKey :: string
  EgressIngestToken :: string
  EgressProxy :: string
  CaddyAdminURL :: string
  CaddyfilePath :: string
  StandalonePort :: int
  GatewayAccessMode :: string

definition env :: "(string \<Rightarrow> string) \<Rightarrow> string \<Rightarrow> string \<Rightarrow> string" where
  "env getenv key fallback = (if getenv key \<noteq> [] then getenv key else fallback)"

definition secrets_key :: "(string \<Rightarrow> string) \<Rightarrow> string result" where
  "secrets_key getenv =
    (let rawKey = trim_space (getenv ''SECRETS_ENCRYPTION_KEY'') in
     if rawKey = [] then Inr []
     else case b64_decode std_alphabet False rawKey of
       Some key \<Rightarrow> if length key = 32 then Inr key
         else Inl (Errorf ''SECRETS_ENCRYPTION_KEY must be base64 without padding for exactly 32 bytes'' [])
     | None \<Rightarrow> Inl (Errorf ''SECRETS_ENCRYPTION_KEY must be base64 without padding for exactly 32 bytes'' []))"

definition Load :: "(string \<Rightarrow> string) \<Rightarrow> Config result" where
  "Load getenv =
    (case atoi (env getenv ''SESSION_TTL_HOURS'' ''24'') of
       None \<Rightarrow> Inl (Errorf ''SESSION_TTL_HOURS must be a positive integer'' [])
     | Some ttl \<Rightarrow>
     if ttl < 1 then Inl (Errorf ''SESSION_TTL_HOURS must be a positive integer'' []) else
     case atoi (env getenv ''PLATFORM_PORT'' ''8080'') of
       None \<Rightarrow> Inl (Errorf ''PLATFORM_PORT must be an integer between 1 and 65535'' [])
     | Some standalonePort \<Rightarrow>
     if standalonePort < 1 \<or> standalonePort > 65535
     then Inl (Errorf ''PLATFORM_PORT must be an integer between 1 and 65535'' []) else
     bindR (secrets_key getenv) (\<lambda>key.
     let mode = trim_space (getenv ''GATEWAY_ACCESS_MODE'');
         cidrs = trim_space (getenv ''TRUSTED_PROXY_CIDRS'');
         cfg = \<lparr>Addr = env getenv ''API_ADDR'' '':8081'',
          DatabaseURL = getenv ''DATABASE_URL'',
          SessionTTLHours = ttl,
          TrustedProxyCIDRs = (if cidrs \<noteq> [] then split_on CHR '','' cidrs else []),
          DockerSocket = env getenv ''DOCKER_SOCKET'' ''/var/run/docker.sock'',
          DockerExecutor = (env getenv ''DOCKER_EXECUTOR_ENABLED'' ''false'' = ''true''),
          RuntimeOwner = env getenv ''RUNTIME_OWNER'' ''cloudmeter'',
          RouterContainer = env getenv ''ROUTER_CONTAINER_NAME'' ''cloudmeter-app-router'',
          RouterToken = trim_space (getenv ''ROUTER_INTERNAL_TOKEN''),
          BackupVolume = env getenv ''BACKUP_STORAGE_VOLUME'' ''cloudmeter_backup_data'',
          BackupStoragePath = env getenv ''BACKUP_STORAGE_PATH'' ''/var/lib/cloudmeter/backups'',
          BackupHelperImage = env getenv ''BACKUP_HELPER_IMAGE'' ''nginx@sha256:65645c7bb6a0661892a8b03b89d0743208a18dd2f3f17a54ef4b76fb8e2f2a10'',
          SecretsKey = key,
          EgressIngestToken = env getenv ''EGRESS_INGEST_TOKEN'' [],
          EgressProxy = env getenv ''EGRESS_PROXY_CONTAINER_NAME'' ''cloudmeter-egress-proxy'',
          CaddyAdminURL = trim_right_set (env getenv ''CADDY_ADMIN_URL'' ''http://gateway:2019'') ''/'',
          CaddyfilePath = env getenv ''CADDYFILE_PATH'' ''/etc/cloudmeter/Caddyfile'',
          StandalonePort = standalonePort,
          GatewayAccessMode = mode\<rparr> in
     if mode \<noteq> [] \<and> mode \<noteq> ''apps_only'' \<and> mode \<noteq> ''all_caddy''
     then Inl (Errorf ''GATEWAY_ACCESS_MODE must be empty, apps_only, or all_caddy'' [])
     else if DatabaseURL cfg = [] then Inl (Errorf ''DATABASE_URL is required'' [])
     else Inr cfg))"

lemma secrets_key_Inr: "secrets_key getenv = Inr key \<Longrightarrow> key = [] \<or> length key = 32"
  by (auto simp: secrets_key_def Let_def split: if_splits option.splits)

text \<open>A configuration that loads is usable: the port and the session lifetime are in range, the
  database is named, the gateway mode is one of the three, and the secrets key is either absent or one
  that the secret box accepts.\<close>

theorem config_loaded_valid:
  assumes "Load getenv = Inr cfg"
  shows "1 \<le> StandalonePort cfg \<and> StandalonePort cfg \<le> 65535 \<and> 1 \<le> SessionTTLHours cfg \<and>
    DatabaseURL cfg \<noteq> [] \<and> GatewayAccessMode cfg \<in> {[], ''apps_only'', ''all_caddy''} \<and>
    (SecretsKey cfg \<noteq> [] \<longrightarrow> ok (New (SecretsKey cfg)))"
proof -
  from assms obtain ttl port key where p: "\<not> ttl < 1" "\<not> (port < 1 \<or> port > 65535)" "secrets_key getenv = Inr key"
    and c: "SessionTTLHours cfg = ttl" "StandalonePort cfg = port" "SecretsKey cfg = key"
      "DatabaseURL cfg \<noteq> []" "GatewayAccessMode cfg \<in> {[], ''apps_only'', ''all_caddy''}"
    unfolding Load_def
    by (simp add: Let_def bindR_Inr_iff split: option.splits if_split_asm) (auto split: if_split_asm)
  show ?thesis using p c secrets_key_Inr [OF p(3)] by (auto simp: New_def)
qed

definition example_env :: "string \<Rightarrow> string" where
  "example_env k = (if k = ''DATABASE_URL'' then ''postgres://db'' else [])"

theorem config_loaded_valid_witness:
  "\<exists>cfg. Load example_env = Inr cfg \<and> 1 \<le> StandalonePort cfg \<and> StandalonePort cfg \<le> 65535"
proof -
  have "ok (Load example_env)"
    by (simp add: Load_def example_env_def env_def atoi_def digits_val_def is_digit_def byte_def secrets_key_def Let_def)
  then obtain cfg where c: "Load example_env = Inr cfg" by (auto simp: ok_iff)
  from config_loaded_valid [OF c] c show ?thesis by blast
qed

end
