(* ===== verification/Payments.thy ===== *)
theory Payments
  imports Wallets Secretbox_Config Domain_State "HOL-Library.List_Lexorder" "HOL-Library.Char_ord"
begin

text \<open>
  Payments: \<^verbatim>\<open>payment_features.go\<close>, \<^verbatim>\<open>epay_callback.go\<close>, \<^verbatim>\<open>payment_operations.go\<close> and
  \<^verbatim>\<open>payment_provider.go\<close>.  Orders are created, paid by an administrator or by a signed EPay callback,
  closed, and refunded.  MD5, the URL parser and the secret box are arguments; the identifiers that the
  database generates are arguments too.
\<close>

section \<open>Amounts\<close>

definition centsAmountText :: "int \<Rightarrow> string" where
  "centsAmountText amount =
    (let q = (if amount < 0 then - ((- amount) div 100) else amount div 100);
         r = (if amount < 0 then - ((- amount) mod 100) else amount mod 100);
         t = show_int r
     in show_int q @ ''.'' @ (if length t < 2 then ''0'' @ t else t))"

definition pad_frac :: "string \<Rightarrow> string" where
  "pad_frac s = s @ replicate (2 - length s) CHR ''0''"

definition errSyntax :: goerr where "errSyntax = Errorf ''invalid syntax'' []"
definition errRange :: goerr where "errRange = Errorf ''value out of range'' []"

definition parseAmountCents :: "string \<Rightarrow> int result" where
  "parseAmountCents value0 =
    (let v = trim_space value0 in
     if v = [] \<or> has_prefix v ''-'' \<or> has_prefix v ''+'' then Inl errSyntax
     else let parts = split_on CHR ''.'' v in
     if length parts > 2 \<or> hd parts = [] then Inl errSyntax
     else let p0 = hd parts; p1 = (if length parts = 1 then [] else parts ! 1) in
     if length p1 > 2 then Inl errSyntax
     else case atoi p0 of None \<Rightarrow> Inl errSyntax
     | Some whole \<Rightarrow>
        if whole < 0 then Inl errSyntax
        else case atoi (pad_frac p1) of None \<Rightarrow> Inl errSyntax
        | Some minor \<Rightarrow>
           if whole > (2 ^ 63 - 1 - minor) div 100 then Inl errRange
           else Inr (whole * 100 + minor))"

definition refundReasonTooLong :: "string \<Rightarrow> bool" where
  "refundReasonTooLong reason = (rune_count reason > 500)"

definition supportsImmediateRefund :: "string \<Rightarrow> bool" where
  "supportsImmediateRefund provider = (provider = ''manual'')"

definition adminPaymentPage :: "string \<Rightarrow> int" where
  "adminPaymentPage page = (case atoi page of None \<Rightarrow> 1 | Some n \<Rightarrow> if n < 1 then 1 else n)"

section \<open>Settings\<close>

definition paymentTypePattern :: "string \<Rightarrow> bool" where
  "paymentTypePattern s = (case s of [] \<Rightarrow> False
     | c # cs \<Rightarrow> is_alnum c \<and> list_all (\<lambda>x. is_alnum x \<or> x = CHR ''_'' \<or> x = CHR ''-'') cs \<and> length cs \<le> 31)"

fun payment_methods_loop :: "payment_method list \<Rightarrow> payment_method list \<Rightarrow> payment_method list result" where
  "payment_methods_loop acc [] = Inr acc"
| "payment_methods_loop acc (m0 # rest) =
    (let m = m0\<lparr>pm_name := trim_space (pm_name m0), pm_type := trim_space (pm_type m0)\<rparr> in
     if pm_name m = [] \<or> rune_count (pm_name m) > 40 \<or> \<not> paymentTypePattern (pm_type m)
     then Inl (Errorf ''payment method name or type is invalid'' [])
     else if pm_type m \<in> set (map pm_type acc) then Inl (Errorf ''payment method type must be unique'' [])
     else if pm_min m < 100 \<or> pm_min m > 100000000
     then Inl (Errorf ''payment method minimum amount must be between 1 and 1000000 yuan'' [])
     else payment_methods_loop (acc @ [m]) rest)"

definition validatedPaymentMethods :: "payment_method list \<Rightarrow> payment_method list result" where
  "validatedPaymentMethods methods =
    (if methods = [] \<or> length methods > 20 then Inl (Errorf ''configure between 1 and 20 payment methods'' [])
     else payment_methods_loop [] methods)"

text \<open>Rounding of a rational to the nearest float64, ties to even (53 significant bits; the exponent range
  is not limited, an amount beyond it is refused below in any case).\<close>

fun bit_length :: "nat \<Rightarrow> nat" where
  "bit_length n = (if n = 0 then 0 else Suc (bit_length (n div 2)))"

declare bit_length.simps [simp del]

definition pow2 :: "int \<Rightarrow> rat" where
  "pow2 e = (if e \<ge> 0 then 2 ^ nat e else 1 / 2 ^ nat (- e))"

definition round_half_even :: "rat \<Rightarrow> int" where
  "round_half_even q = (let f = \<lfloor>q\<rfloor>; r = q - of_int f in
     if r < 1 / 2 then f else if r > 1 / 2 then f + 1 else if even f then f else f + 1)"

definition round64 :: "rat \<Rightarrow> rat" where
  "round64 q = (if q = 0 then 0 else
     let (a, b) = quotient_of \<bar>q\<bar>;
         e0 = int (bit_length (nat a)) - int (bit_length (nat b));
         e1 = (if \<bar>q\<bar> < pow2 e0 then e0 - 1 else e0);
         e = e1 - 52
     in of_int (round_half_even (q / pow2 e)) * pow2 e)"

definition amount_option_cents :: "gofloat \<Rightarrow> int" where
  "amount_option_cents f = (case f of
     Fin q \<Rightarrow> int_of_gofloat (Fin (round64 (round64 (q * 100) + 1 / 2)))
   | _ \<Rightarrow> int_of_gofloat f)"

fun amount_options_loop :: "int list \<Rightarrow> gofloat list \<Rightarrow> bool" where
  "amount_options_loop seen [] = True"
| "amount_options_loop seen (v # vs) =
    (let cents = amount_option_cents v in
     if cents < 100 \<or> cents > 100000000 \<or> cents \<in> set seen then False
     else amount_options_loop (cents # seen) vs)"

definition validatedAmountOptions :: "gofloat list \<Rightarrow> gofloat list result" where
  "validatedAmountOptions vs =
    (if vs = [] \<or> length vs > 20 then Inl (Errorf ''configure between 1 and 20 recharge amounts'' [])
     else if \<not> amount_options_loop [] vs
     then Inl (Errorf ''recharge amounts must be unique values between 1 and 1000000 yuan'' [])
     else Inr vs)"

section \<open>EPay signatures\<close>

type_synonym svalues = "(string \<times> string) list"

definition sget :: "svalues \<Rightarrow> string \<Rightarrow> string" where
  "sget vs k = (case map_of vs k of Some v \<Rightarrow> v | None \<Rightarrow> [])"

definition epaySignature :: "(string \<Rightarrow> string) \<Rightarrow> svalues \<Rightarrow> string \<Rightarrow> string" where
  "epaySignature md5 values secret =
    (let keys = sort (map fst (filter (\<lambda>(k, v). k \<noteq> ''sign'' \<and> k \<noteq> ''sign_type'' \<and> v \<noteq> []) values));
         parts = map (\<lambda>k. k @ ''='' @ sget values k) keys
     in hex_encode (md5 (join_with ''&'' parts @ secret)))"

record providerCallback =
  cb_orderID :: string
  cb_amount :: int
  cb_ref :: string
  cb_succeeded :: bool

text \<open>\<^verbatim>\<open>form.Get\<close> takes the first value of a key.\<close>

definition form_values :: "(string \<times> string list) list \<Rightarrow> svalues" where
  "form_values form = map (\<lambda>(k, vs). (k, case vs of [] \<Rightarrow> [] | v # _ \<Rightarrow> v)) form"

definition verifyEPayCallback :: "(string \<Rightarrow> string) \<Rightarrow> (string \<times> string list) list \<Rightarrow> string \<Rightarrow> string \<Rightarrow> providerCallback result" where
  "verifyEPayCallback md5 form merchant secret =
    (let values = form_values form; orderID = trim_space (sget values ''out_trade_no'');
         tradeNo = trim_space (sget values ''trade_no''); amountText = trim_space (sget values ''money'');
         status = trim_space (sget values ''trade_status'') in
     if orderID = [] \<or> tradeNo = [] \<or> amountText = [] \<or> status = [] \<or> sget values ''pid'' \<noteq> merchant
        \<or> \<not> equal_fold (sget values ''sign_type'') ''MD5''
     then Inl (Errorf ''EPay callback fields are invalid'' [])
     else if to_lower (sget values ''sign'') \<noteq> epaySignature md5 values secret
     then Inl (Errorf ''EPay callback signature is invalid'' [])
     else case parseAmountCents amountText of
       Inl e \<Rightarrow> Inl e
     | Inr amount \<Rightarrow> Inr \<lparr>cb_orderID = orderID, cb_amount = amount, cb_ref = tradeNo,
         cb_succeeded = (status = ''SUCCESS'' \<or> status = ''TRADE_SUCCESS'')\<rparr>)"

section \<open>Checkout URL\<close>

record url =
  url_scheme :: string
  url_host :: string
  url_path :: string
  url_query :: "(string \<times> string list) list"

definition epayPurchaseEndpoint :: "(string \<Rightarrow> url option) \<Rightarrow> string \<Rightarrow> url result" where
  "epayPurchaseEndpoint parse endpoint =
    (case parse endpoint of None \<Rightarrow> Inl (Errorf ''invalid EPay endpoint'' [])
     | Some base \<Rightarrow>
        if url_scheme base = [] \<or> url_host base = [] then Inl (Errorf ''invalid EPay endpoint'' [])
        else let path = trim_right_set (url_path base) ''/'' in
        if path = [] then Inr (base\<lparr>url_path := ''/submit.php''\<rparr>)
        else if \<not> has_suffix (to_lower path) ''/submit.php'' then Inr (base\<lparr>url_path := path @ ''/submit.php''\<rparr>)
        else Inr base)"

definition buildEPayCheckoutURL :: "(string \<Rightarrow> url option) \<Rightarrow> (string \<Rightarrow> string) \<Rightarrow> string \<Rightarrow> svalues \<Rightarrow> string \<Rightarrow> url result" where
  "buildEPayCheckoutURL parse md5 endpoint values secret =
    bindR (epayPurchaseEndpoint parse endpoint) (\<lambda>base.
      let q1 = fold (\<lambda>(k, v) q. AList.update k [v] q) values (url_query base);
          q2 = AList.update ''sign_type'' [''MD5''] q1;
          q3 = AList.update ''sign'' [epaySignature md5 values secret] q2
      in Inr (base\<lparr>url_query := q3\<rparr>))"

definition checkout_name :: string where
  "checkout_name = ''CloudMeter '' @ bytes [232, 180, 166, 230, 136, 183, 229, 133, 133, 229, 128, 188]"

definition checkout_values :: "string \<Rightarrow> string \<Rightarrow> string \<Rightarrow> string \<Rightarrow> int \<Rightarrow> svalues" where
  "checkout_values merchant ty origin orderID amount =
    [(''pid'', merchant), (''type'', ty), (''out_trade_no'', orderID),
     (''notify_url'', origin @ ''/api/payments/epay/callback''), (''return_url'', origin @ ''/console/recharge''),
     (''name'', checkout_name), (''money'', centsAmountText amount), (''device'', ''pc'')]"

section \<open>Providers\<close>

record providerOrder =
  vo_id :: string
  vo_amount :: int
  vo_status :: string
  vo_ref :: string

record providerResult =
  vr_status :: string
  vr_message :: string

definition errProviderOperationUnconfigured :: goerr where
  "errProviderOperationUnconfigured = Errorf ''payment provider operation is not configured'' []"

record epay_provider =
  ep_merchant :: string
  ep_endpoint :: string
  ep_secret :: string
  ep_type :: string

datatype payment_provider = ManualProvider | EPayProvider epay_provider

fun QueryPayment :: "payment_provider \<Rightarrow> providerOrder \<Rightarrow> providerResult result" where
  "QueryPayment ManualProvider order = Inr \<lparr>vr_status = vo_status order,
     vr_message = ''manual order status read from the platform ledger''\<rparr>"
| "QueryPayment (EPayProvider _) order = Inl errProviderOperationUnconfigured"

fun ClosePayment :: "payment_provider \<Rightarrow> providerOrder \<Rightarrow> providerResult result" where
  "ClosePayment ManualProvider order =
    (if vo_status order = ''closed'' then Inr \<lparr>vr_status = ''closed'', vr_message = ''manual order is already closed''\<rparr>
     else if vo_status order \<noteq> ''pending'' then Inl (Errorf ''only pending manual orders can be closed'' [])
     else Inr \<lparr>vr_status = ''closed'', vr_message = ''manual order closed''\<rparr>)"
| "ClosePayment (EPayProvider _) order = Inl errProviderOperationUnconfigured"

text \<open>The printing of the URL is the argument \<open>render\<close>.\<close>

fun CreatePayment :: "(string \<Rightarrow> url option) \<Rightarrow> (url \<Rightarrow> string) \<Rightarrow> (string \<Rightarrow> string) \<Rightarrow> payment_provider \<Rightarrow> providerOrder \<Rightarrow>
   string \<Rightarrow> string result" where
  "CreatePayment parse render md5 ManualProvider order origin = Inr []"
| "CreatePayment parse render md5 (EPayProvider c) order origin =
    bindR (buildEPayCheckoutURL parse md5 (ep_endpoint c)
       (checkout_values (ep_merchant c) (ep_type c) origin (vo_id order) (vo_amount order)) (ep_secret c)) (\<lambda>u. Inr (render u))"

fun VerifyCallback :: "(string \<Rightarrow> string) \<Rightarrow> payment_provider \<Rightarrow> (string \<times> string list) list \<Rightarrow> providerCallback result" where
  "VerifyCallback md5 ManualProvider form = Inl errProviderOperationUnconfigured"
| "VerifyCallback md5 (EPayProvider c) form = verifyEPayCallback md5 form (ep_merchant c) (ep_secret c)"

definition config_of :: "string \<Rightarrow> db \<Rightarrow> provider_config option" where
  "config_of name d = find (\<lambda>c. pc_provider c = name) (providers d)"

text \<open>\<open>decrypt ctx stored\<close> is the secret box of the server.  A failed query is the error of the lookup.\<close>

definition paymentProvider :: "(string \<Rightarrow> string \<Rightarrow> string result) \<Rightarrow> string \<Rightarrow> bool \<Rightarrow> db \<Rightarrow> payment_provider result" where
  "paymentProvider decrypt name queryFails d =
    (if name = ''manual'' then Inr ManualProvider
     else if name \<noteq> ''epay'' then Inl (Errorf ''unsupported payment provider'' [])
     else if queryFails then Inl (Errorf ''query failed'' [])
     else case config_of ''epay'' d of None \<Rightarrow> Inl (Errorf ''no rows in result set'' [])
     | Some c \<Rightarrow>
        if \<not> pc_enabled c \<or> pc_merchant c = [] \<or> pc_endpoint c = [] \<or> pc_secret c = []
        then Inl (Errorf ''EPay is not configured'' [])
        else bindR (decrypt ''payment.secret.epay'' (pc_secret c)) (\<lambda>secret.
          Inr (EPayProvider \<lparr>ep_merchant = pc_merchant c, ep_endpoint = pc_endpoint c, ep_secret = secret,
            ep_type = pc_type c\<rparr>)))"

section \<open>Statements on orders and refunds\<close>

definition order_of :: "string \<Rightarrow> db \<Rightarrow> payment_order option" where
  "order_of oid d = find (\<lambda>o'. po_id o' = oid) (orders d)"

definition order_by_key :: "string \<Rightarrow> string \<Rightarrow> db \<Rightarrow> payment_order option" where
  "order_by_key uid key d = find (\<lambda>o'. po_user o' = uid \<and> po_key o' = key) (orders d)"

definition order_insert :: "payment_order \<Rightarrow> db \<Rightarrow> (string \<times> db) option" where
  "order_insert o' d =
    (if po_id o' \<in> po_id ` set (orders d) \<or> order_by_key (po_user o') (po_key o') d \<noteq> None \<or> po_amount o' \<le> 0
        \<or> config_of (po_provider o') d = None
     then None else Some (po_id o', d\<lparr>orders := orders d @ [o']\<rparr>))"

definition order_update :: "string \<Rightarrow> (payment_order \<Rightarrow> payment_order) \<Rightarrow> db \<Rightarrow> (unit \<times> db) option" where
  "order_update oid f d = Some ((), d\<lparr>orders := map (\<lambda>o'. if po_id o' = oid then f o' else o') (orders d)\<rparr>)"

definition order_event :: "string \<Rightarrow> string \<Rightarrow> string \<Rightarrow> string \<Rightarrow> db \<Rightarrow> (unit \<times> db) option" where
  "order_event oid a b msg d = Some ((), d\<lparr>order_events := order_events d @
     [\<lparr>oe_order = oid, oe_from = a, oe_to = b, oe_message = msg\<rparr>]\<rparr>)"

text \<open>EPay references are unique among EPay orders.\<close>

definition order_paid_epay :: "string \<Rightarrow> string \<Rightarrow> db \<Rightarrow> (unit \<times> db) option" where
  "order_paid_epay oid ref d =
    (if list_ex (\<lambda>o'. po_id o' \<noteq> oid \<and> po_provider o' = ''epay'' \<and> po_ref o' = Some ref) (orders d) then None
     else order_update oid (\<lambda>o'. o'\<lparr>po_status := ''paid'', po_ref := Some ref\<rparr>) d)"

definition refund_insert :: "string \<Rightarrow> refund \<Rightarrow> db \<Rightarrow> (string \<times> db) option" where
  "refund_insert request rf d =
    (if rf_id rf \<in> rf_id ` set (refunds d) \<or> rf_order rf \<in> rf_order ` set (refunds d) \<or> rf_amount rf \<le> 0
        \<or> list_all (\<lambda>c. c = CHR '' '') request
     then None else Some (rf_id rf, d\<lparr>refunds := refunds d @ [rf]\<rparr>))"

definition refund_event :: "string \<Rightarrow> string option \<Rightarrow> string \<Rightarrow> db \<Rightarrow> (unit \<times> db) option" where
  "refund_event rid a b d =
    (if list_ex (\<lambda>e. re_refund e = rid \<and> re_to e = b) (refund_events d) then None
     else Some ((), d\<lparr>refund_events := refund_events d @ [\<lparr>re_refund = rid, re_from = a, re_to = b\<rparr>]\<rparr>))"

definition refund_succeed :: "string \<Rightarrow> int \<Rightarrow> int \<Rightarrow> db \<Rightarrow> (int \<times> db) option" where
  "refund_succeed rid entry now d = Some (now, d\<lparr>refunds := map (\<lambda>rf. if rf_id rf = rid
     then rf\<lparr>rf_status := ''succeeded'', rf_entry := Some entry, rf_completed := Some now\<rparr> else rf) (refunds d)\<rparr>)"

section \<open>Handlers\<close>

record settings_request =
  pq_enabled :: bool
  pq_merchant :: string
  pq_endpoint :: string
  pq_secret :: string
  pq_type :: string
  pq_methods :: "payment_method list"
  pq_amounts :: "gofloat list"

definition validation_failed :: "string \<Rightarrow> response" where
  "validation_failed msg = Error 400 ''validation_failed'' msg"

definition err_text :: "goerr \<Rightarrow> string" where
  "err_text e = (case e of Errorf f args \<Rightarrow> f)"

text \<open>\<open>requestURI\<close> is \<^verbatim>\<open>url.ParseRequestURI\<close>, \<open>encrypt\<close> the secret box.\<close>

definition updatePaymentSettings :: "(string \<Rightarrow> url option) \<Rightarrow> (string \<Rightarrow> string \<Rightarrow> string result) \<Rightarrow> principal \<Rightarrow>
   string \<Rightarrow> settings_request result \<Rightarrow> (db, response, response) tx" where
  "updatePaymentSettings requestURI encrypt p provider body =
    (if provider \<noteq> ''manual'' \<and> provider \<noteq> ''epay''
     then reply (Error 404 ''provider_not_found'' ''unsupported payment provider'')
     else case body of Inl e \<Rightarrow> reply (invalid_request e) | Inr q \<Rightarrow>
     (let ty0 = trim_space (pq_type q); ty = (if ty0 = [] then ''alipay'' else ty0) in
      if ty \<noteq> ''alipay'' \<and> ty \<noteq> ''wxpay'' \<and> ty \<noteq> ''qqpay'' \<and> ty \<noteq> ''bank''
      then reply (validation_failed ''unsupported EPay payment type'')
      else case validatedPaymentMethods (pq_methods q) of Inl e \<Rightarrow> reply (validation_failed (err_text e)) | Inr methods \<Rightarrow>
      case validatedAmountOptions (pq_amounts q) of Inl e \<Rightarrow> reply (validation_failed (err_text e)) | Inr amounts \<Rightarrow>
      let merchant = trim_space (pq_merchant q); endpoint = trim_space (pq_endpoint q) in
      if endpoint \<noteq> [] \<and> (case requestURI endpoint of None \<Rightarrow> True
           | Some u \<Rightarrow> (url_scheme u \<noteq> ''http'' \<and> url_scheme u \<noteq> ''https'') \<or> url_host u = [])
      then reply (validation_failed ''payment endpoint must be an HTTP or HTTPS URL'')
      else bindT begin_tx (\<lambda>_.
      bindT (require internalError (config_of provider)) (\<lambda>c.
      if provider = ''epay'' \<and> pq_enabled q \<and> (merchant = [] \<or> endpoint = [] \<or> (pq_secret q = [] \<and> pc_secret c = []))
      then reply (validation_failed ''enabled EPay requires merchant, endpoint and secret'')
      else case (if pq_secret q = [] then Inr [] else encrypt (''payment.secret.'' @ provider) (pq_secret q)) of
        Inl e \<Rightarrow> reply internalError
      | Inr encrypted \<Rightarrow>
        bindT (exec internalError (\<lambda>d. Some ((), d\<lparr>providers := map (\<lambda>v. if pc_provider v = provider
           then v\<lparr>pc_enabled := pq_enabled q, pc_merchant := merchant, pc_endpoint := endpoint,
                  pc_secret := (if encrypted = [] then pc_secret v else encrypted), pc_type := ty,
                  pc_methods := methods, pc_amounts := amounts\<rparr> else v) (providers d)\<rparr>))) (\<lambda>_.
        bindT (exec internalError (audit (p_id p) None ''payment.settings.update'' ''payment_provider_config'' provider
           (p_request p))) (\<lambda>_.
        commit internalError (Json 200 [(''updated'', VBool True), (''provider'', VStr provider)])))))))"

record order_request =
  oq_amount :: int
  oq_provider :: string
  oq_type :: string
  oq_key :: string

definition provider_unavailable :: response where
  "provider_unavailable = Error 503 ''payment_provider_unavailable'' ''payment provider is not configured''"

fun select_method :: "string \<Rightarrow> int \<Rightarrow> payment_method list \<Rightarrow> response option" where
  "select_method ty amount [] = Some (Error 400 ''payment_method_unavailable'' ''payment method is not enabled'')"
| "select_method ty amount (m # ms) =
    (if pm_enabled m \<and> pm_type m = ty then
       (if amount < pm_min m
        then Some (Error 400 ''minimum_topup'' (''minimum recharge for '' @ pm_name m @ '' is '' @ centsAmountText (pm_min m) @ '' yuan''))
        else None)
     else select_method ty amount ms)"

definition order_body :: "string \<Rightarrow> string \<Rightarrow> string \<Rightarrow> int \<Rightarrow> bool \<Rightarrow> string option \<Rightarrow> gomap" where
  "order_body oid provider status amount idem checkout =
    [(''orderId'', VStr oid), (''provider'', VStr provider), (''status'', VStr status), (''amountCents'', VInt amount),
     (''idempotent'', VBool idem)] @ (case checkout of None \<Rightarrow> [] | Some u \<Rightarrow> [(''checkoutUrl'', VStr u)])"

text \<open>The environment of order creation: URL parser and printer, MD5, secret box, request origin.\<close>

record checkout_env =
  ce_parse :: "string \<Rightarrow> url option"
  ce_render :: "url \<Rightarrow> string"
  ce_md5 :: "string \<Rightarrow> string"
  ce_decrypt :: "string \<Rightarrow> string \<Rightarrow> string result"
  ce_origin :: string

record epay_checkout =
  ec_endpoint :: string
  ec_secret :: string
  ec_merchant :: string
  ec_type :: string

definition checkout_url :: "checkout_env \<Rightarrow> epay_checkout \<Rightarrow> string \<Rightarrow> string \<Rightarrow> int \<Rightarrow> string result" where
  "checkout_url ce ec ty oid amount =
    bindR (buildEPayCheckoutURL (ce_parse ce) (ce_md5 ce) (ec_endpoint ec)
       (checkout_values (ec_merchant ec) ty (ce_origin ce) oid amount) (ec_secret ec)) (\<lambda>u. Inr (ce_render ce u))"

definition epay_settings :: "checkout_env \<Rightarrow> order_request \<Rightarrow> (db, response, epay_checkout) tx" where
  "epay_settings ce q =
    bindT (require internalError (config_of ''epay'')) (\<lambda>c.
     let requested0 = trim_space (oq_type q);
         requested = (if requested0 = [] \<and> pc_methods c \<noteq> [] then pm_type (hd (pc_methods c)) else requested0) in
     case select_method requested (oq_amount q) (pc_methods c) of Some r \<Rightarrow> reply r
     | None \<Rightarrow>
       if pc_endpoint c = [] \<or> pc_secret c = []
       then reply (Error 503 ''payment_provider_pending'' ''EPay is pending configuration'')
       else case ce_decrypt ce ''payment.secret.epay'' (pc_secret c) of Inl e \<Rightarrow> reply internalError
         | Inr secret \<Rightarrow> done_tx \<lparr>ec_endpoint = pc_endpoint c, ec_secret = secret, ec_merchant = pc_merchant c,
             ec_type = requested\<rparr>)"

definition createPaymentOrder :: "checkout_env \<Rightarrow> principal \<Rightarrow> string \<Rightarrow> order_request result \<Rightarrow> (db, response, response) tx" where
  "createPaymentOrder ce p newID body = (case body of Inl e \<Rightarrow> reply (invalid_request e) | Inr q \<Rightarrow>
    (let amount = oq_amount q; provider0 = trim_space (oq_provider q); key = trim_space (oq_key q);
         provider = (if provider0 = [] then ''manual'' else provider0) in
     if amount \<le> 0 \<or> amount > 100000000 \<or> key = []
     then reply (validation_failed ''positive amount and idempotency key are required'')
     else bindT (query provider_unavailable (config_of provider)) (\<lambda>c.
     if c = None \<or> \<not> pc_enabled (the c) then reply provider_unavailable
     else if provider \<noteq> ''manual'' \<and> provider \<noteq> ''epay''
     then reply (validation_failed ''unsupported payment provider'')
     else bindT (if provider = ''epay'' then epay_settings ce q
                 else done_tx \<lparr>ec_endpoint = [], ec_secret = [], ec_merchant = [], ec_type = []\<rparr>) (\<lambda>ec.
     bindT begin_tx (\<lambda>_.
     bindT (query internalError (order_by_key (p_id p) key)) (\<lambda>row. case row of
       Some x \<Rightarrow>
         if po_provider x \<noteq> provider \<or> po_type x \<noteq> ec_type ec \<or> po_amount x \<noteq> amount
         then reply (Error 409 ''idempotency_conflict'' ''idempotency key is already used with different order parameters'')
         else commit internalError (Json 200 (order_body (po_id x) (po_provider x) (po_status x) (po_amount x) True
           (if po_provider x = ''epay'' \<and> ec_endpoint ec \<noteq> [] \<and> ec_secret ec \<noteq> []
            then (case checkout_url ce ec (po_type x) (po_id x) (po_amount x) of Inr u \<Rightarrow> Some u | Inl e \<Rightarrow> None)
            else None)))
     | None \<Rightarrow>
       bindT (exec internalError (order_insert \<lparr>po_id = newID, po_user = p_id p, po_provider = provider,
          po_type = ec_type ec, po_amount = amount, po_status = ''pending'', po_key = key, po_ref = None\<rparr>)) (\<lambda>oid.
       commit internalError
         (if provider = ''epay'' then
            (case checkout_url ce ec (ec_type ec) oid amount of
               Inl e \<Rightarrow> Error 503 ''payment_provider_pending'' ''EPay endpoint is invalid''
             | Inr u \<Rightarrow> Json 201 (order_body oid provider ''pending'' amount False (if u = [] then None else Some u)))
          else Json 201 (order_body oid provider ''pending'' amount False None)))))))))"

definition markPaymentPaid :: "principal \<Rightarrow> string \<Rightarrow> (db, response, response) tx" where
  "markPaymentPaid p orderID =
    bindT begin_tx (\<lambda>_.
    bindT (query internalError (order_of orderID)) (\<lambda>row. case row of
      None \<Rightarrow> reply (Error 404 ''order_not_found'' ''payment order not found'')
    | Some x \<Rightarrow>
      if po_status x = ''paid'' then
        bindT (require internalError (wallet_of (po_user x))) (\<lambda>w.
        commit internalError (Json 200 [(''orderId'', VStr orderID), (''status'', VStr (po_status x)),
          (''balanceCents'', VInt (w_balance w)), (''idempotent'', VBool True)]))
      else if po_status x \<noteq> ''pending'' then reply (Error 409 ''order_not_pending'' ''payment order is not pending'')
      else
        bindT (require internalError (wallet_of (po_user x))) (\<lambda>w.
        let newBalance = wrap64 (w_balance w + po_amount x) in
        bindT (exec internalError (ledger_insert (w_id w) ''topup'' orderID (po_amount x) newBalance)) (\<lambda>entryID.
        bindT (exec internalError (wallet_add (w_id w) (po_amount x))) (\<lambda>_.
        bindT (exec internalError (order_update orderID (\<lambda>v. v\<lparr>po_status := ''paid''\<rparr>))) (\<lambda>_.
        bindT (exec internalError (order_event orderID ''pending'' ''paid'' ''manual payment verified'')) (\<lambda>_.
        bindT (exec internalError (audit (p_id p) (Some (po_user x)) ''payment.mark_paid'' ''payment_order'' orderID (p_request p))) (\<lambda>_.
        commit internalError (Json 200 [(''orderId'', VStr orderID), (''status'', VStr ''paid''),
          (''balanceCents'', VInt newBalance)]))))))))) "

definition plain_success :: response where
  "plain_success = Plain 200 ''success''"

definition epayCallback :: "(string \<Rightarrow> string) \<Rightarrow> (string \<Rightarrow> string \<Rightarrow> string result) \<Rightarrow> (string \<times> string list) list result \<Rightarrow>
   (db, response, response) tx" where
  "epayCallback md5 decrypt form = (case form of Inl e \<Rightarrow> reply (invalid_request e) | Inr f \<Rightarrow>
    (let values = form_values f; sign = trim_space (sget values ''sign''); orderID = trim_space (sget values ''out_trade_no'');
         status = trim_space (sget values ''trade_status''); merchant = trim_space (sget values ''pid'');
         amountText = trim_space (sget values ''money''); tradeNo = trim_space (sget values ''trade_no'') in
     if sign = [] \<or> orderID = [] \<or> amountText = [] \<or> status = [] \<or> tradeNo = []
     then reply (Error 400 ''invalid_callback'' ''required callback fields are missing'')
     else if \<not> equal_fold (trim_space (sget values ''sign_type'')) ''MD5''
     then reply (Error 400 ''unsupported_signature_type'' ''only MD5 callbacks are supported'')
     else if status \<noteq> ''TRADE_SUCCESS'' \<and> status \<noteq> ''SUCCESS''
     then reply (Error 409 ''payment_not_succeeded'' ''payment callback is not a successful trade'')
     else bindT (require internalError (config_of ''epay'')) (\<lambda>c.
     if \<not> pc_enabled c \<or> pc_secret c = [] \<or> pc_merchant c = [] \<or> merchant \<noteq> pc_merchant c
     then reply (Error 403 ''callback_rejected'' ''payment provider is not configured'')
     else case decrypt ''payment.secret.epay'' (pc_secret c) of Inl e \<Rightarrow> reply internalError
     | Inr secret \<Rightarrow>
     if to_lower sign \<noteq> epaySignature md5 values secret
     then reply (Error 403 ''invalid_signature'' ''callback signature is invalid'')
     else case parseAmountCents amountText of Inl e \<Rightarrow> reply (Error 400 ''invalid_amount'' ''callback amount is invalid'')
     | Inr amountCents \<Rightarrow>
     if amountCents \<le> 0 then reply (Error 400 ''invalid_amount'' ''callback amount is invalid'')
     else bindT begin_tx (\<lambda>_.
     bindT (query internalError (\<lambda>d. find (\<lambda>v. po_id v = orderID \<and> po_provider v = ''epay'') (orders d))) (\<lambda>row. case row of
       None \<Rightarrow> reply (Error 404 ''order_not_found'' ''payment order not found'')
     | Some x \<Rightarrow>
     if po_amount x \<noteq> amountCents then reply (Error 400 ''amount_mismatch'' ''callback amount does not match order'')
     else bindT (query internalError (\<lambda>d. find (\<lambda>v. po_provider v = ''epay'' \<and> po_ref v = Some tradeNo \<and> po_id v \<noteq> orderID) (orders d))) (\<lambda>conflict.
     if conflict \<noteq> None
     then reply (Error 409 ''provider_reference_reused'' ''payment provider reference is already linked to another order'')
     else if po_status x = ''paid'' then reply plain_success
     else if po_status x \<noteq> ''pending'' then reply (Error 409 ''order_not_pending'' ''payment order is not pending'')
     else bindT (require internalError (wallet_of (po_user x))) (\<lambda>w.
     let newBalance = wrap64 (w_balance w + amountCents) in
     bindT (exec internalError (ledger_insert (w_id w) ''topup'' orderID amountCents newBalance)) (\<lambda>entryID.
     bindT (exec internalError (wallet_add (w_id w) amountCents)) (\<lambda>_.
     bindT (exec internalError (order_paid_epay orderID tradeNo)) (\<lambda>_.
     bindT (exec internalError (order_event orderID ''pending'' ''paid'' ''EPay callback verified'')) (\<lambda>_.
     commit internalError plain_success)))))))))))"

definition refund_reason :: "string \<Rightarrow> string" where
  "refund_reason reason0 = (let reason = trim_space reason0 in if reason = [] then ''administrator full refund'' else reason)"

text \<open>\<open>validUUID\<close> is the UUID parser of pgx, \<open>now\<close> the transaction's time.  A time in a response is kept as the
  number it is, not as its JSON text.\<close>

definition refundPayment :: "(string \<Rightarrow> bool) \<Rightarrow> principal \<Rightarrow> int \<Rightarrow> string \<Rightarrow> string \<Rightarrow> string result \<Rightarrow> (db, response, response) tx" where
  "refundPayment validUUID p now newRefund orderID body =
    (if \<not> validUUID orderID then reply (validation_failed ''orderID must be a UUID'')
     else case body of Inl e \<Rightarrow> reply (invalid_request e) | Inr reason0 \<Rightarrow>
     (let reason = refund_reason reason0 in
      if refundReasonTooLong reason then reply (validation_failed ''refund reason must not exceed 500 characters'')
      else bindT begin_tx (\<lambda>_.
      bindT (query internalError (order_of orderID)) (\<lambda>row. case row of
        None \<Rightarrow> reply (Error 404 ''order_not_found'' ''payment order not found'')
      | Some x \<Rightarrow>
      if po_status x = ''refunded'' then
        bindT (require internalError (\<lambda>d. case find (\<lambda>rf. rf_order rf = orderID) (refunds d) of None \<Rightarrow> None
           | Some rf \<Rightarrow> map_option (\<lambda>w. (rf, w)) (wallet_of (rf_user rf) d))) (\<lambda>(rf, w).
        commit internalError (Json 200 [(''orderId'', VStr orderID), (''status'', VStr (po_status x)),
          (''balanceCents'', VInt (w_balance w)), (''refundId'', VStr (rf_id rf)), (''refundStatus'', VStr (rf_status rf)),
          (''ledgerEntryId'', case rf_entry rf of None \<Rightarrow> VNil | Some i \<Rightarrow> VInt i),
          (''completedAt'', case rf_completed rf of None \<Rightarrow> VNil | Some t \<Rightarrow> VInt t), (''idempotent'', VBool True)]))
      else if po_status x = ''refunding''
      then reply (Error 409 ''refund_in_progress'' ''payment refund is already in progress'')
      else if po_status x \<noteq> ''paid'' then reply (Error 409 ''order_not_refundable'' ''only paid orders can be refunded'')
      else if \<not> supportsImmediateRefund (po_provider x) then
        bindT (exec internalError (audit (p_id p) (Some (po_user x)) ''payment.refund.rejected'' ''payment_order'' orderID (p_request p))) (\<lambda>_.
        commit internalError (Error 503 ''payment_provider_refund_unconfigured''
          ''the payment provider refund operation is not configured''))
      else bindT (require internalError (wallet_of (po_user x))) (\<lambda>w.
      if w_balance w < po_amount x then
        bindT (exec internalError (audit (p_id p) (Some (po_user x)) ''payment.refund.rejected'' ''payment_order'' orderID (p_request p))) (\<lambda>_.
        commit internalError (Error 409 ''insufficient_balance'' ''wallet balance is lower than refund amount''))
      else
      let newBalance = wrap64 (w_balance w - po_amount x) in
      bindT (exec internalError (order_update orderID (\<lambda>v. v\<lparr>po_status := ''refunding''\<rparr>))) (\<lambda>_.
      bindT (exec internalError (order_event orderID ''paid'' ''refunding'' ''refund initiated'')) (\<lambda>_.
      bindT (exec internalError (refund_insert (p_request p) \<lparr>rf_id = newRefund, rf_order = orderID, rf_user = po_user x,
         rf_provider = po_provider x, rf_amount = po_amount x, rf_status = ''processing'', rf_reason = reason,
         rf_entry = None, rf_completed = None\<rparr>)) (\<lambda>refundID.
      bindT (exec internalError (refund_event refundID None ''processing'')) (\<lambda>_.
      bindT (exec internalError (ledger_insert (w_id w) ''refund'' orderID (- po_amount x) newBalance)) (\<lambda>entryID.
      bindT (exec internalError (wallet_set (\<lambda>v. w_id v = w_id w) newBalance)) (\<lambda>_.
      bindT (exec internalError (refund_succeed refundID entryID now)) (\<lambda>completedAt.
      bindT (exec internalError (refund_event refundID (Some ''processing'') ''succeeded'')) (\<lambda>_.
      bindT (exec internalError (order_update orderID (\<lambda>v. v\<lparr>po_status := ''refunded''\<rparr>))) (\<lambda>_.
      bindT (exec internalError (order_event orderID ''refunding'' ''refunded'' ''refund completed'')) (\<lambda>_.
      bindT (exec internalError (audit (p_id p) (Some (po_user x)) ''payment.refund'' ''refund'' refundID (p_request p))) (\<lambda>_.
      commit internalError (Json 200 [(''orderId'', VStr orderID), (''status'', VStr ''refunded''),
        (''balanceCents'', VInt newBalance), (''refundId'', VStr refundID), (''refundStatus'', VStr ''succeeded''),
        (''ledgerEntryId'', VInt entryID), (''completedAt'', VInt completedAt), (''idempotent'', VBool False)])))))))))))))))))"

section \<open>Provider operations\<close>

definition recordPaymentOperation :: "principal \<Rightarrow> string \<Rightarrow> string \<Rightarrow> string \<Rightarrow> string \<Rightarrow> string \<Rightarrow> string \<Rightarrow> (db, bool, bool) tx" where
  "recordPaymentOperation p orderID provider operation res providerStatus message =
    bindT (query False (\<lambda>_. ())) (\<lambda>_.
    bindT (exec False (\<lambda>d. Some ((), d\<lparr>provider_ops := provider_ops d @ [\<lparr>op_order = orderID, op_provider = provider,
       op_operation = operation, op_result = res, op_status = providerStatus, op_message = message\<rparr>]\<rparr>))) (\<lambda>_.
    bindT (exec False (audit (p_id p) None (''payment.provider.'' @ operation) ''payment_order'' orderID (p_request p))) (\<lambda>_.
    commit False True)))"

definition close_order :: "principal \<Rightarrow> string \<Rightarrow> string \<Rightarrow> (db, response, response) tx" where
  "close_order p orderID message =
    bindT begin_tx (\<lambda>_.
    bindT (require internalError (order_of orderID)) (\<lambda>x.
    bindT (if po_status x = ''pending'' then
             bindT (exec internalError (order_update orderID (\<lambda>v. v\<lparr>po_status := ''closed''\<rparr>))) (\<lambda>_.
             bindT (exec internalError (order_event orderID ''pending'' ''closed'' message)) (\<lambda>_.
             exec internalError (audit (p_id p) None ''payment.order.close'' ''payment_order'' orderID (p_request p))))
           else done_tx ()) (\<lambda>_.
    commit internalError (Json 200 []))))"

text \<open>The four database phases of the operation have their own fault schedules: the lookup of the order
  (first statement of \<open>flts 0\<close>), the provider lookup (\<open>flts 1\<close>), the operation record (\<open>flts 2\<close>) and the
  closing transaction (\<open>flts 3\<close>).  The time of the last query is not modelled.\<close>

definition paymentOperation :: "(string \<Rightarrow> string \<Rightarrow> string result) \<Rightarrow> principal \<Rightarrow> string \<Rightarrow> string \<Rightarrow> (nat \<Rightarrow> faults) \<Rightarrow> db \<Rightarrow> response \<times> db" where
  "paymentOperation decrypt p operation orderID flts d =
    (if flts 0 0 then (internalError, d)
     else case order_of orderID d of None \<Rightarrow> (Error 404 ''order_not_found'' ''payment order not found'', d)
     | Some x \<Rightarrow>
       let order = \<lparr>vo_id = po_id x, vo_amount = po_amount x, vo_status = po_status x,
             vo_ref = (case po_ref x of Some r \<Rightarrow> r | None \<Rightarrow> [])\<rparr>; provider = po_provider x in
       case paymentProvider decrypt provider (flts 1 0) d of
         Inl e \<Rightarrow>
           (case run (recordPaymentOperation p orderID provider operation ''unconfigured'' [] (err_text e)) (flts 2) d of
              (False, d1) \<Rightarrow> (internalError, d1)
            | (True, d1) \<Rightarrow> (Error 503 ''payment_provider_operation_unconfigured'' (err_text e), d1))
       | Inr impl \<Rightarrow>
           (case (if operation = ''query'' then QueryPayment impl order else ClosePayment impl order) of
              Inl e \<Rightarrow>
                let unconfigured = (e = errProviderOperationUnconfigured) in
                (case run (recordPaymentOperation p orderID provider operation
                        (if unconfigured then ''unconfigured'' else ''failed'') [] (err_text e)) (flts 2) d of
                   (False, d1) \<Rightarrow> (internalError, d1)
                 | (True, d1) \<Rightarrow> (Error (if unconfigured then 503 else 502) ''payment_provider_operation_failed'' (err_text e), d1))
            | Inr res \<Rightarrow>
                (case run (recordPaymentOperation p orderID provider operation ''succeeded'' (vr_status res) (vr_message res)) (flts 2) d of
                   (False, d1) \<Rightarrow> (internalError, d1)
                 | (True, d1) \<Rightarrow>
                     if operation = ''close'' \<and> vr_status res = ''closed'' then
                       (case run (close_order p orderID (vr_message res)) (flts 3) d1 of
                          (r, d2) \<Rightarrow> if r = internalError then (internalError, d2)
                            else (Json 200 [(''orderId'', VStr orderID), (''provider'', VStr provider), (''status'', VStr ''closed''),
                                   (''providerStatus'', VStr (vr_status res)), (''message'', VStr (vr_message res))], d2))
                     else (Json 200 [(''orderId'', VStr orderID), (''provider'', VStr provider), (''status'', VStr (vo_status order)),
                            (''providerStatus'', VStr (vr_status res)), (''message'', VStr (vr_message res))], d1))))"

section \<open>Amount texts\<close>

lemma split_on_none: "c \<notin> set b \<Longrightarrow> split_on c b = [b]"
  by (induction b) auto

lemma split_on_sep: "c \<notin> set a \<Longrightarrow> split_on c (a @ c # b) = a # split_on c b"
  by (induction a) auto

lemma digit_chars_no_dot: "list_all is_digit s \<Longrightarrow> CHR ''.'' \<notin> set s"
  by (auto simp: list_all_iff is_digit_def byte_def)

lemma is_digit_visible: "is_digit c \<Longrightarrow> visible c"
  by (simp add: is_digit_def visible_def)

lemma two_digits:
  assumes "0 \<le> r" "r < 100"
  shows "(let t = show_int r in if length t < 2 then ''0'' @ t else t) =
     [digit_char (nat r div 10), digit_char (nat r mod 10)]"
proof (cases "nat r < 10")
  case True
  then show ?thesis using assms
    by (simp add: show_int_def show_nat.simps [of "nat r"] Let_def digit_char_def [of 0] char_of_def bit_0)
next
  case False
  then have "nat r div 10 < 10" using assms by linarith
  then show ?thesis using assms False
    by (simp add: show_int_def show_nat.simps [of "nat r"] show_nat.simps [of "nat r div 10"] Let_def)
qed

lemma centsAmountText_nonneg:
  assumes "0 \<le> a"
  shows "centsAmountText a = show_nat (nat (a div 100)) @ ''.'' @
     [digit_char (nat (a mod 100) div 10), digit_char (nat (a mod 100) mod 10)]"
  using assms two_digits [of "a mod 100"] by (simp add: centsAmountText_def show_int_def Let_def)

lemma atoi_two_digits:
  assumes "x < 10" "y < 10"
  shows "atoi [digit_char x, digit_char y] = Some (int (x * 10 + y))"
proof -
  have ds: "list_all is_digit [digit_char x, digit_char y]" using assms by simp
  have "int (x * 10 + y) < 2 ^ 63" using assms by simp
  then show ?thesis
    using assms ds digit_not_sign [OF ds] by (simp add: atoi_def Let_def digits_val_def)
qed

lemma atoi_show_nat: "n < 2 ^ 63 \<Longrightarrow> atoi (show_nat n) = Some (int n)"
  using atoi_show_int [of "int n"] by (simp add: show_int_def in64_def)

text \<open>The amount text sent to the payment gateway reads back as the same number of cents, for every
  amount a 64 bit integer holds.\<close>

theorem amount_text_round_trip:
  assumes "0 \<le> a" "a < 2 ^ 63"
  shows "parseAmountCents (centsAmountText a) = Inr a"
proof -
  define q where "q = nat (a div 100)"
  define r where "r = nat (a mod 100)"
  define t where "t = [digit_char (r div 10), digit_char (r mod 10)]"
  have r: "r < 100" by (simp add: r_def nat_less_iff)
  then have d: "r div 10 < 10" "r mod 10 < 10" by linarith+
  have shape: "centsAmountText a = show_nat q @ ''.'' @ t"
    using centsAmountText_nonneg [OF assms(1)] by (simp add: q_def r_def t_def)
  have dig: "list_all is_digit (show_nat q)" "list_all is_digit t" using d by (simp_all add: t_def)
  have "is_digit (hd (show_nat q))" using dig(1) show_nat_nonempty [of q] by (metis list.set_sel(1) list_all_iff)
  then have first: "is_digit (hd (centsAmountText a))" using shape show_nat_nonempty [of q] by simp
  have "visible (last (centsAmountText a))" using shape d by (simp add: t_def is_digit_visible)
  then have trim: "trim_space (centsAmountText a) = centsAmountText a"
    using first is_digit_visible by (intro trim_space_visible) blast+
  have sign: "\<not> has_prefix (centsAmountText a) ''-''" "\<not> has_prefix (centsAmountText a) ''+''"
    using first by (auto simp: has_prefix_def prefix_def is_digit_def byte_def)
  have parts: "split_on CHR ''.'' (centsAmountText a) = [show_nat q, t]"
    using digit_chars_no_dot [OF dig(1)] digit_chars_no_dot [OF dig(2)] shape
    by (simp add: split_on_sep split_on_none)
  have q: "atoi (show_nat q) = Some (int q)" using assms by (intro atoi_show_nat) (simp add: q_def)
  have rr: "atoi (pad_frac t) = Some (int r)"
    using atoi_two_digits [OF d] by (simp add: pad_frac_def t_def)
  have val: "int q * 100 + int r = a" using assms by (simp add: q_def r_def pos_imp_zdiv_nonneg_iff)
  have "\<not> int q > (2 ^ 63 - 1 - int r) div 100" using val assms by linarith
  moreover have "centsAmountText a \<noteq> []" using shape by simp
  ultimately show ?thesis
    using trim sign parts q rr val by (simp add: parseAmountCents_def Let_def t_def)
qed

theorem amount_text_round_trip_witness: "parseAmountCents (centsAmountText 12305) = Inr 12305"
  using amount_text_round_trip [of 12305] by simp

text \<open>The parser reads a sign inside the fraction: \<^verbatim>\<open>1.-5\<close> is 95 cents and \<^verbatim>\<open>1.+5\<close> is 105 cents, although
  a leading sign is refused.\<close>

theorem parse_accepts_signed_fraction:
  "parseAmountCents ''1.-5'' = Inr 95 \<and> parseAmountCents ''1.+5'' = Inr 105 \<and> \<not> ok (parseAmountCents ''-1.05'')"
proof -
  have t: "trim_space ''1.-5'' = ''1.-5''" "trim_space ''1.+5'' = ''1.+5''" "trim_space ''-1.05'' = ''-1.05''"
    by (simp_all add: trim_space_visible visible_def byte_def)
  show ?thesis
    by (simp add: parseAmountCents_def t has_prefix_def atoi_def pad_frac_def is_digit_def byte_def digits_val_def)
qed

section \<open>Signatures\<close>

lemma map_of_same_set:
  assumes "distinct (map fst xs)" "distinct (map fst ys)" "set xs = set ys"
  shows "map_of xs = map_of ys"
  using assms by (metis map_of_inject_set)

definition signed_fields :: "svalues \<Rightarrow> svalues" where
  "signed_fields vs = filter (\<lambda>(k, v). k \<noteq> ''sign'' \<and> k \<noteq> ''sign_type'' \<and> v \<noteq> []) vs"

lemma map_of_signed_fields:
  assumes "distinct (map fst vs)" "k \<in> fst ` set (signed_fields vs)"
  shows "map_of (signed_fields vs) k = map_of vs k"
proof -
  from assms(2) obtain v where v: "(k, v) \<in> set (signed_fields vs)" by force
  have "distinct (map fst (signed_fields vs))"
    unfolding signed_fields_def using assms(1) by (rule distinct_map_filter)
  then have "map_of (signed_fields vs) k = Some v" using v by simp
  moreover have "map_of vs k = Some v" using v assms(1) by (auto simp: signed_fields_def)
  ultimately show ?thesis by simp
qed

text \<open>The signature of a set of callback fields does not depend on the order in which the map is
  traversed, nor on the fields \<^verbatim>\<open>sign\<close> and \<^verbatim>\<open>sign_type\<close> or on empty fields.\<close>

theorem signature_canonical:
  assumes "distinct (map fst vs)" "distinct (map fst vs')"
    and "set (signed_fields vs) = set (signed_fields vs')"
  shows "epaySignature md5 vs secret = epaySignature md5 vs' secret"
proof -
  have d: "distinct (map fst (signed_fields vs))" "distinct (map fst (signed_fields vs'))"
    unfolding signed_fields_def using assms(1,2) by (simp_all add: distinct_map_filter)
  have m: "map_of (signed_fields vs) = map_of (signed_fields vs')"
    using map_of_same_set [OF d assms(3)] .
  have keys: "sort (map fst (signed_fields vs)) = sort (map fst (signed_fields vs'))"
    using d assms(3) sorted_list_of_set_sort_remdups [of "map fst (signed_fields vs)"]
      sorted_list_of_set_sort_remdups [of "map fst (signed_fields vs')"]
    by (simp add: distinct_remdups_id)
  have "sget vs k = sget vs' k" if "k \<in> set (map fst (signed_fields vs))" for k
    using that map_of_signed_fields [OF assms(1)] map_of_signed_fields [OF assms(2)] m assms(3)
    by (auto simp: sget_def)
  then have "map (\<lambda>k. k @ ''='' @ sget vs k) (sort (map fst (signed_fields vs))) =
     map (\<lambda>k. k @ ''='' @ sget vs' k) (sort (map fst (signed_fields vs')))"
    unfolding keys by (intro map_cong) (use keys assms(3) in auto)
  then show ?thesis by (simp add: epaySignature_def Let_def flip: signed_fields_def)
qed

theorem signature_canonical_witness:
  "epaySignature (\<lambda>x. x) [(''money'', ''1.00''), (''pid'', ''7''), (''sign'', ''ab'')] ''key'' =
   epaySignature (\<lambda>x. x) [(''pid'', ''7''), (''param'', []), (''money'', ''1.00'')] ''key''"
  by (rule signature_canonical) (auto simp: signed_fields_def)

end
