(* ===== verification/Payment_Ledger.thy ===== *)
theory Payment_Ledger
  imports Payments
begin

text \<open>
  What the payment handlers do to the ledger.  Each handler is atomic; its effect is one of the steps of
  an abstract payment process (create, pay, close, refund) on the orders and the money moved for them, and
  that process keeps an order's status and its ledger entries in agreement.
\<close>

section \<open>Atomicity and frame of the payment handlers\<close>

definition payment_errors :: "response set" where
  "payment_errors = {internalError, provider_unavailable}"

lemma payment_errors_simps [simp, tx_intros]: "internalError \<in> payment_errors" "provider_unavailable \<in> payment_errors"
  by (simp_all add: payment_errors_def)

lemma transactional_updatePaymentSettings [tx_intros]:
  "transactional payment_errors (updatePaymentSettings u e p prov b)"
  unfolding updatePaymentSettings_def Let_def by (intro tx_intros)

lemma transactional_epay_settings [tx_intros]: "transactional payment_errors (epay_settings ce q)"
  unfolding epay_settings_def Let_def by (intro tx_intros)

lemma transactional_createPaymentOrder [tx_intros]: "transactional payment_errors (createPaymentOrder ce p i b)"
  unfolding createPaymentOrder_def Let_def by (intro tx_intros)

lemma transactional_markPaymentPaid [tx_intros]: "transactional payment_errors (markPaymentPaid p oid)"
  unfolding markPaymentPaid_def Let_def by (intro tx_intros)

lemma transactional_epayCallback [tx_intros]: "transactional payment_errors (epayCallback md5 dec f)"
  unfolding epayCallback_def Let_def by (intro tx_intros)

lemma transactional_refundPayment [tx_intros]: "transactional payment_errors (refundPayment v p now i oid b)"
  unfolding refundPayment_def Let_def by (intro tx_intros)

lemma transactional_close_order [tx_intros]: "transactional payment_errors (close_order p oid m)"
  unfolding close_order_def by (intro tx_intros)

lemma framed_payment_statements [frame_intros]:
  "framed (exec err (order_insert x))" "framed (exec err (order_update oid f))" "framed (exec err (order_event oid a b m))"
  "framed (exec err (order_paid_epay oid ref))" "framed (exec err (refund_insert rq rf))"
  "framed (exec err (refund_event rid c s))" "framed (exec err (refund_succeed rid en now))"
  by (rule framed_exec; auto simp: frame_def order_insert_def order_update_def order_event_def order_paid_epay_def
      refund_insert_def refund_event_def refund_succeed_def split: if_splits)+

lemma framed_providers [frame_intros]: "framed (exec err (\<lambda>d. Some (a d, d\<lparr>providers := f d\<rparr>)))"
  by (rule framed_exec) (auto simp: frame_def)

lemma framed_updatePaymentSettings [frame_intros]: "framed (updatePaymentSettings u e p prov b)"
  unfolding updatePaymentSettings_def Let_def by (intro frame_intros)

lemma framed_epay_settings [frame_intros]: "framed (epay_settings ce q)"
  unfolding epay_settings_def Let_def by (intro frame_intros)

lemma framed_createPaymentOrder [frame_intros]: "framed (createPaymentOrder ce p i b)"
  unfolding createPaymentOrder_def Let_def by (intro frame_intros)

lemma framed_markPaymentPaid [frame_intros]: "framed (markPaymentPaid p oid)"
  unfolding markPaymentPaid_def Let_def by (intro frame_intros)

lemma framed_epayCallback [frame_intros]: "framed (epayCallback md5 dec f)"
  unfolding epayCallback_def Let_def by (intro frame_intros)

lemma framed_refundPayment [frame_intros]: "framed (refundPayment v p now i oid b)"
  unfolding refundPayment_def Let_def by (intro frame_intros)

lemma framed_close_order [frame_intros]: "framed (close_order p oid m)"
  unfolding close_order_def by (intro frame_intros)

section \<open>Effects\<close>

lemma order_of_Some: "order_of oid d = Some x \<Longrightarrow> x \<in> set (orders d) \<and> po_id x = oid"
  by (auto simp: order_of_def find_Some_iff)

definition set_status :: "string \<Rightarrow> string \<Rightarrow> payment_order list \<Rightarrow> payment_order list" where
  "set_status oid st xs = map (\<lambda>v. if po_id v = oid then v\<lparr>po_status := st\<rparr> else v) xs"

definition order_view :: "payment_order \<Rightarrow> string \<times> string \<times> int \<times> string" where
  "order_view x = (po_id x, po_user x, po_amount x, po_status x)"

text \<open>The effect of crediting an order: a top-up entry, the status paid and its event.\<close>

definition paid_effect :: "payment_order \<Rightarrow> wallet \<Rightarrow> db \<Rightarrow> db \<Rightarrow> bool" where
  "paid_effect x w d d' = (po_status x = ''pending'' \<and> wallet_of (po_user x) d = Some w \<and> po_amount x \<noteq> 0 \<and>
     \<not> list_ex (\<lambda>e. le_wallet e = w_id w \<and> le_type e = ''topup'' \<and> le_ref e = po_id x) (ledger d) \<and>
     in64 (w_balance w + po_amount x) \<and>
     ledger d' = ledger (move_money (w_id w) ''topup'' (po_id x) (po_amount x) d) \<and>
     wallets d' = wallets (move_money (w_id w) ''topup'' (po_id x) (po_amount x) d) \<and>
     map order_view (orders d') = map order_view (set_status (po_id x) ''paid'' (orders d)) \<and>
     refunds d' = refunds d \<and>
     (\<exists>msg. order_events d' = order_events d @ [\<lparr>oe_order = po_id x, oe_from = ''pending'', oe_to = ''paid'', oe_message = msg\<rparr>]))"

lemma markPaymentPaid_effect:
  assumes "ledger_ok d" "run (markPaymentPaid p oid) no_faults d = (r, d')"
  shows "d' = d \<or> (\<exists>x w. order_of oid d = Some x \<and> paid_effect x w d d' \<and>
     r = Json 200 [(''orderId'', VStr oid), (''status'', VStr ''paid''), (''balanceCents'', VInt (w_balance w + po_amount x))])"
proof (cases "d' = d")
  case False
  from assms(2) False obtain x w where c: "order_of oid d = Some x" "po_status x = ''pending''" "wallet_of (po_user x) d = Some w"
    by (auto simp: run_simps markPaymentPaid_def Let_def split: if_splits option.splits)
  have w: "w \<in> set (wallets d)" and oid: "po_id x = oid" using wallet_of_Some [OF c(3)] order_of_Some [OF c(1)] by simp_all
  define nb where "nb = wrap64 (w_balance w + po_amount x)"
  from assms(2) False c obtain i d1 d2 where li:
    "ledger_insert (w_id w) ''topup'' oid (po_amount x) nb d = Some (i, d1)"
    "wallet_add (w_id w) (po_amount x) d1 = Some ((), d2)"
    by (auto simp: run_simps markPaymentPaid_def Let_def nb_def split: if_splits option.splits)
  have d2: "d2 = move_money (w_id w) ''topup'' oid (po_amount x) d" "in64 (w_balance w + po_amount x)"
    using insert_then_add [OF assms(1) w li] by (simp_all add: nb_def)
  obtain a where d': "d' = d2\<lparr>orders := map (\<lambda>v. if po_id v = oid then v\<lparr>po_status := ''paid''\<rparr> else v) (orders d2),
      order_events := order_events d2 @ [\<lparr>oe_order = oid, oe_from = ''pending'', oe_to = ''paid'',
         oe_message = ''manual payment verified''\<rparr>], audits := a\<rparr>"
    and r: "r = Json 200 [(''orderId'', VStr oid), (''status'', VStr ''paid''), (''balanceCents'', VInt nb)]"
    using assms(2) False c li
    by (auto simp: run_simps markPaymentPaid_def Let_def nb_def [symmetric] audit_def order_update_def order_event_def
        split: if_splits option.splits)
  have same: "orders d2 = orders d" "refunds d2 = refunds d" "order_events d2 = order_events d"
    by (simp_all add: d2(1) move_money_def Let_def)
  have "paid_effect x w d d'"
    unfolding paid_effect_def using c w ledger_insert_Some [OF li(1)] d2 same
    by (auto simp: d' oid set_status_def order_view_def o_def)
  moreover have "nb = w_balance w + po_amount x" using d2(2) by (simp add: nb_def)
  ultimately show ?thesis using c(1) r by blast
qed simp

text \<open>What an accepted callback has proved about itself.\<close>

definition callback_authentic :: "(string \<Rightarrow> string) \<Rightarrow> (string \<Rightarrow> string \<Rightarrow> string result) \<Rightarrow> (string \<times> string list) list \<Rightarrow>
   payment_order \<Rightarrow> db \<Rightarrow> bool" where
  "callback_authentic md5 decrypt f x d = (let vs = form_values f in \<exists>c secret.
     config_of ''epay'' d = Some c \<and> pc_enabled c \<and> trim_space (sget vs ''pid'') = pc_merchant c \<and>
     decrypt ''payment.secret.epay'' (pc_secret c) = Inr secret \<and>
     to_lower (trim_space (sget vs ''sign'')) = epaySignature md5 vs secret \<and>
     trim_space (sget vs ''trade_status'') \<in> {''TRADE_SUCCESS'', ''SUCCESS''} \<and>
     parseAmountCents (trim_space (sget vs ''money'')) = Inr (po_amount x) \<and> 0 < po_amount x \<and>
     po_id x = trim_space (sget vs ''out_trade_no'') \<and> po_provider x = ''epay'' \<and>
     \<not> (\<exists>v \<in> set (orders d). po_provider v = ''epay'' \<and> po_ref v = Some (trim_space (sget vs ''trade_no'')) \<and> po_id v \<noteq> po_id x))"

lemma epayCallback_effect:
  assumes "ledger_ok d" "run (epayCallback md5 decrypt b) no_faults d = (r, d')"
  shows "d' = d \<or> (\<exists>f x w. b = Inr f \<and> x \<in> set (orders d) \<and> callback_authentic md5 decrypt f x d \<and>
     paid_effect x w d d' \<and> r = plain_success)"
proof (cases "d' = d")
  case False
  from assms(2) False obtain f where f: "b = Inr f" by (auto simp: run_simps epayCallback_def split: sum.splits)
  define vs where "vs = form_values f"
  define oid where "oid = trim_space (sget vs ''out_trade_no'')"
  define ref where "ref = trim_space (sget vs ''trade_no'')"
  from assms(2) False f obtain c secret amount x w where c: "config_of ''epay'' d = Some c" "pc_enabled c"
    "trim_space (sget vs ''pid'') = pc_merchant c" "decrypt ''payment.secret.epay'' (pc_secret c) = Inr secret"
    "to_lower (trim_space (sget vs ''sign'')) = epaySignature md5 vs secret"
    "trim_space (sget vs ''trade_status'') \<in> {''TRADE_SUCCESS'', ''SUCCESS''}"
    "parseAmountCents (trim_space (sget vs ''money'')) = Inr amount" "0 < amount" "po_amount x = amount"
    and x: "find (\<lambda>v. po_id v = oid \<and> po_provider v = ''epay'') (orders d) = Some x"
    "find (\<lambda>v. po_provider v = ''epay'' \<and> po_ref v = Some ref \<and> po_id v \<noteq> oid) (orders d) = None"
    "po_status x = ''pending''" "wallet_of (po_user x) d = Some w"
    by (auto simp: run_simps epayCallback_def Let_def vs_def oid_def ref_def not_le
        split: if_splits option.splits sum.splits)
  have xs: "x \<in> set (orders d)" "po_id x = oid" "po_provider x = ''epay''" using x(1) by (auto simp: find_Some_iff)
  have auth: "callback_authentic md5 decrypt f x d"
    unfolding callback_authentic_def Let_def using c xs x(2)
    by (auto simp: vs_def [symmetric] oid_def [symmetric] ref_def [symmetric] find_None_iff)
  have w: "w \<in> set (wallets d)" using wallet_of_Some [OF x(4)] by simp
  define nb where "nb = wrap64 (w_balance w + po_amount x)"
  from assms(2) False f c x obtain i d1 d2 where li:
    "ledger_insert (w_id w) ''topup'' oid (po_amount x) nb d = Some (i, d1)"
    "wallet_add (w_id w) (po_amount x) d1 = Some ((), d2)"
    by (auto simp: run_simps epayCallback_def Let_def vs_def oid_def ref_def nb_def not_le
        split: if_splits option.splits sum.splits)
  have d2: "d2 = move_money (w_id w) ''topup'' oid (po_amount x) d" "in64 (w_balance w + po_amount x)"
    using insert_then_add [OF assms(1) w li] by (simp_all add: nb_def)
  obtain msg where d': "d' = d2\<lparr>orders := map (\<lambda>v. if po_id v = oid then v\<lparr>po_status := ''paid'', po_ref := Some ref\<rparr> else v) (orders d2),
      order_events := order_events d2 @ [\<lparr>oe_order = oid, oe_from = ''pending'', oe_to = ''paid'', oe_message = msg\<rparr>]\<rparr>"
    and r: "r = plain_success"
    using assms(2) False f c x li
    by (auto simp: run_simps epayCallback_def Let_def vs_def [symmetric] oid_def [symmetric] ref_def [symmetric]
        nb_def [symmetric] order_paid_epay_def order_update_def order_event_def not_le
        split: if_splits option.splits sum.splits)
  have same: "orders d2 = orders d" "refunds d2 = refunds d" "order_events d2 = order_events d"
    by (simp_all add: d2(1) move_money_def Let_def)
  have "paid_effect x w d d'"
    unfolding paid_effect_def using x c(9) c(8) w ledger_insert_Some [OF li(1)] d2 same xs(2)
    by (auto simp: d' set_status_def order_view_def o_def)
  then show ?thesis using f xs(1) auth r by blast
qed simp

lemma epay_settings_cases:
  "(\<exists>r. epay_settings ce q no_faults n d = Stop r) \<or> (\<exists>n' ec. epay_settings ce q no_faults n d = Next d n' ec)"
  by (auto simp: epay_settings_def bindT_def Let_def split: option.splits sum.splits)

text \<open>The part of order creation that follows the provider checks.\<close>

lemma order_insert_Some:
  "order_insert x d = Some (i, d1) \<Longrightarrow> i = po_id x \<and> d1 = d\<lparr>orders := orders d @ [x]\<rparr> \<and> 0 < po_amount x \<and>
     po_id x \<notin> po_id ` set (orders d)"
  by (auto simp: order_insert_def split: if_splits)

lemma createPaymentOrder_effect:
  assumes "run (createPaymentOrder ce p i b) no_faults d = (r, d')"
  shows "d' = d \<or> (\<exists>x. d' = d\<lparr>orders := orders d @ [x]\<rparr> \<and> po_status x = ''pending'' \<and> 0 < po_amount x \<and>
       po_id x = i \<and> po_user x = p_id p \<and> i \<notin> po_id ` set (orders d) \<and> po_ref x = None)"
proof (cases b)
  case (Inl e)
  then show ?thesis using assms by (auto simp: run_simps createPaymentOrder_def)
next
  case (Inr q)
  show ?thesis
  proof (cases "d' = d")
    case False
    consider (manual) "trim_space (oq_provider q) = [] \<or> trim_space (oq_provider q) = ''manual''"
      | (epay) n' ec where "trim_space (oq_provider q) = ''epay''" "epay_settings ce q no_faults (Suc 0) d = Next d n' ec"
      using assms Inr False epay_settings_cases [of ce q "Suc 0" d]
      by (auto simp: run_simps createPaymentOrder_def Let_def split: if_split_asm)
    then show ?thesis
    proof cases
      case manual
      with assms Inr False show ?thesis
        by (auto simp: run_simps createPaymentOrder_def Let_def dest!: order_insert_Some
            split: if_split_asm option.split_asm)
    next
      case epay
      with assms Inr False show ?thesis
        by (auto simp: run_simps createPaymentOrder_def Let_def dest!: order_insert_Some
            split: if_split_asm option.split_asm)
    qed
  qed simp
qed

definition money_part :: "db \<Rightarrow> _" where
  "money_part d = (ledger d, wallets d, refunds d, orders d, order_events d)"

lemma unchanged_updatePaymentSettings: "unchanged money_part (updatePaymentSettings u e p prov b)"
  unfolding updatePaymentSettings_def Let_def begin_tx_def
  by (intro unchanged_intros unchanged_exec; auto simp: money_part_def audit_def)

lemma close_order_effect:
  assumes "run (close_order p oid m) no_faults d = (r, d')"
  shows "ledger d' = ledger d \<and> wallets d' = wallets d \<and> refunds d' = refunds d \<and>
    ((orders d' = orders d \<and> order_events d' = order_events d) \<or>
     (\<exists>x. order_of oid d = Some x \<and> po_status x = ''pending'' \<and> orders d' = set_status oid ''closed'' (orders d) \<and>
        order_events d' = order_events d @ [\<lparr>oe_order = oid, oe_from = ''pending'', oe_to = ''closed'', oe_message = m\<rparr>]))"
  using assms
  by (auto simp: run_simps close_order_def audit_def order_update_def order_event_def set_status_def
      split: if_splits option.splits)

text \<open>The effect of a refund: a negative entry, the status refunded with its two events, and the refund row.\<close>

definition refund_effect :: "payment_order \<Rightarrow> wallet \<Rightarrow> db \<Rightarrow> db \<Rightarrow> bool" where
  "refund_effect x w d d' = (po_status x = ''paid'' \<and> po_provider x = ''manual'' \<and> wallet_of (po_user x) d = Some w \<and>
     0 < po_amount x \<and> po_amount x \<le> w_balance w \<and>
     \<not> list_ex (\<lambda>e. le_wallet e = w_id w \<and> le_type e = ''refund'' \<and> le_ref e = po_id x) (ledger d) \<and>
     ledger d' = ledger (move_money (w_id w) ''refund'' (po_id x) (- po_amount x) d) \<and>
     wallets d' = wallets (move_money (w_id w) ''refund'' (po_id x) (- po_amount x) d) \<and>
     map order_view (orders d') = map order_view (set_status (po_id x) ''refunded'' (orders d)) \<and>
     (\<exists>rf. refunds d' = refunds d @ [rf] \<and> rf_order rf = po_id x \<and> rf_user rf = po_user x \<and> rf_amount rf = po_amount x \<and>
        rf_status rf = ''succeeded'' \<and> rf_entry rf = Some (next_entry_id d)) \<and>
     order_events d' = order_events d @
       [\<lparr>oe_order = po_id x, oe_from = ''paid'', oe_to = ''refunding'', oe_message = ''refund initiated''\<rparr>,
        \<lparr>oe_order = po_id x, oe_from = ''refunding'', oe_to = ''refunded'', oe_message = ''refund completed''\<rparr>])"

lemma refund_insert_Some:
  "refund_insert q rf d = Some (i, d1) \<Longrightarrow> i = rf_id rf \<and> d1 = d\<lparr>refunds := refunds d @ [rf]\<rparr> \<and> 0 < rf_amount rf \<and>
     rf_id rf \<notin> rf_id ` set (refunds d)"
  by (auto simp: refund_insert_def split: if_splits)

lemma refund_event_Some:
  "refund_event q a b d = Some (i, d1) \<Longrightarrow> d1 = d\<lparr>refund_events := refund_events d @ [\<lparr>re_refund = q, re_from = a, re_to = b\<rparr>]\<rparr>"
  by (auto simp: refund_event_def split: if_splits)

lemma map_update_new: "i \<notin> rf_id ` set xs \<Longrightarrow> map (\<lambda>rf. if rf_id rf = i then f rf else rf) xs = xs"
  by (induction xs) auto

lemma refundPayment_effect:
  assumes "ledger_ok d" "run (refundPayment v p now i oid b) no_faults d = (r, d')"
  shows "(money_part d' = money_part d \<and> status_of r \<noteq> 200) \<or> (d' = d) \<or> (\<exists>x w. order_of oid d = Some x \<and> refund_effect x w d d' \<and>
     r = Json 200 [(''orderId'', VStr oid), (''status'', VStr ''refunded''), (''balanceCents'', VInt (w_balance w - po_amount x)),
        (''refundId'', VStr i), (''refundStatus'', VStr ''succeeded''), (''ledgerEntryId'', VInt (next_entry_id d)),
        (''completedAt'', VInt now),         (''idempotent'', VBool False)])"
proof (cases "(money_part d' = money_part d \<and> status_of r \<noteq> 200) \<or> d' = d")
  case False
  from assms(2) False obtain x w q where c: "order_of oid d = Some x" "po_status x = ''paid''" "wallet_of (po_user x) d = Some w"
    "po_provider x = ''manual''" "po_amount x \<le> w_balance w" "b = Inr q" "v oid" "\<not> refundReasonTooLong (refund_reason q)"
    by (auto simp: run_simps refundPayment_def Let_def audit_def money_part_def supportsImmediateRefund_def
        split: if_split_asm option.split_asm sum.split_asm)
  have w: "w \<in> set (wallets d)" and oid: "po_id x = oid" using wallet_of_Some [OF c(3)] order_of_Some [OF c(1)] by simp_all
  define nb where "nb = wrap64 (w_balance w - po_amount x)"
  define rf where "rf = \<lparr>rf_id = i, rf_order = oid, rf_user = po_user x,
         rf_provider = po_provider x, rf_amount = po_amount x, rf_status = ''processing'', rf_reason = refund_reason q,
         rf_entry = None, rf_completed = None\<rparr>"
  define d0 where "d0 = d\<lparr>orders := map (\<lambda>v. if po_id v = oid then v\<lparr>po_status := ''refunding''\<rparr> else v) (orders d),
      order_events := order_events d @ [\<lparr>oe_order = oid, oe_from = ''paid'', oe_to = ''refunding'', oe_message = ''refund initiated''\<rparr>]\<rparr>"
  from assms(2) False c obtain d1 d2 d3 d4 u1 u2 u3 en where li:
    "refund_insert (p_request p) rf d0 = Some (u1, d1)"
    "refund_event u1 None ''processing'' d1 = Some (u2, d2)"
    "ledger_insert (w_id w) ''refund'' oid (- po_amount x) nb d2 = Some (en, d3)"
    "wallet_set (\<lambda>v. w_id v = w_id w) nb d3 = Some (u3, d4)"
    by (auto simp: run_simps refundPayment_def Let_def audit_def money_part_def supportsImmediateRefund_def order_update_def
        order_event_def d0_def rf_def nb_def split: if_split_asm option.split_asm sum.split_asm)
  have d2: "ledger d2 = ledger d" "wallets d2 = wallets d" "ledger_ok d2" "u1 = i" "0 < po_amount x" "next_entry_id d2 = next_entry_id d"
    "refunds d2 = refunds d @ [rf]" "i \<notin> rf_id ` set (refunds d)" "orders d2 = orders d0" "order_events d2 = order_events d0"
    using refund_insert_Some [OF li(1)] refund_event_Some [OF li(2)] assms(1)
    by (auto simp: d0_def rf_def next_entry_id_def intro: ledger_ok_cong [THEN iffD1, rotated 2])
  have nb: "nb = w_balance w + (- po_amount x)"
    using ledger_ok_range [OF assms(1) w] c(5) d2(5) by (simp add: nb_def in64_def)
  have "w \<in> set (wallets d2)" using w d2(2) by simp
  from insert_then_set [OF d2(3) this li(3) _ nb, of "\<lambda>v. w_id v = w_id w"] li(4)
  have d4: "d4 = move_money (w_id w) ''refund'' oid (- po_amount x) d2" by simp
  define oe where "oe = order_events d @ [\<lparr>oe_order = oid, oe_from = ''paid'', oe_to = ''refunding'', oe_message = ''refund initiated''\<rparr>,
        \<lparr>oe_order = oid, oe_from = ''refunding'', oe_to = ''refunded'', oe_message = ''refund completed''\<rparr>]"
  have en: "en = next_entry_id d" "\<not> list_ex (\<lambda>e. le_wallet e = w_id w \<and> le_type e = ''refund'' \<and> le_ref e = oid) (ledger d)"
    using ledger_insert_Some [OF li(3)] d2 by auto
  have d4': "refunds d4 = refunds d @ [rf]" "orders d4 = orders d0" "order_events d4 = order_events d0"
    "ledger d4 = ledger (move_money (w_id w) ''refund'' oid (- po_amount x) d)"
    "wallets d4 = wallets (move_money (w_id w) ''refund'' oid (- po_amount x) d)"
    using d2 by (simp_all add: d4 move_money_def Let_def)
  have sup: "supportsImmediateRefund (po_provider x)" using c(4) by (simp add: supportsImmediateRefund_def)
  define d5 where "d5 = d4\<lparr>refunds := map (\<lambda>rf. if rf_id rf = i
       then rf\<lparr>rf_status := ''succeeded'', rf_entry := Some en, rf_completed := Some now\<rparr> else rf) (refunds d4)\<rparr>"
  have "run (refundPayment v p now i oid b) no_faults d = (case refund_event i (Some ''processing'') ''succeeded'' d5 of
     None \<Rightarrow> (internalError, d) | Some (u, d6) \<Rightarrow>
       (Json 200 [(''orderId'', VStr oid), (''status'', VStr ''refunded''), (''balanceCents'', VInt nb), (''refundId'', VStr i),
          (''refundStatus'', VStr ''succeeded''), (''ledgerEntryId'', VInt en), (''completedAt'', VInt now), (''idempotent'', VBool False)],
        d6\<lparr>orders := map (\<lambda>v. if po_id v = oid then v\<lparr>po_status := ''refunded''\<rparr> else v) (orders d6),
          order_events := order_events d6 @ [\<lparr>oe_order = oid, oe_from = ''refunding'', oe_to = ''refunded'', oe_message = ''refund completed''\<rparr>],
          audits := audits d6 @ [\<lparr>al_actor = p_id p, al_subject = Some (po_user x), al_action = ''payment.refund'',
             al_type = ''refund'', al_resource = i, al_request = p_request p\<rparr>]\<rparr>))"
    using c(5) by (simp add: run_simps refundPayment_def Let_def audit_def order_update_def order_event_def refund_succeed_def
        c(1,2,3,6,7,8) sup li(1) [unfolded rf_def d0_def] li(2,4) [unfolded d2(4)] li(3) d2(4) nb_def [symmetric] d5_def
        split: option.split)
  with assms(2) False obtain a u4 d6 where d6: "refund_event i (Some ''processing'') ''succeeded'' d5 = Some (u4, d6)"
    and d': "d' = d6\<lparr>orders := map (\<lambda>v. if po_id v = oid then v\<lparr>po_status := ''refunded''\<rparr> else v) (orders d6),
     order_events := order_events d6 @ [\<lparr>oe_order = oid, oe_from = ''refunding'', oe_to = ''refunded'', oe_message = ''refund completed''\<rparr>],
     audits := a\<rparr>"
    and r: "r = Json 200 [(''orderId'', VStr oid), (''status'', VStr ''refunded''), (''balanceCents'', VInt nb),
        (''refundId'', VStr i), (''refundStatus'', VStr ''succeeded''), (''ledgerEntryId'', VInt en), (''completedAt'', VInt now), (''idempotent'', VBool False)]"
    by (auto split: option.split_asm)
  note fin = d' refund_event_Some [OF d6]
  have "refund_effect x w d d'"
    unfolding refund_effect_def using c w en d2(5) d4'
    by (simp add: fin d5_def oid map_update_new [OF d2(8)] rf_def order_view_def set_status_def d0_def o_def)
  then show ?thesis using c(1) r nb en(1) by auto
qed auto

section \<open>The abstract payment process\<close>

text \<open>What is visible of payments: the orders (id, user, amount, status), the money moved for them (wallet,
  type, order, amount), and who owns which wallet.\<close>

record payview =
  pv_orders :: "(string \<times> string \<times> int \<times> string) list"
  pv_moves :: "(string \<times> string \<times> string \<times> int) list"
  pv_owner :: "(string \<times> string) list"

definition pay_entry :: "ledger_entry \<Rightarrow> bool" where
  "pay_entry e = (le_type e = ''topup'' \<or> le_type e = ''refund'')"

definition move_view :: "ledger_entry \<Rightarrow> string \<times> string \<times> string \<times> int" where
  "move_view e = (le_wallet e, le_type e, le_ref e, le_amount e)"

definition pay_abs :: "db \<Rightarrow> payview" where
  "pay_abs d = \<lparr>pv_orders = map order_view (orders d), pv_moves = map move_view (filter pay_entry (ledger d)),
     pv_owner = map (\<lambda>w. (w_user w, w_id w)) (wallets d)\<rparr>"

definition view_status :: "string \<Rightarrow> string \<Rightarrow> (string \<times> string \<times> int \<times> string) list \<Rightarrow> (string \<times> string \<times> int \<times> string) list" where
  "view_status i st xs = map (\<lambda>(j, u, a, s). (j, u, a, if j = i then st else s)) xs"

inductive pay_step :: "payview \<Rightarrow> payview \<Rightarrow> bool" where
  create: "i \<notin> fst ` set (pv_orders v) \<Longrightarrow> 0 < a \<Longrightarrow>
     pay_step v (v\<lparr>pv_orders := pv_orders v @ [(i, u, a, ''pending'')]\<rparr>)"
| pay: "(i, u, a, ''pending'') \<in> set (pv_orders v) \<Longrightarrow> map_of (pv_owner v) u = Some w \<Longrightarrow>
     pay_step v (v\<lparr>pv_orders := view_status i ''paid'' (pv_orders v), pv_moves := pv_moves v @ [(w, ''topup'', i, a)]\<rparr>)"
| close: "(i, u, a, ''pending'') \<in> set (pv_orders v) \<Longrightarrow>
     pay_step v (v\<lparr>pv_orders := view_status i ''closed'' (pv_orders v)\<rparr>)"
| refund: "(i, u, a, ''paid'') \<in> set (pv_orders v) \<Longrightarrow> map_of (pv_owner v) u = Some w \<Longrightarrow>
     pay_step v (v\<lparr>pv_orders := view_status i ''refunded'' (pv_orders v), pv_moves := pv_moves v @ [(w, ''refund'', i, - a)]\<rparr>)"

text \<open>The money moved for an order, as its status says it must be.\<close>

definition moves_for :: "string \<Rightarrow> (string \<times> string \<times> string \<times> int) list \<Rightarrow> (string \<times> string \<times> string \<times> int) list" where
  "moves_for i ms = filter (\<lambda>(w, t, r, a). r = i) ms"

definition expected_moves :: "(string \<times> string) list \<Rightarrow> string \<times> string \<times> int \<times> string \<Rightarrow> (string \<times> string \<times> string \<times> int) list" where
  "expected_moves owner = (\<lambda>(i, u, a, s). case map_of owner u of None \<Rightarrow> []
     | Some w \<Rightarrow> if s = ''paid'' then [(w, ''topup'', i, a)]
        else if s = ''refunded'' then [(w, ''topup'', i, a), (w, ''refund'', i, - a)] else [])"

definition view_ok :: "payview \<Rightarrow> bool" where
  "view_ok v = (distinct (map fst (pv_orders v)) \<and>
     (\<forall>x \<in> set (pv_orders v). moves_for (fst x) (pv_moves v) = expected_moves (pv_owner v) x \<and>
        snd (snd (snd x)) \<in> {''pending'', ''closed'', ''paid'', ''refunded''}) \<and>
     (\<forall>m \<in> set (pv_moves v). fst (snd (snd m)) \<in> fst ` set (pv_orders v)))"

lemma view_status_fst [simp]: "map fst (view_status i st xs) = map fst xs"
  by (auto simp: view_status_def)

lemma view_status_ids [simp]: "fst ` set (view_status i st xs) = fst ` set xs"
  by (metis image_set view_status_fst)

lemma view_status_mem:
  assumes "distinct (map fst xs)" "(i, u, a, s) \<in> set xs" "x \<in> set (view_status i st xs)"
  shows "x = (i, u, a, st) \<or> (x \<in> set xs \<and> fst x \<noteq> i)"
proof -
  from assms(3) obtain j u' a' s' where j: "(j, u', a', s') \<in> set xs" "x = (j, u', a', if j = i then st else s')"
    by (auto simp: view_status_def)
  show ?thesis
  proof (cases "j = i")
    case True
    with eq_key_imp_eq_value [OF assms(1,2)] j(1) have "(u', a', s') = (u, a, s)" by metis
    with j True show ?thesis by simp
  qed (use j in auto)
qed

definition move_order :: "string \<times> string \<times> string \<times> int \<Rightarrow> string" where
  "move_order m = fst (snd (snd m))"

lemma moves_for_append: "moves_for i (ms @ ns) = moves_for i ms @ moves_for i ns"
  by (simp add: moves_for_def)

lemma moves_for_all: "\<forall>m \<in> set ms. move_order m = i \<Longrightarrow> moves_for i ms = ms"
  by (auto simp: moves_for_def move_order_def split_beta intro!: filter_True)

lemma moves_for_none: "\<forall>m \<in> set ms. move_order m \<noteq> i \<Longrightarrow> moves_for i ms = []"
  by (auto simp: moves_for_def move_order_def split_beta)

lemma view_okD:
  assumes "view_ok v" "x \<in> set (pv_orders v)"
  shows "moves_for (fst x) (pv_moves v) = expected_moves (pv_owner v) x"
  using assms unfolding view_ok_def by blast

lemma view_ok_new:
  assumes "view_ok v" "i \<notin> fst ` set (pv_orders v)"
  shows "moves_for i (pv_moves v) = []"
proof (rule moves_for_none, rule ballI)
  fix m assume "m \<in> set (pv_moves v)"
  then have "move_order m \<in> fst ` set (pv_orders v)" using assms(1) unfolding view_ok_def move_order_def by blast
  then show "move_order m \<noteq> i" using assms(2) by metis
qed

lemma view_ok_update:
  assumes ok: "view_ok v" and i: "(i, u, a, s) \<in> set (pv_orders v)"
    and st: "st \<in> {''pending'', ''closed'', ''paid'', ''refunded''}"
    and ms: "\<forall>m \<in> set ms. move_order m = i" and ex: "moves_for i (pv_moves v) @ ms = expected_moves (pv_owner v) (i, u, a, st)"
  shows "view_ok (v\<lparr>pv_orders := view_status i st (pv_orders v), pv_moves := pv_moves v @ ms\<rparr>)"
proof -
  have dist: "distinct (map fst (pv_orders v))" using ok by (simp add: view_ok_def)
  have ids: "i \<in> fst ` set (pv_orders v)" using i by force
  have "moves_for (fst x) (pv_moves v @ ms) = expected_moves (pv_owner v) x \<and>
      snd (snd (snd x)) \<in> {''pending'', ''closed'', ''paid'', ''refunded''}"
    if x: "x \<in> set (view_status i st (pv_orders v))" for x
    using view_status_mem [OF dist i x]
  proof
    assume "x = (i, u, a, st)"
    with ex st ms show ?thesis by (simp add: moves_for_append moves_for_all)
  next
    assume o: "x \<in> set (pv_orders v) \<and> fst x \<noteq> i"
    with ms have "moves_for (fst x) ms = []" by (intro moves_for_none) auto
    with o ok view_okD [OF ok] show ?thesis by (simp add: moves_for_append view_ok_def)
  qed
  then show ?thesis using ok ids ms by (auto simp: view_ok_def dist move_order_def)
qed

lemma pay_step_ok: "pay_step v v' \<Longrightarrow> view_ok v \<Longrightarrow> view_ok v'"
proof (induction rule: pay_step.induct)
  case (create i v a u)
  have "moves_for i (pv_moves v) = []" using create by (intro view_ok_new)
  moreover have "expected_moves (pv_owner v) (i, u, a, ''pending'') = []"
    by (simp add: expected_moves_def split: option.split)
  ultimately show ?case using create unfolding view_ok_def by simp
next
  case (pay i u a v w)
  show ?case by (rule view_ok_update) (use pay view_okD [OF pay(3,1)] in \<open>auto simp: expected_moves_def move_order_def\<close>)
next
  case (close i u a v)
  have "view_ok (v\<lparr>pv_orders := view_status i ''closed'' (pv_orders v), pv_moves := pv_moves v @ []\<rparr>)"
    by (rule view_ok_update) (use close view_okD [OF close(2,1)] in \<open>auto simp: expected_moves_def split: option.splits\<close>)
  then show ?case by simp
next
  case (refund i u a v w)
  show ?case by (rule view_ok_update)
      (use refund view_okD [OF refund(3,1)] in \<open>auto simp: expected_moves_def move_order_def\<close>)
qed

lemma pay_steps_ok: "pay_step\<^sup>*\<^sup>* v v' \<Longrightarrow> view_ok v \<Longrightarrow> view_ok v'"
  by (induction rule: rtranclp_induct) (auto intro: pay_step_ok)

section \<open>The handlers refine the process\<close>

lemma order_view_status: "map order_view (set_status i st xs) = view_status i st (map order_view xs)"
  by (simp add: view_status_def set_status_def order_view_def)

lemma map_of_owner: "map_of (map (\<lambda>w. (w_user w, w_id w)) ws) u = map_option w_id (find (\<lambda>w. w_user w = u) ws)"
  by (induction ws) auto

lemma owner_of: "wallet_of u d = Some w \<Longrightarrow> map_of (pv_owner (pay_abs d)) u = Some (w_id w)"
  by (simp add: pay_abs_def map_of_owner wallet_of_def)

lemma view_mem: "x \<in> set (orders d) \<Longrightarrow> (po_id x, po_user x, po_amount x, po_status x) \<in> set (pv_orders (pay_abs d))"
  by (force simp: pay_abs_def order_view_def)

lemma owners_move_money: "map (\<lambda>w. (w_user w, w_id w)) (wallets (move_money wid ty ref a d)) = map (\<lambda>w. (w_user w, w_id w)) (wallets d)"
  by (simp add: move_money_def Let_def)

lemma moves_move_money: "ty = ''topup'' \<or> ty = ''refund'' \<Longrightarrow>
   map move_view (filter pay_entry (ledger (move_money wid ty ref a d))) = map move_view (filter pay_entry (ledger d)) @ [(wid, ty, ref, a)]"
  by (auto simp: move_money_def Let_def pay_entry_def move_view_def)

lemma paid_effect_step:
  assumes "x \<in> set (orders d)" "paid_effect x w d d'"
  shows "pay_step (pay_abs d) (pay_abs d')"
proof -
  have "pay_abs d' = (pay_abs d)\<lparr>pv_orders := view_status (po_id x) ''paid'' (pv_orders (pay_abs d)),
      pv_moves := pv_moves (pay_abs d) @ [(w_id w, ''topup'', po_id x, po_amount x)]\<rparr>"
    using assms(2) by (simp add: paid_effect_def pay_abs_def owners_move_money moves_move_money order_view_status)
  moreover have "(po_id x, po_user x, po_amount x, ''pending'') \<in> set (pv_orders (pay_abs d))"
    using view_mem [OF assms(1)] assms(2) by (simp add: paid_effect_def)
  moreover have "map_of (pv_owner (pay_abs d)) (po_user x) = Some (w_id w)"
    using assms(2) by (simp add: paid_effect_def owner_of)
  ultimately show ?thesis by (simp add: pay_step.pay)
qed

lemma refund_effect_step:
  assumes "x \<in> set (orders d)" "refund_effect x w d d'"
  shows "pay_step (pay_abs d) (pay_abs d')"
proof -
  have "pay_abs d' = (pay_abs d)\<lparr>pv_orders := view_status (po_id x) ''refunded'' (pv_orders (pay_abs d)),
      pv_moves := pv_moves (pay_abs d) @ [(w_id w, ''refund'', po_id x, - po_amount x)]\<rparr>"
    using assms(2) by (simp add: refund_effect_def pay_abs_def owners_move_money moves_move_money order_view_status)
  moreover have "(po_id x, po_user x, po_amount x, ''paid'') \<in> set (pv_orders (pay_abs d))"
    using view_mem [OF assms(1)] assms(2) by (simp add: refund_effect_def)
  moreover have "map_of (pv_owner (pay_abs d)) (po_user x) = Some (w_id w)"
    using assms(2) by (simp add: refund_effect_def owner_of)
  ultimately show ?thesis by (simp add: pay_step.refund)
qed

lemma pay_abs_money_part: "money_part d' = money_part d \<Longrightarrow> pay_abs d' = pay_abs d"
  by (simp add: money_part_def pay_abs_def)

datatype payment_request =
    UpdatePaymentSettings "string \<Rightarrow> url option" "string \<Rightarrow> string \<Rightarrow> string result" principal string "settings_request result"
  | CreatePaymentOrder checkout_env principal string "order_request result"
  | MarkPaymentPaid principal string
  | EpayCallback "string \<Rightarrow> string" "string \<Rightarrow> string \<Rightarrow> string result" "(string \<times> string list) list result"
  | RefundPayment "string \<Rightarrow> bool" principal int string string "string result"
  | CloseOrder principal string string

fun serve_payment :: "payment_request \<Rightarrow> (db, response, response) tx" where
  "serve_payment (UpdatePaymentSettings u e p prov b) = updatePaymentSettings u e p prov b"
| "serve_payment (CreatePaymentOrder ce p i b) = createPaymentOrder ce p i b"
| "serve_payment (MarkPaymentPaid p oid) = markPaymentPaid p oid"
| "serve_payment (EpayCallback md5 dec f) = epayCallback md5 dec f"
| "serve_payment (RefundPayment v p now i oid b) = refundPayment v p now i oid b"
| "serve_payment (CloseOrder p oid m) = close_order p oid m"

definition pay_step_or_same :: "payview \<Rightarrow> payview \<Rightarrow> bool" where
  "pay_step_or_same v v' = (v' = v \<or> pay_step v v')"

lemma createPaymentOrder_step:
  assumes "run (createPaymentOrder ce p i b) no_faults d = (r, d')"
  shows "pay_step_or_same (pay_abs d) (pay_abs d')"
proof -
  from createPaymentOrder_effect [OF assms] consider "d' = d" | x where "d' = d\<lparr>orders := orders d @ [x]\<rparr>"
    "po_status x = ''pending''" "0 < po_amount x" "po_id x \<notin> po_id ` set (orders d)" by blast
  then show ?thesis
  proof cases
    case 2
    have "po_id x \<notin> fst ` set (pv_orders (pay_abs d))" using 2(4) by (auto simp: pay_abs_def order_view_def)
    from pay_step.create [OF this 2(3), of "po_user x"] show ?thesis
      using 2(1,2) by (simp add: pay_step_or_same_def pay_abs_def order_view_def)
  qed (simp add: pay_step_or_same_def)
qed

lemma close_order_step:
  assumes "run (close_order p oid m) no_faults d = (r, d')"
  shows "pay_step_or_same (pay_abs d) (pay_abs d')"
proof -
  from close_order_effect [OF assms] consider "pay_abs d' = pay_abs d"
    | x where "order_of oid d = Some x" "po_status x = ''pending''"
      "pay_abs d' = (pay_abs d)\<lparr>pv_orders := view_status oid ''closed'' (pv_orders (pay_abs d))\<rparr>"
    by (auto simp: pay_abs_def order_view_status)
  then show ?thesis
  proof cases
    case 2
    then show ?thesis using pay_step.close [of oid "po_user x" "po_amount x" "pay_abs d"] view_mem [of x d] order_of_Some [OF 2(1)]
      by (auto simp: pay_step_or_same_def)
  qed (simp add: pay_step_or_same_def)
qed

lemma serve_payment_step:
  assumes "ledger_ok d"
  shows "pay_step_or_same (pay_abs d) (pay_abs (snd (run (serve_payment q) no_faults d)))"
proof -
  obtain r d' where r: "run (serve_payment q) no_faults d = (r, d')" by fastforce
  have "pay_step_or_same (pay_abs d) (pay_abs d')"
  proof (cases q)
    case (UpdatePaymentSettings u e p prov b)
    then show ?thesis using r unchanged_run [OF unchanged_updatePaymentSettings, of u e p prov b no_faults d] pay_abs_money_part [of d' d]
      by (auto simp: pay_step_or_same_def)
  next
    case (CreatePaymentOrder ce p i b)
    then show ?thesis using r createPaymentOrder_step by simp
  next
    case (MarkPaymentPaid p oid)
    then show ?thesis using r markPaymentPaid_effect [OF assms, of p oid r d']
      by (auto simp: pay_step_or_same_def dest: order_of_Some intro: paid_effect_step)
  next
    case (EpayCallback md5 dec f)
    then show ?thesis using r epayCallback_effect [OF assms, of md5 dec f r d']
      by (auto simp: pay_step_or_same_def intro: paid_effect_step)
  next
    case (RefundPayment v p now i oid b)
    then show ?thesis using r refundPayment_effect [OF assms, of v p now i oid b r d'] pay_abs_money_part [of d' d]
      by (auto simp: pay_step_or_same_def dest: order_of_Some intro: refund_effect_step)
  next
    case (CloseOrder p oid m)
    then show ?thesis using r close_order_step by simp
  qed
  then show ?thesis using r by simp
qed

lemma transactional_serve_payment: "transactional payment_errors (serve_payment q)"
  by (cases q) (simp_all add: tx_intros)

lemma serve_payment_step_any:
  assumes "ledger_ok d"
  shows "pay_step_or_same (pay_abs d) (pay_abs (snd (run (serve_payment q) flt d)))"
  using run_transactional [OF transactional_serve_payment, of q flt d] serve_payment_step [OF assms, of q]
  by (auto simp: pay_step_or_same_def)

section \<open>The payment handlers are a ledger service\<close>

lemma paid_effect_keeps:
  assumes "ledger_ok d" "0 < po_amount x" "paid_effect x w d d'"
  shows "ledger_ok d'"
proof -
  have w: "w \<in> set (wallets d)" using assms(3) by (auto simp: paid_effect_def dest: wallet_of_Some)
  have "ledger_ok (move_money (w_id w) ''topup'' (po_id x) (po_amount x) d)"
    using assms w ledger_ok_range [OF assms(1) w] by (intro ledger_ok_move_money) (auto simp: paid_effect_def in64_def)
  then show ?thesis using assms(3) by (auto simp: paid_effect_def ledger_ok_def)
qed

lemma refund_effect_keeps:
  assumes "ledger_ok d" "refund_effect x w d d'"
  shows "ledger_ok d'"
proof -
  have w: "w \<in> set (wallets d)" using assms(2) by (auto simp: refund_effect_def dest: wallet_of_Some)
  have "ledger_ok (move_money (w_id w) ''refund'' (po_id x) (- po_amount x) d)"
    using assms w ledger_ok_range [OF assms(1) w] by (intro ledger_ok_move_money) (auto simp: refund_effect_def)
  then show ?thesis using assms(2) by (auto simp: refund_effect_def ledger_ok_def)
qed

lemma order_views_positive:
  "map order_view (orders d') = map order_view (set_status i st (orders d)) \<Longrightarrow> \<forall>x \<in> set (orders d). 0 < po_amount x \<Longrightarrow>
   \<forall>x \<in> set (orders d'). 0 < po_amount x"
proof -
  assume "map order_view (orders d') = map order_view (set_status i st (orders d))"
  then have "map (fst \<circ> snd \<circ> snd) (map order_view (orders d')) = map (fst \<circ> snd \<circ> snd) (map order_view (set_status i st (orders d)))"
    by simp
  then have "map po_amount (orders d') = map po_amount (orders d)"
    by (auto simp: order_view_def o_def set_status_def if_distrib cong: if_cong)
  moreover assume "\<forall>x \<in> set (orders d). 0 < po_amount x"
  ultimately show ?thesis by (metis image_iff image_set)
qed

lemma money_ok_money_part: "money_part d' = money_part d \<Longrightarrow> money_ok d' = money_ok d"
  by (auto simp: money_part_def money_ok_def ledger_ok_def)

lemma serve_payment_keeps:
  assumes "money_ok d"
  shows "money_ok (snd (run (serve_payment q) no_faults d))"
proof -
  have ok: "ledger_ok d" and pos: "\<forall>x \<in> set (orders d). 0 < po_amount x" using assms by (auto simp: money_ok_def)
  have paid: "money_ok d'" if "x \<in> set (orders d)" "paid_effect x w d d'" for x w d'
    using paid_effect_keeps [OF ok _ that(2)] pos that order_views_positive [of d' "po_id x" "''paid''" d]
    by (auto simp: money_ok_def paid_effect_def)
  have refunded: "money_ok d'" if "refund_effect x w d d'" for x w d'
    using refund_effect_keeps [OF ok that] pos that order_views_positive [of d' "po_id x" "''refunded''" d]
    by (auto simp: money_ok_def refund_effect_def)
  obtain r d' where r: "run (serve_payment q) no_faults d = (r, d')" by fastforce
  have "money_ok d'"
  proof (cases q)
    case (UpdatePaymentSettings u e p prov b)
    then show ?thesis using r unchanged_run [OF unchanged_updatePaymentSettings, of u e p prov b no_faults d]
        money_ok_money_part [of d' d] assms by simp
  next
    case (CreatePaymentOrder ce p i b)
    then have "d' = d \<or> (\<exists>x. d' = d\<lparr>orders := orders d @ [x]\<rparr> \<and> 0 < po_amount x)"
      using r createPaymentOrder_effect [of ce p i b d r d'] by auto
    then show ?thesis using assms by (auto simp: money_ok_def ledger_ok_def)
  next
    case (MarkPaymentPaid p oid)
    then show ?thesis using r markPaymentPaid_effect [OF ok, of p oid r d'] assms
      by (auto dest: order_of_Some intro: paid)
  next
    case (EpayCallback md5 dec f)
    then show ?thesis using r epayCallback_effect [OF ok, of md5 dec f r d'] assms by (auto intro: paid)
  next
    case (RefundPayment v p now i oid b)
    then show ?thesis using r refundPayment_effect [OF ok, of v p now i oid b r d'] assms money_ok_money_part [of d' d]
      by (auto intro: refunded)
  next
    case (CloseOrder p oid m)
    then show ?thesis using r close_order_effect [of p oid m d r d'] assms
      by (auto simp: money_ok_def ledger_ok_def set_status_def)
  qed
  then show ?thesis using r by simp
qed

lemma framed_serve_payment: "framed (serve_payment q)"
  by (cases q) (simp_all add: frame_intros)

interpretation payment_service: ledger_service serve_payment "\<lambda>_. True" payment_errors
  using framed_run [OF framed_serve_payment]
  by unfold_locales (simp_all add: transactional_serve_payment serve_payment_keeps frame_def)

section \<open>Theorems\<close>


definition example_pay_db :: db where
  "example_pay_db = example_wallet_db\<lparr>orders := [\<lparr>po_id = ''O'', po_user = ''U'', po_provider = ''manual'', po_type = [],
     po_amount = 700, po_status = ''pending'', po_key = ''k'', po_ref = None\<rparr>]\<rparr>"

lemma example_pay_db_ok: "money_ok example_pay_db"
  using example_wallet_db_ok(1) by (simp add: example_pay_db_def money_ok_def ledger_ok_def)


lemma paid_effect_status:
  assumes "paid_effect x w d d'" "y \<in> set (orders d')" "po_id y = po_id x"
  shows "po_status y = ''paid''"
proof -
  have "map order_view (orders d') = view_status (po_id x) ''paid'' (map order_view (orders d))"
    using assms(1) by (simp add: paid_effect_def order_view_status)
  moreover have "order_view y \<in> set (map order_view (orders d'))" using assms(2) by simp
  ultimately have "order_view y \<in> set (view_status (po_id x) ''paid'' (map order_view (orders d)))" by metis
  then show ?thesis using assms(3) by (auto simp: view_status_def order_view_def)
qed

lemma callback_settled:
  assumes "ledger_ok d" "\<forall>x \<in> set (orders d). po_id x = oid \<longrightarrow> po_status x \<noteq> ''pending''"
    "trim_space (sget (form_values f) ''out_trade_no'') = oid"
  shows "snd (run (epayCallback md5 dec (Inr f)) flt d) = d"
proof -
  obtain r d' where r: "run (epayCallback md5 dec (Inr f)) no_faults d = (r, d')" by fastforce
  from epayCallback_effect [OF assms(1) r] have "d' = d"
    using assms(2,3) by (auto simp: callback_authentic_def Let_def paid_effect_def)
  then show ?thesis using r run_transactional [OF transactional_epayCallback, of md5 dec "Inr f" flt d] by auto
qed

lemma markPaid_settled:
  assumes "ledger_ok d" "\<forall>x \<in> set (orders d). po_id x = oid \<longrightarrow> po_status x \<noteq> ''pending''"
  shows "snd (run (markPaymentPaid p oid) flt d) = d"
proof -
  obtain r d' where r: "run (markPaymentPaid p oid) no_faults d = (r, d')" by fastforce
  from markPaymentPaid_effect [OF assms(1) r] have "d' = d"
    using assms(2) by (auto simp: paid_effect_def dest: order_of_Some)
  then show ?thesis using r run_transactional [OF transactional_markPaymentPaid, of p oid flt d] by auto
qed

lemma paid_wallet:
  assumes "ledger_ok d" "paid_effect x w d d'"
  shows "wallet_of (po_user x) d' = Some (w\<lparr>w_balance := w_balance w + po_amount x, w_version := w_version w + 1\<rparr>)"
proof -
  have w: "wallet_of (po_user x) d = Some w" using assms(2) by (simp add: paid_effect_def)
  have "wallet_of (po_user x) d' = wallet_of (po_user x) (move_money (w_id w) ''topup'' (po_id x) (po_amount x) d)"
    using assms(2) by (simp add: wallet_of_def paid_effect_def)
  then show ?thesis using w ledger_ok_balance [OF assms(1)] wallet_of_Some [OF w] by (simp add: wallet_of_move_money)
qed

text \<open>C40: A callback changes the database only if it carries a valid signature, the configured merchant and
  the exact amount of a pending EPay order.  The owner's wallet is then credited that amount, and
  afterwards neither another callback for the order nor a manual confirmation, whatever its content
  and under any faults, changes the database.\<close>

theorem callback_credits_once:
  assumes "money_ok d" "run (epayCallback md5 dec b) flt d = (r, d')" "d' \<noteq> d"
  shows "\<exists>f x w. b = Inr f \<and> x \<in> set (orders d) \<and> po_status x = ''pending'' \<and> callback_authentic md5 dec f x d \<and>
     wallet_of (po_user x) d = Some w \<and>
     wallet_of (po_user x) d' = Some (w\<lparr>w_balance := w_balance w + po_amount x, w_version := w_version w + 1\<rparr>) \<and>
     (\<forall>md5' dec' f' flt'. trim_space (sget (form_values f') ''out_trade_no'') = po_id x \<longrightarrow>
        snd (run (epayCallback md5' dec' (Inr f')) flt' d') = d') \<and>
     (\<forall>p flt'. snd (run (markPaymentPaid p (po_id x)) flt' d') = d')"
proof -
  have ok: "ledger_ok d" using assms(1) by (simp add: money_ok_def)
  have nf: "run (epayCallback md5 dec b) no_faults d = (r, d')"
    using run_transactional [OF transactional_epayCallback, of md5 dec b flt d] assms(2,3) by auto
  from epayCallback_effect [OF ok this] assms(3) obtain f x w where e: "b = Inr f" "x \<in> set (orders d)"
    "callback_authentic md5 dec f x d" "paid_effect x w d d'" by blast
  have ok': "ledger_ok d'" using serve_payment_keeps [OF assms(1), of "EpayCallback md5 dec b"] nf by (simp add: money_ok_def)
  have settled: "\<forall>y \<in> set (orders d'). po_id y = po_id x \<longrightarrow> po_status y \<noteq> ''pending''"
    using paid_effect_status [OF e(4)] by fastforce
  have "po_status x = ''pending''" "wallet_of (po_user x) d = Some w" using e(4) by (simp_all add: paid_effect_def)
  then show ?thesis
    using e paid_wallet [OF ok e(4)] callback_settled [OF ok' settled] markPaid_settled [OF ok' settled] by blast
qed

definition example_form :: "(string \<times> string list) list" where
  "example_form = [(''pid'', [''7'']), (''out_trade_no'', [''E'']), (''trade_no'', [''T1'']), (''money'', [''7.00'']),
     (''trade_status'', [''SUCCESS'']), (''sign_type'', [''MD5'']), (''sign'', [''61''])]"

definition example_epay_db :: db where
  "example_epay_db = example_wallet_db\<lparr>
     providers := [\<lparr>pc_provider = ''epay'', pc_enabled = True, pc_merchant = ''7'', pc_endpoint = ''u'', pc_secret = ''s'',
        pc_type = ''alipay'', pc_methods = [], pc_amounts = []\<rparr>],
     orders := [\<lparr>po_id = ''E'', po_user = ''U'', po_provider = ''epay'', po_type = ''alipay'', po_amount = 700,
        po_status = ''pending'', po_key = ''k'', po_ref = None\<rparr>]\<rparr>"

lemma example_epay_db_ok: "money_ok example_epay_db"
  using example_wallet_db_ok(1) by (simp add: example_epay_db_def money_ok_def ledger_ok_def)

lemma example_callback_trims:
  "trim_space ''7'' = ''7''" "trim_space ''E'' = ''E''" "trim_space ''T1'' = ''T1''" "trim_space ''7.00'' = ''7.00''"
  "trim_space ''SUCCESS'' = ''SUCCESS''" "trim_space ''MD5'' = ''MD5''" "trim_space ''61'' = ''61''"
  by (simp_all add: trim_space_visible visible_def byte_def)

lemma example_callback_parts:
  "parseAmountCents ''7.00'' = Inr 700" "equal_fold ''MD5'' ''MD5''" "to_lower ''61'' = ''61''"
  "epaySignature (\<lambda>_. ''a'') vs s = ''61''"
  by (simp add: parseAmountCents_def example_callback_trims has_prefix_def atoi_def pad_frac_def is_digit_def byte_def digits_val_def)
     (simp add: equal_fold_def, code_simp, simp add: epaySignature_def hex_encode_def byte_def hex_digit_def, code_simp)

lemma example_callback_runs:
  "ledger (snd (run (epayCallback (\<lambda>_. ''a'') (\<lambda>_ s. Inr s) (Inr example_form)) no_faults example_epay_db)) \<noteq> ledger example_epay_db"
  by (simp add: run_simps epayCallback_def Let_def example_form_def form_values_def sget_def example_callback_trims
      example_callback_parts example_epay_db_def example_wallet_db_def empty_db_def config_of_def wallet_of_def ledger_insert_def
      wallet_add_def order_paid_epay_def order_update_def order_event_def in64_def)

theorem callback_credits_once_witness:
  "\<exists>r d' w. run (epayCallback (\<lambda>_. ''a'') (\<lambda>_ s. Inr s) (Inr example_form)) no_faults example_epay_db = (r, d') \<and>
     wallet_of ''U'' d' = Some w \<and> w_balance w = 700 \<and>
     snd (run (epayCallback (\<lambda>_. ''a'') (\<lambda>_ s. Inr s) (Inr example_form)) no_faults d') = d'"
proof -
  let ?m = "epayCallback (\<lambda>_. ''a'') (\<lambda>_ s. Inr s) (Inr example_form)"
  obtain r d' where r: "run ?m no_faults example_epay_db = (r, d')" by fastforce
  have "d' \<noteq> example_epay_db" using example_callback_runs r by auto
  from callback_credits_once [OF example_epay_db_ok r this] obtain x w where x: "x \<in> set (orders example_epay_db)"
    "wallet_of (po_user x) example_epay_db = Some w"
    "wallet_of (po_user x) d' = Some (w\<lparr>w_balance := w_balance w + po_amount x, w_version := w_version w + 1\<rparr>)"
    "\<forall>md5' dec' f' flt'. trim_space (sget (form_values f') ''out_trade_no'') = po_id x \<longrightarrow>
        snd (run (epayCallback md5' dec' (Inr f')) flt' d') = d'" by blast
  have f: "trim_space (sget (form_values example_form) ''out_trade_no'') = ''E''"
    by (simp add: example_form_def form_values_def sget_def example_callback_trims)
  have "po_user x = ''U'' \<and> po_amount x = 700 \<and> po_id x = ''E'' \<and> w_balance w = 0"
    using x(1,2) by (auto simp: example_epay_db_def example_wallet_db_def empty_db_def wallet_of_def)
  with x r f show ?thesis by auto
qed

lemma refund_effect_status:
  assumes "refund_effect x w d d'" "y \<in> set (orders d')" "po_id y = po_id x"
  shows "po_status y = ''refunded''"
proof -
  have "map order_view (orders d') = view_status (po_id x) ''refunded'' (map order_view (orders d))"
    using assms(1) by (simp add: refund_effect_def order_view_status)
  moreover have "order_view y \<in> set (map order_view (orders d'))" using assms(2) by simp
  ultimately have "order_view y \<in> set (view_status (po_id x) ''refunded'' (map order_view (orders d)))" by metis
  then show ?thesis using assms(3) by (auto simp: view_status_def order_view_def)
qed

lemma refund_settled:
  assumes "\<forall>x \<in> set (orders d). po_id x = oid \<longrightarrow> po_status x = ''refunded''"
  shows "snd (run (refundPayment v p now i oid b) flt d) = d"
proof -
  have "snd (run (refundPayment v p now i oid b) no_faults d) = d"
  proof (cases "order_of oid d")
    case (Some x)
    then have "po_status x = ''refunded''" using assms order_of_Some by blast
    then show ?thesis using Some by (cases b) (simp_all add: run_simps refundPayment_def Let_def split: option.split prod.split)
  qed (cases b; simp add: run_simps refundPayment_def Let_def)
  then show ?thesis using run_transactional [OF transactional_refundPayment, of v p now i oid b flt d] by auto
qed

text \<open>A refund answered with success that changed the database took the full amount of a paid manual
  order from its owner's wallet, which held at least that much; the order's events go through
  refunding; further refund requests for the order, under any faults, change nothing.\<close>

theorem refund_takes_amount_once:
  assumes "money_ok d" "run (refundPayment v p now i oid b) flt d = (r, d')" "d' \<noteq> d" "status_of r = 200"
  shows "\<exists>x w. x \<in> set (orders d) \<and> po_id x = oid \<and> po_status x = ''paid'' \<and> po_provider x = ''manual'' \<and>
     wallet_of (po_user x) d = Some w \<and> po_amount x \<le> w_balance w \<and>
     wallet_of (po_user x) d' = Some (w\<lparr>w_balance := w_balance w - po_amount x, w_version := w_version w + 1\<rparr>) \<and>
     map oe_to (order_events d') = map oe_to (order_events d) @ [''refunding'', ''refunded''] \<and>
     (\<forall>v' p' now' i' b' flt'. snd (run (refundPayment v' p' now' i' oid b') flt' d') = d')"
proof -
  have lok: "ledger_ok d" using assms(1) by (simp add: money_ok_def)
  have nf: "run (refundPayment v p now i oid b) no_faults d = (r, d')"
    using run_transactional [OF transactional_refundPayment, of v p now i oid b flt d] assms(2,3) by auto
  from refundPayment_effect [OF lok this] assms(3,4) obtain x w where e: "order_of oid d = Some x" "refund_effect x w d d'"
    by blast
  have x: "x \<in> set (orders d)" "po_id x = oid" using order_of_Some [OF e(1)] by simp_all
  have w: "wallet_of (po_user x) d = Some w" using e(2) by (simp add: refund_effect_def)
  have "wallet_of (po_user x) d' = wallet_of (po_user x) (move_money (w_id w) ''refund'' (po_id x) (- po_amount x) d)"
    using e(2) by (simp add: wallet_of_def refund_effect_def)
  then have w': "wallet_of (po_user x) d' = Some (w\<lparr>w_balance := w_balance w - po_amount x, w_version := w_version w + 1\<rparr>)"
    using w ledger_ok_balance [OF lok] wallet_of_Some [OF w] by (simp add: wallet_of_move_money)
  have settled: "\<forall>y \<in> set (orders d'). po_id y = oid \<longrightarrow> po_status y = ''refunded''"
    by (simp add: refund_effect_status [OF e(2)] x(2))
  have "po_status x = ''paid''" "po_provider x = ''manual''" "po_amount x \<le> w_balance w"
    "map oe_to (order_events d') = map oe_to (order_events d) @ [''refunding'', ''refunded'']"
    using e(2) unfolding refund_effect_def by simp_all
  with x w w' refund_settled [OF settled] show ?thesis by blast
qed

definition example_paid_db :: db where
  "example_paid_db = snd (run (markPaymentPaid example_admin ''O'') no_faults example_pay_db)"

lemma example_paid_db_ok: "money_ok example_paid_db"
  using serve_payment_keeps [OF example_pay_db_ok, of "MarkPaymentPaid example_admin ''O''"] by (simp add: example_paid_db_def)

lemmas example_refund_simps = run_simps markPaymentPaid_def refundPayment_def example_paid_db_def example_pay_db_def
  example_wallet_db_def empty_db_def order_of_def Let_def wallet_of_def ledger_insert_def wallet_add_def wallet_set_def
  order_update_def order_event_def audit_def in64_def wrap64_def refund_insert_def refund_event_def refund_succeed_def
  supportsImmediateRefund_def example_admin_def next_entry_id_def

lemma example_refund_runs:
  assumes "refund_reason ''x'' = ''x''" "\<not> refundReasonTooLong ''x''"
  shows "status_of (fst (run (refundPayment (\<lambda>_. True) example_admin 5 ''R'' ''O'' (Inr ''x'')) no_faults example_paid_db)) = 200"
    and "length (ledger (snd (run (refundPayment (\<lambda>_. True) example_admin 5 ''R'' ''O'' (Inr ''x'')) no_faults example_paid_db))) = 2"
    and "length (ledger example_paid_db) = 1"
  using assms by (simp_all add: example_refund_simps)

theorem refund_takes_amount_once_witness:
  "\<exists>r d' w w'. run (refundPayment (\<lambda>_. True) example_admin 5 ''R'' ''O'' (Inr ''x'')) no_faults example_paid_db = (r, d') \<and>
     wallet_of ''U'' example_paid_db = Some w \<and> wallet_of ''U'' d' = Some w' \<and> w_balance w' = w_balance w - 700"
proof -
  obtain r d' where r: "run (refundPayment (\<lambda>_. True) example_admin 5 ''R'' ''O'' (Inr ''x'')) no_faults example_paid_db = (r, d')"
    by fastforce
  have reason: "refund_reason ''x'' = ''x''" "\<not> refundReasonTooLong ''x''"
    by (simp_all add: refund_reason_def Let_def) code_simp
  have ne: "d' \<noteq> example_paid_db" and ok: "status_of r = 200" using example_refund_runs [OF reason] r by auto
  from refund_takes_amount_once [OF example_paid_db_ok r ne ok] obtain x w where x: "x \<in> set (orders example_paid_db)"
    "wallet_of (po_user x) example_paid_db = Some w"
    "wallet_of (po_user x) d' = Some (w\<lparr>w_balance := w_balance w - po_amount x, w_version := w_version w + 1\<rparr>)" by blast
  have "po_user x = ''U'' \<and> po_amount x = 700" using x(1) by (simp add: example_refund_simps)
  with x r show ?thesis by auto
qed

section \<open>Order events\<close>

definition valid_event :: "order_event \<Rightarrow> bool" where
  "valid_event e = (\<exists>a b. oe_from e = order_text a \<and> oe_to e = order_text b \<and> ok (ValidateOrderTransition a b))"

lemma valid_events [simp]:
  "valid_event \<lparr>oe_order = i, oe_from = ''pending'', oe_to = ''paid'', oe_message = m\<rparr>"
  "valid_event \<lparr>oe_order = i, oe_from = ''pending'', oe_to = ''closed'', oe_message = m\<rparr>"
  "valid_event \<lparr>oe_order = i, oe_from = ''paid'', oe_to = ''refunding'', oe_message = m\<rparr>"
  "valid_event \<lparr>oe_order = i, oe_from = ''refunding'', oe_to = ''refunded'', oe_message = m\<rparr>"
  unfolding valid_event_def
     apply (rule exI [of _ OrderPending], rule exI [of _ OrderPaid], simp)
    apply (rule exI [of _ OrderPending], rule exI [of _ OrderClosed], simp)
   apply (rule exI [of _ OrderPaid], rule exI [of _ OrderRefunding], simp)
  apply (rule exI [of _ OrderRefunding], rule exI [of _ OrderRefunded], simp)
  done

lemma serve_payment_events:
  assumes "ledger_ok d"
  shows "\<exists>es. order_events (snd (run (serve_payment q) no_faults d)) = order_events d @ es \<and> (\<forall>e \<in> set es. valid_event e)"
proof -
  obtain r d' where r: "run (serve_payment q) no_faults d = (r, d')" by fastforce
  have same: ?thesis if "order_events d' = order_events d" using that r by (intro exI [of _ "[]"]) simp
  have paid: ?thesis if "paid_effect x w d d'" for x w using that r by (auto simp: paid_effect_def)
  show ?thesis
  proof (cases q)
    case (UpdatePaymentSettings u e p prov b)
    then show ?thesis using r unchanged_run [OF unchanged_updatePaymentSettings, of u e p prov b no_faults d]
      by (intro same) (simp add: money_part_def)
  next
    case (CreatePaymentOrder ce p i b)
    then show ?thesis using r createPaymentOrder_effect [of ce p i b d r d'] by (intro same) auto
  next
    case (MarkPaymentPaid p oid)
    then show ?thesis using r markPaymentPaid_effect [OF assms, of p oid r d'] paid same by auto
  next
    case (EpayCallback md5 dec f)
    then show ?thesis using r epayCallback_effect [OF assms, of md5 dec f r d'] paid same by auto
  next
    case (RefundPayment v p now i oid b)
    then show ?thesis using r refundPayment_effect [OF assms, of v p now i oid b r d'] same
      by (auto simp: money_part_def refund_effect_def)
  next
    case (CloseOrder p oid m)
    then show ?thesis using r close_order_effect [of p oid m d r d'] same by auto
  qed
qed

text \<open>Every event a payment handler records is a transition that \<^verbatim>\<open>ValidateOrderTransition\<close> allows, and
  recorded events are never removed.\<close>

theorem order_events_valid:
  assumes "money_ok d"
  shows "\<exists>es. order_events (snd (run (serve_payment q) flt d)) = order_events d @ es \<and> (\<forall>e \<in> set es. valid_event e)"
  using run_transactional [OF transactional_serve_payment, of q flt d] serve_payment_events [of d q] assms
  by (auto simp: money_ok_def)

theorem order_events_valid_witness:
  "\<exists>es. order_events (snd (run (serve_payment (MarkPaymentPaid example_admin ''O'')) no_faults example_pay_db)) =
     order_events example_pay_db @ es \<and> list_all valid_event es"
  using order_events_valid [OF example_pay_db_ok, of "MarkPaymentPaid example_admin ''O''" no_faults] by (simp add: list_all_iff)

section \<open>Provider operations and wallet requests\<close>

lemma pay_abs_wallet_map:
  "(\<And>w. w_user (f w) = w_user w \<and> w_id (f w) = w_id w) \<Longrightarrow> pay_abs (d\<lparr>wallets := map f (wallets d)\<rparr>) = pay_abs d"
  by (simp add: pay_abs_def)

lemma pay_abs_ledger_insert:
  "ledger_insert w t r a b d = Some (i, d') \<Longrightarrow> t \<noteq> ''topup'' \<Longrightarrow> t \<noteq> ''refund'' \<Longrightarrow> pay_abs d' = pay_abs d"
  by (auto simp: ledger_insert_def pay_abs_def pay_entry_def split: if_splits)

lemma unchanged_pay_insert [unchanged_intros]:
  "t \<noteq> ''topup'' \<Longrightarrow> t \<noteq> ''refund'' \<Longrightarrow> unchanged pay_abs (exec err (ledger_insert w t r a b))"
  by (rule unchanged_exec) (rule pay_abs_ledger_insert)

lemma unchanged_pay_statements [unchanged_intros]:
  "unchanged pay_abs (exec err (wallet_set p b))"
  "unchanged pay_abs (exec err (wallet_add w a))" "unchanged pay_abs (exec err (audit x1 x2 x3 x4 x5 x6))"
  "unchanged pay_abs (exec err (grant_insert g))" "unchanged pay_abs (exec err (checkin_insert c))"
  "unchanged pay_abs (exec err (\<lambda>d. Some (e1 d, d\<lparr>invites := f1 d\<rparr>)))"
  "unchanged pay_abs (exec err (\<lambda>d. Some (e2 d, d\<lparr>checkin_conf := f2 d\<rparr>)))"
  "unchanged pay_abs (exec err (\<lambda>d. Some (e3 d, d\<lparr>provider_ops := f3 d\<rparr>)))"
  by (rule unchanged_exec; auto simp: wallet_set_def wallet_add_def audit_def grant_insert_def
      checkin_insert_def pay_abs_def split: if_splits)+

lemma unchanged_pay_wallet: "unchanged pay_abs (serve_wallet q)"
  by (cases q; simp only: serve_wallet.simps adjustWallet_def grantCredit_def performCheckin_def
      updateCheckinSettings_def redeemInvite_def Let_def begin_tx_def; intro unchanged_intros; simp)

lemma unchanged_record: "unchanged money_part (recordPaymentOperation p oid prov op res st msg)"
  unfolding recordPaymentOperation_def
  by (intro unchanged_intros unchanged_exec; auto simp: money_part_def audit_def)

lemma close_order_any:
  "snd (run (close_order p oid m) flt d) = d \<or> run (close_order p oid m) flt d = run (close_order p oid m) no_faults d"
  using run_transactional [OF transactional_close_order, of p oid m flt d] by auto

lemma ClosePayment_closed:
  "ClosePayment impl v = Inr res \<Longrightarrow> impl = ManualProvider \<and> vr_status res = ''closed'' \<and> vo_status v \<in> {''pending'', ''closed''}"
  by (cases impl) (auto split: if_splits)

lemma paymentProvider_manual: "paymentProvider dec name qf d = Inr ManualProvider \<Longrightarrow> name = ''manual''"
  by (auto simp: paymentProvider_def split: if_splits option.splits)

lemma order_of_money_part: "money_part d1 = money_part d \<Longrightarrow> order_of oid d1 = order_of oid d"
  by (simp add: money_part_def order_of_def)

text \<open>Querying or closing an order at its provider moves no money.  The orders change at most by closing the
  named order, and only if the operation is \<^verbatim>\<open>close\<close> and it is a pending manual order.\<close>

theorem payment_operation_safe:
  assumes "paymentOperation dec p op oid flts d = (r, d')"
  shows "ledger d' = ledger d \<and> wallets d' = wallets d \<and> refunds d' = refunds d \<and>
    (orders d' = orders d \<or>
     (op = ''close'' \<and> orders d' = set_status oid ''closed'' (orders d) \<and>
      (\<exists>x. order_of oid d = Some x \<and> po_status x = ''pending'' \<and> po_provider x = ''manual'')))"
proof -
  have rec: "money_part d1 = money_part d" if "run (recordPaymentOperation p oid a1 a2 a3 a4 a5) f d = (b, d1)" for a1 a2 a3 a4 a5 f b d1
    using unchanged_run [OF unchanged_record, of p oid a1 a2 a3 a4 a5 f d] that by simp
  have same: ?thesis if "money_part d' = money_part d" using that by (simp add: money_part_def)
  show ?thesis
  proof (cases "money_part d' = money_part d")
    case False
    then obtain x impl v res d1 where x: "order_of oid d = Some x" "paymentProvider dec (po_provider x) (flts 1 0) d = Inr impl"
      "op = ''close''" "ClosePayment impl v = Inr res" "run (recordPaymentOperation p oid (po_provider x) op ''succeeded''
        (vr_status res) (vr_message res)) (flts 2) d = (True, d1)" "d' = snd (run (close_order p oid (vr_message res)) (flts 3) d1)"
      using assms by (auto simp: paymentOperation_def Let_def split: if_split_asm option.split_asm sum.split_asm prod.split_asm bool.split_asm dest: rec)
    have manual: "po_provider x = ''manual''" using paymentProvider_manual x(2) ClosePayment_closed [OF x(4)] by auto
    have d1: "money_part d1 = money_part d" using rec [OF x(5)] .
    then have "d' \<noteq> d1" using False by auto
    then have "run (close_order p oid (vr_message res)) no_faults d1 = (fst (run (close_order p oid (vr_message res)) no_faults d1), d')"
      using close_order_any [of p oid "vr_message res" "flts 3" d1] x(6) by auto
    from close_order_effect [OF this] show ?thesis
      using d1 x(1,3) manual order_of_money_part [OF d1] by (auto simp: money_part_def)
  qed (rule same)
qed

theorem payment_operation_safe_witness:
  "\<exists>r d'. paymentOperation (\<lambda>_ s. Inr s) example_admin ''close'' ''O'' (\<lambda>_. no_faults) example_pay_db = (r, d') \<and>
     ledger d' = ledger example_pay_db \<and> wallets d' = wallets example_pay_db"
proof -
  obtain r d' where r: "paymentOperation (\<lambda>_ s. Inr s) example_admin ''close'' ''O'' (\<lambda>_. no_faults) example_pay_db = (r, d')"
    by fastforce
  from payment_operation_safe [OF r] r show ?thesis by blast
qed

end
