(* ===== verification/Billing.thy ===== *)
theory Billing
  imports Wallets "HOL-Library.Product_Lexorder" "HOL-Library.List_Lexorder" "HOL-Library.Char_ord"
begin

text \<open>
  Metered billing in the worker (\<^verbatim>\<open>apps/worker/main.go\<close>): usage events are grouped into aggregates, an
  aggregate is priced, paid from live credit grants in order of expiry and then from the wallet, and
  recorded as a charge and a line of the monthly bill; when the money does not suffice, or what is left is
  below the reserve, the user's running applications are suspended.  The division of PostgreSQL's
  \<^verbatim>\<open>numeric\<close>, which rounds to a scale of its own, the clock, the local time format and generated
  identifiers are arguments.
\<close>

section \<open>How a worker pass ends\<close>

text \<open>A pass finds nothing to do, ends with a log line, or commits; \<open>Done\<close> names the containers that are stopped
  and removed after the commit.\<close>

datatype worker_end = Idle | Logged string | Done string "string list"

record billing_env =
  be_div :: "rat \<Rightarrow> rat \<Rightarrow> rat"
  be_rfc3339 :: "int \<Rightarrow> string"
  be_now :: int
  be_executor :: bool
  be_bill :: string
  be_job :: "string \<Rightarrow> string"
  be_nonce :: "string \<Rightarrow> string"

section \<open>Small functions\<close>

definition belowStartupReserve :: "int \<Rightarrow> int \<Rightarrow> bool" where
  "belowStartupReserve available reserve = (available < reserve)"

text \<open>Days since 1970 to year, month and day and back, in the proleptic Gregorian calendar.\<close>

definition civil_of_days :: "int \<Rightarrow> int \<times> int \<times> int" where
  "civil_of_days n =
    (let z = n + 719468; era = z div 146097; doe = z mod 146097;
         yoe = (doe - doe div 1460 + doe div 36524 - doe div 146096) div 365;
         doy = doe - (365 * yoe + yoe div 4 - yoe div 100);
         mp = (5 * doy + 2) div 153; d = doy - (153 * mp + 2) div 5 + 1;
         m = (if mp < 10 then mp + 3 else mp - 9);
         y = yoe + era * 400 + (if m \<le> 2 then 1 else 0)
     in (y, m, d))"

definition days_of_civil :: "int \<Rightarrow> int \<Rightarrow> int \<Rightarrow> int" where
  "days_of_civil y0 m d =
    (let y = (if m \<le> 2 then y0 - 1 else y0); era = y div 400; yoe = y mod 400;
         doy = (153 * (if m > 2 then m - 3 else m + 9) + 2) div 5 + d - 1;
         doe = yoe * 365 + yoe div 4 - yoe div 100 + doy
     in era * 146097 + doe - 719468)"

definition nanos_per_day :: int where "nanos_per_day = 86400 * 10 ^ 9"

definition period_start :: "int \<Rightarrow> int" where
  "period_start t = (case civil_of_days (t div nanos_per_day) of (y, m, d) \<Rightarrow> days_of_civil y m 1 * nanos_per_day)"

definition period_end :: "int \<Rightarrow> int" where
  "period_end t = (case civil_of_days (t div nanos_per_day) of (y, m, d) \<Rightarrow>
     (if m = 12 then days_of_civil (y + 1) 1 1 else days_of_civil y (m + 1) 1) * nanos_per_day)"

section \<open>Aggregation\<close>

text \<open>Unaggregated events, at most a thousand, are summed by key.  A new aggregate without a price is sealed at
  once; an event for an aggregate that is already sealed changes nothing but is marked as well.\<close>

definition agg_key :: "usage_event \<Rightarrow> string \<times> string option \<times> string \<times> int \<times> int \<times> string option" where
  "agg_key e = (ev_user e, ev_app e, ev_code e, ev_start e, ev_end e, ev_price e)"

definition ag_key :: "usage_aggregate \<Rightarrow> string \<times> string option \<times> string \<times> int \<times> int \<times> string option" where
  "ag_key a = (ag_user a, ag_app a, ag_code a, ag_start a, ag_end a, ag_price a)"

definition claimed_events :: "worker_db \<Rightarrow> usage_event list" where
  "claimed_events w = take 1000 (filter (\<lambda>e. ev_aggregated e = None) (events w))"

text \<open>The groups, each with its first event and its total.\<close>

definition group_key :: "usage_event \<Rightarrow> (string \<times> string option \<times> string \<times> int \<times> int \<times> string option) \<times> string" where
  "group_key e = (agg_key e, ev_unit e)"

definition grouped :: "usage_event list \<Rightarrow> (usage_event \<times> rat) list" where
  "grouped es = map (\<lambda>k. (the (find (\<lambda>e. group_key e = k) es), sum_list (map ev_quantity (filter (\<lambda>e. group_key e = k) es))))
     (remdups (map group_key es))"

definition write_group :: "int \<Rightarrow> usage_event \<times> rat \<Rightarrow> worker_db \<Rightarrow> worker_db" where
  "write_group now g w = (case g of (e, q) \<Rightarrow>
     if list_ex (\<lambda>a. ag_key a = agg_key e) (aggregates w)
     then w\<lparr>aggregates := map (\<lambda>a. if ag_key a = agg_key e \<and> ag_sealed a = None then a\<lparr>ag_quantity := ag_quantity a + q\<rparr> else a)
            (aggregates w)\<rparr>
     else w\<lparr>aggregates := aggregates w @ [\<lparr>ag_id = int (length (aggregates w)) + 1, ag_user = ev_user e, ag_app = ev_app e,
            ag_code = ev_code e, ag_unit = ev_unit e, ag_start = ev_start e, ag_end = ev_end e, ag_price = ev_price e,
            ag_quantity = q, ag_sealed = (if ev_price e = None then Some now else None),
            ag_disposition = (if ev_price e = None then ''unpriced'' else ''pending'')\<rparr>]\<rparr>)"

fun mark_first :: "nat \<Rightarrow> int \<Rightarrow> usage_event list \<Rightarrow> usage_event list" where
  "mark_first n now [] = []"
| "mark_first 0 now es = es"
| "mark_first (Suc n) now (e # es) =
    (if ev_aggregated e = None then e\<lparr>ev_aggregated := Some now\<rparr> # mark_first n now es else e # mark_first (Suc n) now es)"

text \<open>One statement may not change a row twice: two groups that differ only in the unit are an error unless their
  aggregate is sealed.\<close>

definition aggregate_statement :: "int \<Rightarrow> worker_db \<Rightarrow> (unit \<times> worker_db) option" where
  "aggregate_statement now w =
    (let gs = grouped (claimed_events w) in
     if \<not> distinct (filter (\<lambda>k. \<not> list_ex (\<lambda>a. ag_key a = k \<and> ag_sealed a \<noteq> None) (aggregates w)) (map (\<lambda>g. agg_key (fst g)) gs))
     then None
     else Some ((), (fold (write_group now) gs w)\<lparr>events := mark_first 1000 now (events w)\<rparr>))"

definition aggregateUsage :: "int \<Rightarrow> (db, worker_end, worker_end) tx" where
  "aggregateUsage now =
    bindT (query (Logged ''usage aggregate transaction failed'') (\<lambda>_. ())) (\<lambda>_.
    bindT (execW (Logged ''usage aggregate failed'') (aggregate_statement now)) (\<lambda>_.
    commit (Logged ''usage aggregate commit failed'') (Done [] [])))"

definition seal_candidates :: "worker_db \<Rightarrow> int list" where
  "seal_candidates w = take 1000 (map ag_id (sort_key (\<lambda>a. (ag_start a, ag_id a))
     (filter (\<lambda>a. ag_sealed a = None \<and> ag_disposition a = ''pending'' \<and> ag_price a = None) (aggregates w))))"

definition sealUnpricedUsage :: "int \<Rightarrow> (db, worker_end, worker_end) tx" where
  "sealUnpricedUsage now =
    bindT (execW (Logged ''unpriced usage sealing failed'') (\<lambda>w. let ids = seal_candidates w in
      Some (length ids, w\<lparr>aggregates := map (\<lambda>a. if ag_id a \<in> set ids then a\<lparr>ag_sealed := Some now, ag_disposition := ''unpriced''\<rparr> else a)
        (aggregates w)\<rparr>))) (\<lambda>n.
    commit (Logged ''unpriced usage sealing failed'') (Done (if n > 0 then ''unpriced usage sealed'' else []) []))"

section \<open>Claiming and pricing\<close>

definition live_grants :: "int \<Rightarrow> string \<Rightarrow> db \<Rightarrow> credit_grant list" where
  "live_grants now uid d = filter (\<lambda>g. cg_user g = uid \<and> cg_remaining g > 0 \<and>
     (case cg_expires g of None \<Rightarrow> True | Some t \<Rightarrow> t > now)) (grants d)"

definition credit_total :: "int \<Rightarrow> string \<Rightarrow> db \<Rightarrow> int" where
  "credit_total now uid d = sum_list (map cg_remaining (live_grants now uid d))"

definition charged :: "usage_aggregate \<Rightarrow> worker_db \<Rightarrow> bool" where
  "charged a w = list_ex (\<lambda>c. uc_user c = ag_user a \<and> uc_app c = ag_app a \<and> uc_code c = ag_code a \<and> uc_start c = ag_start a \<and>
     uc_end c = ag_end a \<and> (ag_app a = None \<or> Some (uc_price c) = ag_price a)) (charges w)"

definition refused :: "usage_aggregate \<Rightarrow> int \<Rightarrow> int \<Rightarrow> worker_db \<Rightarrow> bool" where
  "refused a balance credit w = list_ex (\<lambda>b. bt_user b = ag_user a \<and> bt_app b = ag_app a \<and> bt_code b = ag_code a \<and>
     bt_start b = ag_start a \<and> bt_end b = ag_end a \<and> bt_status b = ''insufficient_funds'' \<and> bt_balance b = balance \<and>
     bt_credit b = credit) (attempts w)"

definition claimable :: "int \<Rightarrow> db \<Rightarrow> usage_aggregate \<Rightarrow> bool" where
  "claimable now d a = (ag_sealed a = None \<and> ag_disposition a = ''pending'' \<and> ag_price a \<noteq> None \<and> \<not> charged a (work d) \<and>
     (case wallet_of (ag_user a) d of None \<Rightarrow> False
      | Some w \<Rightarrow> \<not> refused a (w_balance w) (credit_total now (ag_user a) d) (work d)))"

definition claim_aggregate :: "int \<Rightarrow> db \<Rightarrow> usage_aggregate option" where
  "claim_aggregate now d = (case sort_key ag_start (filter (claimable now d) (aggregates (work d))) of [] \<Rightarrow> None | a # _ \<Rightarrow> Some a)"

definition billed_quantity :: "rat \<Rightarrow> pricing_version \<Rightarrow> rat" where
  "billed_quantity q v = max (max (q - pr_free v) 0) (pr_minimum v)"

definition price_amount :: "(rat \<Rightarrow> rat \<Rightarrow> rat) \<Rightarrow> rat \<Rightarrow> pricing_version \<Rightarrow> int" where
  "price_amount ndiv q v =
    (let x = ndiv (billed_quantity q v * of_int (pr_micros v)) 1000000 in
     if pr_rounding v = ''up'' then \<lceil>x\<rceil> else if pr_rounding v = ''down'' then \<lfloor>x\<rfloor> else round_half_away x)"

definition grant_order :: "credit_grant \<Rightarrow> bool \<times> int \<times> int \<times> string" where
  "grant_order g = (cg_expires g = None, case cg_expires g of None \<Rightarrow> 0 | Some t \<Rightarrow> t, cg_created g, cg_id g)"

definition credit_balance :: "credit_grant list \<Rightarrow> int" where
  "credit_balance gs = fold (\<lambda>g s. wrap64 (s + cg_remaining g)) gs 0"

section \<open>Suspension and recovery\<close>

definition running_app :: "string \<Rightarrow> user_app \<Rightarrow> bool" where
  "running_app uid a = (ua_user a = uid \<and> ua_status a = ''running'')"

definition billing_suspended :: "string \<Rightarrow> user_app \<Rightarrow> bool" where
  "billing_suspended uid a = (ua_user a = uid \<and> ua_status a = ''suspended'' \<and> ua_reason a = Some ''billing_insufficient'')"

definition running_containers :: "string \<Rightarrow> worker_db \<Rightarrow> string list" where
  "running_containers uid w = map rt_container (filter (\<lambda>r. rt_container r \<noteq> [] \<and>
     list_ex (\<lambda>a. ua_id a = rt_app r \<and> running_app uid a) (apps w)) (routes w))"

definition suspend_apps :: "int \<Rightarrow> string \<Rightarrow> worker_db \<Rightarrow> worker_db" where
  "suspend_apps now uid = app_update (running_app uid) (\<lambda>a. a\<lparr>ua_status := ''suspended'', ua_reason := Some ''billing_insufficient'',
     ua_suspended := (case ua_suspended a of None \<Rightarrow> Some now | Some t \<Rightarrow> Some t)\<rparr>)"

definition drop_suspended_routes :: "string \<Rightarrow> worker_db \<Rightarrow> worker_db" where
  "drop_suspended_routes uid w = w\<lparr>routes := filter (\<lambda>r. \<not> list_ex (\<lambda>a. ua_id a = rt_app r \<and> billing_suspended uid a) (apps w)) (routes w)\<rparr>"

definition pending_usage :: "string \<Rightarrow> worker_db \<Rightarrow> bool" where
  "pending_usage uid w = list_ex (\<lambda>a. ag_user a = uid \<and> ag_sealed a = None \<and> ag_disposition a = ''pending'') (aggregates w)"

definition active_job :: "string \<Rightarrow> worker_db \<Rightarrow> bool" where
  "active_job app w = list_ex (\<lambda>j. jb_app j = app \<and> jb_state j \<noteq> DeploymentSucceeded \<and> jb_state j \<noteq> DeploymentFailed) (jobs w)"

definition recoverable :: "string \<Rightarrow> int \<Rightarrow> worker_db \<Rightarrow> user_app \<Rightarrow> bool" where
  "recoverable uid available w a = (billing_suspended uid a \<and> ua_release a \<noteq> None \<and>
     (case settings w of None \<Rightarrow> False | Some s \<Rightarrow> available \<ge> ss_reserve s) \<and> \<not> pending_usage uid w \<and> \<not> active_job (ua_id a) w)"

definition resume_key :: "billing_env \<Rightarrow> string \<Rightarrow> string" where
  "resume_key be app = ''billing-resume/'' @ app @ ''/'' @ be_nonce be app"

definition queue_recovery :: "billing_env \<Rightarrow> string \<Rightarrow> int \<Rightarrow> worker_db \<Rightarrow> worker_db" where
  "queue_recovery be uid available w = w\<lparr>jobs := jobs w @ map (\<lambda>a. \<lparr>jb_id = be_job be (ua_id a), jb_app = ua_id a,
     jb_release = the (ua_release a), jb_key = resume_key be (ua_id a), jb_operation = ''billing_recovery'',
     jb_source = ua_release a, jb_state = DeploymentQueued, jb_attempts = 0, jb_available = be_now be,
     jb_created = be_now be, jb_error = None\<rparr>) (filter (recoverable uid available w) (apps w))\<rparr>"

definition start_recovery :: "string \<Rightarrow> worker_db \<Rightarrow> worker_db" where
  "start_recovery uid w = app_update (\<lambda>a. billing_suspended uid a \<and> list_ex (\<lambda>j. jb_app j = ua_id a \<and>
     jb_state j = DeploymentQueued \<and> has_prefix (jb_key j) ''billing-resume/'') (jobs w))
     (\<lambda>a. a\<lparr>ua_status := ''updating'', ua_reason := None\<rparr>) w"

section \<open>Recording\<close>

definition attempt_insert :: "billing_attempt \<Rightarrow> worker_db \<Rightarrow> (unit \<times> worker_db) option" where
  "attempt_insert b w = (if bt_amount b < 0 \<or> bt_credit b < 0 then None
     else if b \<in> set (map (\<lambda>c. c\<lparr>bt_amount := bt_amount b\<rparr>) (attempts w)) then Some ((), w)
     else Some ((), w\<lparr>attempts := attempts w @ [b]\<rparr>))"

definition charge_key :: "usage_charge \<Rightarrow> string \<times> string option \<times> string \<times> int \<times> int \<times> string" where
  "charge_key c = (uc_user c, uc_app c, uc_code c, uc_start c, uc_end c, uc_price c)"

definition charge_insert :: "usage_charge \<Rightarrow> worker_db \<Rightarrow> (int \<times> worker_db) option" where
  "charge_insert c w = (let i = int (length (charges w)) + 1 in
     if charge_key c \<in> charge_key ` set (charges w) \<or> uc_amount c < 0 \<or> uc_quantity c < 0 then None
     else Some (i, w\<lparr>charges := charges w @ [c\<lparr>uc_id := i\<rparr>]\<rparr>))"

definition grant_spend :: "string \<Rightarrow> int \<Rightarrow> db \<Rightarrow> (unit \<times> db) option" where
  "grant_spend gid used d =
    (if list_ex (\<lambda>g. cg_id g = gid \<and> \<not> (0 \<le> cg_remaining g - used \<and> cg_remaining g - used \<le> cg_remaining g)) (grants d) then None
     else Some ((), d\<lparr>grants := map (\<lambda>g. if cg_id g = gid then g\<lparr>cg_remaining := cg_remaining g - used\<rparr> else g) (grants d)\<rparr>))"

definition consumption_insert :: "string \<Rightarrow> int \<Rightarrow> int \<Rightarrow> worker_db \<Rightarrow> (unit \<times> worker_db) option" where
  "consumption_insert gid cid used w =
    (if used \<le> 0 \<or> list_ex (\<lambda>c. cc_grant c = gid \<and> cc_charge c = cid) (consumptions w) then None
     else Some ((), w\<lparr>consumptions := consumptions w @ [\<lparr>cc_grant = gid, cc_charge = cid, cc_amount = used\<rparr>]\<rparr>))"

definition recording_failed :: worker_end where
  "recording_failed = Logged ''usage charge recording failed''"

fun consume_loop :: "int \<Rightarrow> int \<Rightarrow> credit_grant list \<Rightarrow> (db, worker_end, unit) tx" where
  "consume_loop cid remaining [] = done_tx ()"
| "consume_loop cid remaining (g # gs) =
    (if remaining = 0 then done_tx ()
     else let used = (if cg_remaining g > remaining then remaining else cg_remaining g) in
     bindT (exec recording_failed (grant_spend (cg_id g) used)) (\<lambda>_.
     bindT (execW recording_failed (consumption_insert (cg_id g) cid used)) (\<lambda>_.
     consume_loop cid (wrap64 (remaining - used)) gs)))"

definition bill_upsert :: "string \<Rightarrow> string \<Rightarrow> int \<Rightarrow> int \<Rightarrow> worker_db \<Rightarrow> (string \<times> worker_db) option" where
  "bill_upsert newID uid s e w = (case find (\<lambda>b. bl_user b = uid \<and> bl_start b = s \<and> bl_end b = e) (bills w) of
     Some b \<Rightarrow> Some (bl_id b, w)
   | None \<Rightarrow> if \<not> s < e \<or> newID \<in> bl_id ` set (bills w) then None
      else Some (newID, w\<lparr>bills := bills w @ [\<lparr>bl_id = newID, bl_user = uid, bl_start = s, bl_end = e, bl_total = 0\<rparr>]\<rparr>))"

definition price_of :: "string \<Rightarrow> worker_db \<Rightarrow> pricing_version option" where
  "price_of i w = find (\<lambda>v. pr_id v = i) (prices w)"

definition bill_item_insert :: "string \<Rightarrow> int \<Rightarrow> usage_aggregate \<Rightarrow> string \<Rightarrow> int \<Rightarrow> worker_db \<Rightarrow> (unit \<times> worker_db) option" where
  "bill_item_insert bid cid a price amount w = (case price_of price w of None \<Rightarrow> Some ((), w)
     | Some v \<Rightarrow> if cid \<in> bi_charge ` set (bill_items w) \<or> amount < 0 then None
       else Some ((), w\<lparr>bill_items := bill_items w @ [\<lparr>bi_bill = bid, bi_charge = cid, bi_app = ag_app a,
         bi_slug = Option.bind (ag_app a) (\<lambda>i. map_option ua_slug (app_of i w)), bi_code = ag_code a, bi_unit = ag_unit a,
         bi_quantity = ag_quantity a, bi_price = price, bi_micros = pr_micros v, bi_amount = amount,
         bi_start = ag_start a, bi_end = ag_end a\<rparr>]\<rparr>))"

definition bill_add :: "string \<Rightarrow> int \<Rightarrow> worker_db \<Rightarrow> (unit \<times> worker_db) option" where
  "bill_add bid amount w = (if list_ex (\<lambda>b. bl_id b = bid \<and> \<not> (bl_total b \<le> bl_total b + amount \<and> in64 (bl_total b + amount))) (bills w) then None
     else Some ((), w\<lparr>bills := map (\<lambda>b. if bl_id b = bid then b\<lparr>bl_total := bl_total b + amount\<rparr> else b) (bills w)\<rparr>))"

definition seal_aggregate :: "int \<Rightarrow> usage_aggregate \<Rightarrow> string \<Rightarrow> worker_db \<Rightarrow> worker_db" where
  "seal_aggregate now a price w = w\<lparr>aggregates := map (\<lambda>b. if ag_id b = ag_id a then b\<lparr>ag_sealed := Some now, ag_disposition := ''charged'',
     ag_price := (case ag_price b of None \<Rightarrow> Some price | Some p \<Rightarrow> Some p)\<rparr> else b) (aggregates w)\<rparr>"

text \<open>The low balance alert: a notification at most once per cooldown while the balance stays low.\<close>

definition alert_due :: "int \<Rightarrow> int \<Rightarrow> balance_alert \<Rightarrow> bool" where
  "alert_due now balance s = (ba_enabled s \<and> balance > 0 \<and> balance \<le> ba_threshold s \<and>
     (\<not> ba_below s \<or> (case ba_last s of None \<Rightarrow> True | Some t \<Rightarrow> t \<le> now - ba_cooldown s * 3600 * 10 ^ 9)))"

definition low_balance_alert :: "int \<Rightarrow> string \<Rightarrow> int \<Rightarrow> int \<Rightarrow> worker_db \<Rightarrow> worker_db" where
  "low_balance_alert now uid balance aid w =
    (let n = \<lparr>nt_user = uid, nt_key = ''low-balance/'' @ show_int aid, nt_kind = ''low_balance'', nt_severity = ''warning''\<rparr> in
     if list_ex (\<lambda>s. ba_user s = uid \<and> alert_due now balance s) (alerts w) \<and> notify n w \<noteq> w
     then (notify n w)\<lparr>alerts := map (\<lambda>s. if ba_user s = uid then s\<lparr>ba_last := Some now, ba_below := True\<rparr> else s) (alerts w)\<rparr>
     else w)"

definition clear_alert :: "string \<Rightarrow> int \<Rightarrow> worker_db \<Rightarrow> worker_db" where
  "clear_alert uid balance w = w\<lparr>alerts := map (\<lambda>s. if ba_user s = uid \<and> ba_below s \<and> balance > ba_threshold s
     then s\<lparr>ba_below := False\<rparr> else s) (alerts w)\<rparr>"

section \<open>Charging one aggregate\<close>

definition suspended_notice :: "string \<Rightarrow> string \<Rightarrow> int \<Rightarrow> notification" where
  "suspended_notice uid pre aid = \<lparr>nt_user = uid, nt_key = pre @ show_int aid, nt_kind = ''billing_suspended'', nt_severity = ''critical''\<rparr>"

definition new_attempt :: "usage_aggregate \<Rightarrow> string \<Rightarrow> int \<Rightarrow> string \<Rightarrow> int \<Rightarrow> int \<Rightarrow> billing_attempt" where
  "new_attempt a price amount st balance credit = \<lparr>bt_user = ag_user a, bt_app = ag_app a, bt_code = ag_code a, bt_start = ag_start a,
     bt_end = ag_end a, bt_price = price, bt_amount = amount, bt_status = st, bt_balance = balance, bt_credit = credit\<rparr>"

definition stopped_containers :: "billing_env \<Rightarrow> string list \<Rightarrow> string list" where
  "stopped_containers be cs = (if be_executor be then cs else [])"

text \<open>The branch without enough money: remember the attempt, notify, suspend, take the routes down.\<close>

definition bill_insufficient :: "billing_env \<Rightarrow> usage_aggregate \<Rightarrow> string \<Rightarrow> int \<Rightarrow> int \<Rightarrow> int \<Rightarrow> (db, worker_end, worker_end) tx" where
  "bill_insufficient be a price amount balance credit =
    (let uid = ag_user a; failed = Logged ''usage suspension failed'' in
     bindT (queryW (Logged ''billing suspension route lookup failed'') (running_containers uid)) (\<lambda>containers.
     bindT (execW failed (attempt_insert (new_attempt a price amount ''insufficient_funds'' balance credit))) (\<lambda>_.
     bindT (updateW failed (notify (suspended_notice uid ''billing-suspended/'' (ag_id a)))) (\<lambda>_.
     bindT (updateW failed (suspend_apps (be_now be) uid)) (\<lambda>_.
     bindT (updateW failed (drop_suspended_routes uid)) (\<lambda>_.
     commit (Logged ''usage suspension commit failed'') (Done [] (stopped_containers be containers))))))))"

definition business_ref :: "billing_env \<Rightarrow> usage_aggregate \<Rightarrow> string \<Rightarrow> string" where
  "business_ref be a price = ag_code a @ ''/'' @ (case ag_app a of None \<Rightarrow> ''account'' | Some i \<Rightarrow> i) @ ''/'' @ price @ ''/'' @
     be_rfc3339 be (ag_start a) @ ''/'' @ be_rfc3339 be (ag_end a)"

definition charge_wallet :: "billing_env \<Rightarrow> usage_aggregate \<Rightarrow> string \<Rightarrow> string \<Rightarrow> int \<Rightarrow> int \<Rightarrow> (db, worker_end, int option) tx" where
  "charge_wallet be a price wid charge newBalance =
    (if charge > 0 then
       bindT (exec (Logged ''usage wallet charge failed'') (ledger_insert wid ''usage'' (business_ref be a price) (- charge) newBalance)) (\<lambda>i.
       bindT (exec (Logged ''usage wallet charge failed'') (wallet_set (\<lambda>v. w_id v = wid) newBalance)) (\<lambda>_.
       done_tx (Some i)))
     else done_tx None)"

definition reserve_suspension :: "billing_env \<Rightarrow> usage_aggregate \<Rightarrow> int \<Rightarrow> (db, worker_end, string list) tx" where
  "reserve_suspension be a available =
    (let uid = ag_user a in
     bindT (requireW recording_failed settings) (\<lambda>s.
     if belowStartupReserve available (ss_reserve s) then
       bindT (queryW recording_failed (running_containers uid)) (\<lambda>containers.
       bindT (updateW recording_failed (suspend_apps (be_now be) uid)) (\<lambda>_.
       bindT (updateW recording_failed (drop_suspended_routes uid)) (\<lambda>_.
       bindT (updateW recording_failed (notify (suspended_notice uid ''billing-reserve-suspended/'' (ag_id a)))) (\<lambda>_.
       done_tx containers))))
     else done_tx []))"

text \<open>The line on the bill of the month in which the window starts.\<close>

definition bill_line :: "billing_env \<Rightarrow> usage_aggregate \<Rightarrow> string \<Rightarrow> int \<Rightarrow> int \<Rightarrow> (db, worker_end, unit) tx" where
  "bill_line be a price amount cid =
    bindT (execW recording_failed (bill_upsert (be_bill be) (ag_user a) (period_start (ag_start a)) (period_end (ag_start a)))) (\<lambda>bid.
    bindT (execW recording_failed (bill_item_insert bid cid a price amount)) (\<lambda>_.
    execW recording_failed (bill_add bid amount)))"

definition after_charge :: "billing_env \<Rightarrow> usage_aggregate \<Rightarrow> string \<Rightarrow> int \<Rightarrow> int \<Rightarrow> int \<Rightarrow> int \<Rightarrow> int \<Rightarrow> (db, worker_end, worker_end) tx" where
  "after_charge be a price amount newBalance credit creditUsed walletCharge =
    (let uid = ag_user a; available = wrap64 (wrap64 (newBalance + credit) - creditUsed) in
     bindT (updateW recording_failed (seal_aggregate (be_now be) a price)) (\<lambda>_.
     bindT (if walletCharge > 0 then
              bindT (updateW recording_failed (low_balance_alert (be_now be) uid newBalance (ag_id a))) (\<lambda>_.
              updateW recording_failed (clear_alert uid newBalance))
            else done_tx ()) (\<lambda>_.
     bindT (execW recording_failed (attempt_insert (new_attempt a price amount ''charged'' newBalance (wrap64 (credit - creditUsed))))) (\<lambda>_.
     bindT (reserve_suspension be a available) (\<lambda>containers.
     bindT (updateW recording_failed (queue_recovery be uid available)) (\<lambda>_.
     bindT (updateW recording_failed (start_recovery uid)) (\<lambda>_.
     commit (Logged ''usage billing commit failed'') (Done ''usage charged'' (stopped_containers be containers)))))))))"

definition new_charge :: "usage_aggregate \<Rightarrow> string \<Rightarrow> int \<Rightarrow> int option \<Rightarrow> usage_charge" where
  "new_charge a price amount entry = \<lparr>uc_id = 0, uc_user = ag_user a, uc_app = ag_app a, uc_code = ag_code a, uc_start = ag_start a,
     uc_end = ag_end a, uc_price = price, uc_quantity = ag_quantity a, uc_amount = amount, uc_entry = entry\<rparr>"

definition record_charge :: "billing_env \<Rightarrow> usage_aggregate \<Rightarrow> string \<Rightarrow> int \<Rightarrow> int \<Rightarrow> credit_grant list \<Rightarrow> int \<Rightarrow> int \<Rightarrow> int \<Rightarrow>
   int option \<Rightarrow> (db, worker_end, worker_end) tx" where
  "record_charge be a price amount newBalance gs credit creditUsed walletCharge entry =
    bindT (execW recording_failed (charge_insert (new_charge a price amount entry))) (\<lambda>cid.
    bindT (consume_loop cid creditUsed gs) (\<lambda>_.
    bindT (bill_line be a price amount cid) (\<lambda>_.
    after_charge be a price amount newBalance credit creditUsed walletCharge)))"

definition bill_charge :: "billing_env \<Rightarrow> usage_aggregate \<Rightarrow> string \<Rightarrow> int \<Rightarrow> string \<Rightarrow> int \<Rightarrow> credit_grant list \<Rightarrow> int \<Rightarrow> int \<Rightarrow> int \<Rightarrow>
   (db, worker_end, worker_end) tx" where
  "bill_charge be a price amount wid balance gs credit creditUsed walletCharge =
    (let newBalance = wrap64 (balance - walletCharge) in
     bindT (charge_wallet be a price wid walletCharge newBalance)
       (record_charge be a price amount newBalance gs credit creditUsed walletCharge))"

definition settle_usage :: "billing_env \<Rightarrow> usage_aggregate \<Rightarrow> string \<Rightarrow> int \<Rightarrow> wallet \<Rightarrow> credit_grant list \<Rightarrow> (db, worker_end, worker_end) tx" where
  "settle_usage be a price amount w gs =
    (let credit = credit_balance gs; creditUsed = (if amount > credit then credit else amount);
         walletCharge = wrap64 (amount - creditUsed) in
     if w_balance w < walletCharge then bill_insufficient be a price amount (w_balance w) credit
     else bill_charge be a price amount (w_id w) (w_balance w) gs credit creditUsed walletCharge)"

definition billUsage :: "billing_env \<Rightarrow> (db, worker_end, worker_end) tx" where
  "billUsage be =
    bindT (query (Logged ''usage billing transaction failed'') (\<lambda>_. ())) (\<lambda>_.
    bindT (query (Logged ''usage billing claim failed'') (claim_aggregate (be_now be))) (\<lambda>row. case row of
      None \<Rightarrow> reply Idle
    | Some a \<Rightarrow>
    bindT (queryW (Logged ''usage price lookup failed'') (price_of (the (ag_price a)))) (\<lambda>pr. case pr of
      None \<Rightarrow> reply Idle
    | Some v \<Rightarrow>
    let amount = price_amount (be_div be) (ag_quantity a) v in
    if \<not> in64 amount then reply (Logged ''usage price lookup failed'')
    else
    bindT (require (Logged ''usage wallet lock failed'') (wallet_of (ag_user a))) (\<lambda>w.
    bindT (query (Logged ''credit grant lock failed'') (\<lambda>d. sort_key grant_order (live_grants (be_now be) (ag_user a) d))) (\<lambda>gs.
    settle_usage be a (pr_id v) amount w gs)))))"

end
