(* ===== verification/Billing_Ledger.thy ===== *)
theory Billing_Ledger
  imports Billing "HOL-Library.Multiset"
begin

text \<open>
  What the billing passes do: they keep the ledger invariant, split an amount exactly between credit and
  wallet, spend grants in order of expiry, charge an aggregate once, and keep bills equal to charges.
\<close>

section \<open>Atomicity and frame\<close>

definition billing_errors :: "worker_end set" where
  "billing_errors = range Logged"

lemma billing_errors_simps [simp, tx_intros]: "Logged m \<in> billing_errors" "recording_failed \<in> billing_errors"
  by (simp_all add: billing_errors_def recording_failed_def)

lemma transactional_consume_loop [tx_intros]: "transactional billing_errors (consume_loop cid remaining gs)"
proof (induction gs arbitrary: remaining)
  case (Cons g gs)
  show ?case unfolding consume_loop.simps Let_def by (intro tx_intros Cons.IH)
qed (simp add: tx_intros)

lemma transactional_charge_wallet [tx_intros]: "transactional billing_errors (charge_wallet be a price wid c b)"
  unfolding charge_wallet_def by (intro tx_intros)

lemma transactional_reserve_suspension [tx_intros]: "transactional billing_errors (reserve_suspension be a x)"
  unfolding reserve_suspension_def Let_def by (intro tx_intros)

lemma transactional_bill_insufficient [tx_intros]: "transactional billing_errors (bill_insufficient be a price amount b c)"
  unfolding bill_insufficient_def Let_def by (intro tx_intros)

lemma transactional_charge_parts [tx_intros]:
  "transactional billing_errors (bill_line be a price amount cid)" "transactional billing_errors (after_charge be a price amount b c u x)"
  unfolding bill_line_def after_charge_def Let_def by (intro tx_intros)+

lemma transactional_record_charge [tx_intros]: "transactional billing_errors (record_charge be a price amount b gs c u x e)"
  unfolding record_charge_def Let_def by (intro tx_intros)

lemma transactional_bill_charge [tx_intros]: "transactional billing_errors (bill_charge be a price amount wid b gs c u x)"
  unfolding bill_charge_def Let_def by (intro tx_intros)

lemma transactional_settle_usage [tx_intros]: "transactional billing_errors (settle_usage be a price amount w gs)"
  unfolding settle_usage_def Let_def by (intro tx_intros)

lemma transactional_billUsage [tx_intros]: "transactional billing_errors (billUsage be)"
  unfolding billUsage_def Let_def by (intro tx_intros)

lemma transactional_aggregateUsage [tx_intros]: "transactional billing_errors (aggregateUsage now)"
  unfolding aggregateUsage_def by (intro tx_intros)

lemma transactional_sealUnpricedUsage [tx_intros]: "transactional billing_errors (sealUnpricedUsage now)"
  unfolding sealUnpricedUsage_def by (intro tx_intros)

text \<open>Wallets and ledger are touched by the wallet charge only.\<close>

definition money_core :: "db \<Rightarrow> ledger_entry list \<times> wallet list" where
  "money_core d = (ledger d, wallets d)"

lemma money_core_work [simp]: "money_core (d\<lparr>work := w\<rparr>) = money_core d"
  by (simp add: money_core_def)

lemma orders_work: "orders (d\<lparr>work := w\<rparr>) = orders d" "grants (d\<lparr>work := w\<rparr>) = grants d"
  by simp_all

lemmas unchanged_core_work [unchanged_intros] = unchanged_work [of money_core, OF money_core_work]
lemmas unchanged_orders_work [unchanged_intros] = unchanged_work [of orders, OF orders_work(1)]
lemmas unchanged_grants_work [unchanged_intros] = unchanged_work [of grants, OF orders_work(2)]

lemma unchanged_grant_spend [unchanged_intros]:
  "unchanged money_core (exec err (grant_spend g u))" "unchanged orders (exec err (grant_spend g u))"
  "unchanged work (exec err (grant_spend g u))"
  by (rule unchanged_exec; auto simp: grant_spend_def money_core_def split: if_splits)+

lemma unchanged_core_consume [unchanged_intros]: "unchanged money_core (consume_loop cid remaining gs)"
proof (induction gs arbitrary: remaining)
  case (Cons g gs)
  show ?case unfolding consume_loop.simps Let_def by (intro unchanged_intros Cons.IH)
qed (simp add: unchanged_intros)

lemma unchanged_orders_consume [unchanged_intros]: "unchanged orders (consume_loop cid remaining gs)"
proof (induction gs arbitrary: remaining)
  case (Cons g gs)
  show ?case unfolding consume_loop.simps Let_def by (intro unchanged_intros Cons.IH)
qed (simp add: unchanged_intros)

lemma unchanged_core_parts [unchanged_intros]:
  "unchanged money_core (reserve_suspension be a x)" "unchanged money_core (bill_insufficient be a price amount b c)"
  unfolding reserve_suspension_def bill_insufficient_def Let_def by (intro unchanged_intros)+

lemma unchanged_orders_billUsage: "unchanged orders (billUsage be)"
  unfolding billUsage_def settle_usage_def bill_charge_def record_charge_def bill_line_def after_charge_def bill_insufficient_def charge_wallet_def reserve_suspension_def Let_def
  by (intro unchanged_intros)

lemma unchanged_core_aggregation: "unchanged money_core (aggregateUsage now)" "unchanged money_core (sealUnpricedUsage now)"
  unfolding aggregateUsage_def sealUnpricedUsage_def by (intro unchanged_intros)+

lemma unchanged_orders_aggregation: "unchanged orders (aggregateUsage now)" "unchanged orders (sealUnpricedUsage now)"
  unfolding aggregateUsage_def sealUnpricedUsage_def by (intro unchanged_intros)+

section \<open>Effect on the wallet\<close>

lemma unchanged_bind_commit:
  assumes "bindT m k flt n d = Commit d' r" "m flt n d = Next t n' a" "unchanged f (k a)"
  shows "f d' = f t"
  using assms unchanged_Commit [OF assms(3)] by (simp add: bindT_def)

definition usage_move :: "billing_env \<Rightarrow> usage_aggregate \<Rightarrow> string \<Rightarrow> string \<Rightarrow> int \<Rightarrow> db \<Rightarrow> db" where
  "usage_move be a price wid charge d = (if charge > 0 then move_money wid ''usage'' (business_ref be a price) (- charge) d else d)"

lemma charge_wallet_cases:
  assumes "ledger_ok d" "w \<in> set (wallets d)" "charge \<le> w_balance w" "newBalance = wrap64 (w_balance w - charge)"
  shows "(\<exists>m. charge_wallet be a price (w_id w) charge newBalance no_faults n d = Stop (Logged m)) \<or>
    (\<exists>n' e. charge_wallet be a price (w_id w) charge newBalance no_faults n d = Next (usage_move be a price (w_id w) charge d) n' e \<and>
       ledger_ok (usage_move be a price (w_id w) charge d))"
proof (cases "charge > 0")
  case True
  have nb: "newBalance = w_balance w + (- charge)"
    using assms ledger_ok_range [OF assms(1,2)] True by (simp add: in64_def)
  show ?thesis
  proof (cases "ledger_insert (w_id w) ''usage'' (business_ref be a price) (- charge) newBalance d")
    case None
    then show ?thesis using True by (simp add: charge_wallet_def bindT_def)
  next
    case (Some p)
    obtain i d1 where p: "p = (i, d1)" by fastforce
    note li = Some [unfolded p]
    from insert_then_set [OF assms(1,2) li _ nb, of "\<lambda>v. w_id v = w_id w"]
    have ws: "wallet_set (\<lambda>v. w_id v = w_id w) newBalance d1 =
       Some ((), move_money (w_id w) ''usage'' (business_ref be a price) (- charge) d)" by simp
    have "ledger_ok (move_money (w_id w) ''usage'' (business_ref be a price) (- charge) d)"
      by (rule ledger_ok_move_money [OF assms(1,2)])
        (use ledger_insert_Some [OF li] assms(3) True ledger_ok_range [OF assms(1,2)] in auto)
    then show ?thesis using True li ws by (simp add: charge_wallet_def bindT_def done_tx_def usage_move_def)
  qed
qed (simp add: charge_wallet_def usage_move_def assms(1))

lemma bill_charge_money:
  assumes "ledger_ok d" "w \<in> set (wallets d)" "charge \<le> w_balance w"
    and "bill_charge be a price amount (w_id w) (w_balance w) gs credit used charge no_faults n d = Commit d' r"
  shows "money_core d' = money_core (usage_move be a price (w_id w) charge d) \<and> ledger_ok (usage_move be a price (w_id w) charge d)"
proof -
  define k where "k = record_charge be a price amount (wrap64 (w_balance w - charge)) gs credit used charge"
  have b: "bindT (charge_wallet be a price (w_id w) charge (wrap64 (w_balance w - charge))) k no_faults n d = Commit d' r"
    using assms(4) by (simp add: bill_charge_def Let_def k_def)
  have un: "unchanged money_core (k entry)" for entry unfolding k_def record_charge_def bill_line_def after_charge_def Let_def by (intro unchanged_intros)
  show ?thesis
    using charge_wallet_cases [OF assms(1-3) refl, of be a price n] unchanged_bind_commit [OF b _ un] b
    by (auto simp: bindT_def)
qed

text \<open>A committed pass settles the claimed aggregate.\<close>

lemma billUsage_Commit:
  assumes "billUsage be no_faults 0 d = Commit d' r"
  obtains a v w n where "claim_aggregate (be_now be) d = Some a" "price_of (the (ag_price a)) (work d) = Some v"
    "wallet_of (ag_user a) d = Some w" "in64 (price_amount (be_div be) (ag_quantity a) v)"
    "settle_usage be a (pr_id v) (price_amount (be_div be) (ag_quantity a) v) w
       (sort_key grant_order (live_grants (be_now be) (ag_user a) d)) no_faults n d = Commit d' r"
  using assms by (auto simp: billUsage_def bindT_def Let_def split: option.split_asm if_split_asm)

lemma settle_usage_money:
  assumes "ledger_ok d" "w \<in> set (wallets d)" "settle_usage be a price amount w gs no_faults n d = Commit d' r"
  shows "ledger_ok d' \<and> prefix (ledger d) (ledger d') \<and> map w_id (wallets d') = map w_id (wallets d)"
proof -
  define used where "used = (if amount > credit_balance gs then credit_balance gs else amount)"
  define charge where "charge = wrap64 (amount - used)"
  show ?thesis
  proof (cases "w_balance w < charge")
    case True
    then have "money_core d' = money_core d"
      using assms(3) unchanged_Commit [OF unchanged_core_parts(2)] by (auto simp: settle_usage_def Let_def used_def charge_def)
    then show ?thesis using assms(1) by (simp add: money_core_def ledger_ok_def)
  next
    case False
    then have "bill_charge be a price amount (w_id w) (w_balance w) gs (credit_balance gs) used charge no_faults n d = Commit d' r"
      using assms(3) by (auto simp: settle_usage_def Let_def used_def charge_def)
    from bill_charge_money [OF assms(1,2) _ this] False
    have m: "money_core d' = money_core (usage_move be a price (w_id w) charge d)" "ledger_ok (usage_move be a price (w_id w) charge d)"
      by auto
    then show ?thesis by (auto simp: money_core_def ledger_ok_def usage_move_def move_money_def Let_def)
  qed
qed

text \<open>The billing passes.\<close>

datatype billing_request = BillUsage billing_env | AggregateUsage int | SealUnpricedUsage int

fun serve_billing :: "billing_request \<Rightarrow> (db, worker_end, worker_end) tx" where
  "serve_billing (BillUsage be) = billUsage be"
| "serve_billing (AggregateUsage now) = aggregateUsage now"
| "serve_billing (SealUnpricedUsage now) = sealUnpricedUsage now"

lemma run_Commit: "snd (run m no_faults d) = d \<or> (\<exists>d' r. m no_faults 0 d = Commit d' r \<and> run m no_faults d = (r, d'))"
  by (auto simp: run_def split: txout.split)

lemma billUsage_money:
  assumes "ledger_ok d"
  shows "ledger_ok (snd (run (billUsage be) no_faults d))"
proof -
  from run_Commit [of "billUsage be" d] consider "snd (run (billUsage be) no_faults d) = d"
    | d' r where "billUsage be no_faults 0 d = Commit d' r" "run (billUsage be) no_faults d = (r, d')" by blast
  then show ?thesis
  proof cases
    case 2
    from 2(1) obtain a v w n where s: "wallet_of (ag_user a) d = Some w"
      "settle_usage be a (pr_id v) (price_amount (be_div be) (ag_quantity a) v) w
         (sort_key grant_order (live_grants (be_now be) (ag_user a) d)) no_faults n d = Commit d' r" by (rule billUsage_Commit)
    show ?thesis using settle_usage_money [OF assms _ s(2)] wallet_of_Some [OF s(1)] 2(2) by simp
  qed (use assms in simp)
qed

lemma money_core_ok: "money_core d' = money_core d \<Longrightarrow> ledger_ok d' = ledger_ok d"
  by (simp add: money_core_def ledger_ok_def)

lemma framed_work [frame_intros]:
  "framed (queryW err f)" "framed (requireW err g)" "framed (execW err h)" "framed (updateW err k)"
  by (auto simp: framed_def frame_def split: option.split)

lemma framed_grant_spend [frame_intros]: "framed (exec err (grant_spend g u))"
  by (rule framed_exec) (auto simp: grant_spend_def frame_def split: if_splits)

lemma framed_consume [frame_intros]: "framed (consume_loop cid remaining gs)"
proof (induction gs arbitrary: remaining)
  case (Cons g gs)
  show ?case unfolding consume_loop.simps Let_def by (intro frame_intros Cons.IH)
qed (simp add: frame_intros)

lemma framed_record_charge [frame_intros]: "framed (record_charge be a price amount b gs c u x e)"
  unfolding record_charge_def bill_line_def after_charge_def reserve_suspension_def Let_def by (intro frame_intros)

lemma framed_serve_billing: "framed (serve_billing q)"
  by (cases q; simp only: serve_billing.simps billUsage_def settle_usage_def bill_charge_def bill_insufficient_def
      charge_wallet_def reserve_suspension_def aggregateUsage_def sealUnpricedUsage_def Let_def; intro frame_intros)

lemma unchanged_orders_billing: "unchanged orders (serve_billing q)"
  by (cases q) (simp_all add: unchanged_orders_billUsage unchanged_orders_aggregation)

lemma serve_billing_keeps:
  assumes "money_ok d"
  shows "money_ok (snd (run (serve_billing q) no_faults d))"
proof -
  have "ledger_ok (snd (run (serve_billing q) no_faults d))"
  proof (cases q)
    case (BillUsage be)
    then show ?thesis using assms billUsage_money [of d be] by (simp add: money_ok_def)
  next
    case (AggregateUsage now)
    then show ?thesis using assms money_core_ok [OF unchanged_run [OF unchanged_core_aggregation(1)]] by (simp add: money_ok_def)
  next
    case (SealUnpricedUsage now)
    then show ?thesis using assms money_core_ok [OF unchanged_run [OF unchanged_core_aggregation(2)]] by (simp add: money_ok_def)
  qed
  then show ?thesis using assms unchanged_run [OF unchanged_orders_billing, of q no_faults d] by (simp add: money_ok_def)
qed

lemma transactional_serve_billing: "transactional billing_errors (serve_billing q)"
  by (cases q) (simp_all add: tx_intros)

interpretation billing_service: ledger_service serve_billing "\<lambda>_. True" billing_errors
  using framed_run [OF framed_serve_billing]
  by unfold_locales (simp_all add: transactional_serve_billing serve_billing_keeps frame_def)

section \<open>Spending credit\<close>

text \<open>What the loop takes from each grant.\<close>

fun spends :: "int \<Rightarrow> credit_grant list \<Rightarrow> (string \<times> int) list" where
  "spends remaining [] = []"
| "spends remaining (g # gs) = (if remaining = 0 then []
     else (let u = min (cg_remaining g) remaining in (cg_id g, u) # spends (remaining - u) gs))"

lemma spends_sum:
  "0 \<le> remaining \<Longrightarrow> remaining \<le> sum_list (map cg_remaining gs) \<Longrightarrow> \<forall>g \<in> set gs. 0 < cg_remaining g \<Longrightarrow>
   sum_list (map snd (spends remaining gs)) = remaining"
proof (induction gs arbitrary: remaining)
  case (Cons g gs)
  have "0 \<le> sum_list (map cg_remaining gs)" using Cons.prems(3) by (intro sum_list_nonneg) auto
  with Cons.prems Cons.IH [of "remaining - min (cg_remaining g) remaining"] show ?case by (auto simp: Let_def)
qed simp

definition spend_one :: "string \<Rightarrow> int \<Rightarrow> credit_grant list \<Rightarrow> credit_grant list" where
  "spend_one gid u xs = map (\<lambda>g. if cg_id g = gid then g\<lparr>cg_remaining := cg_remaining g - u\<rparr> else g) xs"

lemma spend_one_ids [simp]: "map cg_id (spend_one gid u xs) = map cg_id xs"
  by (simp add: spend_one_def)

lemma spend_one_sum:
  "distinct (map cg_id xs) \<Longrightarrow> gid \<in> cg_id ` set xs \<Longrightarrow>
   sum_list (map cg_remaining (spend_one gid u xs)) = sum_list (map cg_remaining xs) - u"
proof (induction xs)
  case (Cons x xs)
  show ?case
  proof (cases "cg_id x = gid")
    case True
    then have "\<forall>y \<in> set xs. cg_id y \<noteq> gid" using Cons.prems(1) by (metis distinct.simps(2) image_eqI image_set list.simps(9))
    then have "spend_one gid u xs = xs" by (induction xs) (auto simp: spend_one_def)
    then show ?thesis using True by (simp add: spend_one_def)
  next
    case False
    then show ?thesis using Cons by (auto simp: spend_one_def)
  qed
qed simp

lemma consume_loop_effect:
  assumes "consume_loop cid remaining gs no_faults n d = Next d' n' u" "distinct (map cg_id (grants d))"
    "cg_id ` set gs \<subseteq> cg_id ` set (grants d)" "0 \<le> remaining" "remaining < 2 ^ 63" "\<forall>g \<in> set gs. 0 < cg_remaining g"
  shows "sum_list (map cg_remaining (grants d')) = sum_list (map cg_remaining (grants d)) - sum_list (map snd (spends remaining gs)) \<and>
    consumptions (work d') = consumptions (work d) @ map (\<lambda>(g, u). \<lparr>cc_grant = g, cc_charge = cid, cc_amount = u\<rparr>) (spends remaining gs) \<and>
    map cg_id (grants d') = map cg_id (grants d)"
  using assms
proof (induction gs arbitrary: remaining n d)
  case (Cons g gs)
  show ?case
  proof (cases "remaining = 0")
    case False
    define used where "used = (if cg_remaining g > remaining then remaining else cg_remaining g)"
    have used: "used = min (cg_remaining g) remaining" "0 < used" "used \<le> remaining"
      using False Cons.prems(4,6) by (auto simp: used_def)
    have step: "bindT (exec recording_failed (grant_spend (cg_id g) used)) (\<lambda>_.
       bindT (execW recording_failed (consumption_insert (cg_id g) cid used)) (\<lambda>_.
       consume_loop cid (wrap64 (remaining - used)) gs)) no_faults n d = Next d' n' u"
      using Cons.prems(1) False by (simp only: consume_loop.simps Let_def if_False used_def [symmetric])
    obtain w1 where d1: "grant_spend (cg_id g) used d = Some ((), d\<lparr>grants := spend_one (cg_id g) used (grants d)\<rparr>)"
      and w1: "consumption_insert (cg_id g) cid used (work d) = Some ((), w1)"
      and rest: "consume_loop cid (wrap64 (remaining - used)) gs no_faults (Suc (Suc n))
         (d\<lparr>grants := spend_one (cg_id g) used (grants d), work := w1\<rparr>) = Next d' n' u"
      using step by (auto simp: bindT_def grant_spend_def spend_one_def split: option.split_asm if_split_asm)
    have wrap: "wrap64 (remaining - used) = remaining - used" using used(2,3) Cons.prems(4,5) by (intro wrap64_id) (auto simp: in64_def)
    have w1': "consumptions w1 = consumptions (work d) @ [\<lparr>cc_grant = cg_id g, cc_charge = cid, cc_amount = used\<rparr>]"
      using w1 by (auto simp: consumption_insert_def split: if_split_asm)
    have ids: "cg_id ` set (spend_one (cg_id g) used (grants d)) = cg_id ` set (grants d)"
      by (metis image_set spend_one_ids)
    have sum: "sum_list (map cg_remaining (spend_one (cg_id g) used (grants d))) = sum_list (map cg_remaining (grants d)) - used"
      using Cons.prems(2,3) by (intro spend_one_sum) auto
    let ?d1 = "d\<lparr>grants := spend_one (cg_id g) used (grants d), work := w1\<rparr>"
    have "sum_list (map cg_remaining (grants d')) = sum_list (map cg_remaining (grants ?d1)) - sum_list (map snd (spends (remaining - used) gs)) \<and>
      consumptions (work d') = consumptions (work ?d1) @ map (\<lambda>(g, u). \<lparr>cc_grant = g, cc_charge = cid, cc_amount = u\<rparr>) (spends (remaining - used) gs) \<and>
      map cg_id (grants d') = map cg_id (grants ?d1)"
      by (rule Cons.IH [OF rest [unfolded wrap]]) (use Cons.prems used ids in auto)
    then show ?thesis using False used(1) sum w1' by (simp add: Let_def)
  qed (use Cons.prems in \<open>simp add: done_tx_def\<close>)
qed simp

lemma fold_wrap64:
  assumes "\<forall>g \<in> set gs. 0 \<le> cg_remaining g" "0 \<le> s" "s + sum_list (map cg_remaining gs) < 2 ^ 63"
  shows "fold (\<lambda>g s. wrap64 (s + cg_remaining g)) gs s = s + sum_list (map cg_remaining gs)"
  using assms
proof (induction gs arbitrary: s)
  case (Cons g gs)
  have "0 \<le> sum_list (map cg_remaining gs)" using Cons.prems(1) by (auto intro!: sum_list_nonneg)
  then have "wrap64 (s + cg_remaining g) = s + cg_remaining g" using Cons.prems by (intro wrap64_id) (auto simp: in64_def)
  then show ?case using Cons by (simp add: add.assoc)
qed simp

lemma sum_list_sort_key: "sum_list (map f (sort_key k xs)) = (sum_list (map f xs) :: int)"
  by (metis mset_map mset_sort sum_mset_sum_list)

definition usage_grants :: "int \<Rightarrow> string \<Rightarrow> db \<Rightarrow> credit_grant list" where
  "usage_grants now uid d = sort_key grant_order (live_grants now uid d)"

lemma usage_grants_props:
  "sum_list (map cg_remaining (usage_grants now uid d)) = credit_total now uid d"
  "\<forall>g \<in> set (usage_grants now uid d). 0 < cg_remaining g" "cg_id ` set (usage_grants now uid d) \<subseteq> cg_id ` set (grants d)"
  "0 \<le> credit_total now uid d"
  by (auto simp: usage_grants_def credit_total_def sum_list_sort_key live_grants_def intro!: sum_list_nonneg)

lemma credit_balance_total: "credit_total now uid d < 2 ^ 63 \<Longrightarrow> credit_balance (usage_grants now uid d) = credit_total now uid d"
  unfolding credit_balance_def using usage_grants_props [of now uid d]
  by (subst fold_wrap64) (auto simp: less_imp_le)

section \<open>Bills\<close>

text \<open>Every charge has its line, charges are unique for their window, and a bill is the sum of its lines.\<close>

definition bills_ok :: "worker_db \<Rightarrow> bool" where
  "bills_ok w = (distinct (map bl_id (bills w)) \<and> distinct (map charge_key (charges w)) \<and>
     map (\<lambda>i. (bi_charge i, bi_amount i)) (bill_items w) = map (\<lambda>c. (uc_id c, uc_amount c)) (charges w) \<and>
     (\<forall>b \<in> set (bills w). bl_total b = sum_list (map bi_amount (filter (\<lambda>i. bi_bill i = bl_id b) (bill_items w)))) \<and>
     (\<forall>i \<in> set (bill_items w). bi_bill i \<in> bl_id ` set (bills w)) \<and>
     (\<forall>c \<in> set (charges w). 0 \<le> uc_amount c))"

definition bill_part :: "worker_db \<Rightarrow> usage_charge list \<times> bill list \<times> bill_item list" where
  "bill_part w = (charges w, bills w, bill_items w)"

lemma bills_ok_part: "bill_part w = bill_part w' \<Longrightarrow> bills_ok w = bills_ok w'"
  by (simp add: bill_part_def bills_ok_def)

lemma unchanged_execW: "(\<And>w a w'. h w = Some (a, w') \<Longrightarrow> f w' = f w) \<Longrightarrow> unchanged (\<lambda>d. f (work d)) (execW err h)"
  unfolding execW_def by (rule unchanged_exec) auto

lemma unchanged_updateW: "(\<And>w. f (g w) = f w) \<Longrightarrow> unchanged (\<lambda>d. f (work d)) (updateW err g)"
  unfolding updateW_def by (rule unchanged_execW) auto

lemma unchanged_queryW: "unchanged f (queryW err g)" "unchanged f (requireW err h)"
  by (simp_all add: queryW_def requireW_def unchanged_basic)

definition bill_lines_ok :: "bill list \<Rightarrow> bill_item list \<Rightarrow> bool" where
  "bill_lines_ok bs is = (distinct (map bl_id bs) \<and> (\<forall>i \<in> set is. bi_bill i \<in> bl_id ` set bs) \<and>
     (\<forall>b \<in> set bs. bl_total b = sum_list (map bi_amount (filter (\<lambda>i. bi_bill i = bl_id b) is))))"

lemma bill_lines_new:
  assumes "bill_lines_ok bs is" "i \<notin> bl_id ` set bs"
  shows "bill_lines_ok (bs @ [\<lparr>bl_id = i, bl_user = u, bl_start = s, bl_end = e, bl_total = 0\<rparr>]) is"
proof -
  have "filter (\<lambda>x. bi_bill x = i) is = []" using assms by (auto simp: bill_lines_ok_def filter_empty_conv)
  then show ?thesis using assms by (auto simp: bill_lines_ok_def)
qed

lemma bill_lines_add:
  assumes "bill_lines_ok bs is" "bi_bill l \<in> bl_id ` set bs"
  shows "bill_lines_ok (map (\<lambda>b. if bl_id b = bi_bill l then b\<lparr>bl_total := bl_total b + bi_amount l\<rparr> else b) bs) (is @ [l])"
proof -
  let ?f = "\<lambda>b::bill. if bl_id b = bi_bill l then b\<lparr>bl_total := bl_total b + bi_amount l\<rparr> else b"
  have ids: "map bl_id (map ?f bs) = map bl_id bs" by simp
  then have ids': "bl_id ` set (map ?f bs) = bl_id ` set bs" by (metis image_set)
  have "bl_total (?f b) = sum_list (map bi_amount (filter (\<lambda>i. bi_bill i = bl_id (?f b)) (is @ [l])))" if "b \<in> set bs" for b
    using assms(1) that by (auto simp: bill_lines_ok_def)
  then show ?thesis using assms ids ids' unfolding bill_lines_ok_def by (auto simp del: map_map)
qed

lemma bill_upsert_ok:
  assumes "bill_upsert newID uid s e w = Some (bid, w1)" "bill_lines_ok (bills w) (bill_items w)"
  shows "bill_lines_ok (bills w1) (bill_items w1) \<and> bid \<in> bl_id ` set (bills w1) \<and> bill_items w1 = bill_items w \<and> w1 = w\<lparr>bills := bills w1\<rparr>"
  using assms bill_lines_new [OF assms(2), of newID]
  by (auto simp: bill_upsert_def find_Some_iff split: option.split_asm if_split_asm)

lemma bill_line_effect:
  assumes "bill_line be a price amount cid no_faults n d = Next d' n' u" "price_of price (work d) = Some v"
    "bill_lines_ok (bills (work d)) (bill_items (work d))"
  shows "bill_lines_ok (bills (work d')) (bill_items (work d')) \<and>
    (\<exists>l. bill_items (work d') = bill_items (work d) @ [l] \<and> bi_charge l = cid \<and> bi_amount l = amount) \<and>
    d' = d\<lparr>work := (work d)\<lparr>bills := bills (work d'), bill_items := bill_items (work d')\<rparr>\<rparr>"
proof -
  from assms(1) obtain bid w1 w2 w3 where s: "bill_upsert (be_bill be) (ag_user a) (period_start (ag_start a)) (period_end (ag_start a)) (work d) = Some (bid, w1)"
    "bill_item_insert bid cid a price amount w1 = Some ((), w2)" "bill_add bid amount w2 = Some ((), w3)" "d' = d\<lparr>work := w3\<rparr>"
    by (auto simp: bill_line_def bindT_def split: option.split_asm)
  note u = bill_upsert_ok [OF s(1) assms(3)]
  have pr: "price_of price w1 = Some v" using u assms(2) by (metis price_of_def worker_db.select_convs(12) worker_db.surjective worker_db.update_convs(16))
  obtain l where l: "w2 = w1\<lparr>bill_items := bill_items w1 @ [l]\<rparr>" "bi_bill l = bid" "bi_charge l = cid" "bi_amount l = amount"
    using s(2) pr by (auto simp: bill_item_insert_def split: if_split_asm)
  have w3: "w3 = w2\<lparr>bills := map (\<lambda>b. if bl_id b = bid then b\<lparr>bl_total := bl_total b + amount\<rparr> else b) (bills w2)\<rparr>"
    using s(3) by (auto simp: bill_add_def split: if_split_asm)
  have "bill_lines_ok (bills w3) (bill_items w3)"
    using bill_lines_add [of "bills w1" "bill_items w1" l] u l w3 by auto
  moreover have "w3 = (work d)\<lparr>bills := bills w3, bill_items := bill_items w3\<rparr>"
    using u l(1) w3 by (metis (no_types, lifting) worker_db.surjective worker_db.update_convs(16,17) worker_db.select_convs(16,17))
  ultimately show ?thesis using u l w3 s(4) by auto
qed

definition kept_part :: "worker_db \<Rightarrow> usage_charge list \<times> bill list \<times> bill_item list \<times> credit_consumption list" where
  "kept_part w = (charges w, bills w, bill_items w, consumptions w)"

lemma kept_part_updates [simp]:
  "kept_part (seal_aggregate now a p w) = kept_part w" "kept_part (low_balance_alert now u b i w) = kept_part w"
  "kept_part (clear_alert u b w) = kept_part w" "kept_part (suspend_apps now u w) = kept_part w"
  "kept_part (drop_suspended_routes u w) = kept_part w" "kept_part (notify m w) = kept_part w"
  "kept_part (queue_recovery be u x w) = kept_part w" "kept_part (start_recovery u w) = kept_part w"
  by (simp_all add: kept_part_def seal_aggregate_def low_balance_alert_def clear_alert_def suspend_apps_def app_update_def
      drop_suspended_routes_def notify_def queue_recovery_def start_recovery_def Let_def)

lemma kept_part_attempt: "attempt_insert b w = Some (x, w') \<Longrightarrow> kept_part w' = kept_part w"
  by (auto simp: attempt_insert_def kept_part_def split: if_split_asm)

lemma unchanged_kept_after: "unchanged (\<lambda>d. kept_part (work d)) (after_charge be a price amount b c u x)"
  unfolding after_charge_def reserve_suspension_def Let_def
  by (intro unchanged_bind unchanged_basic unchanged_if unchanged_updateW unchanged_execW unchanged_queryW)
    (simp_all add: kept_part_attempt)

lemma unchanged_grants_after: "unchanged grants (after_charge be a price amount b c u x)"
  unfolding after_charge_def reserve_suspension_def Let_def by (intro unchanged_intros)

lemma unchanged_grants_charge_wallet: "unchanged grants (charge_wallet be a price wid x b)" "unchanged work (charge_wallet be a price wid x b)"
  unfolding charge_wallet_def
  by (intro unchanged_intros unchanged_exec; auto simp: ledger_insert_def wallet_set_def split: if_split_asm)+

text \<open>Once sealed, an aggregate stays sealed through the rest of the pass.\<close>

definition sealed_ids :: "worker_db \<Rightarrow> (int \<times> bool) list" where
  "sealed_ids w = map (\<lambda>b. (ag_id b, ag_sealed b = None)) (aggregates w)"

lemma sealed_ids_updates [simp]:
  "sealed_ids (low_balance_alert now u b i w) = sealed_ids w"
  "sealed_ids (clear_alert u b w) = sealed_ids w" "sealed_ids (suspend_apps now u w) = sealed_ids w"
  "sealed_ids (drop_suspended_routes u w) = sealed_ids w" "sealed_ids (notify m w) = sealed_ids w"
  "sealed_ids (queue_recovery be u x w) = sealed_ids w" "sealed_ids (start_recovery u w) = sealed_ids w"
  by (simp_all add: sealed_ids_def low_balance_alert_def clear_alert_def suspend_apps_def app_update_def
      drop_suspended_routes_def notify_def queue_recovery_def start_recovery_def Let_def)

lemma sealed_ids_mem: "(i, True) \<in> set (sealed_ids w) \<longleftrightarrow> (\<exists>e \<in> set (aggregates w). ag_id e = i \<and> ag_sealed e = None)"
  by (force simp: sealed_ids_def)

lemma sealed_ids_attempt: "attempt_insert b w = Some (x, w') \<Longrightarrow> sealed_ids w' = sealed_ids w"
  by (auto simp: attempt_insert_def sealed_ids_def split: if_split_asm)

lemma after_charge_seals:
  assumes "after_charge be a price amount b c u x no_faults n d = Commit d' r"
  shows "\<forall>e \<in> set (aggregates (work d')). ag_id e = ag_id a \<longrightarrow> ag_sealed e \<noteq> None"
proof -
  let ?av = "wrap64 (wrap64 (b + c) - u)"
  define k :: "unit \<Rightarrow> (db, worker_end, worker_end) tx" where "k = (\<lambda>_::unit. bindT (if x > 0 then
              bindT (updateW recording_failed (low_balance_alert (be_now be) (ag_user a) b (ag_id a))) (\<lambda>_.
              updateW recording_failed (clear_alert (ag_user a) b))
            else done_tx ()) (\<lambda>_.
     bindT (execW recording_failed (attempt_insert (new_attempt a price amount ''charged'' b (wrap64 (c - u))))) (\<lambda>_.
     bindT (reserve_suspension be a ?av) (\<lambda>containers.
     bindT (updateW recording_failed (queue_recovery be (ag_user a) ?av)) (\<lambda>_.
     bindT (updateW recording_failed (start_recovery (ag_user a))) (\<lambda>_.
     commit (Logged ''usage billing commit failed'') (Done ''usage charged'' (stopped_containers be containers))))))))"
  have b: "bindT (updateW recording_failed (seal_aggregate (be_now be) a price)) k no_faults n d = Commit d' r"
    using assms by (simp only: after_charge_def Let_def k_def)
  have un: "unchanged (\<lambda>d. sealed_ids (work d)) (k z)" for z
    unfolding k_def reserve_suspension_def Let_def
    by (intro unchanged_bind unchanged_basic unchanged_if unchanged_updateW unchanged_execW unchanged_queryW)
      (simp_all add: sealed_ids_attempt)
  have "sealed_ids (work d') = sealed_ids (seal_aggregate (be_now be) a price (work d))"
    using unchanged_bind_commit [OF b work_no_faults(4) un] by simp
  moreover have "(ag_id a, True) \<notin> set (sealed_ids (seal_aggregate (be_now be) a price (work d)))"
    unfolding sealed_ids_mem by (auto simp: seal_aggregate_def)
  ultimately have "(ag_id a, True) \<notin> set (sealed_ids (work d'))" by metis
  then show ?thesis by (simp add: sealed_ids_mem)
qed

lemma after_charge_done: "after_charge be a price amount b c u x no_faults n d = Commit d' r \<Longrightarrow> \<exists>cs. r = Done ''usage charged'' cs"
  by (auto simp: after_charge_def reserve_suspension_def bindT_def Let_def split: option.split_asm if_split_asm)

lemma bind_Commit:
  assumes "bindT m k no_faults n d = Commit d' r" "\<And>t r. m no_faults n d \<noteq> Commit t r"
  obtains t n' a where "m no_faults n d = Next t n' a" "k a no_faults n' t = Commit d' r"
  using assms by (auto simp: bindT_def split: txout.split_asm)

lemma no_commit:
  "execW err h flt n d \<noteq> Commit t r" "exec err g flt n d \<noteq> Commit t r" "updateW err f flt n d \<noteq> Commit t r"
  by (auto simp: execW_def updateW_def exec_def split: option.split)

lemma no_commit_consume: "consume_loop cid remaining gs flt n d \<noteq> Commit t r"
proof (induction gs arbitrary: remaining n d)
  case (Cons g gs)
  then show ?case by (auto simp: bindT_def no_commit done_tx_def Let_def split: txout.split)
qed (simp add: done_tx_def)

lemma no_commit_bill_line: "bill_line be a price amount cid flt n d \<noteq> Commit t r"
  by (auto simp: bill_line_def bindT_def no_commit split: txout.split)

lemma no_commit_charge_wallet: "charge_wallet be a price wid x b flt n d \<noteq> Commit t r"
  by (auto simp: charge_wallet_def bindT_def no_commit done_tx_def split: txout.split)

lemma consume_part: "unchanged (\<lambda>d. (bill_part (work d), prices (work d))) (consume_loop cid remaining gs)"
proof (induction gs arbitrary: remaining)
  case (Cons g gs)
  have 1: "unchanged (\<lambda>d. (bill_part (work d), prices (work d))) (exec recording_failed (grant_spend i u))" for i u
    by (rule unchanged_exec) (auto simp: grant_spend_def split: if_split_asm)
  have 2: "unchanged (\<lambda>d. (bill_part (work d), prices (work d))) (execW recording_failed (consumption_insert i cid u))" for i u
    by (rule unchanged_execW [where f = "\<lambda>w. (bill_part w, prices w)"]) (auto simp: consumption_insert_def bill_part_def split: if_split_asm)
  show ?case unfolding consume_loop.simps Let_def by (intro unchanged_bind unchanged_if unchanged_basic Cons.IH 1 2)
qed (simp add: unchanged_basic)

lemma bills_ok_lines: "bills_ok w \<longleftrightarrow> bill_lines_ok (bills w) (bill_items w) \<and> distinct (map charge_key (charges w)) \<and>
     map (\<lambda>i. (bi_charge i, bi_amount i)) (bill_items w) = map (\<lambda>c. (uc_id c, uc_amount c)) (charges w) \<and>
     (\<forall>c \<in> set (charges w). 0 \<le> uc_amount c)"
  unfolding bills_ok_def bill_lines_ok_def by blast

section \<open>Theorems\<close>

lemma record_charge_effect:
  assumes "record_charge be a price amount b gs credit used x entry no_faults n d = Commit d' r"
    "price_of price (work d) = Some v" "bills_ok (work d)" "distinct (map cg_id (grants d))"
    "cg_id ` set gs \<subseteq> cg_id ` set (grants d)" "0 \<le> used" "used < 2 ^ 63" "\<forall>g \<in> set gs. 0 < cg_remaining g"
    "used \<le> sum_list (map cg_remaining gs)"
  shows "bills_ok (work d') \<and>
    (\<exists>c. charges (work d') = charges (work d) @ [c] \<and> charge_key c = charge_key (new_charge a price amount entry) \<and> uc_amount c = amount) \<and>
    sum_list (map cg_remaining (grants d')) = sum_list (map cg_remaining (grants d)) - used \<and>
    (\<exists>cs. consumptions (work d') = consumptions (work d) @ cs \<and> sum_list (map cc_amount cs) = used) \<and>
    (\<forall>e \<in> set (aggregates (work d')). ag_id e = ag_id a \<longrightarrow> ag_sealed e \<noteq> None) \<and> (\<exists>cs. r = Done ''usage charged'' cs) \<and> 0 \<le> amount"
proof -
  from assms(1) obtain d1 n1 cid where s1: "execW recording_failed (charge_insert (new_charge a price amount entry)) no_faults n d = Next d1 n1 cid"
    and k1: "bindT (consume_loop cid used gs) (\<lambda>_. bindT (bill_line be a price amount cid) (\<lambda>_. after_charge be a price amount b credit used x)) no_faults n1 d1 = Commit d' r"
    unfolding record_charge_def by (rule bind_Commit) (rule no_commit(1))
  from k1 obtain d2 n2 u2 where s2: "consume_loop cid used gs no_faults n1 d1 = Next d2 n2 u2"
    and k2: "bindT (bill_line be a price amount cid) (\<lambda>_. after_charge be a price amount b credit used x) no_faults n2 d2 = Commit d' r"
    by (rule bind_Commit) (rule no_commit_consume)
  from k2 obtain d3 n3 u3 where s3: "bill_line be a price amount cid no_faults n2 d2 = Next d3 n3 u3"
    and k3: "after_charge be a price amount b credit used x no_faults n3 d3 = Commit d' r"
    by (rule bind_Commit) (rule no_commit_bill_line)
  define c where "c = (new_charge a price amount entry)\<lparr>uc_id := cid\<rparr>"
  have d1: "d1 = d\<lparr>work := (work d)\<lparr>charges := charges (work d) @ [c]\<rparr>\<rparr>" "charge_key c \<notin> charge_key ` set (charges (work d))" "0 \<le> amount"
    using s1 by (auto simp: charge_insert_def c_def Let_def new_charge_def charge_key_def split: if_split_asm)
  have c: "charge_key c = charge_key (new_charge a price amount entry)" "uc_amount c = amount" "uc_id c = cid"
    by (simp_all add: c_def new_charge_def charge_key_def)
  have e2: "sum_list (map cg_remaining (grants d2)) = sum_list (map cg_remaining (grants d1)) - sum_list (map snd (spends used gs)) \<and>
    consumptions (work d2) = consumptions (work d1) @ map (\<lambda>(g, u). \<lparr>cc_grant = g, cc_charge = cid, cc_amount = u\<rparr>) (spends used gs) \<and>
    map cg_id (grants d2) = map cg_id (grants d1)"
    by (rule consume_loop_effect [OF s2]) (use assms(4-8) d1(1) in simp_all)
  have sum: "sum_list (map snd (spends used gs)) = used" using assms(6,8,9) by (intro spends_sum)
  have p2: "bill_part (work d2) = bill_part (work d1) \<and> prices (work d2) = prices (work d1)"
    using unchanged_Next [OF consume_part s2] by simp
  have "price_of price (work d2) = Some v" using assms(2) d1(1) p2 by (simp add: price_of_def)
  moreover have "bill_lines_ok (bills (work d2)) (bill_items (work d2))"
    using assms(3) d1(1) p2 by (simp add: bill_part_def bills_ok_def bill_lines_ok_def)
  ultimately obtain l where e3: "bill_lines_ok (bills (work d3)) (bill_items (work d3))"
    "bill_items (work d3) = bill_items (work d2) @ [l]" "bi_charge l = cid" "bi_amount l = amount"
    "d3 = d2\<lparr>work := (work d2)\<lparr>bills := bills (work d3), bill_items := bill_items (work d3)\<rparr>\<rparr>"
    using bill_line_effect [OF s3] by blast
  have ch3: "charges (work d3) = charges (work d) @ [c]" "consumptions (work d3) = consumptions (work d2)" "grants d3 = grants d2"
    using arg_cong [OF e3(5), of "charges \<circ> work"] arg_cong [OF e3(5), of "consumptions \<circ> work"] arg_cong [OF e3(5), of grants]
      p2 d1(1) by (simp_all add: bill_part_def)
  have fin: "kept_part (work d') = kept_part (work d3)" "grants d' = grants d3"
    using unchanged_Commit [OF unchanged_kept_after k3] unchanged_Commit [OF unchanged_grants_after k3] by simp_all
  have items: "bill_items (work d3) = bill_items (work d) @ [l]" using e3(2) p2 d1(1) by (simp add: bill_part_def)
  note bills3 = assms(3) [unfolded bills_ok_lines] e3(3,4)
  have "bills_ok (work d3)"
    using bills3 e3(1) ch3(1) items c d1(2,3) by (simp add: bills_ok_lines)
  moreover have "bill_part (work d') = bill_part (work d3)" using fin(1) by (simp add: kept_part_def bill_part_def)
  ultimately have "bills_ok (work d')" using bills_ok_part by metis
  moreover have "charges (work d') = charges (work d) @ [c]" using fin(1) ch3(1) by (simp add: kept_part_def)
  moreover have "consumptions (work d') = consumptions (work d) @ map (\<lambda>(g, u). \<lparr>cc_grant = g, cc_charge = cid, cc_amount = u\<rparr>) (spends used gs)"
    using fin(1) ch3(2) e2 d1(1) by (simp add: kept_part_def)
  moreover have "sum_list (map cc_amount (map (\<lambda>(g, u). \<lparr>cc_grant = g, cc_charge = cid, cc_amount = u\<rparr>) (spends used gs))) = used"
    using sum by (simp add: o_def split_beta)
  moreover have "sum_list (map cg_remaining (grants d')) = sum_list (map cg_remaining (grants d)) - used"
    using fin(2) ch3(3) e2 sum d1(1) by simp
  ultimately show ?thesis using c after_charge_seals [OF k3] after_charge_done [OF k3] d1(3) by blast
qed

lemma bill_insufficient_done: "bill_insufficient be a price amount b c no_faults n d = Commit d' r \<Longrightarrow> \<exists>cs. r = Done [] cs"
  by (auto simp: bill_insufficient_def bindT_def Let_def split: option.split_asm)

lemma unchanged_bills_insufficient: "unchanged (\<lambda>d. bill_part (work d)) (bill_insufficient be a price amount b c)"
  unfolding bill_insufficient_def Let_def
  by (intro unchanged_bind unchanged_basic unchanged_if unchanged_updateW unchanged_execW unchanged_queryW)
    (auto simp: bill_part_def notify_def suspend_apps_def app_update_def drop_suspended_routes_def attempt_insert_def split: if_split_asm)

text \<open>The amounts of a settled aggregate.\<close>

definition usage_amount :: "billing_env \<Rightarrow> usage_aggregate \<Rightarrow> pricing_version \<Rightarrow> int" where
  "usage_amount be a v = price_amount (be_div be) (ag_quantity a) v"

definition credit_part :: "billing_env \<Rightarrow> usage_aggregate \<Rightarrow> pricing_version \<Rightarrow> db \<Rightarrow> int" where
  "credit_part be a v d = min (usage_amount be a v) (credit_total (be_now be) (ag_user a) d)"

definition credit_bounded :: "db \<Rightarrow> bool" where
  "credit_bounded d = (distinct (map cg_id (grants d)) \<and> (\<forall>now u. credit_total now u d < 2 ^ 63))"

definition charge_effect :: "billing_env \<Rightarrow> usage_aggregate \<Rightarrow> pricing_version \<Rightarrow> wallet \<Rightarrow> db \<Rightarrow> db \<Rightarrow> bool" where
  "charge_effect be a v w d d' =
    (let amount = usage_amount be a v; used = credit_part be a v d in
     0 \<le> used \<and> used \<le> amount \<and> amount - used \<le> w_balance w \<and>
     map_option w_balance (wallet_of (ag_user a) d') = Some (w_balance w - (amount - used)) \<and>
     sum_list (map cg_remaining (grants d')) = sum_list (map cg_remaining (grants d)) - used \<and>
     (\<exists>cs. consumptions (work d') = consumptions (work d) @ cs \<and> sum_list (map cc_amount cs) = used) \<and>
     (\<exists>c. charges (work d') = charges (work d) @ [c] \<and> uc_amount c = amount \<and> uc_user c = ag_user a \<and> uc_code c = ag_code a \<and>
        uc_app c = ag_app a \<and> uc_start c = ag_start a \<and> uc_end c = ag_end a) \<and>
     (\<forall>e \<in> set (aggregates (work d')). ag_id e = ag_id a \<longrightarrow> ag_sealed e \<noteq> None))"

lemma usage_move_wallet:
  assumes "ledger_ok d" "wallet_of u d = Some w" "0 \<le> charge"
  shows "map_option w_balance (wallet_of u (usage_move be a price (w_id w) charge d)) = Some (w_balance w - charge)"
  using assms(2,3) ledger_ok_balance [OF assms(1)] wallet_of_Some [OF assms(2)]
  by (auto simp: usage_move_def wallet_of_move_money)

lemma record_charge_amount:
  "record_charge be a price amount b gs credit used x e no_faults n d = Commit d' r \<Longrightarrow> 0 \<le> amount"
  unfolding record_charge_def
  by (erule bind_Commit, rule no_commit(1)) (auto simp: charge_insert_def new_charge_def Let_def split: if_split_asm)

lemma settle_usage_effect:
  assumes ok: "ledger_ok d" "credit_bounded d" "bills_ok (work d)"
    and w: "wallet_of (ag_user a) d = Some w" and v: "price_of price (work d) = Some v" "pr_id v = price"
    and amount: "in64 (usage_amount be a v)"
    and s: "settle_usage be a price (usage_amount be a v) w (usage_grants (be_now be) (ag_user a) d) no_faults n d = Commit d' r"
  shows "bills_ok (work d') \<and> ((\<exists>cs. r = Done [] cs) \<or> charge_effect be a v w d d')"
proof -
  let ?gs = "usage_grants (be_now be) (ag_user a) d"
  define amount where "amount = usage_amount be a v"
  define credit where "credit = credit_total (be_now be) (ag_user a) d"
  define used where "used = (if amount > credit then credit else amount)"
  have credit: "credit_balance ?gs = credit" "0 \<le> credit" "credit < 2 ^ 63"
    using ok(2) usage_grants_props(4) by (auto simp: credit_def credit_balance_total credit_bounded_def)
  have charge: "wrap64 (amount - used) = amount - used"
    using amount credit by (auto simp: amount_def [symmetric] used_def in64_def)
  have s': "(if w_balance w < amount - used then bill_insufficient be a price amount (w_balance w) credit
     else bill_charge be a price amount (w_id w) (w_balance w) ?gs credit used (amount - used)) no_faults n d = Commit d' r"
    using s unfolding settle_usage_def Let_def amount_def [symmetric] credit(1) used_def [symmetric] charge .
  show ?thesis
  proof (cases "w_balance w < amount - used")
    case True
    with s' have i: "bill_insufficient be a price amount (w_balance w) credit no_faults n d = Commit d' r" by simp
    from bill_insufficient_done [OF i] bills_ok_part [OF unchanged_Commit [OF unchanged_bills_insufficient i]] ok(3)
    show ?thesis by blast
  next
    case False
    have win: "w \<in> set (wallets d)" using wallet_of_Some [OF w] by simp
    have b: "bill_charge be a price amount (w_id w) (w_balance w) ?gs credit used (amount - used) no_faults n d = Commit d' r"
      using False s' by simp
    have mm: "money_core d' = money_core (usage_move be a price (w_id w) (amount - used) d)"
      using bill_charge_money [OF ok(1) win _ b] False by simp
    from b obtain t n' e where cw: "charge_wallet be a price (w_id w) (amount - used) (wrap64 (w_balance w - (amount - used))) no_faults n d = Next t n' e"
      and rc: "record_charge be a price amount (wrap64 (w_balance w - (amount - used))) ?gs credit used (amount - used) e no_faults n' t = Commit d' r"
      unfolding bill_charge_def Let_def by (rule bind_Commit) (rule no_commit_charge_wallet)
    have t: "work t = work d" "grants t = grants d"
      using unchanged_Next [OF unchanged_grants_charge_wallet(1) cw] unchanged_Next [OF unchanged_grants_charge_wallet(2) cw] by simp_all
    have am: "0 \<le> amount" using record_charge_amount [OF rc] .
    have used: "0 \<le> used" "used \<le> amount" "used \<le> credit" "used = min amount credit" using am credit(2) by (auto simp: used_def)
    have used63: "used < 2 ^ 63" using used(3) credit(3) by linarith
    have eff: "bills_ok (work d') \<and>
      (\<exists>c. charges (work d') = charges (work t) @ [c] \<and> charge_key c = charge_key (new_charge a price amount e) \<and> uc_amount c = amount) \<and>
      sum_list (map cg_remaining (grants d')) = sum_list (map cg_remaining (grants t)) - used \<and>
      (\<exists>cs. consumptions (work d') = consumptions (work t) @ cs \<and> sum_list (map cc_amount cs) = used) \<and>
      (\<forall>e \<in> set (aggregates (work d')). ag_id e = ag_id a \<longrightarrow> ag_sealed e \<noteq> None) \<and> (\<exists>cs. r = Done ''usage charged'' cs) \<and> 0 \<le> amount"
      by (rule record_charge_effect [OF rc])
        (use t v(1) ok credit used(1-3) used63 usage_grants_props [of "be_now be" "ag_user a" d] in \<open>auto simp: credit_def credit_bounded_def\<close>)
    have "wallet_of (ag_user a) d' = wallet_of (ag_user a) (usage_move be a price (w_id w) (amount - used) d)"
      using mm by (simp add: money_core_def wallet_of_def)
    then have wd: "map_option w_balance (wallet_of (ag_user a) d') = Some (w_balance w - (amount - used))"
      using usage_move_wallet [OF ok(1) w, of "amount - used"] used(2) by simp
    have "charge_effect be a v w d d'"
      unfolding charge_effect_def Let_def credit_part_def amount_def [symmetric] credit_def [symmetric] used(4) [symmetric]
      using eff wd used False t by (fastforce simp: charge_key_def new_charge_def)
    then show ?thesis using eff by blast
  qed
qed

lemma price_of_id: "price_of i w = Some v \<Longrightarrow> pr_id v = i"
  by (auto simp: price_of_def find_Some_iff)

lemma billUsage_effect:
  assumes "ledger_ok d" "credit_bounded d" "bills_ok (work d)" "billUsage be no_faults 0 d = Commit d' r"
  shows "bills_ok (work d') \<and> ((\<exists>cs. r = Done [] cs) \<or> (\<exists>a v w. claim_aggregate (be_now be) d = Some a \<and>
    price_of (the (ag_price a)) (work d) = Some v \<and> wallet_of (ag_user a) d = Some w \<and> charge_effect be a v w d d'))"
proof -
  from assms(4) obtain a v w n where s: "claim_aggregate (be_now be) d = Some a" "price_of (the (ag_price a)) (work d) = Some v"
    "wallet_of (ag_user a) d = Some w" "in64 (price_amount (be_div be) (ag_quantity a) v)"
    "settle_usage be a (pr_id v) (price_amount (be_div be) (ag_quantity a) v) w
         (sort_key grant_order (live_grants (be_now be) (ag_user a) d)) no_faults n d = Commit d' r" by (rule billUsage_Commit)
  have "bills_ok (work d') \<and> ((\<exists>cs. r = Done [] cs) \<or> charge_effect be a v w d d')"
    by (rule settle_usage_effect [OF assms(1-3) s(3)])
      (use s price_of_id [OF s(2)] in \<open>simp_all add: usage_amount_def usage_grants_def\<close>)
  then show ?thesis using s(1-3) by blast
qed


lemma sum_by_bill:
  fixes ls :: "bill_item list"
  assumes "distinct ids" "\<forall>i \<in> set ls. bi_bill i \<in> set ids"
  shows "sum_list (map (\<lambda>b. sum_list (map bi_amount (filter (\<lambda>i. bi_bill i = b) ls))) ids) = sum_list (map bi_amount ls)"
  using assms(2)
proof (induction ls)
  case (Cons l ls)
  have one: "sum_list (map (\<lambda>b. if bi_bill l = b then bi_amount l else 0) ids) = bi_amount l"
    using assms(1) Cons.prems by (simp add: sum_list_distinct_conv_sum_set)
  have "sum_list (map (\<lambda>b. sum_list (map bi_amount (filter (\<lambda>i. bi_bill i = b) (l # ls)))) ids) =
     sum_list (map (\<lambda>b. (if bi_bill l = b then bi_amount l else 0) + sum_list (map bi_amount (filter (\<lambda>i. bi_bill i = b) ls))) ids)"
    by (intro arg_cong [where f = sum_list] map_cong) auto
  then show ?case using one Cons by (simp add: sum_list_addf)
qed simp

lemma bills_total:
  assumes "bills_ok w"
  shows "sum_list (map bl_total (bills w)) = sum_list (map uc_amount (charges w))"
proof -
  have "map bl_total (bills w) = map (\<lambda>b. sum_list (map bi_amount (filter (\<lambda>i. bi_bill i = b) (bill_items w)))) (map bl_id (bills w))"
    using assms by (auto simp: bills_ok_def)
  then have "sum_list (map bl_total (bills w)) =
     sum_list (map (\<lambda>b. sum_list (map bi_amount (filter (\<lambda>i. bi_bill i = b) (bill_items w)))) (map bl_id (bills w)))" by (rule arg_cong)
  also have "\<dots> = sum_list (map bi_amount (bill_items w))"
    by (rule sum_by_bill) (use assms in \<open>auto simp: bills_ok_def\<close>)
  also have "map bi_amount (bill_items w) = map snd (map (\<lambda>i. (bi_charge i, bi_amount i)) (bill_items w))" by simp
  also have "\<dots> = map snd (map (\<lambda>c. (uc_id c, uc_amount c)) (charges w))" using assms by (simp only: bills_ok_def)
  finally show ?thesis by (simp add: o_def)
qed


section \<open>An example\<close>

definition example_billing_env :: billing_env where
  "example_billing_env = \<lparr>be_div = (/), be_rfc3339 = show_int, be_now = 1000, be_executor = True, be_bill = ''B'',
     be_job = (\<lambda>a. a), be_nonce = (\<lambda>a. a)\<rparr>"

definition example_usage :: usage_aggregate where
  "example_usage = \<lparr>ag_id = 1, ag_user = ''U'', ag_app = None, ag_code = ''cpu'', ag_unit = ''h'', ag_start = 0, ag_end = 300,
     ag_price = Some ''P'', ag_quantity = 30, ag_sealed = None, ag_disposition = ''pending''\<rparr>"

definition example_billing_db :: db where
  "example_billing_db = empty_db\<lparr>wallets := [\<lparr>w_id = ''W'', w_user = ''U'', w_balance = 500, w_version = 1\<rparr>],
     ledger := [\<lparr>le_id = 1, le_wallet = ''W'', le_type = ''adjustment'', le_ref = ''x'', le_amount = 500, le_after = 500\<rparr>],
     grants := [\<lparr>cg_id = ''G'', cg_user = ''U'', cg_amount = 20, cg_remaining = 20, cg_ref = ''g'', cg_note = [], cg_expires = None, cg_created = 0\<rparr>],
     work := empty_worker_db\<lparr>aggregates := [example_usage], settings := Some \<lparr>ss_reserve = 0, ss_domain = ''d'', ss_port_min = 1, ss_port_max = 2, ss_delete_days = 0\<rparr>,
       prices := [\<lparr>pr_id = ''P'', pr_item = ''I'', pr_version = 1, pr_micros = 1000000, pr_rounding = ''up'', pr_minimum = 0, pr_free = 0,
         pr_effective = 0\<rparr>]\<rparr>\<rparr>"

lemma example_billing_db_ok: "money_ok example_billing_db" "credit_bounded example_billing_db" "bills_ok (work example_billing_db)"
  by (auto simp: example_billing_db_def empty_db_def money_ok_def ledger_ok_def wallet_ok_def entries_ok_def total_of_def entries_of_def
      entry_key_def credit_bounded_def credit_total_def live_grants_def bills_ok_def empty_worker_db_def)

lemma example_claim: "claim_aggregate 1000 example_billing_db = Some example_usage"
  by (simp add: claim_aggregate_def example_billing_db_def empty_db_def empty_worker_db_def claimable_def example_usage_def charged_def
      refused_def wallet_of_def)

lemma example_period: "period_start 0 = 0" "period_end 0 = 31 * nanos_per_day"
  by code_simp+

lemmas example_bill_simps = example_billing_db_def example_usage_def price_of_def empty_db_def empty_worker_db_def Let_def
  price_amount_def billed_quantity_def example_billing_env_def in64_def wallet_of_def live_grants_def settle_usage_def credit_balance_def
  wrap64_def bill_charge_def bindT_def charge_wallet_def ledger_insert_def wallet_set_def record_charge_def charge_insert_def
  new_charge_def charge_key_def grant_spend_def consumption_insert_def bill_line_def bill_upsert_def bill_item_insert_def bill_add_def
  after_charge_def seal_aggregate_def low_balance_alert_def clear_alert_def attempt_insert_def new_attempt_def reserve_suspension_def
  belowStartupReserve_def queue_recovery_def start_recovery_def app_update_def stopped_containers_def done_tx_def

lemma example_bill_runs:
  "\<exists>d'. run (billUsage example_billing_env) no_faults example_billing_db = (Done ''usage charged'' [], d') \<and> length (charges (work d')) = 1"
proof -
  have claim: "claim_aggregate (be_now example_billing_env) example_billing_db = Some example_usage"
    using example_claim by (simp add: example_billing_env_def)
  have nanos: "0 < 31 * nanos_per_day" by (simp add: nanos_per_day_def)
  show ?thesis
    by (simp add: run_simps billUsage_def claim) (use nanos in \<open>simp add: example_bill_simps example_period\<close>)
qed



section \<open>Aggregation\<close>

definition total_quantity :: "worker_db \<Rightarrow> rat" where
  "total_quantity w = sum_list (map ag_quantity (aggregates w))"

definition sealed_key :: "worker_db \<Rightarrow> _ \<Rightarrow> bool" where
  "sealed_key w k = list_ex (\<lambda>a. ag_key a = k \<and> ag_sealed a \<noteq> None) (aggregates w)"

lemma sum_update_one:
  fixes xs :: "usage_aggregate list"
  assumes "distinct (map ag_key xs)" "k \<in> ag_key ` set xs" "\<forall>a \<in> set xs. ag_key a = k \<longrightarrow> ag_sealed a = None"
  shows "sum_list (map ag_quantity (map (\<lambda>a. if ag_key a = k \<and> ag_sealed a = None then a\<lparr>ag_quantity := ag_quantity a + q\<rparr> else a) xs))
     = sum_list (map ag_quantity xs) + q"
  using assms
proof (induction xs)
  case (Cons x xs)
  show ?case
  proof (cases "ag_key x = k")
    case True
    then have "map (\<lambda>a. if ag_key a = k \<and> ag_sealed a = None then a\<lparr>ag_quantity := ag_quantity a + q\<rparr> else a) xs = xs"
      using Cons.prems(1) by (intro map_idI) (auto simp: image_iff)
    then show ?thesis using True Cons.prems(3) by simp
  next
    case False
    then show ?thesis using Cons by (auto simp: add.assoc)
  qed
qed simp

lemma ag_key_quantity [simp]: "ag_key (a\<lparr>ag_quantity := q\<rparr>) = ag_key a"
  by (simp add: ag_key_def)

lemma write_group_ag_keys:
  "map ag_key (aggregates (write_group now (e, q) w)) =
    (if list_ex (\<lambda>a. ag_key a = agg_key e) (aggregates w) then map ag_key (aggregates w) else map ag_key (aggregates w) @ [agg_key e])"
  by (simp add: write_group_def o_def if_distrib [of ag_key]) (simp add: ag_key_def agg_key_def)

lemma write_group_keys:
  assumes "distinct (map ag_key (aggregates w))"
  shows "distinct (map ag_key (aggregates (write_group now (e, q) w)))"
proof (cases "list_ex (\<lambda>a. ag_key a = agg_key e) (aggregates w)")
  case False
  then have "agg_key e \<notin> set (map ag_key (aggregates w))" by (auto simp: list_ex_iff)
  then show ?thesis using assms False by (simp add: write_group_ag_keys)
qed (simp add: write_group_ag_keys assms)

lemma write_group_total:
  assumes "distinct (map ag_key (aggregates w))" "\<not> sealed_key w (agg_key e)"
  shows "total_quantity (write_group now (e, q) w) = total_quantity w + q"
proof (cases "list_ex (\<lambda>a. ag_key a = agg_key e) (aggregates w)")
  case True
  then have k: "agg_key e \<in> ag_key ` set (aggregates w)" by (metis (mono_tags, lifting) imageI list_ex_iff)
  have "\<forall>a \<in> set (aggregates w). ag_key a = agg_key e \<longrightarrow> ag_sealed a = None"
    using assms(2) by (auto simp: sealed_key_def list_ex_iff)
  from sum_update_one [OF assms(1) k this, of q] True show ?thesis
    by (simp add: write_group_def total_quantity_def del: map_map)
qed (simp add: write_group_def total_quantity_def)

lemma write_group_sealed:
  "k \<noteq> agg_key e \<Longrightarrow> sealed_key (write_group now (e, q) w) k = sealed_key w k"
  by (auto simp: write_group_def sealed_key_def list_ex_iff ag_key_def agg_key_def split: if_split_asm)

lemma fold_write_group:
  assumes "distinct (map ag_key (aggregates w))" "distinct (map (\<lambda>g. agg_key (fst g)) gs)" "\<forall>g \<in> set gs. \<not> sealed_key w (agg_key (fst g))"
  shows "total_quantity (fold (write_group now) gs w) = total_quantity w + sum_list (map snd gs)"
  using assms
proof (induction gs arbitrary: w)
  case (Cons g gs)
  obtain e q where g: "g = (e, q)" by fastforce
  have ns: "\<not> sealed_key (write_group now g w) (agg_key (fst x))" if "x \<in> set gs" for x
  proof -
    have "agg_key (fst x) \<noteq> agg_key e" using that Cons.prems(2) by (force simp: g)
    then show ?thesis using that Cons.prems(3) by (simp add: g write_group_sealed)
  qed
  have "total_quantity (fold (write_group now) gs (write_group now g w)) = total_quantity (write_group now g w) + sum_list (map snd gs)"
    by (rule Cons.IH) (use Cons.prems ns in \<open>simp_all add: g write_group_keys\<close>)
  then show ?case using Cons.prems by (simp add: g write_group_total)
qed simp

lemma sum_grouped: "sum_list (map snd (grouped es)) = sum_list (map ev_quantity es)"
proof -
  have "sum_list (map (\<lambda>k. sum_list (map ev_quantity (filter (\<lambda>e. group_key e = k) es))) ks) = sum_list (map ev_quantity es)"
    if "distinct ks" "group_key ` set es \<subseteq> set ks" for ks
    using that
  proof (induction es)
    case (Cons e es)
    have one: "sum_list (map (\<lambda>k. if group_key e = k then ev_quantity e else 0) ks) = ev_quantity e"
      using Cons.prems by (simp add: sum_list_distinct_conv_sum_set)
    have "sum_list (map (\<lambda>k. sum_list (map ev_quantity (filter (\<lambda>x. group_key x = k) (e # es)))) ks) =
      sum_list (map (\<lambda>k. (if group_key e = k then ev_quantity e else 0) + sum_list (map ev_quantity (filter (\<lambda>x. group_key x = k) es))) ks)"
      by (intro arg_cong [where f = sum_list] map_cong) auto
    then show ?case using one Cons by (simp add: sum_list_addf)
  qed simp
  from this [of "remdups (map group_key es)"] show ?thesis by (simp add: grouped_def o_def)
qed

lemma grouped_keys: "g \<in> set (grouped es) \<Longrightarrow> agg_key (fst g) \<in> agg_key ` set es"
proof -
  assume "g \<in> set (grouped es)"
  then obtain x where x: "x \<in> set es" "fst g = the (find (\<lambda>e. group_key e = group_key x) es)"
    unfolding grouped_def by force
  then have "find (\<lambda>e. group_key e = group_key x) es \<noteq> None" by (auto simp: find_None_iff)
  then obtain e where "find (\<lambda>e. group_key e = group_key x) es = Some e" by blast
  then have "fst g = e" "e \<in> set es" using x(2) by (simp, metis find_Some_iff nth_mem)
  then show ?thesis by blast
qed


lemma mark_first_some [simp]: "mark_first (numeral n) now (e # es) = (if ev_aggregated e = None
    then e\<lparr>ev_aggregated := Some now\<rparr> # mark_first (pred_numeral n) now es else e # mark_first (numeral n) now es)"
  by (simp add: numeral_eq_Suc)

definition example_event :: usage_event where
  "example_event = \<lparr>ev_user = ''U'', ev_app = None, ev_code = ''cpu'', ev_quantity = 7, ev_unit = ''h'', ev_start = 0, ev_end = 300,
     ev_price = Some ''P'', ev_key = ''k'', ev_aggregated = None\<rparr>"

definition example_events_db :: worker_db where
  "example_events_db = empty_worker_db\<lparr>events := [example_event]\<rparr>"

lemma example_aggregate: "\<exists>w'. aggregate_statement 9 example_events_db = Some ((), w')"
  by (simp add: aggregate_statement_def example_events_db_def empty_worker_db_def claimed_events_def example_event_def grouped_def group_key_def
      agg_key_def Let_def)


text \<open>Usage that arrives for a window whose aggregate is already sealed is dropped: the event is marked as
  aggregated, no aggregate changes, and nothing will bill it.\<close>

theorem late_usage_dropped:
  "\<exists>w'. aggregate_statement 9 (example_events_db\<lparr>aggregates := [\<lparr>ag_id = 1, ag_user = ''U'', ag_app = None, ag_code = ''cpu'', ag_unit = ''h'',
        ag_start = 0, ag_end = 300, ag_price = Some ''P'', ag_quantity = 5, ag_sealed = Some 4, ag_disposition = ''charged''\<rparr>]\<rparr>) = Some ((), w') \<and>
     total_quantity w' = 5 \<and> map ev_aggregated (events w') = [Some 9]"
  by (simp add: aggregate_statement_def example_events_db_def empty_worker_db_def claimed_events_def example_event_def grouped_def group_key_def
      agg_key_def ag_key_def Let_def write_group_def total_quantity_def mark_first_some)

end
