(* ===== verification/Runtime_Spec.thy ===== *)
theory Runtime_Spec
  imports Prelude
begin

text \<open>
  The runtime specification of an application release (\<^verbatim>\<open>internal/runtime/spec.go\<close>): validation of
  the JSON object, the typed views of it (resources, storage, command, secrets, dependencies,
  volume mounts) and the names of the Docker resources derived from it.  A loop over a slice or a
  map is a recursive function over the list; the digest of \<^verbatim>\<open>crypto/sha256\<close> is the argument \<open>sha256\<close>
  of the naming functions.
\<close>

section \<open>Patterns\<close>

text \<open>\<^verbatim>\<open>^[P][Q]{0,n}$\<close>\<close>

definition pat :: "(char \<Rightarrow> bool) \<Rightarrow> (char \<Rightarrow> bool) \<Rightarrow> nat \<Rightarrow> string \<Rightarrow> bool" where
  "pat p q n s = (case s of [] \<Rightarrow> False | c # cs \<Rightarrow> p c \<and> list_all q cs \<and> length cs \<le> n)"

definition slug_char :: "char \<Rightarrow> bool" where
  "slug_char c = (is_lower c \<or> is_digit c \<or> c = CHR ''-'')"

definition volumeKeyPattern :: "string \<Rightarrow> bool" where
  "volumeKeyPattern = pat is_lower slug_char 31"

definition environmentKeyPattern :: "string \<Rightarrow> bool" where
  "environmentKeyPattern = pat (\<lambda>c. is_lower c \<or> is_upper c \<or> c = CHR ''_'')
     (\<lambda>c. is_alnum c \<or> c = CHR ''_'') 127"

definition secretKeyPattern :: "string \<Rightarrow> bool" where
  "secretKeyPattern = pat (\<lambda>c. is_upper c \<or> c = CHR ''_'')
     (\<lambda>c. is_upper c \<or> is_digit c \<or> c = CHR ''_'') 127"

definition dependencyKeyPattern :: "string \<Rightarrow> bool" where
  "dependencyKeyPattern = pat is_lower slug_char 31"

definition serviceSlugPattern :: "string \<Rightarrow> bool" where
  "serviceSlugPattern = pat (\<lambda>c. is_lower c \<or> is_digit c) slug_char 62"

definition hex_block :: "nat \<Rightarrow> string \<Rightarrow> bool" where
  "hex_block n s = (length s = n \<and> list_all is_hex s)"

definition uuidPattern :: "string \<Rightarrow> bool" where
  "uuidPattern s = (case split_on CHR ''-'' s of
     [a, b, c, d, e] \<Rightarrow> hex_block 8 a \<and> hex_block 4 b
       \<and> hex_block 4 c \<and> hd c \<in> set ''12345'' \<and> hex_block 4 d \<and> hd d \<in> set ''89ab'' \<and> hex_block 12 e
   | _ \<Rightarrow> False)"

definition image_tag_tail :: "string \<Rightarrow> bool" where
  "image_tag_tail t = (case t of [] \<Rightarrow> False
     | c # u \<Rightarrow> c = CHR '':'' \<and> pat (\<lambda>c. is_alnum c \<or> c = CHR ''_'') (\<lambda>c. is_alnum c \<or> c \<in> set ''._-'') 127 u)"

definition image_digest_tail :: "string \<Rightarrow> bool" where
  "image_digest_tail t = (prefix ''@sha256:'' t \<and> hex_block 64 (drop 8 t))"

definition imageReferencePattern :: "string \<Rightarrow> bool" where
  "imageReferencePattern s = (case s of [] \<Rightarrow> False
     | c # cs \<Rightarrow> is_alnum c \<and>
         list_ex (\<lambda>i. list_all (\<lambda>x. is_alnum x \<or> x \<in> set ''._/:-'') (take i cs)
           \<and> (image_tag_tail (drop i cs) \<or> image_digest_tail (drop i cs))) [0 ..< Suc (length cs)])"

section \<open>Types and constants\<close>

record VolumeMount =
  vm_key :: string
  vm_mountPath :: string
  vm_sizeGiB :: gofloat

record Dependency =
  dep_key :: string
  dep_productId :: string
  dep_serviceSlug :: string
  dep_required :: bool

record SecretOption =
  so_key :: string
  so_description :: string
  so_editable :: bool

record Resources =
  CPUCores :: gofloat
  MemoryMiB :: gofloat

record StorageResources =
  SystemDiskGiB :: gofloat
  DataDiskGiB :: gofloat

definition DefaultRuntimeOwner :: string where "DefaultRuntimeOwner = ''cloudmeter''"
definition DefaultBackupVolume :: string where "DefaultBackupVolume = ''cloudmeter_backup_data''"
definition DefaultCPUCores :: gofloat where "DefaultCPUCores = Fin 1"
definition DefaultMemoryMiB :: gofloat where "DefaultMemoryMiB = Fin 512"
text \<open>The float64 nearest to 0.1.\<close>
definition MinCPUCores :: gofloat where "MinCPUCores = Fin (3602879701896397 / 36028797018963968)"
definition MaxCPUCores :: gofloat where "MaxCPUCores = Fin 64"
definition MinMemoryMiB :: gofloat where "MinMemoryMiB = Fin 64"
definition MaxMemoryMiB :: gofloat where "MaxMemoryMiB = Fin 262144"
definition DefaultSystemDiskGiB :: gofloat where "DefaultSystemDiskGiB = Fin 5"
definition DefaultVolumeGiB :: gofloat where "DefaultVolumeGiB = Fin 10"
definition MinSystemDiskGiB :: gofloat where "MinSystemDiskGiB = Fin 1"
definition MaxSystemDiskGiB :: gofloat where "MaxSystemDiskGiB = Fin 1024"
definition MinVolumeGiB :: gofloat where "MinVolumeGiB = Fin 1"
definition MaxVolumeGiB :: gofloat where "MaxVolumeGiB = Fin 16384"

lemmas const_defs = DefaultRuntimeOwner_def DefaultBackupVolume_def DefaultCPUCores_def
  DefaultMemoryMiB_def MinCPUCores_def MaxCPUCores_def MinMemoryMiB_def MaxMemoryMiB_def
  DefaultSystemDiskGiB_def DefaultVolumeGiB_def MinSystemDiskGiB_def MaxSystemDiskGiB_def
  MinVolumeGiB_def MaxVolumeGiB_def

definition out_of_range :: "gofloat \<Rightarrow> gofloat \<Rightarrow> gofloat \<Rightarrow> bool" where
  "out_of_range lo hi x = (isNaN x \<or> isInf x \<or> x < lo \<or> x > hi)"

section \<open>Typed views of a specification\<close>

definition ValidateImageDigest :: "string \<Rightarrow> unit result" where
  "ValidateImageDigest value0 =
    (let value = trim_space value0 in
     if contains value ''://'' \<or> \<not> imageReferencePattern value
     then Inl (Errorf ''image must include a version tag (for example nginx:1.27) or sha256 digest'' [])
     else Inr ())"

definition RuntimeResources :: "gomap \<Rightarrow> bool \<Rightarrow> Resources result" where
  "RuntimeResources spec required =
    (let cpu0 = numeric (mget spec ''cpuCores''); memory0 = numeric (mget spec ''memoryMiB'') in
     if required \<and> (cpu0 = None \<or> memory0 = None)
     then Inl (Errorf ''cpuCores and memoryMiB are required'' [])
     else let cpu = (case cpu0 of Some f \<Rightarrow> f | None \<Rightarrow> DefaultCPUCores);
              memory = (case memory0 of Some f \<Rightarrow> f | None \<Rightarrow> DefaultMemoryMiB) in
     if out_of_range MinCPUCores MaxCPUCores cpu
     then Inl (Errorf ''cpuCores must be between %.1f and %.0f'' [''0.1'', ''64''])
     else if out_of_range MinMemoryMiB MaxMemoryMiB memory
     then Inl (Errorf ''memoryMiB must be between %.0f and %.0f'' [''64'', ''262144''])
     else Inr \<lparr>CPUCores = cpu, MemoryMiB = memory\<rparr>)"

fun storage_loop :: "bool \<Rightarrow> bool \<Rightarrow> gofloat \<Rightarrow> goval list \<Rightarrow> gofloat result" where
  "storage_loop required dataDiskOK dataDisk [] = Inr dataDisk"
| "storage_loop required dataDiskOK dataDisk (item # items) =
    (case as_obj item of
       None \<Rightarrow> Inl (Errorf ''volumes must use name, mountPath and sizeGiB'' [])
     | Some entry \<Rightarrow>
        (let size0 = numeric (mget entry ''sizeGiB'') in
         if required \<and> size0 = None then Inl (Errorf ''every volume must declare sizeGiB'' [])
         else let size = (case size0 of Some f \<Rightarrow> f | None \<Rightarrow> DefaultVolumeGiB) in
         if out_of_range MinVolumeGiB MaxVolumeGiB size
         then Inl (Errorf ''volume sizeGiB must be between %.0f and %.0f'' [''1'', ''16384''])
         else storage_loop required dataDiskOK
                (if \<not> dataDiskOK \<or> size > dataDisk then size else dataDisk) items))"

definition RuntimeStorage :: "gomap \<Rightarrow> bool \<Rightarrow> StorageResources result" where
  "RuntimeStorage spec required =
    (let systemDisk = (case numeric (mget spec ''systemDiskGiB'') of Some f \<Rightarrow> f | None \<Rightarrow> DefaultSystemDiskGiB) in
     if out_of_range MinSystemDiskGiB MaxSystemDiskGiB systemDisk
     then Inl (Errorf ''systemDiskGiB must be between %.0f and %.0f'' [''1'', ''1024''])
     else
       let values = (case as_arr (mget spec ''volumes'') of Some vs \<Rightarrow> vs | None \<Rightarrow> []);
           data0 = (if values = [] then None else numeric (mget spec ''dataVolumeGiB''));
           dataDiskOK = (data0 \<noteq> None);
           dataDisk0 = (case data0 of Some f \<Rightarrow> f | None \<Rightarrow> Fin 0) in
       bindR (storage_loop required dataDiskOK dataDisk0 values) (\<lambda>dataDisk.
         if dataDiskOK \<and> out_of_range MinVolumeGiB MaxVolumeGiB dataDisk
         then Inl (Errorf ''dataVolumeGiB must be between %.0f and %.0f'' [''1'', ''16384''])
         else Inr \<lparr>SystemDiskGiB = systemDisk, DataDiskGiB = dataDisk\<rparr>))"

definition RuntimeDataVolumeGiB :: "gomap \<Rightarrow> bool \<Rightarrow> gofloat result" where
  "RuntimeDataVolumeGiB spec required =
    bindR (RuntimeStorage spec required) (\<lambda>storage. Inr (DataDiskGiB storage))"

fun command_loop :: "nat \<Rightarrow> string list \<Rightarrow> goval list \<Rightarrow> (nat \<times> string list) result" where
  "command_loop tot command [] = Inr (tot, command)"
| "command_loop tot command (rawValue # rest) =
    (case as_str rawValue of
       None \<Rightarrow> Inl (Errorf ''command arguments must be non-empty strings'' [])
     | Some value \<Rightarrow>
        if trim_space value = [] then Inl (Errorf ''command arguments must be non-empty strings'' [])
        else if length value > 4096 then Inl (Errorf ''command argument is too long'' [])
        else command_loop (tot + length value) (command @ [value]) rest)"

definition any_slice :: "goval \<Rightarrow> goval list option" where
  "any_slice raw = (case raw of VArr vs \<Rightarrow> Some vs | VStrs ss \<Rightarrow> Some (map VStr ss) | _ \<Rightarrow> None)"

definition RuntimeCommand :: "gomap \<Rightarrow> string list result" where
  "RuntimeCommand spec =
    (if mget spec ''command'' = VNil then Inr []
     else case any_slice (mget spec ''command'') of
       None \<Rightarrow> Inl (Errorf ''command must be an array of arguments'' [])
     | Some values \<Rightarrow>
        if values = [] then Inr []
        else if length values > 64 then Inl (Errorf ''command may contain at most 64 arguments'' [])
        else bindR (command_loop 0 [] values) (\<lambda>(tot, command).
          if tot > 16384 then Inl (Errorf ''command exceeds the 16 KiB limit'' [])
          else Inr command))"

fun secret_keys_loop :: "string list \<Rightarrow> goval list \<Rightarrow> string list result" where
  "secret_keys_loop keys [] = Inr keys"
| "secret_keys_loop keys (rawValue # rest) =
    (case as_str rawValue of
       None \<Rightarrow> Inl (Errorf ''secret keys must use uppercase letters, digits, and underscores'' [])
     | Some key \<Rightarrow>
        if \<not> secretKeyPattern key
        then Inl (Errorf ''secret keys must use uppercase letters, digits, and underscores'' [])
        else if key \<in> set keys then Inl (Errorf ''secret key %q is duplicated'' [key])
        else secret_keys_loop (keys @ [key]) rest)"

definition RuntimeSecretKeys :: "gomap \<Rightarrow> string list result" where
  "RuntimeSecretKeys spec =
    (if mget spec ''secretKeys'' = VNil then Inr []
     else case any_slice (mget spec ''secretKeys'') of
       None \<Rightarrow> Inl (Errorf ''secretKeys must be an array'' [])
     | Some values \<Rightarrow>
        if length values > 64 then Inl (Errorf ''secretKeys may contain at most 64 entries'' [])
        else secret_keys_loop [] values)"

fun secret_descriptions_loop :: "(string \<times> string) list \<Rightarrow> gomap \<Rightarrow> (string \<times> string) list result" where
  "secret_descriptions_loop acc [] = Inr acc"
| "secret_descriptions_loop acc ((key, rawValue) # rest) =
    (case as_str rawValue of
       None \<Rightarrow> Inl (Errorf ''secret description for %q is invalid'' [key])
     | Some description \<Rightarrow>
        if \<not> secretKeyPattern key \<or> length description > 500
        then Inl (Errorf ''secret description for %q is invalid'' [key])
        else secret_descriptions_loop (AList.update key description acc) rest)"

definition secret_descriptions :: "goval \<Rightarrow> (string \<times> string) list result" where
  "secret_descriptions raw = (case raw of
       VNil \<Rightarrow> Inr []
     | VStrMap typed \<Rightarrow> Inr typed
     | VObj values \<Rightarrow>
        if length values > 64 then Inl (Errorf ''secretDescriptions may contain at most 64 entries'' [])
        else secret_descriptions_loop [] values
     | _ \<Rightarrow> Inl (Errorf ''secretDescriptions must be an object'' []))"

fun editable_secrets_loop :: "string list \<Rightarrow> string list \<Rightarrow> goval list \<Rightarrow> string list result" where
  "editable_secrets_loop known editable [] = Inr editable"
| "editable_secrets_loop known editable (rawKey # rest) =
    (case as_str rawKey of
       None \<Rightarrow> Inl (Errorf ''editable Secret key is invalid'' [])
     | Some key \<Rightarrow>
        if \<not> secretKeyPattern key then Inl (Errorf ''editable Secret key is invalid'' [])
        else if key \<notin> set known
        then Inl (Errorf ''editable Secret key %q is not declared in secretKeys'' [key])
        else if key \<in> set editable then Inl (Errorf ''editable Secret key %q is duplicated'' [key])
        else editable_secrets_loop known (editable @ [key]) rest)"

definition editable_secrets :: "string list \<Rightarrow> goval \<Rightarrow> string list result" where
  "editable_secrets keys raw =
    (if raw = VNil then Inr keys
     else case any_slice raw of
       None \<Rightarrow> Inl (Errorf ''editableSecretKeys must be an array'' [])
     | Some values \<Rightarrow>
        if length values > 64 then Inl (Errorf ''editableSecretKeys may contain at most 64 entries'' [])
        else editable_secrets_loop keys [] values)"

definition RuntimeSecretOptions :: "gomap \<Rightarrow> SecretOption list result" where
  "RuntimeSecretOptions spec =
    bindR (RuntimeSecretKeys spec) (\<lambda>keys.
    bindR (secret_descriptions (mget spec ''secretDescriptions'')) (\<lambda>descriptions.
    (case find (\<lambda>key. key \<notin> set keys) (map fst descriptions) of
       Some key \<Rightarrow> Inl (Errorf ''secret description %q is not declared in secretKeys'' [key])
     | None \<Rightarrow>
        bindR (editable_secrets keys (mget spec ''editableSecretKeys'')) (\<lambda>editable.
        Inr (map (\<lambda>key. \<lparr>so_key = key,
                 so_description = (case map_of descriptions key of Some d \<Rightarrow> d | None \<Rightarrow> []),
                 so_editable = key \<in> set editable\<rparr>) keys)))))"

fun dependencies_loop :: "Dependency list \<Rightarrow> goval list \<Rightarrow> Dependency list result" where
  "dependencies_loop deps [] = Inr deps"
| "dependencies_loop deps (rawValue # rest) =
    (case as_obj rawValue of
       None \<Rightarrow> Inl (Errorf ''dependencies must use key, productId, serviceSlug and required'' [])
     | Some entry \<Rightarrow>
        if length entry \<noteq> 4
        then Inl (Errorf ''dependencies may only contain key, productId, serviceSlug and required'' [])
        else
          let key = as_str (mget entry ''key''); productID = as_str (mget entry ''productId'');
              serviceSlug = as_str (mget entry ''serviceSlug''); required = as_bool (mget entry ''required'');
              keyText = str_or_empty (mget entry ''key'')
          in case key of None \<Rightarrow> Inl (Errorf ''dependency key %q is invalid'' [keyText]) | Some k \<Rightarrow>
          if \<not> dependencyKeyPattern k then Inl (Errorf ''dependency key %q is invalid'' [keyText]) else
          case productID of None \<Rightarrow> Inl (Errorf ''dependency %q productId must be a UUID'' [k]) | Some p \<Rightarrow>
          if \<not> uuidPattern p then Inl (Errorf ''dependency %q productId must be a UUID'' [k]) else
          case serviceSlug of None \<Rightarrow> Inl (Errorf ''dependency %q serviceSlug is invalid'' [k]) | Some s \<Rightarrow>
          if \<not> serviceSlugPattern s then Inl (Errorf ''dependency %q serviceSlug is invalid'' [k]) else
          case required of None \<Rightarrow> Inl (Errorf ''dependency %q required must be a boolean'' [k]) | Some r \<Rightarrow>
          if k \<in> set (map dep_key deps) then Inl (Errorf ''dependency key %q is duplicated'' [k]) else
          if s \<in> set (map dep_serviceSlug deps)
          then Inl (Errorf ''dependency serviceSlug %q is duplicated'' [s]) else
          dependencies_loop (deps @ [\<lparr>dep_key = k, dep_productId = p, dep_serviceSlug = s, dep_required = r\<rparr>]) rest)"

definition RuntimeDependencies :: "gomap \<Rightarrow> Dependency list result" where
  "RuntimeDependencies spec =
    (if \<not> has_key spec ''dependencies'' then Inr []
     else case as_arr (mget spec ''dependencies'') of
       None \<Rightarrow> Inl (Errorf ''dependencies must be an array'' [])
     | Some values \<Rightarrow>
        if length values > 32 then Inl (Errorf ''dependencies may contain at most 32 entries'' [])
        else dependencies_loop [] values)"

definition VolumeMounts :: "gomap \<Rightarrow> VolumeMount list" where
  "VolumeMounts spec = (case as_arr (mget spec ''volumes'') of None \<Rightarrow> []
     | Some values \<Rightarrow> concat (map (\<lambda>item. case as_obj item of None \<Rightarrow> []
         | Some entry \<Rightarrow>
            (let key = str_or_empty (mget entry ''name''); path = str_or_empty (mget entry ''mountPath'');
                 size = (case numeric (mget entry ''sizeGiB'') of Some f \<Rightarrow> f | None \<Rightarrow> DefaultVolumeGiB)
             in if key \<noteq> [] \<and> path \<noteq> []
                then [\<lparr>vm_key = key, vm_mountPath = path, vm_sizeGiB = size\<rparr>] else [])) values))"

section \<open>Validation\<close>

definition editable_option_names :: "string list" where
  "editable_option_names =
    [''cpu'', ''memory'', ''dataVolume'', ''command'', ''dependencies'', ''environment'']"

fun editable_options_loop :: "gomap \<Rightarrow> unit result" where
  "editable_options_loop [] = Inr ()"
| "editable_options_loop ((key, rawValue) # rest) =
    (if key \<notin> set editable_option_names
     then Inl (Errorf ''editableOptions contains unsupported option %q'' [key])
     else if as_bool rawValue = None then Inl (Errorf ''editable option %q must be boolean'' [key])
     else editable_options_loop rest)"

definition check_editableOptions :: "gomap \<Rightarrow> unit result" where
  "check_editableOptions spec =
    (if \<not> has_key spec ''editableOptions'' then Inr ()
     else case as_obj (mget spec ''editableOptions'') of
       None \<Rightarrow> Inl (Errorf ''editableOptions must be an object'' [])
     | Some options \<Rightarrow> editable_options_loop options)"

fun env_loop :: "nat \<Rightarrow> gomap \<Rightarrow> nat result" where
  "env_loop tot [] = Inr tot"
| "env_loop tot ((key, rawValue) # rest) =
    (if \<not> environmentKeyPattern key then Inl (Errorf ''environment variable name %q is invalid'' [key])
     else case as_str rawValue of
       None \<Rightarrow> Inl (Errorf ''environment variable %q must be a string'' [key])
     | Some value \<Rightarrow>
        if length value > 4096 then Inl (Errorf ''environment variable %q is too long'' [key])
        else env_loop (tot + (length key + length value)) rest)"

definition check_env :: "gomap \<Rightarrow> unit result" where
  "check_env spec =
    (if \<not> has_key spec ''env'' then Inr ()
     else case as_obj (mget spec ''env'') of
       None \<Rightarrow> Inl (Errorf ''env must be an object'' [])
     | Some values \<Rightarrow>
        if length values > 128 then Inl (Errorf ''env may contain at most 128 variables'' [])
        else bindR (env_loop 0 values) (\<lambda>tot.
          if tot > 32768 then Inl (Errorf ''environment variables exceed the 32 KiB limit'' [])
          else Inr ()))"

definition spec_env :: "gomap \<Rightarrow> gomap" where
  "spec_env spec = (case as_obj (mget spec ''env'') of Some m \<Rightarrow> m | None \<Rightarrow> [])"

fun editable_env_loop :: "gomap \<Rightarrow> string list \<Rightarrow> goval list \<Rightarrow> unit result" where
  "editable_env_loop environment seen [] = Inr ()"
| "editable_env_loop environment seen (rawKey # rest) =
    (case as_str rawKey of
       None \<Rightarrow> Inl (Errorf ''editable environment variable name is invalid'' [])
     | Some key \<Rightarrow>
        if \<not> environmentKeyPattern key then Inl (Errorf ''editable environment variable name is invalid'' [])
        else if key \<in> set seen then Inl (Errorf ''editable environment variable %q is duplicated'' [key])
        else if \<not> has_key environment key
        then Inl (Errorf ''editable environment variable %q has no default value'' [key])
        else editable_env_loop environment (key # seen) rest)"

definition check_editableEnvKeys :: "gomap \<Rightarrow> unit result" where
  "check_editableEnvKeys spec =
    (if \<not> has_key spec ''editableEnvKeys'' then Inr ()
     else case as_arr (mget spec ''editableEnvKeys'') of
       None \<Rightarrow> Inl (Errorf ''editableEnvKeys must be an array'' [])
     | Some values \<Rightarrow>
        if length values > 128 then Inl (Errorf ''editableEnvKeys may contain at most 128 entries'' [])
        else editable_env_loop (spec_env spec) [] values)"

fun env_descriptions_loop :: "gomap \<Rightarrow> unit result" where
  "env_descriptions_loop [] = Inr ()"
| "env_descriptions_loop ((key, rawDescription) # rest) =
    (case as_str rawDescription of
       None \<Rightarrow> Inl (Errorf ''environment description is invalid'' [])
     | Some description \<Rightarrow>
        if \<not> environmentKeyPattern key \<or> length description > 500
        then Inl (Errorf ''environment description is invalid'' [])
        else env_descriptions_loop rest)"

definition check_envDescriptions :: "gomap \<Rightarrow> unit result" where
  "check_envDescriptions spec =
    (if \<not> has_key spec ''envDescriptions'' then Inr ()
     else case as_obj (mget spec ''envDescriptions'') of
       None \<Rightarrow> Inl (Errorf ''envDescriptions must be an object'' [])
     | Some values \<Rightarrow>
        if length values > 128 then Inl (Errorf ''envDescriptions may contain at most 128 entries'' [])
        else env_descriptions_loop values)"

definition check_secret_env :: "gomap \<Rightarrow> string list \<Rightarrow> unit result" where
  "check_secret_env spec secretKeys =
    (case as_obj (mget spec ''env'') of None \<Rightarrow> Inr ()
     | Some environment \<Rightarrow>
        (case find (has_key environment) secretKeys of None \<Rightarrow> Inr ()
         | Some key \<Rightarrow> Inl (Errorf ''%s cannot be both an environment value and a secret'' [key])))"

fun volumes_loop :: "string list \<Rightarrow> string list \<Rightarrow> goval list \<Rightarrow> unit result" where
  "volumes_loop seenKeys seenPaths [] = Inr ()"
| "volumes_loop seenKeys seenPaths (item # rest) =
    (if (case as_str item of Some txt \<Rightarrow> has_prefix txt ''/'' \<or> contains txt [CHR '':'', CHR 0x5C] | None \<Rightarrow> False)
     then Inl (Errorf ''host paths are not allowed'' [])
     else case as_obj item of None \<Rightarrow> Inl (Errorf ''volumes must use name and mountPath'' [])
     | Some entry \<Rightarrow>
        let key = str_or_empty (mget entry ''name''); mountPath = str_or_empty (mget entry ''mountPath'') in
        if \<not> volumeKeyPattern key then Inl (Errorf ''volume name is invalid'' [])
        else if \<not> has_prefix mountPath ''/'' \<or> mountPath = ''/'' \<or> contains mountPath ''..''
        then Inl (Errorf ''volume mountPath is invalid'' [])
        else if key \<in> set seenKeys \<or> mountPath \<in> set seenPaths
        then Inl (Errorf ''volume names and mount paths must be unique'' [])
        else volumes_loop (key # seenKeys) (mountPath # seenPaths) rest)"

definition check_volumes :: "gomap \<Rightarrow> unit result" where
  "check_volumes spec =
    (if \<not> has_key spec ''volumes'' then Inr ()
     else case as_arr (mget spec ''volumes'') of
       None \<Rightarrow> Inl (Errorf ''volumes must be an array'' [])
     | Some values \<Rightarrow> volumes_loop [] [] values)"

definition ValidateRuntimeSpec :: "gomap \<Rightarrow> unit result" where
  "ValidateRuntimeSpec spec =
    bindR (RuntimeResources spec True) (\<lambda>_.
    if truthy (mget spec ''privileged'') then Inl (Errorf ''privileged containers are not allowed'' [])
    else if (case as_str (mget spec ''networkMode'') of Some v \<Rightarrow> equal_fold v ''host'' | None \<Rightarrow> False)
    then Inl (Errorf ''host network is not allowed'' [])
    else if truthy (mget spec ''hostNetwork'') then Inl (Errorf ''host network is not allowed'' [])
    else if truthy (mget spec ''dockerSocket'') then Inl (Errorf ''docker socket access is not allowed'' [])
    else
    bindR (RuntimeStorage spec True) (\<lambda>_.
    bindR (check_editableOptions spec) (\<lambda>_.
    bindR (RuntimeCommand spec) (\<lambda>_.
    bindR (check_env spec) (\<lambda>_.
    bindR (check_editableEnvKeys spec) (\<lambda>_.
    bindR (check_envDescriptions spec) (\<lambda>_.
    bindR (RuntimeSecretKeys spec) (\<lambda>secretKeys.
    bindR (RuntimeSecretOptions spec) (\<lambda>_.
    bindR (check_secret_env spec secretKeys) (\<lambda>_.
    bindR (check_volumes spec) (\<lambda>_.
    bindR (RuntimeDependencies spec) (\<lambda>_. Inr ()))))))))))))"

section \<open>Names of Docker resources\<close>

definition compact_id :: "string \<Rightarrow> string" where
  "compact_id appID = take 20 (replace_char CHR ''-'' [] appID)"

definition AppVolumeName :: "string \<Rightarrow> string \<Rightarrow> string" where
  "AppVolumeName appID key = ''cmv-'' @ compact_id appID @ ''-'' @ key"

definition ResourceScopeToken :: "(string \<Rightarrow> string) \<Rightarrow> string \<Rightarrow> string" where
  "ResourceScopeToken sha256 owner0 =
    (let owner1 = trim_space owner0;
         owner = (if owner1 = [] then DefaultRuntimeOwner else owner1)
     in hex_encode (take 5 (sha256 owner)))"

definition UsesLegacyResourceNames :: "string \<Rightarrow> bool" where
  "UsesLegacyResourceNames owner0 =
    (let owner = trim_space owner0 in owner = [] \<or> equal_fold owner DefaultRuntimeOwner)"

definition UserNetworkName :: "(string \<Rightarrow> string) \<Rightarrow> string \<Rightarrow> string \<Rightarrow> string" where
  "UserNetworkName sha256 owner userID =
    (if UsesLegacyResourceNames owner then ''user_net_'' @ userID
     else ''user_net_'' @ ResourceScopeToken sha256 owner @ ''-'' @ userID)"

definition AppVolumeNameForOwner :: "(string \<Rightarrow> string) \<Rightarrow> string \<Rightarrow> string \<Rightarrow> string \<Rightarrow> string" where
  "AppVolumeNameForOwner sha256 owner appID key =
    (if UsesLegacyResourceNames owner then AppVolumeName appID key
     else ''cmv-'' @ ResourceScopeToken sha256 owner @ ''-'' @ compact_id appID @ ''-'' @ key)"

definition BackupVolumeName :: "(string \<Rightarrow> string) \<Rightarrow> string \<Rightarrow> string \<Rightarrow> string" where
  "BackupVolumeName sha256 owner configured0 =
    (let configured1 = trim_space configured0;
         configured = (if configured1 = [] then DefaultBackupVolume else configured1) in
     if UsesLegacyResourceNames owner then configured
     else let scope = ResourceScopeToken sha256 owner in
     if configured = DefaultBackupVolume then ''cloudmeter_backup_'' @ scope
     else if has_suffix configured (''-'' @ scope) \<or> has_suffix configured (''_'' @ scope) then configured
     else configured @ ''-'' @ scope)"

definition HelperContainerName :: "(string \<Rightarrow> string) \<Rightarrow> string \<Rightarrow> string \<Rightarrow> string \<Rightarrow> string" where
  "HelperContainerName sha256 owner kind jobID =
    (if trim_space owner = [] then ''cm-'' @ kind @ ''-'' @ jobID
     else ''cm-'' @ kind @ ''-'' @ ResourceScopeToken sha256 owner @ ''-'' @ jobID)"

section \<open>Properties of the views\<close>

abbreviation entry_name :: "gomap \<Rightarrow> string" where
  "entry_name e \<equiv> str_or_empty (mget e ''name'')"

abbreviation entry_path :: "gomap \<Rightarrow> string" where
  "entry_path e \<equiv> str_or_empty (mget e ''mountPath'')"

definition entry_size :: "gomap \<Rightarrow> gofloat" where
  "entry_size e = (case numeric (mget e ''sizeGiB'') of Some f \<Rightarrow> f | None \<Rightarrow> DefaultVolumeGiB)"

definition entry_mount :: "gomap \<Rightarrow> VolumeMount" where
  "entry_mount e = \<lparr>vm_key = entry_name e, vm_mountPath = entry_path e, vm_sizeGiB = entry_size e\<rparr>"

definition safe_path :: "string \<Rightarrow> bool" where
  "safe_path p = (has_prefix p ''/'' \<and> p \<noteq> ''/'' \<and> \<not> contains p ''..'')"

lemma in_range_Fin:
  "\<not> out_of_range (Fin lo) (Fin hi) x \<longleftrightarrow> (\<exists>q. x = Fin q \<and> lo \<le> q \<and> q \<le> hi)"
  by (cases x) (auto simp: out_of_range_def isNaN_def isInf_def)

lemma gofloat_le_trans: "(x::gofloat) \<le> y \<Longrightarrow> y \<le> z \<Longrightarrow> x \<le> z"
  by (cases x; cases y; cases z) (auto simp: less_eq_gofloat_def)

lemma gofloat_less_imp_le: "(x::gofloat) < y \<Longrightarrow> x \<le> y"
  by (simp add: less_eq_gofloat_def)

lemma gofloat_not_less: "\<not> (x::gofloat) < y \<Longrightarrow> x \<noteq> NaN \<Longrightarrow> y \<noteq> NaN \<Longrightarrow> y \<le> x"
  by (cases x; cases y) (auto simp: less_eq_gofloat_def)

lemma gofloat_refl: "x \<noteq> NaN \<Longrightarrow> x \<le> (x::gofloat)"
  by (simp add: less_eq_gofloat_def)

lemma storage_loop_step:
  "storage_loop req dok d (item # items) = Inr r \<longleftrightarrow>
   (\<exists>e. item = VObj e \<and> (req \<longrightarrow> numeric (mget e ''sizeGiB'') \<noteq> None) \<and>
      \<not> out_of_range MinVolumeGiB MaxVolumeGiB (entry_size e) \<and>
      storage_loop req dok (if \<not> dok \<or> entry_size e > d then entry_size e else d) items = Inr r)"
  by (cases item) (auto simp: entry_size_def Let_def split: if_splits option.splits)

lemma storage_loop_entries:
  "storage_loop req dok d items = Inr r \<Longrightarrow>
   \<exists>es. items = map VObj es \<and> (\<forall>e \<in> set es. \<not> out_of_range MinVolumeGiB MaxVolumeGiB (entry_size e))"
proof (induction items arbitrary: d)
  case (Cons item items)
  then obtain e d' where e: "item = VObj e" "\<not> out_of_range MinVolumeGiB MaxVolumeGiB (entry_size e)"
    "storage_loop req dok d' items = Inr r"
    unfolding storage_loop_step by blast
  from Cons.IH [OF e(3)] obtain es where "items = map VObj es"
    "\<forall>e \<in> set es. \<not> out_of_range MinVolumeGiB MaxVolumeGiB (entry_size e)" by blast
  with e show ?case by (intro exI [of _ "e # es"]) simp
qed simp

lemma volume_in_range_not_NaN: "\<not> out_of_range lo hi x \<Longrightarrow> x \<noteq> NaN"
  by (simp add: out_of_range_def isNaN_def)

lemma storage_loop_declared:
  "storage_loop req True d (map VObj es) = Inr r \<Longrightarrow>
   (d = NaN \<longrightarrow> r = NaN) \<and> (d \<noteq> NaN \<longrightarrow> d \<le> r \<and> (\<forall>e \<in> set es. entry_size e \<le> r))"
proof (induction es arbitrary: d)
  case Nil
  then show ?case by (auto simp: gofloat_refl)
next
  case (Cons e es)
  let ?d = "if entry_size e > d then entry_size e else d"
  from Cons.prems have range: "\<not> out_of_range MinVolumeGiB MaxVolumeGiB (entry_size e)"
    and rest: "storage_loop req True ?d (map VObj es) = Inr r"
    unfolding list.map storage_loop_step by auto
  have e: "entry_size e \<noteq> NaN" using range by (rule volume_in_range_not_NaN)
  have "d \<noteq> NaN \<Longrightarrow> d \<le> ?d \<and> entry_size e \<le> ?d"
    using e gofloat_not_less [of d "entry_size e"] by (auto simp: gofloat_less_imp_le gofloat_refl)
  moreover have "d = NaN \<Longrightarrow> ?d = NaN" by (cases "entry_size e") auto
  moreover have "d \<noteq> NaN \<Longrightarrow> ?d \<noteq> NaN" using e by auto
  ultimately show ?case using Cons.IH [OF rest] by (auto dest: gofloat_le_trans)
qed

lemma storage_loop_legacy:
  "storage_loop req False d (map VObj es) = Inr r \<Longrightarrow> r = (if es = [] then d else entry_size (last es))"
proof (induction es arbitrary: d)
  case (Cons e es)
  then have "storage_loop req False (entry_size e) (map VObj es) = Inr r"
    unfolding list.map storage_loop_step by auto
  from Cons.IH [OF this] show ?case by simp
qed simp

lemma RuntimeStorage_Inr:
  assumes "RuntimeStorage spec req = Inr st" and "mget spec ''volumes'' = VArr vs"
  shows "\<exists>r. DataDiskGiB st = r \<and>
     storage_loop req (vs \<noteq> [] \<and> numeric (mget spec ''dataVolumeGiB'') \<noteq> None)
       (if vs = [] then Fin 0 else case numeric (mget spec ''dataVolumeGiB'') of Some f \<Rightarrow> f | None \<Rightarrow> Fin 0) vs = Inr r
     \<and> (vs \<noteq> [] \<and> numeric (mget spec ''dataVolumeGiB'') \<noteq> None \<longrightarrow> \<not> out_of_range MinVolumeGiB MaxVolumeGiB r)"
  using assms
  by (auto simp: RuntimeStorage_def Let_def bindR_Inr_iff split: if_splits option.splits)

lemma mounts_of_objects:
  assumes "mget spec ''volumes'' = VArr (map VObj es)"
    and "\<forall>e \<in> set es. entry_name e \<noteq> [] \<and> entry_path e \<noteq> []"
  shows "VolumeMounts spec = map entry_mount es"
proof -
  have "concat (map (\<lambda>item. case as_obj item of None \<Rightarrow> []
         | Some entry \<Rightarrow>
            (let key = entry_name entry; path = entry_path entry;
                 size = (case numeric (mget entry ''sizeGiB'') of Some f \<Rightarrow> f | None \<Rightarrow> DefaultVolumeGiB)
             in if key \<noteq> [] \<and> path \<noteq> []
                then [\<lparr>vm_key = key, vm_mountPath = path, vm_sizeGiB = size\<rparr>] else [])) (map VObj es))
     = map entry_mount es"
    using assms(2) by (induction es) (auto simp: entry_mount_def entry_size_def)
  then show ?thesis by (simp add: VolumeMounts_def assms(1))
qed

lemma mounts_entries_sub:
  assumes "mget spec ''volumes'' = VArr (map VObj es)" and "m \<in> set (VolumeMounts spec)"
  shows "\<exists>e \<in> set es. m = entry_mount e"
  using assms by (auto simp: VolumeMounts_def entry_mount_def entry_size_def Let_def split: if_splits)

text \<open>With a declared \<^verbatim>\<open>dataVolumeGiB\<close> the shared quota returned by \<^verbatim>\<open>RuntimeDataVolumeGiB\<close> is at
  least the declared value and at least the size of every mount, and lies between 1 and 16384 GiB.\<close>

theorem data_volume_covers_mounts:
  assumes "RuntimeDataVolumeGiB spec required = Inr quota"
    and "mget spec ''volumes'' = VArr vs" "vs \<noteq> []"
    and "mget spec ''dataVolumeGiB'' = VFloat d"
  shows "d \<le> quota \<and> (\<forall>m \<in> set (VolumeMounts spec). vm_sizeGiB m \<le> quota) \<and>
    (\<exists>q. quota = Fin q \<and> 1 \<le> q \<and> q \<le> 16384)"
proof -
  obtain st where st: "RuntimeStorage spec required = Inr st" "quota = DataDiskGiB st"
    using assms(1) by (auto simp: RuntimeDataVolumeGiB_def)
  from RuntimeStorage_Inr [OF st(1) assms(2)] assms(3,4) st(2)
  have loop: "storage_loop required True d vs = Inr quota"
    and range: "\<not> out_of_range MinVolumeGiB MaxVolumeGiB quota" by auto
  obtain es where es: "vs = map VObj es" using storage_loop_entries [OF loop] by blast
  from storage_loop_declared [of required d es quota] loop es volume_in_range_not_NaN [OF range]
  have "d \<le> quota" "\<forall>e \<in> set es. entry_size e \<le> quota" by auto
  moreover have "vm_sizeGiB m \<le> quota" if "m \<in> set (VolumeMounts spec)" for m
    using mounts_entries_sub [OF _ that, of es] assms(2) es calculation(2)
    by (auto simp: entry_mount_def)
  ultimately show ?thesis using range by (auto simp: in_range_Fin const_defs)
qed

definition example_storage :: gomap where
  "example_storage = [(''dataVolumeGiB'', VFloat (Fin 15)),
     (''volumes'', VArr [VObj [(''name'', VStr ''data''), (''mountPath'', VStr ''/data''), (''sizeGiB'', VFloat (Fin 20))],
                        VObj [(''name'', VStr ''logs''), (''mountPath'', VStr ''/logs''), (''sizeGiB'', VFloat (Fin 10))]])]"

theorem data_volume_covers_mounts_witness:
  "RuntimeDataVolumeGiB example_storage True = Inr (Fin 20) \<and> Fin 15 \<le> Fin 20 \<and>
   list_all (\<lambda>m. vm_sizeGiB m \<le> Fin 20) (VolumeMounts example_storage)"
proof -
  have r: "RuntimeDataVolumeGiB example_storage True = Inr (Fin 20)"
    by (simp add: RuntimeDataVolumeGiB_def RuntimeStorage_def example_storage_def mget_def
        const_defs out_of_range_def isNaN_def isInf_def)
  show ?thesis
    using data_volume_covers_mounts [of example_storage True "Fin 20" _ "Fin 15"] r
    by (simp add: example_storage_def mget_def list_all_iff)
qed

text \<open>Without a declared \<^verbatim>\<open>dataVolumeGiB\<close> the quota is the size of the last mount: the flag that
  guards the comparison is never set in the loop, so a later smaller mount replaces a larger one.\<close>

theorem legacy_quota_is_last_mount:
  assumes "RuntimeDataVolumeGiB spec required = Inr quota"
    and "mget spec ''volumes'' = VArr (vs @ [VObj e])"
    and "numeric (mget spec ''dataVolumeGiB'') = None"
  shows "quota = entry_size e"
proof -
  obtain st where st: "RuntimeStorage spec required = Inr st" "quota = DataDiskGiB st"
    using assms(1) by (auto simp: RuntimeDataVolumeGiB_def)
  from RuntimeStorage_Inr [OF st(1) assms(2)] assms(3) st(2)
  have loop: "storage_loop required False (Fin 0) (vs @ [VObj e]) = Inr quota" by auto
  obtain es where es: "vs @ [VObj e] = map VObj es" using storage_loop_entries [OF loop] by blast
  have "es \<noteq> []" using es by auto
  then have "last (vs @ [VObj e]) = VObj (last es)" unfolding es by (simp add: last_map)
  then have "last es = e" by simp
  moreover have "storage_loop required False (Fin 0) (map VObj es) = Inr quota" using loop es by simp
  ultimately show ?thesis using storage_loop_legacy [of required "Fin 0" es quota] \<open>es \<noteq> []\<close> by simp
qed

definition legacy_storage :: gomap where
  "legacy_storage = mdel ''dataVolumeGiB'' example_storage"

theorem legacy_quota_is_last_mount_witness:
  "RuntimeDataVolumeGiB legacy_storage True = Inr (Fin 10) \<and>
   map vm_sizeGiB (VolumeMounts legacy_storage) = [Fin 20, Fin 10]"
proof -
  let ?logs = "[(''name'', VStr ''logs''), (''mountPath'', VStr ''/logs''), (''sizeGiB'', VFloat (Fin 10))]"
  have v: "mget legacy_storage ''volumes'' = VArr ([VObj [(''name'', VStr ''data''), (''mountPath'', VStr ''/data''),
      (''sizeGiB'', VFloat (Fin 20))]] @ [VObj ?logs])"
    by (simp add: legacy_storage_def example_storage_def mdel_def mget_def)
  have d: "numeric (mget legacy_storage ''dataVolumeGiB'') = None" by (simp add: legacy_storage_def)
  have "ok (RuntimeDataVolumeGiB legacy_storage True)"
    by (simp add: RuntimeDataVolumeGiB_def RuntimeStorage_def legacy_storage_def example_storage_def mget_def
        mdel_def const_defs out_of_range_def isNaN_def isInf_def)
  then obtain q where q: "RuntimeDataVolumeGiB legacy_storage True = Inr q" by (auto simp: ok_iff)
  have "q = Fin 10"
    using legacy_quota_is_last_mount [OF q v d] by (simp add: entry_size_def mget_def)
  moreover have "map vm_sizeGiB (VolumeMounts legacy_storage) = [Fin 20, Fin 10]"
    unfolding VolumeMounts_def v by (simp add: mget_def Let_def)
  ultimately show ?thesis using q by simp
qed

section \<open>Properties of validated specifications\<close>

lemma as_str_case: "(case as_str v of Some x \<Rightarrow> P x | None \<Rightarrow> False) \<longleftrightarrow> (\<exists>x. v = VStr x \<and> P x)"
  by (cases v) auto

lemma validate_parts:
  assumes "ValidateRuntimeSpec spec = Inr ()"
  obtains res st cmd ks opts deps where
    "RuntimeResources spec True = Inr res"
    "mget spec ''privileged'' \<noteq> VBool True" "mget spec ''hostNetwork'' \<noteq> VBool True"
    "mget spec ''dockerSocket'' \<noteq> VBool True"
    "\<forall>v. mget spec ''networkMode'' = VStr v \<longrightarrow> \<not> equal_fold v ''host''"
    "RuntimeStorage spec True = Inr st" "check_editableOptions spec = Inr ()"
    "RuntimeCommand spec = Inr cmd" "check_env spec = Inr ()" "check_editableEnvKeys spec = Inr ()"
    "check_envDescriptions spec = Inr ()" "RuntimeSecretKeys spec = Inr ks"
    "RuntimeSecretOptions spec = Inr opts" "check_secret_env spec ks = Inr ()"
    "check_volumes spec = Inr ()" "RuntimeDependencies spec = Inr deps"
  using assms unfolding ValidateRuntimeSpec_def
  by (auto simp: bindR_Inr_iff as_str_case split: if_splits)

lemma volumes_loop_Inr:
  "volumes_loop ks ps items = Inr () \<Longrightarrow>
   \<exists>es. items = map VObj es \<and> (\<forall>e \<in> set es. volumeKeyPattern (entry_name e) \<and> safe_path (entry_path e)) \<and>
     distinct (map entry_name es) \<and> distinct (map entry_path es) \<and>
     set ks \<inter> entry_name ` set es = {} \<and> set ps \<inter> entry_path ` set es = {}"
proof (induction ks ps items rule: volumes_loop.induct)
  case (2 ks ps item items)
  from "2.prems" obtain e where e: "item = VObj e" by (cases item) (auto split: if_splits)
  with "2.prems" have v: "volumeKeyPattern (entry_name e)" "safe_path (entry_path e)"
    "entry_name e \<notin> set ks" "entry_path e \<notin> set ps"
    "volumes_loop (entry_name e # ks) (entry_path e # ps) items = Inr ()"
    by (auto simp: Let_def safe_path_def split: if_splits)
  have "\<exists>es. items = map VObj es \<and> (\<forall>e \<in> set es. volumeKeyPattern (entry_name e) \<and> safe_path (entry_path e)) \<and>
     distinct (map entry_name es) \<and> distinct (map entry_path es) \<and>
     set (entry_name e # ks) \<inter> entry_name ` set es = {} \<and> set (entry_path e # ps) \<inter> entry_path ` set es = {}"
    by (rule 2(1) [of e]) (use e v in \<open>auto simp: safe_path_def\<close>)
  then obtain es where es: "items = map VObj es"
    "\<forall>e \<in> set es. volumeKeyPattern (entry_name e) \<and> safe_path (entry_path e)"
    "distinct (map entry_name es)" "distinct (map entry_path es)"
    "set (entry_name e # ks) \<inter> entry_name ` set es = {}" "set (entry_path e # ps) \<inter> entry_path ` set es = {}"
    by blast
  then show ?case using e v by (intro exI [of _ "e # es"]) auto
qed simp

lemma volumeKeyPattern_nonempty: "volumeKeyPattern k \<Longrightarrow> k \<noteq> []"
  by (auto simp: volumeKeyPattern_def pat_def)

lemma safe_path_nonempty: "safe_path p \<Longrightarrow> p \<noteq> []"
  by (auto simp: safe_path_def has_prefix_def)

text \<open>For an accepted specification every declared volume becomes exactly one mount, in order;
  volume keys and container paths are pairwise different, every path is absolute, not the root and
  free of \<^verbatim>\<open>..\<close>, and every size lies between 1 and 16384 GiB.\<close>

theorem validated_mounts:
  assumes "ValidateRuntimeSpec spec = Inr ()" and "has_key spec ''volumes''"
  shows "\<exists>vs. mget spec ''volumes'' = VArr vs \<and> length (VolumeMounts spec) = length vs \<and>
    distinct (map vm_key (VolumeMounts spec)) \<and> distinct (map vm_mountPath (VolumeMounts spec)) \<and>
    (\<forall>m \<in> set (VolumeMounts spec). volumeKeyPattern (vm_key m) \<and> safe_path (vm_mountPath m) \<and>
       (\<exists>q. vm_sizeGiB m = Fin q \<and> 1 \<le> q \<and> q \<le> 16384))"
proof -
  obtain st where st: "RuntimeStorage spec True = Inr st" and vol: "check_volumes spec = Inr ()"
    using assms(1) by (rule validate_parts)
  from vol assms(2) obtain vs where vs: "mget spec ''volumes'' = VArr vs" "volumes_loop [] [] vs = Inr ()"
    by (auto simp: check_volumes_def split: option.splits)
  from volumes_loop_Inr [OF vs(2)] obtain es where es: "vs = map VObj es"
    "\<forall>e \<in> set es. volumeKeyPattern (entry_name e) \<and> safe_path (entry_path e)"
    "distinct (map entry_name es)" "distinct (map entry_path es)" by blast
  from RuntimeStorage_Inr [OF st vs(1)] es(1)
  have "\<forall>e \<in> set es. \<not> out_of_range MinVolumeGiB MaxVolumeGiB (entry_size e)"
    by (auto dest!: storage_loop_entries simp: inj_def inj_map_eq_map)
  moreover have "VolumeMounts spec = map entry_mount es"
    using mounts_of_objects [of spec es] vs(1) es(1,2) volumeKeyPattern_nonempty safe_path_nonempty by blast
  ultimately show ?thesis using vs(1) es
    by (auto simp: entry_mount_def in_range_Fin const_defs o_def)
qed

definition example_spec :: gomap where
  "example_spec = [(''cpuCores'', VFloat (Fin 1)), (''memoryMiB'', VFloat (Fin 256)),
     (''volumes'', VArr [VObj [(''name'', VStr ''db''), (''mountPath'', VStr ''/d''), (''sizeGiB'', VFloat (Fin 2))]]),
     (''env'', VObj [(''MODE'', VStr ''x'')]),
     (''editableEnvKeys'', VArr [VStr ''MODE'']),
     (''secretKeys'', VArr [VStr ''PW'']),
     (''command'', VArr [VStr ''run''])]"

lemmas char_class_simps = is_lower_def is_upper_def is_digit_def is_alnum_def is_hex_def slug_char_def byte_def

lemma trim_run [simp]: "trim_space ''run'' = ''run''"
  by (simp add: trim_space_visible visible_def byte_def)

lemma example_lookup:
  "map_of example_spec ''cpuCores'' = Some (VFloat (Fin 1))"
  "map_of example_spec ''memoryMiB'' = Some (VFloat (Fin 256))"
  "map_of example_spec ''env'' = Some (VObj [(''MODE'', VStr ''x'')])"
  "map_of example_spec ''editableEnvKeys'' = Some (VArr [VStr ''MODE''])"
  "map_of example_spec ''secretKeys'' = Some (VArr [VStr ''PW''])"
  "map_of example_spec ''command'' = Some (VArr [VStr ''run''])"
  "map_of example_spec ''volumes'' = Some (VArr [VObj [(''name'', VStr ''db''), (''mountPath'', VStr ''/d''), (''sizeGiB'', VFloat (Fin 2))]])"
  "map_of example_spec ''privileged'' = None" "map_of example_spec ''networkMode'' = None"
  "map_of example_spec ''hostNetwork'' = None" "map_of example_spec ''dockerSocket'' = None"
  "map_of example_spec ''systemDiskGiB'' = None" "map_of example_spec ''dataVolumeGiB'' = None"
  "map_of example_spec ''editableOptions'' = None" "map_of example_spec ''envDescriptions'' = None"
  "map_of example_spec ''secretDescriptions'' = None" "map_of example_spec ''editableSecretKeys'' = None"
  "map_of example_spec ''dependencies'' = None"
  by (simp_all add: example_spec_def)

lemmas lookup_simps = mget_def has_key_def example_lookup

lemma example_resources: "RuntimeResources example_spec True = Inr \<lparr>CPUCores = Fin 1, MemoryMiB = Fin 256\<rparr>"
  by (simp add: RuntimeResources_def lookup_simps const_defs out_of_range_def isNaN_def isInf_def)
lemma example_storage: "RuntimeStorage example_spec True = Inr \<lparr>SystemDiskGiB = Fin 5, DataDiskGiB = Fin 2\<rparr>"
  by (simp add: RuntimeStorage_def lookup_simps const_defs out_of_range_def isNaN_def isInf_def)
lemma example_env: "check_env example_spec = Inr ()"
  by (simp add: check_env_def lookup_simps environmentKeyPattern_def pat_def char_class_simps)
lemma example_editable_env: "check_editableEnvKeys example_spec = Inr ()"
  by (simp add: check_editableEnvKeys_def spec_env_def lookup_simps environmentKeyPattern_def pat_def char_class_simps)
lemma example_secrets: "RuntimeSecretKeys example_spec = Inr [''PW'']"
  by (simp add: RuntimeSecretKeys_def any_slice_def lookup_simps secretKeyPattern_def pat_def char_class_simps)
lemma example_volumes: "check_volumes example_spec = Inr ()"
  by (simp add: check_volumes_def lookup_simps volumeKeyPattern_def pat_def char_class_simps
      has_prefix_def contains_def sublist_code)
lemma example_command: "RuntimeCommand example_spec = Inr [''run'']"
  by (simp add: RuntimeCommand_def any_slice_def lookup_simps)
lemma example_spec_ok: "ValidateRuntimeSpec example_spec = Inr ()"
  by (simp add: ValidateRuntimeSpec_def example_resources example_storage example_env example_editable_env example_secrets example_volumes example_command check_editableOptions_def lookup_simps
     check_envDescriptions_def 
      RuntimeSecretOptions_def secret_descriptions_def editable_secrets_def check_secret_env_def
      RuntimeDependencies_def)
theorem validated_mounts_witness:
  "\<exists>vs. mget example_spec ''volumes'' = VArr vs \<and> length (VolumeMounts example_spec) = length vs"
proof -
  have "has_key example_spec ''volumes''" by (simp add: example_spec_def has_key_def)
  from validated_mounts [OF example_spec_ok this] show ?thesis by blast
qed

lemma env_loop_Inr:
  "env_loop n m = Inr r \<Longrightarrow> r = n + sum_list (map (\<lambda>(k, v). length k + length (str_or_empty v)) m) \<and>
   (\<forall>(k, v) \<in> set m. environmentKeyPattern k \<and> (\<exists>s. v = VStr s \<and> length s \<le> 4096))"
  by (induction n m rule: env_loop.induct) (auto split: if_splits option.splits)

lemma editable_env_loop_Inr:
  "editable_env_loop env seen ks = Inr () \<Longrightarrow> \<forall>k \<in> set ks. \<exists>s. k = VStr s \<and> has_key env s"
  by (induction env seen ks rule: editable_env_loop.induct) (auto split: if_splits option.splits)

text \<open>An accepted specification has at most 128 environment variables of at most 4096 bytes and
  32 KiB together, all well named strings; no variable is also a declared secret, and every variable
  a user may edit has a default value.\<close>

theorem validated_environment:
  assumes "ValidateRuntimeSpec spec = Inr ()" and "mget spec ''env'' = VObj env"
  shows "length env \<le> 128 \<and>
    (\<forall>(k, v) \<in> set env. environmentKeyPattern k \<and> (\<exists>s. v = VStr s \<and> length s \<le> 4096)) \<and>
    sum_list (map (\<lambda>(k, v). length k + length (str_or_empty v)) env) \<le> 32768 \<and>
    (\<exists>ks. RuntimeSecretKeys spec = Inr ks \<and> set ks \<inter> fst ` set env = {}) \<and>
    (\<forall>ks. mget spec ''editableEnvKeys'' = VArr ks \<longrightarrow> (\<forall>k \<in> set ks. \<exists>s. k = VStr s \<and> has_key env s))"
proof -
  obtain ks where p: "check_env spec = Inr ()" "check_editableEnvKeys spec = Inr ()"
    "RuntimeSecretKeys spec = Inr ks" "check_secret_env spec ks = Inr ()"
    using assms(1) by (rule validate_parts)
  have key: "has_key spec x" if "mget spec x \<noteq> VNil" for x using that mget_absent by blast
  from p(1) assms(2) key [of "''env''"] obtain t where
    "length env \<le> 128" "env_loop 0 env = Inr t" "t \<le> 32768"
    by (auto simp: check_env_def bindR_Inr_iff split: if_splits)
  moreover have "set ks \<inter> fst ` set env = {}"
    using p(4) assms(2) by (auto simp: check_secret_env_def find_None_iff has_key_iff split: option.splits)
  moreover have "\<forall>k \<in> set es. \<exists>s. k = VStr s \<and> has_key env s" if "mget spec ''editableEnvKeys'' = VArr es" for es
    using p(2) assms(2) that key [of "''editableEnvKeys''"] editable_env_loop_Inr [of env "[]" es]
    by (auto simp: check_editableEnvKeys_def spec_env_def split: if_splits)
  ultimately show ?thesis using p(3) env_loop_Inr [of 0 env t] by auto
qed

theorem validated_environment_witness:
  "length [(''MODE'', VStr ''x'')] \<le> 128 \<and>
   (\<exists>ks. RuntimeSecretKeys example_spec = Inr ks \<and> set ks \<inter> fst ` set [(''MODE'', VStr ''x'')] = {})"
proof -
  have "mget example_spec ''env'' = VObj [(''MODE'', VStr ''x'')]" by (simp add: example_spec_def mget_def)
  from validated_environment [OF example_spec_ok this] show ?thesis by blast
qed

lemma command_loop_Inr:
  "command_loop n acc vs = Inr (m, cmd) \<Longrightarrow> \<exists>ss. vs = map VStr ss \<and> cmd = acc @ ss \<and>
     m = n + sum_list (map length ss) \<and> (\<forall>s \<in> set ss. trim_space s \<noteq> [] \<and> length s \<le> 4096)"
proof (induction n acc vs rule: command_loop.induct)
  case (2 n acc v vs)
  then obtain s where s: "v = VStr s" by (cases v) auto
  with "2.prems" have p: "trim_space s \<noteq> []" "length s \<le> 4096"
    "command_loop (n + length s) (acc @ [s]) vs = Inr (m, cmd)" by (auto split: if_splits)
  have "\<exists>ss. vs = map VStr ss \<and> cmd = (acc @ [s]) @ ss \<and>
     m = n + length s + sum_list (map length ss) \<and> (\<forall>s \<in> set ss. trim_space s \<noteq> [] \<and> length s \<le> 4096)"
    by (rule 2(1) [of s]) (use s p in auto)
  then obtain ss where "vs = map VStr ss" "cmd = (acc @ [s]) @ ss"
    "m = n + length s + sum_list (map length ss)" "\<forall>s \<in> set ss. trim_space s \<noteq> [] \<and> length s \<le> 4096" by blast
  then show ?case using s p by (intro exI [of _ "s # ss"]) auto
qed simp

lemma any_slice_strings: "any_slice v = Some xs \<Longrightarrow> v = VArr xs \<or> (\<exists>ss. v = VStrs ss \<and> xs = map VStr ss)"
  by (cases v) (auto simp: any_slice_def)

lemma RuntimeCommand_Inr:
  assumes "RuntimeCommand spec = Inr cmd"
  shows "length cmd \<le> 64 \<and> sum_list (map length cmd) \<le> 16384 \<and> (\<forall>s \<in> set cmd. trim_space s \<noteq> [])"
  using assms
  by (auto simp: RuntimeCommand_def bindR_Inr_iff split: if_splits option.splits dest!: command_loop_Inr)

lemma RuntimeResources_required:
  assumes "RuntimeResources spec True = Inr res"
  shows "mget spec ''cpuCores'' = VFloat (CPUCores res) \<and> mget spec ''memoryMiB'' = VFloat (MemoryMiB res)"
  using assms by (auto simp: RuntimeResources_def Let_def split: if_splits)

lemma RuntimeResources_range:
  assumes "RuntimeResources spec req = Inr res"
  shows "\<not> out_of_range MinCPUCores MaxCPUCores (CPUCores res) \<and>
    \<not> out_of_range MinMemoryMiB MaxMemoryMiB (MemoryMiB res)"
  using assms by (auto simp: RuntimeResources_def Let_def split: if_splits)

text \<open>C31: An accepted specification asks for no privilege that breaks isolation: it is not privileged,
  does not use the host network under either spelling, does not reach the Docker socket; its CPU and
  memory reservations are present, finite and inside the platform's limits, and its command, if any,
  has at most 64 arguments and 16 KiB.\<close>

theorem validated_isolation:
  assumes "ValidateRuntimeSpec spec = Inr ()"
  shows "mget spec ''privileged'' \<noteq> VBool True \<and> mget spec ''hostNetwork'' \<noteq> VBool True \<and>
    mget spec ''dockerSocket'' \<noteq> VBool True \<and>
    (\<forall>v. mget spec ''networkMode'' = VStr v \<longrightarrow> \<not> equal_fold v ''host'') \<and>
    (\<exists>c m. mget spec ''cpuCores'' = VFloat (Fin c) \<and> 3602879701896397 / 36028797018963968 \<le> c \<and> c \<le> 64 \<and>
       mget spec ''memoryMiB'' = VFloat (Fin m) \<and> 64 \<le> m \<and> m \<le> 262144) \<and>
    (\<exists>cmd. RuntimeCommand spec = Inr cmd \<and> length cmd \<le> 64 \<and> sum_list (map length cmd) \<le> 16384)"
proof -
  obtain res cmd where p: "RuntimeResources spec True = Inr res" "mget spec ''privileged'' \<noteq> VBool True"
    "mget spec ''hostNetwork'' \<noteq> VBool True" "mget spec ''dockerSocket'' \<noteq> VBool True"
    "\<forall>v. mget spec ''networkMode'' = VStr v \<longrightarrow> \<not> equal_fold v ''host''" "RuntimeCommand spec = Inr cmd"
    using assms by (rule validate_parts)
  have "\<exists>c m. mget spec ''cpuCores'' = VFloat (Fin c) \<and> 3602879701896397 / 36028797018963968 \<le> c \<and> c \<le> 64 \<and>
       mget spec ''memoryMiB'' = VFloat (Fin m) \<and> 64 \<le> m \<and> m \<le> 262144"
    using RuntimeResources_required [OF p(1)] RuntimeResources_range [OF p(1)]
    by (auto simp: in_range_Fin const_defs)
  with p(2-6) RuntimeCommand_Inr [OF p(6)] show ?thesis by blast
qed

theorem validated_isolation_witness:
  "\<exists>cmd. RuntimeCommand example_spec = Inr cmd \<and> length cmd \<le> 64"
  using validated_isolation [OF example_spec_ok] by blast

section \<open>Secrets and dependencies\<close>

lemma secret_keys_loop_Inr:
  "secret_keys_loop acc vs = Inr ks \<Longrightarrow> distinct acc \<Longrightarrow>
   distinct ks \<and> (\<exists>ss. vs = map VStr ss \<and> ks = acc @ ss \<and> (\<forall>s \<in> set ss. secretKeyPattern s))"
proof (induction acc vs rule: secret_keys_loop.induct)
  case (2 acc v vs)
  then obtain s where s: "v = VStr s" by (cases v) auto
  with "2.prems" have p: "secretKeyPattern s" "s \<notin> set acc" "secret_keys_loop (acc @ [s]) vs = Inr ks"
    by (auto split: if_splits)
  have "distinct ks \<and> (\<exists>ss. vs = map VStr ss \<and> ks = (acc @ [s]) @ ss \<and> (\<forall>s \<in> set ss. secretKeyPattern s))"
    by (rule 2(1) [of s]) (use s p 2 in auto)
  then obtain ss where "distinct ks" "vs = map VStr ss" "ks = (acc @ [s]) @ ss" "\<forall>s \<in> set ss. secretKeyPattern s"
    by blast
  then show ?case using s p by (intro conjI exI [of _ "s # ss"]) auto
qed simp

lemma RuntimeSecretKeys_Inr:
  assumes "RuntimeSecretKeys spec = Inr ks"
  shows "distinct ks \<and> length ks \<le> 64 \<and> (\<forall>k \<in> set ks. secretKeyPattern k)"
  using assms
  by (auto simp: RuntimeSecretKeys_def split: if_splits option.splits dest!: secret_keys_loop_Inr)

lemma editable_secrets_loop_Inr:
  "editable_secrets_loop known acc vs = Inr ed \<Longrightarrow>
   \<exists>ss. vs = map VStr ss \<and> ed = acc @ ss \<and> set ss \<subseteq> set known"
proof (induction known acc vs rule: editable_secrets_loop.induct)
  case (2 known acc v vs)
  then obtain s where s: "v = VStr s" by (cases v) auto
  with "2.prems" have p: "secretKeyPattern s" "s \<in> set known" "s \<notin> set acc"
    "editable_secrets_loop known (acc @ [s]) vs = Inr ed"
    by (auto split: if_splits)
  have "\<exists>ss. vs = map VStr ss \<and> ed = (acc @ [s]) @ ss \<and> set ss \<subseteq> set known"
    by (rule 2(1) [of s]) (use s p in auto)
  then show ?case using s p by (auto intro: exI [of _ "s # _"])
qed simp

lemma secret_descriptions_loop_Inr:
  "secret_descriptions_loop acc m = Inr ds \<Longrightarrow>
   map_of ds = (map_of acc ++ (\<lambda>k. map_option str_or_empty (map_of (rev m) k)))"
proof (induction acc m rule: secret_descriptions_loop.induct)
  case (2 acc key v rest)
  then obtain s where s: "v = VStr s" by (cases v) auto
  with 2 have "map_of ds = (map_of (AList.update key s acc) ++ (\<lambda>k. map_option str_or_empty (map_of (rev rest) k)))"
    by (auto split: if_splits)
  then show ?case using s by (auto simp: fun_eq_iff update_conv' map_add_def split: option.splits)
qed (auto simp: map_add_def)

text \<open>The secret options of a specification list exactly the declared secrets, in order and without
  duplicates (at most 64); a version without \<^verbatim>\<open>editableSecretKeys\<close> makes all of them editable, otherwise
  exactly the listed ones are.\<close>

theorem secret_options_correct:
  assumes "RuntimeSecretOptions spec = Inr opts"
  shows "RuntimeSecretKeys spec = Inr (map so_key opts) \<and> distinct (map so_key opts) \<and> length opts \<le> 64 \<and>
    (mget spec ''editableSecretKeys'' = VNil \<longrightarrow> (\<forall>opt \<in> set opts. so_editable opt)) \<and>
    (\<forall>vs. mget spec ''editableSecretKeys'' = VArr vs \<longrightarrow>
       (\<forall>opt \<in> set opts. so_editable opt \<longleftrightarrow> VStr (so_key opt) \<in> set vs) \<and>
       (\<forall>v \<in> set vs. \<exists>opt \<in> set opts. v = VStr (so_key opt)))"
proof -
  from assms obtain ks ds ed where p: "RuntimeSecretKeys spec = Inr ks"
    "editable_secrets ks (mget spec ''editableSecretKeys'') = Inr ed"
    "opts = map (\<lambda>key. \<lparr>so_key = key,
        so_description = (case map_of ds key of Some d \<Rightarrow> d | None \<Rightarrow> []), so_editable = key \<in> set ed\<rparr>) ks"
    by (auto simp: RuntimeSecretOptions_def bindR_Inr_iff split: option.splits)
  have keys: "map so_key opts = ks" using p(3) by (simp add: o_def)
  have arr: "\<exists>ss. vs = map VStr ss \<and> ed = ss \<and> set ss \<subseteq> set ks"
    if "mget spec ''editableSecretKeys'' = VArr vs" for vs
    using p(2) that editable_secrets_loop_Inr [of ks "[]" vs ed]
    by (auto simp: editable_secrets_def any_slice_def split: if_splits)
  have nil: "ed = ks" if "mget spec ''editableSecretKeys'' = VNil"
    using p(2) that by (simp add: editable_secrets_def)
  show ?thesis
    using RuntimeSecretKeys_Inr [OF p(1)] p(1) keys nil arr unfolding p(3)
    by (auto simp: o_def) (blast+)?
qed

definition example_secrets :: gomap where
  "example_secrets = [(''secretKeys'', VArr [VStr ''A'', VStr ''B'']), (''editableSecretKeys'', VArr [VStr ''B''])]"

theorem secret_options_correct_witness:
  "RuntimeSecretOptions example_secrets =
     Inr [\<lparr>so_key = ''A'', so_description = [], so_editable = False\<rparr>,
          \<lparr>so_key = ''B'', so_description = [], so_editable = True\<rparr>] \<and>
   RuntimeSecretKeys example_secrets = Inr [''A'', ''B'']"
proof -
  have r: "RuntimeSecretOptions example_secrets =
     Inr [\<lparr>so_key = ''A'', so_description = [], so_editable = False\<rparr>,
          \<lparr>so_key = ''B'', so_description = [], so_editable = True\<rparr>]"
    by (simp add: RuntimeSecretOptions_def RuntimeSecretKeys_def example_secrets_def mget_def any_slice_def
        secretKeyPattern_def pat_def char_class_simps secret_descriptions_def editable_secrets_def)
  show ?thesis using secret_options_correct [OF r] r by simp
qed

lemma dependencies_loop_Inr:
  "dependencies_loop acc vs = Inr deps \<Longrightarrow> distinct (map dep_key acc) \<Longrightarrow> distinct (map dep_serviceSlug acc) \<Longrightarrow>
   \<forall>d \<in> set acc. dependencyKeyPattern (dep_key d) \<and> uuidPattern (dep_productId d) \<and> serviceSlugPattern (dep_serviceSlug d) \<Longrightarrow>
   distinct (map dep_key deps) \<and> distinct (map dep_serviceSlug deps) \<and> length deps = length acc + length vs \<and>
   (\<forall>d \<in> set deps. dependencyKeyPattern (dep_key d) \<and> uuidPattern (dep_productId d) \<and> serviceSlugPattern (dep_serviceSlug d))"
proof (induction vs arbitrary: acc)
  case (Cons v vs)
  from Cons.prems(1) obtain d where d: "dependencyKeyPattern (dep_key d)" "uuidPattern (dep_productId d)"
      "serviceSlugPattern (dep_serviceSlug d)" "dep_key d \<notin> set (map dep_key acc)"
      "dep_serviceSlug d \<notin> set (map dep_serviceSlug acc)" "dependencies_loop (acc @ [d]) vs = Inr deps"
    by (auto simp: Let_def split: option.splits if_splits) (metis Dependency.select_convs)
  have "distinct (map dep_key deps) \<and> distinct (map dep_serviceSlug deps) \<and>
     length deps = length (acc @ [d]) + length vs \<and>
   (\<forall>d \<in> set deps. dependencyKeyPattern (dep_key d) \<and> uuidPattern (dep_productId d) \<and> serviceSlugPattern (dep_serviceSlug d))"
    by (rule Cons.IH) (use d Cons.prems in auto)
  then show ?case by simp
qed simp

text \<open>C32: The dependencies read from a specification are at most 32, one per entry, each with a valid key,
  product UUID and service slug, and no key and no service slug occurs twice, so that every dependency
  has a host name of its own on the user's network.\<close>

theorem dependencies_well_formed:
  assumes "RuntimeDependencies spec = Inr deps"
  shows "length deps \<le> 32 \<and> distinct (map dep_key deps) \<and> distinct (map dep_serviceSlug deps) \<and>
    (\<forall>vs. mget spec ''dependencies'' = VArr vs \<longrightarrow> length deps = length vs) \<and>
    (\<forall>d \<in> set deps. dependencyKeyPattern (dep_key d) \<and> uuidPattern (dep_productId d) \<and>
       serviceSlugPattern (dep_serviceSlug d) \<and> length (dep_serviceSlug d) \<le> 63)"
proof -
  have slug: "length s \<le> 63" if "serviceSlugPattern s" for s
    using that by (auto simp: serviceSlugPattern_def pat_def split: list.splits)
  show ?thesis
  proof (cases "has_key spec ''dependencies''")
    case True
    with assms obtain vs where "mget spec ''dependencies'' = VArr vs" "length vs \<le> 32"
      "dependencies_loop [] vs = Inr deps"
      by (auto simp: RuntimeDependencies_def split: option.splits if_splits)
    then show ?thesis using dependencies_loop_Inr [of "[]" vs deps] slug by auto
  next
    case False
    with assms show ?thesis by (auto simp: RuntimeDependencies_def)
  qed
qed

definition example_dependencies :: gomap where
  "example_dependencies = [(''dependencies'', VArr [VObj [(''key'', VStr ''db''),
     (''productId'', VStr ''0123abcd-0000-4000-8000-0123456789ab''), (''serviceSlug'', VStr ''pg''),
     (''required'', VBool True)]])]"

theorem dependencies_well_formed_witness:
  "\<exists>deps. RuntimeDependencies example_dependencies = Inr deps \<and> length deps = 1 \<and> distinct (map dep_key deps)"
proof -
  have "ok (RuntimeDependencies example_dependencies)"
    by (simp add: RuntimeDependencies_def example_dependencies_def mget_def has_key_def dependencyKeyPattern_def
        serviceSlugPattern_def pat_def char_class_simps uuidPattern_def hex_block_def)
  then obtain deps where r: "RuntimeDependencies example_dependencies = Inr deps" by (auto simp: ok_iff)
  have "length deps = 1"
    using dependencies_well_formed [OF r] by (simp add: example_dependencies_def mget_def)
  with r dependencies_well_formed [OF r] show ?thesis by blast
qed

section \<open>Isolation of resource names\<close>

lemma not_hex [simp]: "\<not> is_hex CHR ''-''" "\<not> is_hex CHR ''t''" "\<not> is_hex CHR ''_''"
  by (simp_all add: char_class_simps)

lemma scope_hex: "list_all is_hex (ResourceScopeToken sha owner)"
  by (simp add: ResourceScopeToken_def Let_def hex_encode_hex)

lemma length_scope:
  assumes "\<forall>x. length (sha x) = 32"
  shows "length (ResourceScopeToken sha owner) = 10"
  using assms by (simp add: ResourceScopeToken_def Let_def)

lemma scope_last_visible: "visible c \<Longrightarrow> visible (last (c # ResourceScopeToken sha owner))"
  using scope_hex [of sha owner] is_hex_visible by (auto simp: list_all_iff)

lemma trim_default_backup: "trim_space DefaultBackupVolume = DefaultBackupVolume"
  by (simp add: trim_space_visible visible_def byte_def const_defs)

lemma backup_conf_trimmed:
  "trim_space (if trim_space c = [] then DefaultBackupVolume else trim_space c) =
   (if trim_space c = [] then DefaultBackupVolume else trim_space c)"
  by (simp add: trim_default_backup)

lemma backup_scoped_stable:
  assumes "\<not> UsesLegacyResourceNames owner" "trim_space n = n" "n \<noteq> []" "n \<noteq> DefaultBackupVolume"
    "has_suffix n (''-'' @ ResourceScopeToken sha owner) \<or> has_suffix n (''_'' @ ResourceScopeToken sha owner)"
  shows "BackupVolumeName sha owner n = n"
  using assms by (simp add: BackupVolumeName_def)

text \<open>Scoping a backup volume name twice is the same as scoping it once, for production and for
  scoped owners, whatever name was configured.\<close>

theorem backup_volume_name_idempotent:
  "BackupVolumeName sha256 owner (BackupVolumeName sha256 owner configured) = BackupVolumeName sha256 owner configured"
proof (cases "UsesLegacyResourceNames owner")
  case True
  then show ?thesis using backup_conf_trimmed [of configured]
    by (auto simp: BackupVolumeName_def Let_def const_defs)
next
  case False
  define scope where "scope = ResourceScopeToken sha256 owner"
  define n where "n = (if trim_space configured = [] then DefaultBackupVolume else trim_space configured)"
  have n: "trim_space n = n" "n \<noteq> []" using backup_conf_trimmed [of configured]
    by (auto simp: n_def const_defs)
  have hex: "list_all is_hex scope" by (simp add: scope_def scope_hex)
  have eq: "BackupVolumeName sha256 owner configured =
     (if n = DefaultBackupVolume then ''cloudmeter_backup_'' @ scope
      else if has_suffix n (''-'' @ scope) \<or> has_suffix n (''_'' @ scope) then n else n @ ''-'' @ scope)"
    using False by (simp add: BackupVolumeName_def Let_def n_def scope_def)
  consider (default) "n = DefaultBackupVolume"
    | (suffix) "n \<noteq> DefaultBackupVolume" "has_suffix n (''-'' @ scope) \<or> has_suffix n (''_'' @ scope)"
    | (plain) "n \<noteq> DefaultBackupVolume" "\<not> (has_suffix n (''-'' @ scope) \<or> has_suffix n (''_'' @ scope))"
    by blast
  then show ?thesis
  proof cases
    case default
    have "trim_space (''cloudmeter_backup_'' @ scope) = ''cloudmeter_backup_'' @ scope"
      using scope_last_visible [of "CHR ''_''" sha256 owner]
      by (intro trim_space_visible) (auto simp: visible_def byte_def scope_def)
    moreover have "''cloudmeter_backup_'' @ scope \<noteq> DefaultBackupVolume"
      using hex by (auto simp: const_defs)
    moreover have "has_suffix (''cloudmeter_backup_'' @ scope) (''_'' @ scope)"
      by (auto simp: has_suffix_def suffix_def)
    ultimately show ?thesis using False default
      by (simp add: eq backup_scoped_stable flip: scope_def)
  next
    case suffix
    then show ?thesis using False n eq backup_scoped_stable [of owner n sha256] by (simp add: scope_def)
  next
    case plain
    have "trim_space (n @ ''-'' @ scope) = n @ ''-'' @ scope"
      using trim_space_append_visible [of "''-'' @ scope" n] n scope_last_visible [of "CHR ''-''" sha256 owner]
      by (simp add: visible_def byte_def scope_def)
    moreover have "n @ ''-'' @ scope \<noteq> DefaultBackupVolume"
    proof
      assume "n @ ''-'' @ scope = DefaultBackupVolume"
      then have "CHR ''-'' \<in> set DefaultBackupVolume" by (metis in_set_conv_decomp append_Cons append_Nil)
      then show False by (simp add: const_defs)
    qed
    moreover have "has_suffix (n @ ''-'' @ scope) (''-'' @ scope)" by (simp add: has_suffix_def suffix_def)
    ultimately show ?thesis using False plain n
      by (simp add: eq backup_scoped_stable flip: scope_def)
  qed
qed

lemma uuid_compact:
  assumes "uuidPattern u"
  shows "length (compact_id u) = 20 \<and> CHR ''-'' \<notin> set (compact_id u)"
proof -
  have "length (concat (split_on CHR ''-'' u)) = 32"
    using assms by (auto simp: uuidPattern_def hex_block_def split: list.splits)
  moreover have "CHR ''-'' \<notin> set (replace_char CHR ''-'' [] u)" by (auto simp: replace_char_def)
  ultimately show ?thesis by (auto simp: compact_id_def concat_split_on dest: in_set_takeD)
qed

lemma uuid_dash:
  assumes "uuidPattern u"
  shows "u ! 8 = CHR ''-''" "8 < length u"
proof -
  from assms obtain a b c d e where "split_on CHR ''-'' u = a # b # [c, d, e]" "length a = 8"
    by (auto simp: uuidPattern_def hex_block_def split: list.splits)
  then have "prefix (a @ ''-'') u" "length a = 8" using split_on_first by fastforce+
  then show "u ! 8 = CHR ''-''" "8 < length u" by (auto simp: prefix_def nth_append)
qed

text \<open>C33: A stack with an owner of its own (verification, disaster recovery) never derives the name of a
  volume or a user network of the production stack, or of an owner with a different scope token, even
  for the same application and user identifiers.\<close>

theorem owner_names_disjoint:
  assumes "\<forall>x. length (sha256 x) = 32"
    and "\<not> UsesLegacyResourceNames owner"
    and "UsesLegacyResourceNames owner' \<or> ResourceScopeToken sha256 owner \<noteq> ResourceScopeToken sha256 owner'"
    and "uuidPattern app'" and "uuidPattern user'"
  shows "AppVolumeNameForOwner sha256 owner app key \<noteq> AppVolumeNameForOwner sha256 owner' app' key' \<and>
    UserNetworkName sha256 owner user \<noteq> UserNetworkName sha256 owner' user'"
proof (cases "UsesLegacyResourceNames owner'")
  case True
  let ?t = "ResourceScopeToken sha256 owner"
  have t: "length ?t = 10" using length_scope assms(1) by blast
  have c: "length (compact_id app') = 20" "CHR ''-'' \<notin> set (compact_id app')"
    using uuid_compact [OF assms(4)] by auto
  have "AppVolumeNameForOwner sha256 owner app key ! 14 = CHR ''-''"
    using assms(2) t by (simp add: AppVolumeNameForOwner_def nth_append nth_Cons')
  moreover have "AppVolumeNameForOwner sha256 owner' app' key' ! 14 = compact_id app' ! 10"
    using True c by (simp add: AppVolumeNameForOwner_def AppVolumeName_def nth_append nth_Cons')
  moreover have "compact_id app' ! 10 \<noteq> CHR ''-''"
  proof -
    have "compact_id app' ! 10 \<in> set (compact_id app')" using c(1) by (intro nth_mem) simp
    then show ?thesis using c(2) by metis
  qed
  moreover have "UserNetworkName sha256 owner user ! 17 = ?t ! 8"
    using assms(2) t by (simp add: UserNetworkName_def nth_append nth_Cons')
  moreover have "UserNetworkName sha256 owner' user' ! 17 = CHR ''-''"
    using True uuid_dash [OF assms(5)] by (simp add: UserNetworkName_def nth_append nth_Cons')
  moreover have "?t ! 8 \<noteq> CHR ''-''"
  proof -
    have "is_hex (?t ! 8)" using scope_hex [of sha256 owner] t by (simp add: list_all_length)
    then show ?thesis by (metis not_hex(1))
  qed
  ultimately show ?thesis by metis
next
  case False
  with assms(2,3) length_scope [OF assms(1)] show ?thesis
    by (auto simp: AppVolumeNameForOwner_def UserNetworkName_def)
qed

definition pad_digest :: "string \<Rightarrow> string" where
  "pad_digest x = take 32 (x @ replicate 32 CHR ''0'')"

theorem owner_names_disjoint_witness:
  "AppVolumeNameForOwner pad_digest ''qa'' ''0123abcd-0000-4000-8000-0123456789ab'' ''db'' \<noteq>
   AppVolumeNameForOwner pad_digest '''' ''0123abcd-0000-4000-8000-0123456789ab'' ''db'' \<and>
   UserNetworkName pad_digest ''qa'' ''0123abcd-0000-4000-8000-0123456789ab'' \<noteq>
   UserNetworkName pad_digest '''' ''0123abcd-0000-4000-8000-0123456789ab''"
proof (rule owner_names_disjoint)
  show "\<forall>x. length (pad_digest x) = 32" by (simp add: pad_digest_def min_def)
  have "trim_space ''qa'' = ''qa''" by (simp add: trim_space_visible visible_def byte_def)
  then show "\<not> UsesLegacyResourceNames ''qa''"
    by (simp add: UsesLegacyResourceNames_def equal_fold_def const_defs runes.simps rune_width_def
        fold_rune_def between_def byte_def lower_byte_def is_upper_def)
  show "UsesLegacyResourceNames '''' \<or> ResourceScopeToken pad_digest ''qa'' \<noteq> ResourceScopeToken pad_digest ''''"
    by (simp add: UsesLegacyResourceNames_def)
  show "uuidPattern ''0123abcd-0000-4000-8000-0123456789ab''"
    by (simp add: uuidPattern_def hex_block_def char_class_simps)
  then show "uuidPattern ''0123abcd-0000-4000-8000-0123456789ab''" .
qed

end
