(* ===== verification/Docker_Settings.thy ===== *)
theory Docker_Settings
  imports Secretbox_Config Runtime_Spec
begin

text \<open>
  The Docker side of the worker as its passes see it: the registry settings of
  \<^verbatim>\<open>apps/worker/docker_settings.go\<close>, and the executor of \<^verbatim>\<open>internal/runtime/docker_executor.go\<close> as a record of
  the answers its calls give.  What the Docker daemon answers is not decided by the repository; every call
  is an argument, and the theorems hold for all of them.
\<close>

section \<open>Error texts\<close>

text \<open>The text of an error value: each verb of the format takes the next argument, \<^verbatim>\<open>%q\<close> in quotes.\<close>

fun format_go :: "bool \<Rightarrow> string \<Rightarrow> string list \<Rightarrow> string" where
  "format_go verb [] args = []"
| "format_go verb (c # f) args =
    (if \<not> verb then (if c = CHR ''%'' then format_go True f args else c # format_go False f args)
     else if \<not> is_lower c then format_go True f args
     else case args of [] \<Rightarrow> format_go False f []
       | a # rest \<Rightarrow> (if c = CHR ''q'' then [char_of (34 :: nat)] @ a @ [char_of (34 :: nat)] else a) @ format_go False f rest)"

fun error_text :: "goerr \<Rightarrow> string" where
  "error_text (Errorf f args) = format_go False f args"

section \<open>The executor\<close>

record PortMapping =
  mp_enabled :: bool
  mp_internal :: int
  mp_host :: int

datatype pull_answer = Pulled | PullFailed string | PullTimedOut

record executor =
  ex_network :: "string \<Rightarrow> string option"
  ex_connect :: "string \<Rightarrow> string \<Rightarrow> string \<Rightarrow> string option"
  ex_image :: "string \<Rightarrow> bool"
  ex_pull :: "string \<Rightarrow> string \<Rightarrow> string \<Rightarrow> string \<Rightarrow> int \<Rightarrow> pull_answer"
  ex_helper :: "string \<Rightarrow> string option"
  ex_create :: "string \<Rightarrow> string \<Rightarrow> string \<Rightarrow> string list \<Rightarrow> gomap \<Rightarrow> PortMapping list \<Rightarrow> string + string"
  ex_start :: "string \<Rightarrow> string option"
  ex_published :: "string \<Rightarrow> int \<Rightarrow> string + int"
  ex_healthy :: "string \<Rightarrow> string + bool"
  ex_probe :: "string \<Rightarrow> string \<Rightarrow> string \<Rightarrow> string \<Rightarrow> int \<Rightarrow> int list \<Rightarrow> string option"
  ex_gateway :: "string \<Rightarrow> string + string"

text \<open>An answer of type \<^typ>\<open>string option\<close> is the error of the call, \<^const>\<open>None\<close> when it succeeded.\<close>

section \<open>Registry settings\<close>

record docker_row =
  dr_registry :: string
  dr_username :: string
  dr_password :: string
  dr_timeout :: int

record workerDockerSettings =
  DefaultRegistry :: string
  RegistryUsername :: string
  RegistryPassword :: string
  PullTimeout :: int

definition trim_slashes :: "string \<Rightarrow> string" where
  "trim_slashes s = trim_left_set (trim_right_set (trim_space s) ''/'') ''/''"

text \<open>The row is read outside the transaction; an error of that query is an argument.  Timeouts are seconds.\<close>

definition loadWorkerDockerSettings :: "opener \<Rightarrow> Box \<Rightarrow> (string + docker_row) \<Rightarrow> string + workerDockerSettings" where
  "loadWorkerDockerSettings unseal box row = (case row of Inl e \<Rightarrow> Inl e
     | Inr r \<Rightarrow>
       let timeout = (if dr_timeout r < 30 \<or> dr_timeout r > 30 * 60 then 5 * 60 else dr_timeout r) in
       if dr_password r \<noteq> [] then
         (case Decrypt unseal box ''docker.registry.password'' (dr_password r) of
            Inl e \<Rightarrow> Inl (''Docker Registry credential authentication failed: '' @ error_text e)
          | Inr password \<Rightarrow> Inr \<lparr>DefaultRegistry = trim_slashes (dr_registry r), RegistryUsername = dr_username r,
              RegistryPassword = password, PullTimeout = timeout\<rparr>)
       else Inr \<lparr>DefaultRegistry = trim_slashes (dr_registry r), RegistryUsername = dr_username r,
              RegistryPassword = [], PullTimeout = timeout\<rparr>)"

definition registry_like :: "string \<Rightarrow> bool" where
  "registry_like first = (first = ''localhost'' \<or> contains first ''.'' \<or> contains first '':'')"

definition imageHasRegistry :: "string \<Rightarrow> bool" where
  "imageHasRegistry img = (case cut_on CHR ''/'' img of (first, rest, slash) \<Rightarrow> slash \<and> registry_like first)"

definition resolveConfiguredImage :: "string \<Rightarrow> string \<Rightarrow> string" where
  "resolveConfiguredImage image0 defaultRegistry0 =
    (let img = trim_space image0; defaultRegistry = trim_slashes defaultRegistry0 in
     if img = [] \<or> defaultRegistry = [] \<or> imageHasRegistry img then img
     else defaultRegistry @ ''/'' @ img)"

definition imageRegistryHost :: "string \<Rightarrow> string" where
  "imageRegistryHost img = (case cut_on CHR ''/'' img of (first, rest, slash) \<Rightarrow>
     if registry_like first then first else ''docker.io'')"

text \<open>A \<^verbatim>\<open>time.Duration\<close> of whole seconds below an hour as Go prints it.\<close>

definition duration_text :: "int \<Rightarrow> string" where
  "duration_text s = (if s < 60 then show_int s @ ''s'' else show_int (s div 60) @ ''m'' @ show_int (s mod 60) @ ''s'')"

definition pull_timeout_text :: "int \<Rightarrow> string \<Rightarrow> string" where
  "pull_timeout_text t img =
     bytes [233, 149, 156, 229, 131, 143, 230, 139, 137, 229, 143, 150, 232, 182, 133, 232, 191, 135, 231, 174, 161, 231, 144, 134,
       229, 145, 152, 232, 174, 190, 231, 189, 174, 231, 154, 132, 32] @ duration_text t @
     bytes [32, 232, 182, 133, 230, 151, 182, 239, 188, 154] @ img"

text \<open>The registry account goes with the pull only when the image comes from the configured registry.\<close>

definition pull_credentials :: "workerDockerSettings \<Rightarrow> string \<Rightarrow> string \<times> string \<times> string" where
  "pull_credentials s resolved =
    (if DefaultRegistry s \<noteq> [] \<and> imageRegistryHost resolved = hd (split_on CHR ''/'' (DefaultRegistry s))
     then (RegistryUsername s, RegistryPassword s, imageRegistryHost resolved) else ([], [], []))"

definition pullConfiguredProductImage :: "executor \<Rightarrow> string + workerDockerSettings \<Rightarrow> string \<Rightarrow> string + string" where
  "pullConfiguredProductImage ex settings img = (case settings of Inl e \<Rightarrow> Inl e
     | Inr s \<Rightarrow>
       let resolved = resolveConfiguredImage img (DefaultRegistry s) in
       (case pull_credentials s resolved of (username, password, serverAddress) \<Rightarrow>
        if ex_image ex resolved then Inr resolved
        else case ex_pull ex resolved username password serverAddress (PullTimeout s) of
          Pulled \<Rightarrow> Inr resolved
        | PullFailed e \<Rightarrow> Inl e
        | PullTimedOut \<Rightarrow> Inl (pull_timeout_text (PullTimeout s) resolved)))"

definition configuredProductImage :: "string + workerDockerSettings \<Rightarrow> string \<Rightarrow> string + string" where
  "configuredProductImage settings img = (case settings of Inl e \<Rightarrow> Inl e
     | Inr s \<Rightarrow> Inr (resolveConfiguredImage img (DefaultRegistry s)))"

section \<open>Credentials stay with their registry\<close>

lemma cut_on_split: "hd (split_on CHR ''/'' s) = fst (cut_on CHR ''/'' s)"
proof (induction s)
  case (Cons c s)
  obtain y ys where y: "split_on CHR ''/'' s = y # ys" by (metis split_on_nonempty list.exhaust)
  then show ?case using Cons by (auto split: prod.splits)
qed simp


lemma pull_credentials_bound:
  "pull_credentials s img = (username, password, serverAddress) \<Longrightarrow> password \<noteq> [] \<Longrightarrow>
    serverAddress = imageRegistryHost img \<and> serverAddress = fst (cut_on CHR ''/'' (DefaultRegistry s))"
  by (auto simp: pull_credentials_def cut_on_split split: if_splits)

end
