(* ===== verification/Deployment.thy ===== *)
theory Deployment
  imports Database Docker_Settings
begin

text \<open>
  Deployment jobs in the worker (\<^verbatim>\<open>apps/worker/main.go\<close>).  A pass claims the oldest open job, does what its state
  asks for (prepare the image, create and start the container, probe it), advances the job by one
  transition and records an event; the last transition switches the route and supersedes the old release.  A
  failure of the preparation rolls the transaction back and marks the job failed in a second transaction.

  The database error text, the JSON decoding error and the HMAC are arguments.  Checks made by triggers of the
  schema count as faults of the statement that fires them.
\<close>

section \<open>Environment and results\<close>

record deploy_env =
  dp_now :: int
  dp_executor :: "executor option"
  dp_router :: string
  dp_egress :: string
  dp_token :: string
  dp_owner :: string
  dp_helper :: string
  dp_docker :: "string + docker_row"
  dp_open :: opener
  dp_box :: Box
  dp_sha256 :: "string \<Rightarrow> string"
  dp_hmac :: "string \<Rightarrow> string \<Rightarrow> string"
  dp_db_error :: string
  dp_json_error :: string

text \<open>A pass finds nothing, stops with a log line, gives up on a job with an error, or commits and names the
  containers it removes afterwards.\<close>

datatype job_end = JobIdle | JobLogged string | JobRejected string string | JobDone "string list"

definition deploymentMaxHealthAttempts :: int where
  "deploymentMaxHealthAttempts = 8"

section \<open>State machine\<close>

fun nextDeploymentState :: "deployment_state \<Rightarrow> deployment_state option" where
  "nextDeploymentState DeploymentQueued = Some DeploymentPulling"
| "nextDeploymentState DeploymentPulling = Some DeploymentStarting"
| "nextDeploymentState DeploymentStarting = Some DeploymentChecking"
| "nextDeploymentState DeploymentChecking = Some DeploymentSwitching"
| "nextDeploymentState DeploymentSwitching = Some DeploymentSucceeded"
| "nextDeploymentState _ = None"

definition isRecoveryOperation :: "string \<Rightarrow> bool" where
  "isRecoveryOperation operation = (operation = ''billing_recovery'' \<or> operation = ''subscription_recovery'')"

definition deploymentFailureState :: "string \<Rightarrow> bool \<Rightarrow> string \<times> string" where
  "deploymentFailureState operation hasLast =
    (if operation = ''start'' then (''stopped'', [])
     else if operation = ''billing_recovery'' then (''suspended'', ''billing_insufficient'')
     else if operation = ''subscription_recovery'' then (''suspended'', ''subscription_expired'')
     else if hasLast then (''running'', []) else (''failed'', []))"

definition nextDeploymentStateWithHealth :: "deployment_state \<Rightarrow> bool \<Rightarrow> int \<Rightarrow> deployment_state option" where
  "nextDeploymentStateWithHealth state healthy healthAttempt =
    (if state = DeploymentChecking \<and> \<not> healthy
     then if healthAttempt < deploymentMaxHealthAttempts then Some DeploymentChecking else Some DeploymentRollingBack
     else if state = DeploymentRollingBack then Some DeploymentFailed
     else nextDeploymentState state)"

definition deploymentHealthAttempt :: "int \<Rightarrow> int" where
  "deploymentHealthAttempt tries = (let attempt = tries - 2 in if attempt < 1 then 1 else attempt)"

section \<open>Reading the snapshot\<close>

text \<open>\<^verbatim>\<open>json.Unmarshal\<close> into a field of type string or map: null leaves the zero value, any other type is an error.\<close>

definition snap_str :: "gomap \<Rightarrow> string \<Rightarrow> string option" where
  "snap_str snap k = (case mget snap k of VNil \<Rightarrow> Some [] | VStr s \<Rightarrow> Some s | _ \<Rightarrow> None)"

definition snap_obj :: "gomap \<Rightarrow> string \<Rightarrow> gomap option" where
  "snap_obj snap k = (case mget snap k of VNil \<Rightarrow> Some [] | VObj m \<Rightarrow> Some m | _ \<Rightarrow> None)"

definition snapshotHealthOK :: "gomap \<Rightarrow> bool" where
  "snapshotHealthOK snap = (case snap_obj snap ''health_spec'' of None \<Rightarrow> True
     | Some spec \<Rightarrow> mget spec ''simulateFailure'' \<noteq> VBool True)"

definition healthPath :: "gomap \<Rightarrow> string option" where
  "healthPath spec = (case as_str (mget spec ''path'') of None \<Rightarrow> None
     | Some raw \<Rightarrow> let path = trim_space raw in
        if path = [] then None
        else if \<not> has_prefix path ''/'' \<or> list_ex (\<lambda>c. c \<in> set ('' '' @ bytes [13, 10, 9])) path
        then Some ''/__invalid_health_path__'' else Some path)"

definition healthTimeout :: "gomap \<Rightarrow> int" where
  "healthTimeout spec = (case numeric (mget spec ''timeoutSeconds'') of None \<Rightarrow> 5
     | Some value \<Rightarrow> if value < Fin 1 \<or> Fin 30 < value then 5 else int_of_gofloat value)"

fun status_codes_loop :: "int list \<Rightarrow> goval list \<Rightarrow> int list" where
  "status_codes_loop acc [] = acc"
| "status_codes_loop acc (raw # rest) =
    (case numeric raw of None \<Rightarrow> status_codes_loop acc rest
     | Some value \<Rightarrow> let statusCode = int_of_gofloat value in
        if value \<noteq> Fin (of_int statusCode) \<or> statusCode < 100 \<or> statusCode > 599 \<or> statusCode \<in> set acc
        then status_codes_loop acc rest else status_codes_loop (acc @ [statusCode]) rest)"

definition healthAcceptedStatusCodes :: "gomap \<Rightarrow> int list" where
  "healthAcceptedStatusCodes spec = (case as_arr (mget spec ''acceptedStatusCodes'') of None \<Rightarrow> []
     | Some values \<Rightarrow> status_codes_loop [] values)"

definition healthInterval :: "gomap \<Rightarrow> int" where
  "healthInterval snap = (case snap_obj snap ''health_spec'' of None \<Rightarrow> 5
     | Some spec \<Rightarrow> (case numeric (mget spec ''intervalSeconds'') of None \<Rightarrow> 5
       | Some interval \<Rightarrow> if interval < Fin 1 \<or> Fin 120 < interval then 5 else int_of_gofloat interval))"

text \<open>The comparison with a NaN is false on both sides; JSON has no NaN.\<close>

section \<open>Names and ports\<close>

definition runtimeScope :: "deploy_env \<Rightarrow> string" where
  "runtimeScope dv = ResourceScopeToken (dp_sha256 dv) (dp_owner dv)"

definition containerName :: "deploy_env \<Rightarrow> string \<Rightarrow> string \<Rightarrow> string" where
  "containerName dv instanceID releaseID =
    (if runtimeScope dv = [] then ''cm-'' @ instanceID @ ''-'' @ releaseID
     else ''cm-'' @ runtimeScope dv @ ''-'' @ instanceID @ ''-'' @ releaseID)"

definition compact12 :: "string \<Rightarrow> string" where
  "compact12 i = take 12 (replace_char CHR ''-'' [] i)"

definition healthProbeName :: "deploy_env \<Rightarrow> string \<Rightarrow> string" where
  "healthProbeName dv jobID =
    (if runtimeScope dv = [] then ''cm-health-'' @ compact12 jobID
     else ''cm-health-'' @ runtimeScope dv @ ''-'' @ compact12 jobID)"

definition releaseAlias :: "string \<Rightarrow> string" where
  "releaseAlias releaseID = ''release-'' @ compact12 releaseID"

definition port_value :: "goval \<Rightarrow> int option" where
  "port_value v = (case numeric v of None \<Rightarrow> None
     | Some value \<Rightarrow> if Fin 1 \<le> value \<and> value \<le> Fin 65535 then Some (int_of_gofloat value) else None)"

definition routePort :: "gomap \<Rightarrow> int" where
  "routePort spec = (case port_value (mget spec ''port'') of Some p \<Rightarrow> p
     | None \<Rightarrow> (case port_value (mget spec ''containerPort'') of Some p \<Rightarrow> p | None \<Rightarrow> 8080))"

definition routePortMappingAvailableWorker :: "gomap \<Rightarrow> bool" where
  "routePortMappingAvailableWorker routeSpec = (case as_obj (mget routeSpec ''portMapping'') of None \<Rightarrow> False
     | Some mapping \<Rightarrow> truthy (mget mapping ''available''))"

definition obj_or_empty :: "goval \<Rightarrow> gomap" where
  "obj_or_empty v = (case as_obj v of Some m \<Rightarrow> m | None \<Rightarrow> [])"

definition routeSpecHasEnabledMapping :: "gomap \<Rightarrow> bool" where
  "routeSpecHasEnabledMapping routeSpec = (case as_arr (mget routeSpec ''listeners'') of None \<Rightarrow> False
     | Some raw \<Rightarrow> list_ex (\<lambda>value. truthy (mget (obj_or_empty value) ''mappingEnabled'')) raw)"

section \<open>Declared secrets\<close>

definition regexpUUID :: "string \<Rightarrow> bool" where
  "regexpUUID s = (case split_on CHR ''-'' s of
     [a, b, c, d, e] \<Rightarrow> hex_block 8 a \<and> hex_block 4 b \<and> hex_block 4 c \<and> hex_block 4 d \<and> hex_block 12 e
   | _ \<Rightarrow> False)"

fun secret_versions_loop :: "gomap \<Rightarrow> (string \<times> string) list \<Rightarrow> string list \<Rightarrow> (string \<times> string) list result" where
  "secret_versions_loop versions declared [] = Inr declared"
| "secret_versions_loop versions declared (key # keys) =
    (case as_str (mget versions key) of
       Some versionID \<Rightarrow> if regexpUUID versionID then secret_versions_loop versions (declared @ [(key, versionID)]) keys
         else Inl (Errorf ''declared Secret %s has no valid version reference'' [key])
     | None \<Rightarrow> Inl (Errorf ''declared Secret %s has no valid version reference'' [key]))"

definition declaredSecretVersions :: "gomap \<Rightarrow> gomap \<Rightarrow> (string \<times> string) list result" where
  "declaredSecretVersions runtimeSpec versions =
    bindR (RuntimeSecretKeys runtimeSpec) (secret_versions_loop versions [])"

definition dependencyNoProxy :: "gomap \<Rightarrow> string list" where
  "dependencyNoProxy runtimeSpec = [''localhost'', ''127.0.0.1'', ''::1''] @
     (case RuntimeDependencies runtimeSpec of Inl _ \<Rightarrow> [] | Inr deps \<Rightarrow> map dep_serviceSlug deps)"

section \<open>Host ports\<close>

definition host_port_free :: "int \<Rightarrow> worker_db \<Rightarrow> bool" where
  "host_port_free p w = (\<not> list_ex (\<lambda>r. rt_host_port r = Some p) (routes w) \<and> \<not> list_ex (\<lambda>m. pt_host_port m = p) (mappings w))"

definition allocateConfiguredHostPort :: "deploy_env \<Rightarrow> (string \<Rightarrow> job_end) \<Rightarrow> int list \<Rightarrow> (db, job_end, int) tx" where
  "allocateConfiguredHostPort dv fail reserved =
    bindT (queryW (fail (dp_db_error dv)) (\<lambda>_. ())) (\<lambda>_.
    bindT (requireW (fail (dp_db_error dv)) settings) (\<lambda>s.
    bindT (queryW (fail (dp_db_error dv)) (\<lambda>w. find (\<lambda>p. host_port_free p w \<and> p \<notin> set reserved) [ss_port_min s .. ss_port_max s])) (\<lambda>port.
    case port of None \<Rightarrow> reply (fail ''configured application port range is exhausted'')
    | Some p \<Rightarrow> done_tx p)))"

record portMappingMeta =
  meta_key :: string
  meta_remark :: string
  meta_primary :: bool

fun mappings_loop :: "deploy_env \<Rightarrow> (string \<Rightarrow> job_end) \<Rightarrow> (PortMapping \<times> portMappingMeta) list \<Rightarrow> goval list \<Rightarrow>
   (db, job_end, (PortMapping \<times> portMappingMeta) list) tx" where
  "mappings_loop dv fail acc [] = done_tx acc"
| "mappings_loop dv fail acc (value # rest) =
    (case as_obj value of None \<Rightarrow> mappings_loop dv fail acc rest
     | Some item \<Rightarrow>
        if \<not> truthy (mget item ''mappingEnabled'') then mappings_loop dv fail acc rest
        else (case port_value (mget item ''containerPort'') of
          None \<Rightarrow> reply (fail ''invalid listener port mapping'')
        | Some port \<Rightarrow>
          bindT (allocateConfiguredHostPort dv fail (map (\<lambda>m. mp_host (fst m)) acc)) (\<lambda>hostPort.
          mappings_loop dv fail (acc @ [(\<lparr>mp_enabled = True, mp_internal = port, mp_host = hostPort\<rparr>,
            \<lparr>meta_key = str_or_empty (mget item ''key''), meta_remark = str_or_empty (mget item ''remark''),
             meta_primary = truthy (mget item ''primary'')\<rparr>)]) rest)))"

definition web_remark :: string where
  "web_remark = bytes [87, 101, 98, 32, 229, 133, 165, 229, 143, 163]"

definition routePortMappings :: "deploy_env \<Rightarrow> (string \<Rightarrow> job_end) \<Rightarrow> gomap \<Rightarrow> bool \<Rightarrow>
   (db, job_end, (PortMapping \<times> portMappingMeta) list) tx" where
  "routePortMappings dv fail routeSpec legacyEnabled =
    (case as_arr (mget routeSpec ''listeners'') of
       Some (value # rest) \<Rightarrow> mappings_loop dv fail [] (value # rest)
     | _ \<Rightarrow> if \<not> legacyEnabled \<or> \<not> routePortMappingAvailableWorker routeSpec then done_tx []
        else mappings_loop dv fail [] [VObj [(''key'', VStr ''web''), (''containerPort'', VFloat (Fin (of_int (routePort routeSpec)))),
          (''remark'', VStr web_remark), (''primary'', VBool True), (''mappingEnabled'', VBool True)]])"

section \<open>Dependencies\<close>

definition dependency_container :: "string \<Rightarrow> string \<Rightarrow> Dependency \<Rightarrow> worker_db \<Rightarrow> string option" where
  "dependency_container userID appID dep w =
    (case filter (\<lambda>(a, r). ua_user a = userID \<and> ua_product a = dep_productId dep \<and> ua_service a = dep_serviceSlug dep \<and> ua_id a \<noteq> appID \<and>
        ua_status a = ''running'' \<and> rt_app r = ua_id a \<and> ua_release a = Some (rt_release r)) (List.product (apps w) (routes w)) of
       [] \<Rightarrow> None | (a, r) # _ \<Rightarrow> Some (rt_container r))"

definition dependency_label :: "Dependency \<Rightarrow> string" where
  "dependency_label dep = dep_key dep @ '' ('' @ dep_serviceSlug dep @ '')''"

fun dependencies_check :: "executor \<Rightarrow> job_end \<Rightarrow> string \<Rightarrow> string \<Rightarrow> Dependency list \<Rightarrow> (db, job_end, string list) tx" where
  "dependencies_check ex dberr userID appID [] = done_tx []"
| "dependencies_check ex dberr userID appID (dep # deps) =
    (if \<not> dep_required dep then dependencies_check ex dberr userID appID deps
     else bindT (queryW dberr (dependency_container userID appID dep)) (\<lambda>row.
       bindT (dependencies_check ex dberr userID appID deps) (\<lambda>missing.
       done_tx (case row of None \<Rightarrow> dependency_label dep # missing
         | Some container \<Rightarrow> if ex_healthy ex container = Inr True then missing else dependency_label dep # missing))))"

definition unavailableRuntimeDependencies :: "executor \<Rightarrow> (string \<Rightarrow> job_end) \<Rightarrow> string \<Rightarrow> string \<Rightarrow> string \<Rightarrow> gomap \<Rightarrow> (db, job_end, string list) tx" where
  "unavailableRuntimeDependencies ex fail dberr userID appID runtimeSpec = (case RuntimeDependencies runtimeSpec of
     Inl e \<Rightarrow> reply (fail (error_text e))
   | Inr deps \<Rightarrow> dependencies_check ex (fail dberr) userID appID deps)"

section \<open>Claiming a job\<close>

definition release_of :: "string \<Rightarrow> string \<Rightarrow> worker_db \<Rightarrow> app_release option" where
  "release_of i app w = find (\<lambda>r. rl_id r = i \<and> rl_app r = app) (releases w)"

definition claimable_job :: "int \<Rightarrow> worker_db \<Rightarrow> deployment_job \<Rightarrow> bool" where
  "claimable_job now w j = (jb_state j \<noteq> DeploymentSucceeded \<and> jb_state j \<noteq> DeploymentFailed \<and> jb_available j \<le> now \<and>
     release_of (jb_release j) (jb_app j) w \<noteq> None \<and> app_of (jb_app j) w \<noteq> None)"

definition claim_job :: "int \<Rightarrow> worker_db \<Rightarrow> deployment_job option" where
  "claim_job now w = (case sort_key jb_created (filter (claimable_job now w) (jobs w)) of [] \<Rightarrow> None | j # _ \<Rightarrow> Some j)"

definition job_snapshot :: "deployment_job \<Rightarrow> worker_db \<Rightarrow> gomap" where
  "job_snapshot j w = (case release_of (jb_release j) (jb_app j) w of Some r \<Rightarrow> rl_snapshot r | None \<Rightarrow> [])"

section \<open>Preparing the image\<close>

definition rejecting :: "deployment_job \<Rightarrow> string \<Rightarrow> job_end" where
  "rejecting j cause = JobRejected (jb_id j) cause"

definition egress_connect :: "deploy_env \<Rightarrow> executor \<Rightarrow> string \<Rightarrow> string option" where
  "egress_connect dv ex network = (if dp_egress dv \<noteq> [] then ex_connect ex network (dp_egress dv) ''cloudmeter-egress-proxy'' else None)"

definition docker_settings :: "deploy_env \<Rightarrow> string + workerDockerSettings" where
  "docker_settings dv = loadWorkerDockerSettings (dp_open dv) (dp_box dv) (dp_docker dv)"

text \<open>The calls to the executor, up to the first that fails.\<close>

definition prepare_calls :: "deploy_env \<Rightarrow> executor \<Rightarrow> string \<Rightarrow> string \<Rightarrow> gomap \<Rightarrow> string option" where
  "prepare_calls dv ex userID img snap =
    (let network = UserNetworkName (dp_sha256 dv) (dp_owner dv) userID in
     case ex_network ex network of Some e \<Rightarrow> Some e
     | None \<Rightarrow> (case ex_connect ex network (dp_router dv) ''cloudmeter-app-router'' of Some e \<Rightarrow> Some e
     | None \<Rightarrow> (case egress_connect dv ex network of Some e \<Rightarrow> Some e
     | None \<Rightarrow> (case pullConfiguredProductImage ex (docker_settings dv) img of Inl e \<Rightarrow> Some e
     | Inr _ \<Rightarrow> (case healthPath (case snap_obj snap ''health_spec'' of Some h \<Rightarrow> h | None \<Rightarrow> []) of None \<Rightarrow> None
     | Some _ \<Rightarrow> map_option (\<lambda>e. ''health probe helper image pull failed: '' @ e) (ex_helper ex (dp_helper dv)))))))"

definition pull_release :: "deploy_env \<Rightarrow> executor \<Rightarrow> deployment_job \<Rightarrow> gomap \<Rightarrow> (db, job_end, unit) tx" where
  "pull_release dv ex j snap =
    bindT (requireW (JobLogged ''user lookup failed'') (\<lambda>w. map_option ua_user (app_of (jb_app j) w))) (\<lambda>userID.
    case (snap_str snap ''image_digest'', snap_obj snap ''runtime_spec'') of
      (Some img, Some runtime) \<Rightarrow>
        if img = [] then reply (rejecting j ''release image is missing'')
        else bindT (unavailableRuntimeDependencies ex (\<lambda>e. rejecting j (''dependency verification failed: '' @ e)) (dp_db_error dv) userID (jb_app j) runtime) (\<lambda>missing.
        if missing \<noteq> [] then reply (rejecting j (''required dependencies are unavailable: '' @ join_with '', '' missing))
        else case prepare_calls dv ex userID img snap of
          Some e \<Rightarrow> reply (rejecting j e)
        | None \<Rightarrow> done_tx ())
    | _ \<Rightarrow> reply (rejecting j ''release image is missing''))"

section \<open>Creating and starting the container\<close>

definition secret_value :: "string \<Rightarrow> string \<Rightarrow> string \<Rightarrow> worker_db \<Rightarrow> string option" where
  "secret_value versionID appID key w = map_option sv_value
     (find (\<lambda>v. sv_id v = versionID \<and> sv_app v = appID \<and> sv_key v = key) (secret_versions w))"

text \<open>Go walks the declared versions in no fixed order; the order of declaration is taken here, which only
  decides which of several errors is reported.\<close>

fun secrets_loop :: "deploy_env \<Rightarrow> deployment_job \<Rightarrow> gomap \<Rightarrow> (string \<times> string) list \<Rightarrow> (db, job_end, gomap) tx" where
  "secrets_loop dv j secretEnv [] = done_tx secretEnv"
| "secrets_loop dv j secretEnv ((key, versionID) # rest) =
    bindT (requireW (rejecting j ''release secret reference is invalid'') (secret_value versionID (jb_app j) key)) (\<lambda>encrypted.
    case Decrypt (dp_open dv) (dp_box dv) (''app.secret.version.'' @ versionID) encrypted of
      Inl e \<Rightarrow> reply (rejecting j ''release secret authentication failed'')
    | Inr plaintext \<Rightarrow> secrets_loop dv j (mput key (VStr plaintext) secretEnv) rest)"

definition proxy_env :: "deploy_env \<Rightarrow> string \<Rightarrow> gomap \<Rightarrow> gomap \<Rightarrow> gomap" where
  "proxy_env dv appID runtime secretEnv =
    (let proxyURL = VStr (''http://'' @ appID @ '':'' @ hex_encode (dp_hmac dv (dp_token dv) appID) @ ''@cloudmeter-egress-proxy:3128'');
         noProxy = VStr (join_with '','' (dependencyNoProxy runtime)) in
     mput ''no_proxy'' noProxy (mput ''NO_PROXY'' noProxy (mput ''https_proxy'' proxyURL (mput ''http_proxy'' proxyURL
       (mput ''HTTPS_PROXY'' proxyURL (mput ''HTTP_PROXY'' proxyURL secretEnv))))))"

definition container_spec :: "deploy_env \<Rightarrow> string \<Rightarrow> gomap \<Rightarrow> gomap \<Rightarrow> gomap" where
  "container_spec dv appID runtime secretEnv =
    mput ''appId'' (VStr appID)
      (if dp_token dv \<noteq> [] then mput ''env'' (VObj (proxy_env dv appID runtime secretEnv)) runtime
       else if secretEnv \<noteq> [] then mput ''env'' (VObj secretEnv) runtime else runtime)"

text \<open>What follows when an update was refused and the code only logged it: the transaction is dead, the remaining
  calls are still made, and the next statement ends the pass.\<close>

fun publish_aborted :: "executor \<Rightarrow> deployment_job \<Rightarrow> string \<Rightarrow> (PortMapping \<times> portMappingMeta) list \<Rightarrow> job_end" where
  "publish_aborted ex j cid [] = JobLogged ''job update failed''"
| "publish_aborted ex j cid (m # rest) = (case ex_published ex cid (mp_internal (fst m)) of
     Inl e \<Rightarrow> rejecting j (''resolve published host port: '' @ e)
   | Inr _ \<Rightarrow> JobLogged ''port mapping persistence failed'')"

definition start_aborted :: "executor \<Rightarrow> deployment_job \<Rightarrow> string \<Rightarrow> string \<Rightarrow> (PortMapping \<times> portMappingMeta) list \<Rightarrow> job_end" where
  "start_aborted ex j name cid ms = (case ex_start ex name of Some e \<Rightarrow> rejecting j e | None \<Rightarrow> publish_aborted ex j cid ms)"

text \<open>\<^verbatim>\<open>INSERT INTO app_port_mappings\<close> with its constraints.\<close>

definition port_key_ok :: "string \<Rightarrow> bool" where
  "port_key_ok k = pat is_lower slug_char 31 k"

definition mapping_insert :: "port_mapping \<Rightarrow> worker_db \<Rightarrow> (unit \<times> worker_db) option" where
  "mapping_insert m w =
    (if port_key_ok (pt_key m) \<and> 1 \<le> pt_container_port m \<and> pt_container_port m \<le> 65535 \<and> 1 \<le> pt_host_port m \<and> pt_host_port m \<le> 65535 \<and>
        rune_count (pt_remark m) \<le> 120 \<and>
        \<not> list_ex (\<lambda>x. pt_host_port x = pt_host_port m \<or> pt_release x = pt_release m \<and>
           (pt_key x = pt_key m \<or> pt_container_port x = pt_container_port m)) (mappings w)
     then Some ((), w\<lparr>mappings := mappings w @ [m]\<rparr>) else None)"

fun publish_loop :: "executor \<Rightarrow> deployment_job \<Rightarrow> string \<Rightarrow> (PortMapping \<times> portMappingMeta) list \<Rightarrow> (db, job_end, unit) tx" where
  "publish_loop ex j cid [] = done_tx ()"
| "publish_loop ex j cid (m # rest) =
    (case ex_published ex cid (mp_internal (fst m)) of
       Inl e \<Rightarrow> reply (rejecting j (''resolve published host port: '' @ e))
     | Inr publishedPort \<Rightarrow>
       bindT (execW (JobLogged ''port mapping persistence failed'') (mapping_insert \<lparr>pt_app = jb_app j, pt_release = jb_release j,
         pt_key = meta_key (snd m), pt_container_port = mp_internal (fst m), pt_host_port = publishedPort, pt_remark = meta_remark (snd m)\<rparr>)) (\<lambda>_.
       bindT (if meta_primary (snd m)
         then updateW (publish_aborted ex j cid rest) (release_update (\<lambda>r. rl_id r = jb_release j \<and> rl_app r = jb_app j)
           (\<lambda>r. r\<lparr>rl_host_port := Some publishedPort\<rparr>))
         else done_tx ()) (\<lambda>_.
       publish_loop ex j cid rest)))"

definition run_container :: "deploy_env \<Rightarrow> executor \<Rightarrow> deployment_job \<Rightarrow> user_app \<Rightarrow> string \<Rightarrow> gomap \<Rightarrow> (PortMapping \<times> portMappingMeta) list \<Rightarrow>
   (db, job_end, unit) tx" where
  "run_container dv ex j app img spec ms =
    (let name = containerName dv (ua_instance app) (jb_release j) in
     case ex_create ex name img (UserNetworkName (dp_sha256 dv) (dp_owner dv) (ua_user app)) [ua_service app, releaseAlias (jb_release j)] spec (map fst ms) of
       Inl e \<Rightarrow> reply (rejecting j e)
     | Inr cid \<Rightarrow>
       bindT (if cid \<noteq> [] then updateW (start_aborted ex j name cid ms) (release_update (\<lambda>r. rl_id r = jb_release j \<and> rl_app r = jb_app j)
           (\<lambda>r. r\<lparr>rl_container_id := cid\<rparr>)) else done_tx ()) (\<lambda>_.
       case ex_start ex name of Some e \<Rightarrow> reply (rejecting j e)
       | None \<Rightarrow> publish_loop ex j cid ms))"

definition start_release :: "deploy_env \<Rightarrow> executor \<Rightarrow> deployment_job \<Rightarrow> gomap \<Rightarrow> (db, job_end, unit) tx" where
  "start_release dv ex j snap =
    bindT (requireW (JobLogged ''user lookup failed'') (app_of (jb_app j))) (\<lambda>app.
    case (snap_str snap ''image_digest'', snap_obj snap ''runtime_spec'', snap_obj snap ''route_spec'', snap_obj snap ''secret_versions'') of
      (Some digest, Some runtime, Some route, Some versions) \<Rightarrow>
        (case configuredProductImage (docker_settings dv) digest of Inl e \<Rightarrow> reply (rejecting j e)
         | Inr img \<Rightarrow> (case declaredSecretVersions runtime versions of
             Inl e \<Rightarrow> reply (rejecting j (''release Secret configuration is invalid: '' @ error_text e))
           | Inr declared \<Rightarrow>
             bindT (secrets_loop dv j (obj_or_empty (mget runtime ''env'')) declared) (\<lambda>secretEnv.
             bindT (routePortMappings dv (rejecting j) route (ua_mapping app)) (\<lambda>ms.
             run_container dv ex j app img (container_spec dv (jb_app j) runtime secretEnv) ms))))
    | _ \<Rightarrow> reply (rejecting j (''release snapshot is invalid: '' @ dp_json_error dv)))"

section \<open>Health checks\<close>

definition probe_target :: "string \<Rightarrow> int \<Rightarrow> string \<Rightarrow> string" where
  "probe_target host port path = ''http://'' @ host @ '':'' @ show_int port @ path"

definition internal_probe :: "deploy_env \<Rightarrow> executor \<Rightarrow> deployment_job \<Rightarrow> gomap \<Rightarrow> (db, job_end, bool \<times> string) tx" where
  "internal_probe dv ex j snap = (case (snap_obj snap ''route_spec'', snap_obj snap ''health_spec'') of
     (Some route, Some health) \<Rightarrow> (case healthPath health of
        None \<Rightarrow> done_tx (True, [])
      | Some path \<Rightarrow>
        bindT (requireW (JobLogged ''health probe user lookup failed'') (\<lambda>w. map_option ua_user (app_of (jb_app j) w))) (\<lambda>userID.
        case ex_probe ex (healthProbeName dv (jb_id j)) (dp_helper dv) (UserNetworkName (dp_sha256 dv) (dp_owner dv) userID)
               (probe_target (releaseAlias (jb_release j)) (routePort route) path) (healthTimeout health) (healthAcceptedStatusCodes health) of
          None \<Rightarrow> done_tx (True, [])
        | Some e \<Rightarrow> done_tx (False, e)))
   | _ \<Rightarrow> done_tx (False, ''release health specification is invalid''))"

definition public_probe :: "deploy_env \<Rightarrow> executor \<Rightarrow> deployment_job \<Rightarrow> gomap \<Rightarrow> int \<Rightarrow> bool \<times> string" where
  "public_probe dv ex j health hostPort = (case healthPath health of None \<Rightarrow> (True, [])
     | Some path \<Rightarrow> (case ex_gateway ex ''bridge'' of
         Inl _ \<Rightarrow> (False, ''public port check failed: could not resolve host gateway'')
       | Inr gateway \<Rightarrow> if gateway = [] then (False, ''public port check failed: could not resolve host gateway'')
          else (case ex_probe ex (healthProbeName dv (jb_id j) @ ''-pub'') (dp_helper dv) ''bridge'' (probe_target gateway hostPort path)
                 (healthTimeout health) (healthAcceptedStatusCodes health) of
              None \<Rightarrow> (True, [])
            | Some e \<Rightarrow> (False, ''public port check failed: '' @ e))))"

definition public_check :: "deploy_env \<Rightarrow> executor \<Rightarrow> deployment_job \<Rightarrow> gomap \<Rightarrow> (db, job_end, bool \<times> string) tx" where
  "public_check dv ex j snap = (case (snap_obj snap ''route_spec'', snap_obj snap ''health_spec'') of
     (Some route, Some health) \<Rightarrow>
       if routePortMappingAvailableWorker route then
         bindT (queryW (JobLogged ''job update failed'') (\<lambda>w. case app_of (jb_app j) w of Some a \<Rightarrow> ua_mapping a | None \<Rightarrow> False)) (\<lambda>portMappingOn.
         bindT (queryW (JobLogged ''job update failed'') (\<lambda>w. case release_of (jb_release j) (jb_app j) w of
             Some r \<Rightarrow> (case rl_host_port r of Some p \<Rightarrow> p | None \<Rightarrow> 0) | None \<Rightarrow> 0)) (\<lambda>hostPort.
         if portMappingOn \<and> hostPort \<ge> 1 \<and> hostPort \<le> 65535 then done_tx (public_probe dv ex j health hostPort) else done_tx (True, [])))
       else done_tx (True, [])
   | _ \<Rightarrow> done_tx (True, []))"

definition check_release :: "deploy_env \<Rightarrow> executor \<Rightarrow> deployment_job \<Rightarrow> gomap \<Rightarrow> (db, job_end, bool \<times> string) tx" where
  "check_release dv ex j snap =
    bindT (requireW (JobLogged ''instance identity lookup failed'') (\<lambda>w. map_option ua_instance (app_of (jb_app j) w))) (\<lambda>instanceID.
    case ex_healthy ex (containerName dv instanceID (jb_release j)) of
      Inl e \<Rightarrow> reply (rejecting j e)
    | Inr False \<Rightarrow> done_tx (False, ''application container is not ready'')
    | Inr True \<Rightarrow>
      bindT (internal_probe dv ex j snap) (\<lambda>(healthy, failure).
      if \<not> healthy then done_tx (False, failure)
      else if \<not> snapshotHealthOK snap then done_tx (False, ''release health specification rejected the deployment'')
      else public_check dv ex j snap))"

section \<open>Advancing the job\<close>

definition phase :: "deploy_env \<Rightarrow> deployment_job \<Rightarrow> gomap \<Rightarrow> (db, job_end, bool \<times> string) tx" where
  "phase dv j snap = (case dp_executor dv of None \<Rightarrow> done_tx (True, [])
     | Some ex \<Rightarrow>
       if jb_state j = DeploymentPulling then bindT (pull_release dv ex j snap) (\<lambda>_. done_tx (True, []))
       else if jb_state j = DeploymentStarting then bindT (start_release dv ex j snap) (\<lambda>_. done_tx (True, []))
       else if jb_state j = DeploymentChecking then check_release dv ex j snap
       else done_tx (True, []))"

definition job_update :: "string \<Rightarrow> (deployment_job \<Rightarrow> deployment_job) \<Rightarrow> worker_db \<Rightarrow> worker_db" where
  "job_update i f w = w\<lparr>jobs := map (\<lambda>j. if jb_id j = i then f j else j) (jobs w)\<rparr>"

definition advanced :: "int \<Rightarrow> int \<Rightarrow> deployment_state \<Rightarrow> string \<Rightarrow> deployment_job \<Rightarrow> deployment_job" where
  "advanced now interval nxt failure j = j\<lparr>jb_state := nxt, jb_attempts := jb_attempts j + 1,
     jb_available := (if nxt = DeploymentChecking then now + interval * 10 ^ 9 else now),
     jb_error := (if failure \<noteq> [] then Some failure
       else if nxt = DeploymentSwitching \<or> nxt = DeploymentSucceeded then None else jb_error j)\<rparr>"

definition exhausted_text :: "int \<Rightarrow> string \<Rightarrow> string" where
  "exhausted_text n failure = ''health check did not pass after '' @ show_int n @ '' attempts: '' @ failure"

definition app_set :: "string \<Rightarrow> (user_app \<Rightarrow> user_app) \<Rightarrow> worker_db \<Rightarrow> worker_db" where
  "app_set i = app_update (\<lambda>a. ua_id a = i)"

definition release_state :: "deployment_job \<Rightarrow> string \<Rightarrow> worker_db \<Rightarrow> worker_db" where
  "release_state j st = release_update (\<lambda>r. rl_id r = jb_release j \<and> rl_app r = jb_app j) (\<lambda>r. r\<lparr>rl_state := st\<rparr>)"

definition supersede_releases :: "deployment_job \<Rightarrow> worker_db \<Rightarrow> worker_db" where
  "supersede_releases j = release_update (\<lambda>r. rl_app r = jb_app j \<and> rl_id r \<noteq> jb_release j \<and> rl_state r = ''active'')
     (\<lambda>r. r\<lparr>rl_state := ''superseded''\<rparr>)"

definition event_record :: "deployment_job \<Rightarrow> deployment_state \<Rightarrow> string \<Rightarrow> worker_db \<Rightarrow> worker_db" where
  "event_record j nxt message w = w\<lparr>job_events := job_events w @ [\<lparr>de_job = jb_id j, de_from = jb_state j, de_to = nxt, de_message = message\<rparr>]\<rparr>"

text \<open>The one-off usage of a finished deployment: quantity one in a window that starts at \<open>t\<close>.\<close>

definition once_event :: "int \<Rightarrow> user_app \<Rightarrow> string \<Rightarrow> string \<Rightarrow> int \<Rightarrow> string \<Rightarrow> worker_db \<Rightarrow> (unit \<times> worker_db) option" where
  "once_event now a code unit t key w = event_insert \<lparr>ev_user = ua_user a, ev_app = Some (ua_id a), ev_code = code, ev_quantity = 1, ev_unit = unit,
     ev_start = t, ev_end = max now (t + 1000), ev_price = resolve_pricing_version code unit t w, ev_key = key, ev_aggregated = None\<rparr> w"

definition deployment_usage :: "deploy_env \<Rightarrow> deployment_job \<Rightarrow> user_app \<Rightarrow> (db, job_end, unit) tx" where
  "deployment_usage dv j a =
    bindT (if jb_operation j \<in> {''deploy'', ''update'', ''rollback''}
      then execW (JobLogged ''deployment usage insert failed'') (once_event (dp_now dv) a ''app.deployment'' ''deployment'' (jb_created j)
        (''deployment:'' @ jb_id j @ '':deployment''))
      else queryW (JobLogged ''deployment usage insert failed'') (\<lambda>_. ())) (\<lambda>_.
    bindT (execW (JobLogged ''product authorization usage insert failed'') (once_event (dp_now dv) a ''product.authorization'' ''authorization''
        (ua_created a) (''app:'' @ ua_id a @ '':authorization''))) (\<lambda>_.
    execW (JobLogged ''public ingress usage insert failed'') (once_event (dp_now dv) a ''network.public_ingress'' ''ingress''
        (ua_created a) (''app:'' @ ua_id a @ '':public-ingress''))))"

text \<open>\<^verbatim>\<open>INSERT INTO app_routes ... ON CONFLICT(user_app_id) DO UPDATE\<close>; the public path is unique.\<close>

definition route_upsert :: "app_route \<Rightarrow> worker_db \<Rightarrow> (unit \<times> worker_db) option" where
  "route_upsert r w =
    (if list_ex (\<lambda>x. rt_app x \<noteq> rt_app r \<and> rt_path x = rt_path r) (routes w) then None
     else if list_ex (\<lambda>x. rt_app x = rt_app r) (routes w)
     then Some ((), w\<lparr>routes := map (\<lambda>x. if rt_app x = rt_app r then r else x) (routes w)\<rparr>)
     else Some ((), w\<lparr>routes := routes w @ [r]\<rparr>))"

definition old_container :: "string \<Rightarrow> worker_db \<Rightarrow> string" where
  "old_container app w = (case find (\<lambda>r. rt_app r = app) (routes w) of Some r \<Rightarrow> rt_container r | None \<Rightarrow> [])"

definition cloud_domain :: "worker_db \<Rightarrow> string" where
  "cloud_domain w = trim_suffix (to_lower (trim_space (case settings w of Some s \<Rightarrow> ss_domain s | None \<Rightarrow> []))) ''.''"

definition new_route :: "deploy_env \<Rightarrow> deployment_job \<Rightarrow> user_app \<Rightarrow> app_release \<Rightarrow> string \<Rightarrow> gomap \<Rightarrow> app_route" where
  "new_route dv j a r domain route = \<lparr>rt_app = jb_app j, rt_instance = ua_instance a, rt_release = jb_release j,
     rt_path = ''//'' @ ua_host a @ ''.'' @ domain @ ''/'', rt_host = releaseAlias (jb_release j), rt_port = routePort route,
     rt_container = containerName dv (ua_instance a) (jb_release j),
     rt_network = (if ua_user a \<noteq> [] then UserNetworkName (dp_sha256 dv) (dp_owner dv) (ua_user a) else []),
     rt_container_id = rl_container_id r,
     rt_host_port = (case rl_host_port r of Some p \<Rightarrow> if 1 \<le> p \<and> p \<le> 65535 then Some p else None | None \<Rightarrow> None)\<rparr>"

definition keeps_mapping :: "app_release \<Rightarrow> gomap \<Rightarrow> bool" where
  "keeps_mapping r route = ((case rl_host_port r of Some p \<Rightarrow> p > 0 | None \<Rightarrow> False) \<or> (route \<noteq> [] \<and> routeSpecHasEnabledMapping route))"

text \<open>Switching the route; the result is the container that served the application before.\<close>

definition switch_route :: "deploy_env \<Rightarrow> deployment_job \<Rightarrow> gomap \<Rightarrow> (db, job_end, string) tx" where
  "switch_route dv j snap =
    bindT (requireW (JobLogged ''route slug lookup failed'') (app_of (jb_app j))) (\<lambda>a.
    bindT (requireW (JobLogged ''route instance identity lookup failed'') (release_of (jb_release j) (jb_app j))) (\<lambda>r.
    let route = (case snap_obj snap ''route_spec'' of Some m \<Rightarrow> m | None \<Rightarrow> []) in
    bindT (queryW (JobLogged ''route instance identity lookup failed'') (old_container (jb_app j))) (\<lambda>old.
    bindT (queryW (JobLogged ''application domain is not configured'') cloud_domain) (\<lambda>domain.
    if domain = [] then reply (JobLogged ''application domain is not configured'')
    else
    bindT (execW (JobLogged ''route update failed'') (route_upsert (new_route dv j a r domain route))) (\<lambda>_.
    bindT (updateW (JobLogged ''old port mapping cleanup failed'') (\<lambda>w. w\<lparr>mappings := filter (\<lambda>m. \<not> (pt_app m = jb_app j \<and> pt_release m \<noteq> jb_release j)) (mappings w)\<rparr>)) (\<lambda>_.
    bindT (updateW (JobLogged ''application port mapping state update failed'') (app_set (jb_app j) (\<lambda>x. x\<lparr>ua_mapping := keeps_mapping r route\<rparr>))) (\<lambda>_.
    done_tx old)))))))"

definition recovered_notice :: "deployment_job \<Rightarrow> user_app \<Rightarrow> notification" where
  "recovered_notice j a = \<lparr>nt_user = ua_user a, nt_key = ''billing-recovered/'' @ jb_id j, nt_kind = ''billing_recovered'', nt_severity = ''info''\<rparr>"

definition succeed_release :: "deploy_env \<Rightarrow> deployment_job \<Rightarrow> user_app \<Rightarrow> gomap \<Rightarrow> (db, job_end, string) tx" where
  "succeed_release dv j a snap =
    bindT (updateW (JobLogged ''app update failed'') (app_set (jb_app j) (\<lambda>x. x\<lparr>ua_status := ''running'', ua_reason := None, ua_suspended := None,
      ua_release := Some (jb_release j)\<rparr>))) (\<lambda>_.
    bindT (updateW (JobLogged ''billing recovery notification failed'') (\<lambda>w. if jb_operation j = ''billing_recovery'' then notify (recovered_notice j a) w else w)) (\<lambda>_.
    bindT (updateW (JobLogged ''release update failed'') (release_state j ''active'')) (\<lambda>_.
    bindT (updateW (JobLogged ''old release supersede failed'') (supersede_releases j)) (\<lambda>_.
    bindT (deployment_usage dv j a) (\<lambda>_.
    switch_route dv j snap)))))"

definition fail_app :: "deployment_job \<Rightarrow> bool \<Rightarrow> worker_db \<Rightarrow> worker_db" where
  "fail_app j hasLast = (case deploymentFailureState (jb_operation j) hasLast of (st, reason) \<Rightarrow>
     app_set (jb_app j) (\<lambda>x. x\<lparr>ua_status := st, ua_reason := (if reason = [] then None else Some reason)\<rparr>))"

definition has_last :: "string \<Rightarrow> worker_db \<Rightarrow> bool option" where
  "has_last app w = map_option (\<lambda>a. ua_release a \<noteq> None) (app_of app w)"

text \<open>The last step of a rollback.  The branch of the source for other states is not reached: only a job that rolls
  back moves to failed here.\<close>

definition fail_release :: "deployment_job \<Rightarrow> (db, job_end, unit) tx" where
  "fail_release j =
    bindT (requireW (JobLogged ''app rollback state lookup failed'') (has_last (jb_app j))) (\<lambda>hasLast.
    bindT (updateW (JobLogged ''app rollback restore failed'') (fail_app j hasLast)) (\<lambda>_.
    updateW (JobLogged ''failed port mapping cleanup failed'') (\<lambda>w. w\<lparr>mappings := filter (\<lambda>m. \<not> (pt_app m = jb_app j \<and> pt_release m = jb_release j)) (mappings w)\<rparr>)))"

text \<open>What belongs to the transition: the message of the event and the container to remove after the commit.\<close>

definition transition_work :: "deploy_env \<Rightarrow> deployment_job \<Rightarrow> user_app \<Rightarrow> gomap \<Rightarrow> deployment_state \<Rightarrow> (db, job_end, string \<times> string) tx" where
  "transition_work dv j a snap nxt =
    (if nxt = DeploymentRollingBack then
       bindT (if isRecoveryOperation (jb_operation j) then done_tx ()
         else updateW (JobLogged ''release rollback mark failed'') (release_state j ''failed'')) (\<lambda>_.
       done_tx (''health check failed; route remains on previous release'', []))
     else if nxt = DeploymentSucceeded then
       bindT (succeed_release dv j a snap) (\<lambda>old.
       done_tx (''deployment completed'', if old \<noteq> containerName dv (ua_instance a) (jb_release j) then old else []))
     else if nxt = DeploymentFailed then
       bindT (fail_release j) (\<lambda>_.
       done_tx (''rollback completed; previous release retained'', containerName dv (ua_instance a) (jb_release j)))
     else done_tx (''deployment progressed'', []))"

definition finish_pass :: "deploy_env \<Rightarrow> deployment_job \<Rightarrow> deployment_state \<Rightarrow> string \<times> string \<Rightarrow> (db, job_end, job_end) tx" where
  "finish_pass dv j nxt outcome = (case outcome of (message, container) \<Rightarrow>
     bindT (updateW (JobLogged ''event insert failed'') (event_record j nxt message)) (\<lambda>_.
     commit (JobLogged ''commit failed'') (JobDone (if container \<noteq> [] \<and> dp_executor dv \<noteq> None then [container] else []))))"

definition advance :: "deploy_env \<Rightarrow> deployment_job \<Rightarrow> user_app \<Rightarrow> gomap \<Rightarrow> bool \<Rightarrow> string \<Rightarrow> (db, job_end, job_end) tx" where
  "advance dv j a snap healthy failure =
    (let healthAttempt = deploymentHealthAttempt (jb_attempts j) in
     case nextDeploymentStateWithHealth (jb_state j) healthy healthAttempt of
       None \<Rightarrow> reply (JobLogged ''invalid job state'')
     | Some nxt \<Rightarrow>
       if \<not> ok (ValidateDeploymentTransition (jb_state j) nxt) then reply (JobLogged ''invalid job state'')
       else let text1 = (if jb_state j = DeploymentChecking \<and> \<not> healthy \<and> nxt = DeploymentRollingBack
              then exhausted_text healthAttempt failure else failure) in
       bindT (updateW (JobLogged ''job update failed'') (job_update (jb_id j) (advanced (dp_now dv) (healthInterval snap) nxt text1))) (\<lambda>_.
       bindT (transition_work dv j a snap nxt) (finish_pass dv j nxt)))"

definition claim_and_advance :: "deploy_env \<Rightarrow> (db, job_end, job_end) tx" where
  "claim_and_advance dv =
    bindT (query JobIdle (\<lambda>_. ())) (\<lambda>_.
    bindT (queryW (JobLogged ''claim failed'') (\<lambda>w. map_option (\<lambda>j. (j, the (app_of (jb_app j) w), job_snapshot j w)) (claim_job (dp_now dv) w))) (\<lambda>row.
    case row of None \<Rightarrow> reply JobIdle
    | Some (j, a, snap) \<Rightarrow>
      bindT (phase dv j snap) (\<lambda>(healthy, failure).
      advance dv j a snap healthy failure)))"

section \<open>Giving up on a job\<close>

definition job_of :: "string \<Rightarrow> worker_db \<Rightarrow> deployment_job option" where
  "job_of i w = find (\<lambda>j. jb_id j = i) (jobs w)"

text \<open>A commit followed by a read outside the transaction, whose failure is ignored.\<close>

definition commit_then :: "'r \<Rightarrow> (bool \<Rightarrow> 's \<Rightarrow> 'r) \<Rightarrow> ('s, 'r, 'a) tx" where
  "commit_then err f flt n s = (if flt n then Stop err else Commit s (f (flt (Suc n)) s))"

definition markJobError :: "deploy_env \<Rightarrow> string \<Rightarrow> string \<Rightarrow> (db, job_end, job_end) tx" where
  "markJobError dv i cause =
    bindT (query (JobLogged ''job error transaction failed'') (\<lambda>_. ())) (\<lambda>_.
    bindT (requireW (JobLogged ''job error lookup failed'') (job_of i)) (\<lambda>j.
    if jb_state j = DeploymentFailed \<or> jb_state j = DeploymentSucceeded then reply JobIdle
    else if \<not> ok (ValidateDeploymentTransition (jb_state j) DeploymentFailed) then reply (JobLogged ''job error transition rejected'')
    else
    bindT (updateW (JobLogged ''job error update failed'') (job_update i (\<lambda>x. x\<lparr>jb_state := DeploymentFailed, jb_error := Some cause,
      jb_attempts := jb_attempts x + 1\<rparr>))) (\<lambda>_.
    bindT (if isRecoveryOperation (jb_operation j) then done_tx ()
      else updateW (JobLogged ''job error release update failed'') (release_state j ''failed'')) (\<lambda>_.
    bindT (requireW (JobLogged ''job error app state lookup failed'') (has_last (jb_app j))) (\<lambda>hasLast.
    bindT (updateW (JobLogged ''job error app update failed'') (fail_app j hasLast)) (\<lambda>_.
    bindT (updateW (JobLogged ''job error event insert failed'') (event_record j DeploymentFailed cause)) (\<lambda>_.
    commit_then (JobLogged ''job error commit failed'') (\<lambda>lost d. JobDone (if dp_executor dv \<noteq> None
      then [containerName dv (case app_of (jb_app j) (work d) of Some a \<Rightarrow> if lost then [] else ua_instance a | None \<Rightarrow> []) (jb_release j)]
      else [])))))))))"

text \<open>One pass.  The second transaction has faults of its own.\<close>

definition processOne :: "deploy_env \<Rightarrow> faults \<Rightarrow> faults \<Rightarrow> db \<Rightarrow> job_end \<times> db" where
  "processOne dv flt flt' d = (case run (claim_and_advance dv) flt d of
     (JobRejected i cause, d1) \<Rightarrow> run (markJobError dv i cause) flt' d1
   | r \<Rightarrow> r)"

end
