(* ===== verification/Deployment_Moves.thy ===== *)
theory Deployment_Moves
  imports Deployment
begin

text \<open>
  What one pass over the deployment queue does to jobs and their events: which parts of the database the phases
  leave alone, that a committed pass is one step of an abstract job machine, and that histories of passes
  are bounded.
\<close>

section \<open>Frames\<close>

text \<open>A program that never commits by itself and leaves a part \<open>g\<close> of the database as it is.\<close>

definition stays :: "('s \<Rightarrow> 'x) \<Rightarrow> ('s, 'r, 'a) tx \<Rightarrow> bool" where
  "stays g m = (\<forall>flt n s. case m flt n s of Stop r \<Rightarrow> True | Commit t r \<Rightarrow> False | Next t n' a \<Rightarrow> g t = g s)"

named_theorems stays_intros "introduction rules for programs that leave a part of the database as it is and do not commit"

lemma stays_Next: "stays g m \<Longrightarrow> m flt n s = Next t n' a \<Longrightarrow> g t = g s"
  unfolding stays_def by (drule spec [of _ flt], drule spec [of _ n], drule spec [of _ s]) simp

lemma stays_Commit: "stays g m \<Longrightarrow> m flt n s \<noteq> Commit t r"
  unfolding stays_def by (drule spec [of _ flt], drule spec [of _ n], drule spec [of _ s]) (cases "m flt n s"; simp)

lemma stays_bind [stays_intros]:
  assumes "stays g m" "\<And>a. stays g (k a)"
  shows "stays g (bindT m k)"
  unfolding stays_def bindT_def
proof (intro allI)
  fix flt n s
  show "case (case m flt n s of Stop r \<Rightarrow> Stop r | Commit t r \<Rightarrow> Commit t r | Next t n' a \<Rightarrow> k a flt n' t) of
      Stop r \<Rightarrow> True | Commit t r \<Rightarrow> False | Next t n' a \<Rightarrow> g t = g s"
  proof (cases "m flt n s")
    case (Commit t r)
    then show ?thesis using stays_Commit [OF assms(1)] by blast
  next
    case (Next t n' a)
    then show ?thesis using stays_Next [OF assms(1) Next] stays_Next [OF assms(2)] stays_Commit [OF assms(2)]
      by (auto split: txout.split)
  qed simp
qed

lemma stays_basic [stays_intros]:
  "stays g (reply r)" "stays g (done_tx a)" "stays g (query err f)"
  by (simp_all add: stays_def reply_def done_tx_def query_def)

lemma stays_work [stays_intros]: "stays g (queryW err f)" "stays g (requireW err h)"
  by (auto simp: stays_def queryW_def requireW_def query_def require_def split: option.split)

lemma stays_change:
  "(\<And>w. g (k w) = g w) \<Longrightarrow> stays (\<lambda>d. g (work d)) (updateW err k)"
  "(\<And>w a w'. x w = Some (a, w') \<Longrightarrow> g w' = g w) \<Longrightarrow> stays (\<lambda>d. g (work d)) (execW err x)"
  by (auto simp: stays_def updateW_def execW_def exec_def split: option.split)

lemma stays_cases [stays_intros]:
  "stays g a' \<Longrightarrow> stays g b' \<Longrightarrow> stays g (if c then a' else b')"
  "stays g n \<Longrightarrow> (\<And>x. stays g (s x)) \<Longrightarrow> stays g (case opt of None \<Rightarrow> n | Some x \<Rightarrow> s x)"
  "(\<And>x. stays g (l x)) \<Longrightarrow> (\<And>y. stays g (r y)) \<Longrightarrow> stays g (case sm of Inl x \<Rightarrow> l x | Inr y \<Rightarrow> r y)"
  "(\<And>x y. stays g (p x y)) \<Longrightarrow> stays g (case pr of (x, y) \<Rightarrow> p x y)"
  "stays g n \<Longrightarrow> (\<And>x xs. stays g (cs x xs)) \<Longrightarrow> stays g (case ls of [] \<Rightarrow> n | x # xs \<Rightarrow> cs x xs)"
  "stays g t \<Longrightarrow> stays g n \<Longrightarrow> stays g (case bl of True \<Rightarrow> t | False \<Rightarrow> n)"
  by (auto split: option.split sum.split prod.split list.split bool.split)

text \<open>What the phases of a pass leave alone.\<close>

definition release_view :: "app_release \<Rightarrow> string \<times> string \<times> gomap \<times> string" where
  "release_view r = (rl_id r, rl_app r, rl_snapshot r, rl_state r)"

definition phase_part :: "worker_db \<Rightarrow> _" where
  "phase_part w = (apps w, routes w, jobs w, job_events w, settings w, (events w, notifications w, stop_jobs w), map release_view (releases w))"

lemma phase_part_statements:
  "(\<And>r. release_view (f r) = release_view r) \<Longrightarrow> phase_part (release_update p f w) = phase_part w"
  "mapping_insert m w = Some (u, w') \<Longrightarrow> phase_part w' = phase_part w"
  by (auto simp: phase_part_def release_update_def mapping_insert_def split: if_splits)

lemma release_view_update [simp]:
  "release_view (r\<lparr>rl_host_port := p\<rparr>) = release_view r" "release_view (r\<lparr>rl_container_id := c\<rparr>) = release_view r"
  by (simp_all add: release_view_def)

lemma stays_phase_statements [stays_intros]:
  "(\<And>r. release_view (g r) = release_view r) \<Longrightarrow> stays (\<lambda>d. phase_part (work d)) (updateW err (release_update p g))"
  "stays (\<lambda>d. phase_part (work d)) (execW err (mapping_insert m))"
  by (intro stays_change, simp add: phase_part_statements(1)) (intro stays_change, blast dest: phase_part_statements(2))

lemma stays_mappings [stays_intros]: "stays (\<lambda>d. phase_part (work d)) (mappings_loop dv fail acc vs)"
proof (induction vs arbitrary: acc)
  case (Cons v vs)
  show ?case unfolding mappings_loop.simps allocateConfiguredHostPort_def by (intro stays_intros Cons.IH)
qed (simp add: stays_intros)

lemma stays_loops [stays_intros]:
  "stays (\<lambda>d. phase_part (work d)) (dependencies_check ex e u a deps)" "stays (\<lambda>d. phase_part (work d)) (publish_loop ex j cid ms)"
proof -
  show "stays (\<lambda>d. phase_part (work d)) (dependencies_check ex e u a deps)"
  proof (induction deps)
    case (Cons d deps)
    show ?case unfolding dependencies_check.simps by (intro stays_intros Cons.IH)
  qed (simp add: stays_intros)
  show "stays (\<lambda>d. phase_part (work d)) (publish_loop ex j cid ms)"
  proof (induction ms)
    case (Cons m ms)
    show ?case unfolding publish_loop.simps by (intro stays_intros Cons.IH release_view_update)
  qed (simp add: stays_intros)
qed

lemma stays_secrets [stays_intros]: "stays (\<lambda>d. phase_part (work d)) (secrets_loop dv j e ds)"
proof (induction ds arbitrary: e)
  case (Cons d ds)
  obtain k v where "d = (k, v)" by fastforce
  then show ?case by (simp only: secrets_loop.simps) (intro stays_intros Cons.IH)
qed (simp add: stays_intros)

lemma stays_route_mappings [stays_intros]: "stays (\<lambda>d. phase_part (work d)) (routePortMappings dv fail spec legacy)"
  unfolding routePortMappings_def
  by (intro stays_intros)

lemma stays_pull [stays_intros]: "stays (\<lambda>d. phase_part (work d)) (pull_release dv ex j snap)"
  unfolding pull_release_def unavailableRuntimeDependencies_def by (intro stays_intros)

lemma stays_start [stays_intros]: "stays (\<lambda>d. phase_part (work d)) (start_release dv ex j snap)"
  unfolding start_release_def run_container_def Let_def by (intro stays_intros release_view_update)

lemma stays_check [stays_intros]: "stays (\<lambda>d. phase_part (work d)) (check_release dv ex j snap)"
  unfolding check_release_def internal_probe_def public_check_def by (intro stays_intros)

lemma stays_phase: "stays (\<lambda>d. phase_part (work d)) (phase dv j snap)"
  unfolding phase_def by (intro stays_intros)

text \<open>What the work of a transition leaves alone: the jobs and their events, and the routes unless it succeeds.\<close>

definition job_part :: "worker_db \<Rightarrow> deployment_job list \<times> deployment_event list \<times> stop_job list" where
  "job_part w = (jobs w, job_events w, stop_jobs w)"

lemma event_insert_part: "event_insert e w = Some (u, w') \<Longrightarrow> \<exists>es. w' = w\<lparr>events := es\<rparr>"
  by (auto simp: event_insert_def Let_def split: option.splits if_splits intro: exI [of _ "events w"])

lemma once_event_part: "once_event now a c u t k w = Some (x, w') \<Longrightarrow> \<exists>es. w' = w\<lparr>events := es\<rparr>"
  unfolding once_event_def by (rule event_insert_part)

lemma job_part_simps [simp]:
  "job_part (app_update p f w) = job_part w" "job_part (release_update q g w) = job_part w" "job_part (notify n w) = job_part w"
  "job_part (w\<lparr>mappings := ms\<rparr>) = job_part w" "job_part (w\<lparr>routes := rs\<rparr>) = job_part w" "job_part (w\<lparr>events := es\<rparr>) = job_part w"
  by (simp_all add: job_part_def app_update_def release_update_def notify_def)

lemma route_upsert_part: "route_upsert r w = Some (u, w') \<Longrightarrow> \<exists>rs. w' = w\<lparr>routes := rs\<rparr>"
  by (auto simp: route_upsert_def split: if_splits)

lemma stays_jobs_transition: "stays (\<lambda>d. job_part (work d)) (transition_work dv j a snap nxt)"
proof -
  have up: "job_part w' = job_part w" if "route_upsert r w = Some (u, w')" for r w u w' using route_upsert_part [OF that] by auto
  have ev: "job_part w' = job_part w" if "once_event now b c un t k w = Some (u, w')" for now b c un t k w u w' using once_event_part [OF that] by auto
  show ?thesis
    unfolding transition_work_def succeed_release_def fail_release_def switch_route_def deployment_usage_def Let_def
      app_set_def release_state_def supersede_releases_def fail_app_def
    by (intro stays_intros stays_change) (auto dest: up ev split: prod.split)
qed

lemma stays_routes_transition:
  assumes "nxt \<noteq> DeploymentSucceeded"
  shows "stays (\<lambda>d. routes (work d)) (transition_work dv j a snap nxt)"
proof -
  have "transition_work dv j a snap nxt = (if nxt = DeploymentRollingBack then
       bindT (if isRecoveryOperation (jb_operation j) then done_tx ()
         else updateW (JobLogged ''release rollback mark failed'') (release_state j ''failed'')) (\<lambda>_.
       done_tx (''health check failed; route remains on previous release'', []))
     else if nxt = DeploymentFailed then
       bindT (fail_release j) (\<lambda>_.
       done_tx (''rollback completed; previous release retained'', containerName dv (ua_instance a) (jb_release j)))
     else done_tx (''deployment progressed'', []))" (is "_ = ?m")
    using assms by (simp add: transition_work_def)
  moreover have "stays (\<lambda>d. routes (work d)) ?m"
    unfolding fail_release_def app_set_def release_state_def fail_app_def
    by (intro stays_intros stays_change) (auto simp: app_update_def release_update_def split: prod.split)
  ultimately show ?thesis by simp
qed

section \<open>The effect of one pass\<close>

lemma bindT_Commit:
  "bindT m k flt n s = Commit t r \<longleftrightarrow> m flt n s = Commit t r \<or> (\<exists>s' n' a. m flt n s = Next s' n' a \<and> k a flt n' s' = Commit t r)"
  by (auto simp: bindT_def split: txout.splits)

lemma bindT_Next:
  "bindT m k flt n s = Next t n2 b \<longleftrightarrow> (\<exists>s' n' a. m flt n s = Next s' n' a \<and> k a flt n' s' = Next t n2 b)"
  by (auto simp: bindT_def split: txout.splits)

lemma statement_Next [simp]:
  "updateW err f flt n s = Next t n' a \<longleftrightarrow> \<not> flt n \<and> t = s\<lparr>work := f (work s)\<rparr> \<and> n' = Suc n"
  "queryW err q flt n s = Next t n' x \<longleftrightarrow> \<not> flt n \<and> t = s \<and> n' = Suc n \<and> x = q (work s)"
  "requireW err h flt n s = Next t n' y \<longleftrightarrow> \<not> flt n \<and> t = s \<and> n' = Suc n \<and> h (work s) = Some y"
  "execW err g flt n s = Next t n' z \<longleftrightarrow> \<not> flt n \<and> n' = Suc n \<and> (\<exists>w. g (work s) = Some (z, w) \<and> t = s\<lparr>work := w\<rparr>)"
  "done_tx v flt n s = Next t n' u \<longleftrightarrow> t = s \<and> n' = n \<and> u = v"
  "reply c flt n s \<noteq> Next t n' w0"
  by (auto simp: updateW_def queryW_def requireW_def execW_def query_def require_def exec_def done_tx_def reply_def split: option.split)

lemma statement_Commit [simp]:
  "updateW err f flt n s \<noteq> Commit t r" "queryW err q flt n s \<noteq> Commit t r" "requireW err h flt n s \<noteq> Commit t r"
  "execW err g flt n s \<noteq> Commit t r" "done_tx v flt n s \<noteq> Commit t r" "reply c flt n s \<noteq> Commit t r"
  "commit e c flt n s = Commit t r \<longleftrightarrow> \<not> flt n \<and> t = s \<and> r = c"
  "commit_then e b flt n s = Commit t r \<longleftrightarrow> \<not> flt n \<and> t = s \<and> r = b (flt (Suc n)) s"
  "query err x flt n s \<noteq> Commit t r"
  by (auto simp: updateW_def queryW_def requireW_def execW_def query_def require_def exec_def done_tx_def reply_def commit_def
      commit_then_def split: option.split)

lemma query_Next [simp]: "query err f flt n s = Next t n' a \<longleftrightarrow> \<not> flt n \<and> t = s \<and> n' = Suc n \<and> a = f s"
  by (auto simp: query_def)

text \<open>The next state and the text stored with the job.\<close>

definition failure_text :: "deployment_job \<Rightarrow> bool \<Rightarrow> deployment_state \<Rightarrow> string \<Rightarrow> string" where
  "failure_text j healthy nxt failure = (if jb_state j = DeploymentChecking \<and> \<not> healthy \<and> nxt = DeploymentRollingBack
     then exhausted_text (deploymentHealthAttempt (jb_attempts j)) failure else failure)"

lemma advance_Commit:
  assumes "advance dv j a snap healthy failure flt n s = Commit d' r"
  obtains nxt n1 n2 t msg cont where
    "nextDeploymentStateWithHealth (jb_state j) healthy (deploymentHealthAttempt (jb_attempts j)) = Some nxt"
    "ok (ValidateDeploymentTransition (jb_state j) nxt)"
    "transition_work dv j a snap nxt flt n1
       (s\<lparr>work := job_update (jb_id j) (advanced (dp_now dv) (healthInterval snap) nxt (failure_text j healthy nxt failure)) (work s)\<rparr>)
     = Next t n2 (msg, cont)"
    "d' = t\<lparr>work := event_record j nxt msg (work t)\<rparr>" "r = JobDone (if cont \<noteq> [] \<and> dp_executor dv \<noteq> None then [cont] else [])"
proof -
  have no: "transition_work dv j a snap nxt flt m x \<noteq> Commit t q" for nxt m x t q by (rule stays_Commit [OF stays_jobs_transition])
  obtain nxt where nxt: "nextDeploymentStateWithHealth (jb_state j) healthy (deploymentHealthAttempt (jb_attempts j)) = Some nxt"
    using assms by (cases "nextDeploymentStateWithHealth (jb_state j) healthy (deploymentHealthAttempt (jb_attempts j))") (auto simp: advance_def)
  have valid: "ok (ValidateDeploymentTransition (jb_state j) nxt)"
    using assms nxt by (auto simp: advance_def simp del: deployment_ok split: if_split_asm)
  have "bindT (updateW (JobLogged ''job update failed'') (job_update (jb_id j) (advanced (dp_now dv) (healthInterval snap) nxt (failure_text j healthy nxt failure)))) (\<lambda>_.
       bindT (transition_work dv j a snap nxt) (finish_pass dv j nxt)) flt n s = Commit d' r"
    using assms unfolding advance_def Let_def failure_text_def by (simp only: nxt valid option.case simp_thms if_False)
  then obtain t n2 x where x: "transition_work dv j a snap nxt flt (Suc n)
       (s\<lparr>work := job_update (jb_id j) (advanced (dp_now dv) (healthInterval snap) nxt (failure_text j healthy nxt failure)) (work s)\<rparr>) = Next t n2 x"
    and rest: "finish_pass dv j nxt x flt n2 t = Commit d' r"
    using no by (auto simp: bindT_Commit)
  obtain msg cont where "x = (msg, cont)" by fastforce
  with x rest show thesis by (intro that [OF nxt valid]) (auto simp: bindT_Commit finish_pass_def)
qed

lemma claim_and_advance_Commit:
  assumes "claim_and_advance dv flt n d = Commit d' r"
  obtains j a n1 n2 s healthy failure where
    "claim_job (dp_now dv) (work d) = Some j" "app_of (jb_app j) (work d) = Some a"
    "phase dv j (job_snapshot j (work d)) flt n1 d = Next s n2 (healthy, failure)"
    "advance dv j a (job_snapshot j (work d)) healthy failure flt n2 s = Commit d' r"
proof -
  obtain row m where row: "row = map_option (\<lambda>j. (j, the (app_of (jb_app j) (work d)), job_snapshot j (work d))) (claim_job (dp_now dv) (work d))"
    "(case row of None \<Rightarrow> reply JobIdle | Some (j, a, snap) \<Rightarrow> bindT (phase dv j snap) (\<lambda>(healthy, failure). advance dv j a snap healthy failure)) flt m d = Commit d' r"
    using assms unfolding claim_and_advance_def by (auto simp: bindT_Commit)
  then obtain j where j: "claim_job (dp_now dv) (work d) = Some j" by (cases "claim_job (dp_now dv) (work d)") auto
  have "claimable_job (dp_now dv) (work d) j"
    using j unfolding claim_job_def by (auto split: list.splits dest!: arg_cong [where f = set])
  then obtain a where a: "app_of (jb_app j) (work d) = Some a" by (auto simp: claimable_job_def)
  have "bindT (phase dv j (job_snapshot j (work d))) (\<lambda>(healthy, failure). advance dv j a (job_snapshot j (work d)) healthy failure) flt m d = Commit d' r"
    using row j a by simp
  then obtain s n2 h f where "phase dv j (job_snapshot j (work d)) flt m d = Next s n2 (h, f)"
    "advance dv j a (job_snapshot j (work d)) h f flt n2 s = Commit d' r"
    using stays_Commit [OF stays_phase] by (auto simp: bindT_Commit)
  then show thesis by (rule that [OF j a])
qed


text \<open>An abstract job: its state and the number of passes that changed it.\<close>

inductive job_step :: "deployment_state \<times> int \<Rightarrow> deployment_state \<times> int \<Rightarrow> bool" where
  forward: "nextDeploymentState s = Some s' \<Longrightarrow> job_step (s, n) (s', n + 1)"
| retry: "n < deploymentMaxHealthAttempts + 2 \<Longrightarrow> job_step (DeploymentChecking, n) (DeploymentChecking, n + 1)"
| give_up: "n \<ge> deploymentMaxHealthAttempts + 2 \<Longrightarrow> job_step (DeploymentChecking, n) (DeploymentRollingBack, n + 1)"
| rolled_back: "job_step (DeploymentRollingBack, n) (DeploymentFailed, n + 1)"
| reject: "s \<in> {DeploymentQueued, DeploymentPulling, DeploymentStarting, DeploymentChecking} \<Longrightarrow> job_step (s, n) (DeploymentFailed, n + 1)"

inductive_cases job_step_fromE: "job_step (s, n) p"

definition job_view :: "deployment_job \<Rightarrow> string \<times> deployment_state \<times> int" where
  "job_view j = (jb_id j, jb_state j, jb_attempts j)"

text \<open>One job takes one step and the event says so.\<close>

definition job_moves :: "worker_db \<Rightarrow> worker_db \<Rightarrow> deployment_job \<Rightarrow> deployment_state \<Rightarrow> bool" where
  "job_moves w w' j nxt = (j \<in> set (jobs w) \<and> job_step (jb_state j, jb_attempts j) (nxt, jb_attempts j + 1) \<and>
     map job_view (jobs w') = map (\<lambda>x. if jb_id x = jb_id j then (jb_id x, nxt, jb_attempts x + 1) else job_view x) (jobs w) \<and>
     (\<exists>msg. job_events w' = job_events w @ [\<lparr>de_job = jb_id j, de_from = jb_state j, de_to = nxt, de_message = msg\<rparr>]))"

lemma health_step:
  assumes "nextDeploymentStateWithHealth s healthy (deploymentHealthAttempt n) = Some nxt"
  shows "job_step (s, n) (nxt, n + 1)"
proof (cases "s = DeploymentChecking \<and> \<not> healthy")
  case True
  then show ?thesis using assms job_step.retry job_step.give_up
    by (auto simp: nextDeploymentStateWithHealth_def deploymentHealthAttempt_def deploymentMaxHealthAttempts_def Let_def split: if_split_asm)
next
  case False
  then show ?thesis using assms job_step.forward job_step.rolled_back
    by (auto simp: nextDeploymentStateWithHealth_def split: if_split_asm)
qed

lemma phase_part_jobs: "phase_part w' = phase_part w \<Longrightarrow> job_part w' = job_part w \<and> routes w' = routes w \<and> apps w' = apps w \<and>
    settings w' = settings w \<and> map release_view (releases w') = map release_view (releases w)"
  by (simp add: phase_part_def job_part_def)

lemma job_view_advanced: "jb_id (advanced now i nxt f j) = jb_id j" "jb_state (advanced now i nxt f j) = nxt"
  "jb_attempts (advanced now i nxt f j) = jb_attempts j + 1"
  by (simp_all add: advanced_def)

lemma claim_job_mem: "claim_job now w = Some j \<Longrightarrow> j \<in> set (jobs w) \<and> claimable_job now w j"
  unfolding claim_job_def by (auto split: list.splits dest!: arg_cong [where f = set])

lemma claim_moves:
  assumes "claim_and_advance dv flt n d = Commit d' r"
  shows "\<exists>j nxt. claim_job (dp_now dv) (work d) = Some j \<and> job_moves (work d) (work d') j nxt"
proof -
  from claim_and_advance_Commit [OF assms] obtain j a n1 n2 s healthy failure where
    j: "claim_job (dp_now dv) (work d) = Some j" "phase dv j (job_snapshot j (work d)) flt n1 d = Next s n2 (healthy, failure)"
      "advance dv j a (job_snapshot j (work d)) healthy failure flt n2 s = Commit d' r" by metis
  from advance_Commit [OF j(3)] obtain nxt m1 m2 t msg cont where
    nxt: "nextDeploymentStateWithHealth (jb_state j) healthy (deploymentHealthAttempt (jb_attempts j)) = Some nxt"
    and tw: "transition_work dv j a (job_snapshot j (work d)) nxt flt m1
       (s\<lparr>work := job_update (jb_id j) (advanced (dp_now dv) (healthInterval (job_snapshot j (work d))) nxt (failure_text j healthy nxt failure)) (work s)\<rparr>)
     = Next t m2 (msg, cont)"
    and d': "d' = t\<lparr>work := event_record j nxt msg (work t)\<rparr>" by metis
  have s: "job_part (work s) = job_part (work d)" using stays_Next [OF stays_phase j(2)] phase_part_jobs by blast
  have "job_part (work t) = job_part (job_update (jb_id j) (advanced (dp_now dv) (healthInterval (job_snapshot j (work d))) nxt (failure_text j healthy nxt failure)) (work s))"
    using stays_Next [OF stays_jobs_transition tw] by simp
  then have "map job_view (jobs (work d')) = map (\<lambda>x. if jb_id x = jb_id j then (jb_id x, nxt, jb_attempts x + 1) else job_view x) (jobs (work d))"
    "job_events (work d') = job_events (work d) @ [\<lparr>de_job = jb_id j, de_from = jb_state j, de_to = nxt, de_message = msg\<rparr>]"
    using s by (auto simp: d' job_part_def job_update_def event_record_def job_view_def job_view_advanced)
  then show ?thesis using j(1) claim_job_mem [OF j(1)] health_step [OF nxt] by (auto simp: job_moves_def)
qed

definition given_up :: "deployment_job \<Rightarrow> string \<Rightarrow> bool \<Rightarrow> worker_db \<Rightarrow> worker_db" where
  "given_up j cause hasLast w = event_record j DeploymentFailed cause (fail_app j hasLast
     ((if isRecoveryOperation (jb_operation j) then id else release_state j ''failed'')
       (job_update (jb_id j) (\<lambda>x. x\<lparr>jb_state := DeploymentFailed, jb_error := Some cause, jb_attempts := jb_attempts x + 1\<rparr>) w)))"

lemma job_of_id: "job_of i w = Some j \<Longrightarrow> jb_id j = i \<and> j \<in> set (jobs w)"
  by (auto simp: job_of_def find_Some_iff)

lemma markJobError_Commit:
  assumes "markJobError dv i cause flt n d = Commit d' r"
  obtains j hasLast where "job_of i (work d) = Some j" "ok (ValidateDeploymentTransition (jb_state j) DeploymentFailed)"
    "d' = d\<lparr>work := given_up j cause hasLast (work d)\<rparr>"
  using assms unfolding markJobError_def
  by (auto simp: bindT_Commit given_up_def dest: job_of_id simp del: deployment_ok split: if_split_asm)

lemma mark_moves:
  assumes "markJobError dv i cause flt n d = Commit d' r"
  shows "\<exists>j. job_of i (work d) = Some j \<and> job_moves (work d) (work d') j DeploymentFailed"
proof -
  from markJobError_Commit [OF assms] obtain j hasLast where j: "job_of i (work d) = Some j" "ok (ValidateDeploymentTransition (jb_state j) DeploymentFailed)"
    "d' = d\<lparr>work := given_up j cause hasLast (work d)\<rparr>" by metis
  have m: "j \<in> set (jobs (work d))" "jb_id j = i" using job_of_id [OF j(1)] by auto
  have "job_step (jb_state j, jb_attempts j) (DeploymentFailed, jb_attempts j + 1)"
    using j(2) by (cases "jb_state j") (auto intro: job_step.intros)
  then show ?thesis using j(1) m
    by (auto simp: j(3) given_up_def job_moves_def event_record_def fail_app_def app_set_def app_update_def release_state_def release_update_def job_update_def job_view_def
        split: prod.split)
qed

lemma tx_run_cases: "snd (run m flt d) = d \<or> (\<exists>d' r. m flt 0 d = Commit d' r \<and> run m flt d = (r, d'))"
  by (auto simp: run_def split: txout.split)

lemma processOne_cases:
  assumes "processOne dv flt flt' d = (r, d')"
  shows "d' = d \<or> claim_and_advance dv flt 0 d = Commit d' r \<or> (\<exists>i cause. markJobError dv i cause flt' 0 d = Commit d' r)"
proof -
  obtain r1 d1 where 1: "run (claim_and_advance dv) flt d = (r1, d1)" by fastforce
  have c: "d1 = d \<or> claim_and_advance dv flt 0 d = Commit d1 r1" using tx_run_cases [of "claim_and_advance dv" flt d] 1 by auto
  show ?thesis
  proof (cases "\<exists>i cause. r1 = JobRejected i cause")
    case True
    then obtain i cause where i: "r1 = JobRejected i cause" by blast
    have "d1 = d" using c i by (auto elim!: claim_and_advance_Commit advance_Commit)
    then have "run (markJobError dv i cause) flt' d = (r, d')" using assms 1 i by (simp add: processOne_def)
    then show ?thesis using tx_run_cases [of "markJobError dv i cause" flt' d] by auto
  next
    case False
    then have "(r, d') = (r1, d1)" using assms 1 by (cases r1) (auto simp: processOne_def)
    then show ?thesis using c by blast
  qed
qed


lemma pass_moves:
  assumes "processOne dv flt flt' d = (r, d')"
  shows "d' = d \<or> (\<exists>j nxt. job_moves (work d) (work d') j nxt)"
  using processOne_cases [OF assms] claim_moves [of dv flt 0 d] mark_moves [of dv _ _ flt' 0 d] by blast

section \<open>Histories of passes\<close>

text \<open>Any number of passes, each with its own environment that satisfies \<open>P\<close> (clock, executor answers) and its own faults.\<close>

inductive deploys :: "(deploy_env \<Rightarrow> bool) \<Rightarrow> db \<Rightarrow> db \<Rightarrow> bool" for P :: "deploy_env \<Rightarrow> bool" where
  none: "deploys P d d"
| pass: "P dv \<Longrightarrow> processOne dv flt flt' d = (r, d1) \<Longrightarrow> deploys P d1 d2 \<Longrightarrow> deploys P d d2"

definition job_log :: "string \<Rightarrow> worker_db \<Rightarrow> deployment_state list" where
  "job_log i w = map de_to (filter (\<lambda>e. de_job e = i) (job_events w))"

text \<open>How many passes a job can have seen in each state.\<close>

definition job_shape :: "deployment_state \<Rightarrow> int \<Rightarrow> bool" where
  "job_shape s n = (case s of DeploymentQueued \<Rightarrow> n = 0 | DeploymentPulling \<Rightarrow> n = 1 | DeploymentStarting \<Rightarrow> n = 2
     | DeploymentChecking \<Rightarrow> 3 \<le> n \<and> n \<le> deploymentMaxHealthAttempts + 2
     | DeploymentSwitching \<Rightarrow> 4 \<le> n \<and> n \<le> deploymentMaxHealthAttempts + 3 | DeploymentRollingBack \<Rightarrow> n = deploymentMaxHealthAttempts + 3
     | DeploymentSucceeded \<Rightarrow> 5 \<le> n \<and> n \<le> deploymentMaxHealthAttempts + 4 | DeploymentFailed \<Rightarrow> 1 \<le> n \<and> n \<le> deploymentMaxHealthAttempts + 4)"

lemma job_step_shape: "job_step (s, n) (s', n') \<Longrightarrow> job_shape s n \<Longrightarrow> job_shape s' n'"
  by (erule job_step_fromE; cases s) (auto simp: job_shape_def deploymentMaxHealthAttempts_def)

lemma job_step_valid: "job_step (s, n) (s', n') \<Longrightarrow> ok (ValidateDeploymentTransition s s')"
  by (erule job_step_fromE; cases s) auto

lemma history_snoc: "history check (xs @ [x]) \<Longrightarrow> ok (check x y) \<Longrightarrow> history check (xs @ [x, y])"
  by (simp add: history_def successively_append_iff)

text \<open>The invariant of one job over its passes.\<close>

definition job_tracked :: "string \<Rightarrow> worker_db \<Rightarrow> bool" where
  "job_tracked i w = (\<exists>s. (i, s, int (length (job_log i w))) \<in> job_view ` set (jobs w) \<and> s = last (DeploymentQueued # job_log i w) \<and>
     job_shape s (int (length (job_log i w))) \<and> history ValidateDeploymentTransition (DeploymentQueued # job_log i w))"

lemma job_moves_views:
  assumes "job_moves w w' j nxt"
  shows "job_view ` set (jobs w') = (\<lambda>x. if jb_id x = jb_id j then (jb_id x, nxt, jb_attempts x + 1) else job_view x) ` set (jobs w)"
proof -
  have "map job_view (jobs w') = map (\<lambda>x. if jb_id x = jb_id j then (jb_id x, nxt, jb_attempts x + 1) else job_view x) (jobs w)"
    using assms unfolding job_moves_def by blast
  from arg_cong [where f = set, OF this] show ?thesis by (simp only: set_map)
qed

lemma job_moves_ids:
  assumes "job_moves w w' j nxt"
  shows "map jb_id (jobs w') = map jb_id (jobs w)"
proof -
  have "map job_view (jobs w') = map (\<lambda>x. if jb_id x = jb_id j then (jb_id x, nxt, jb_attempts x + 1) else job_view x) (jobs w)"
    using assms unfolding job_moves_def by blast
  from arg_cong [where f = "map fst", OF this] show ?thesis by (simp add: o_def job_view_def if_distrib [of fst] cong: if_cong)
qed

lemma job_tracked_moves:
  assumes "job_tracked i w" "job_moves w w' j nxt" "distinct (map jb_id (jobs w))"
  shows "job_tracked i w'"
proof -
  obtain msg where ev: "job_events w' = job_events w @ [\<lparr>de_job = jb_id j, de_from = jb_state j, de_to = nxt, de_message = msg\<rparr>]"
    using assms(2) unfolding job_moves_def by blast
  obtain x where x: "x \<in> set (jobs w)" "jb_id x = i" "jb_state x = last (DeploymentQueued # job_log i w)" "jb_attempts x = int (length (job_log i w))"
    "job_shape (jb_state x) (jb_attempts x)" "history ValidateDeploymentTransition (DeploymentQueued # job_log i w)"
    using assms(1) unfolding job_tracked_def job_view_def by auto
  show ?thesis
  proof (cases "jb_id j = i")
    case True
    have j: "j \<in> set (jobs w)" "job_step (jb_state j, jb_attempts j) (nxt, jb_attempts j + 1)" using assms(2) unfolding job_moves_def by blast+
    have jx: "j = x" using assms(3) j(1) x(1,2) True by (metis distinct_map inj_onD)
    have log: "job_log i w' = job_log i w @ [nxt]" using True ev by (simp add: job_log_def)
    have mem: "(i, nxt, int (length (job_log i w'))) \<in> job_view ` set (jobs w')"
      unfolding job_moves_views [OF assms(2)] by (rule image_eqI [of _ _ x]) (use x True jx log in auto)
    have "job_shape nxt (int (length (job_log i w')))" using job_step_shape [OF j(2)] x(4,5) by (simp add: jx log add.commute)
    moreover have "history ValidateDeploymentTransition (DeploymentQueued # job_log i w')"
    proof -
      have "DeploymentQueued # job_log i w = butlast (DeploymentQueued # job_log i w) @ [jb_state x]"
        using x(3) append_butlast_last_id [of "DeploymentQueued # job_log i w"] by simp
      with x(6) job_step_valid [OF j(2)] history_snoc [of ValidateDeploymentTransition "butlast (DeploymentQueued # job_log i w)" "jb_state x" nxt]
      show ?thesis by (metis jx log append.assoc append_Cons append_Nil)
    qed
    ultimately show ?thesis using mem unfolding job_tracked_def by (intro exI [of _ nxt]) (simp add: log)
  next
    case False
    have log: "job_log i w' = job_log i w" using False ev by (simp add: job_log_def)
    have "(i, jb_state x, int (length (job_log i w))) \<in> job_view ` set (jobs w')"
      unfolding job_moves_views [OF assms(2)] by (rule image_eqI [of _ _ x]) (use x False in \<open>auto simp: job_view_def\<close>)
    then show ?thesis using x unfolding job_tracked_def log by auto
  qed
qed

lemma deploys_tracked:
  "deploys P d d' \<Longrightarrow> distinct (map jb_id (jobs (work d))) \<Longrightarrow> job_tracked i (work d) \<Longrightarrow> job_tracked i (work d')"
proof (induction rule: deploys.induct)
  case (pass dv flt flt' d r d1 d2)
  from pass_moves [OF pass.hyps(2)] show ?case
    using pass job_moves_ids job_tracked_moves by (metis (no_types))
qed

end
