(* ===== verification/Deployment_Rollout.thy ===== *)
theory Deployment_Rollout
  imports Deployment_Moves
begin

text \<open>
  What deployments do to routes, releases and ports: a switch replaces the route and the active release of one
  application, every other pass leaves them, passes without faults make progress, and a missing domain
  stops the queue.
\<close>

section \<open>Routes and releases\<close>

definition single_active :: "worker_db \<Rightarrow> bool" where
  "single_active w = (\<forall>r1 \<in> set (releases w). \<forall>r2 \<in> set (releases w).
     rl_app r1 = rl_app r2 \<and> rl_state r1 = ''active'' \<and> rl_state r2 = ''active'' \<longrightarrow> rl_id r1 = rl_id r2)"

definition routes_live :: "worker_db \<Rightarrow> bool" where
  "routes_live w = (\<forall>r \<in> set (routes w). \<exists>a \<in> set (apps w). ua_id a = rt_app r \<and> ua_release a = Some (rt_release r))"

definition rollout_ok :: "worker_db \<Rightarrow> bool" where
  "rollout_ok w = (single_active w \<and> routes_live w)"

lemma deployment_usage_Next:
  assumes "deployment_usage dv j a flt n s = Next t n' u"
  shows "\<exists>es. work t = (work s)\<lparr>events := es\<rparr>"
proof -
  have ev: "\<exists>es. work t1 = (work s1)\<lparr>events := es\<rparr>" if "execW err (once_event now b c un tm k) flt m s1 = Next t1 m' v" for err now b c un tm k m s1 t1 m' v
    using that once_event_part by fastforce
  obtain t1 n1 u1 t2 n2 u2 where
    1: "(if jb_operation j \<in> {''deploy'', ''update'', ''rollback''}
      then execW (JobLogged ''deployment usage insert failed'') (once_event (dp_now dv) a ''app.deployment'' ''deployment'' (jb_created j)
        (''deployment:'' @ jb_id j @ '':deployment''))
      else queryW (JobLogged ''deployment usage insert failed'') (\<lambda>_. ())) flt n s = Next t1 n1 u1"
    and 2: "execW (JobLogged ''product authorization usage insert failed'') (once_event (dp_now dv) a ''product.authorization'' ''authorization''
        (ua_created a) (''app:'' @ ua_id a @ '':authorization'')) flt n1 t1 = Next t2 n2 u2"
    and 3: "execW (JobLogged ''public ingress usage insert failed'') (once_event (dp_now dv) a ''network.public_ingress'' ''ingress''
        (ua_created a) (''app:'' @ ua_id a @ '':public-ingress'')) flt n2 t2 = Next t n' u"
    using assms unfolding deployment_usage_def bindT_Next by blast
  have "\<exists>es. work t1 = (work s)\<lparr>events := es\<rparr>"
  proof (cases "jb_operation j \<in> {''deploy'', ''update'', ''rollback''}")
    case True
    show ?thesis by (rule ev [OF 1 [unfolded if_P [OF True]]])
  next
    case False
    then have "t1 = s" using 1 by auto
    then show ?thesis by (intro exI [of _ "events (work s)"]) simp
  qed
  then show ?thesis using ev [OF 2] ev [OF 3] by auto
qed

lemma switch_route_Next:
  assumes "switch_route dv j snap flt n s = Next t n' old"
  obtains a r w ms b where "app_of (jb_app j) (work s) = Some a" "release_of (jb_release j) (jb_app j) (work s) = Some r"
    "cloud_domain (work s) \<noteq> []" "old = old_container (jb_app j) (work s)"
    "route_upsert (new_route dv j a r (cloud_domain (work s)) (case snap_obj snap ''route_spec'' of Some m \<Rightarrow> m | None \<Rightarrow> [])) (work s) = Some ((), w)"
    "work t = app_set (jb_app j) (\<lambda>x. x\<lparr>ua_mapping := b\<rparr>) (w\<lparr>mappings := ms\<rparr>)"
  using assms unfolding switch_route_def Let_def
  by (auto simp: bindT_Next simp del: option.case_eq_if split: if_split_asm intro: that)

text \<open>Applications, releases and routes after a success.\<close>

definition activated :: "deployment_job \<Rightarrow> user_app \<Rightarrow> user_app" where
  "activated j x = x\<lparr>ua_status := ''running'', ua_reason := None, ua_suspended := None, ua_release := Some (jb_release j)\<rparr>"

lemma succeed_release_Next:
  assumes "succeed_release dv j a snap flt n s = Next t n' old"
  obtains b x rt where
    "apps (work t) = map (\<lambda>y. if ua_id y = jb_app j then (activated j y)\<lparr>ua_mapping := b\<rparr> else y) (apps (work s))"
    "releases (work t) = releases (supersede_releases j (release_state j ''active'' (work s)))"
    "rt_app rt = jb_app j" "rt_release rt = jb_release j" "rt_container rt = containerName dv (ua_instance x) (jb_release j)"
    "app_of (jb_app j) (app_set (jb_app j) (activated j) (work s)) = Some x"
    "routes (work t) = (if list_ex (\<lambda>y. rt_app y = jb_app j) (routes (work s))
       then map (\<lambda>y. if rt_app y = jb_app j then rt else y) (routes (work s)) else routes (work s) @ [rt])"
    "old = old_container (jb_app j) (work s)" "cloud_domain (work s) \<noteq> []"
proof -
  obtain n1 s1 n2 u where u: "deployment_usage dv j a flt n1 s1 = Next u n2 ()"
    and w1: "work s1 = supersede_releases j (release_state j ''active'' ((if jb_operation j = ''billing_recovery'' then notify (recovered_notice j a) else id)
       (app_set (jb_app j) (activated j) (work s))))"
    and sw: "switch_route dv j snap flt n2 u = Next t n' old"
    using assms unfolding succeed_release_def bindT_Next statement_Next activated_def [abs_def]
    by (auto split: if_split_asm)
  from deployment_usage_Next [OF u] obtain es where es: "work u = (work s1)\<lparr>events := es\<rparr>" by blast
  have parts: "apps (work u) = apps (app_set (jb_app j) (activated j) (work s))" "routes (work u) = routes (work s)" "settings (work u) = settings (work s)"
    "releases (work u) = releases (supersede_releases j (release_state j ''active'' (work s)))"
    by (auto simp: es w1 supersede_releases_def release_state_def release_update_def app_set_def app_update_def notify_def)
  from switch_route_Next [OF sw] obtain x r w ms b where
    x: "app_of (jb_app j) (work u) = Some x" and dom: "cloud_domain (work u) \<noteq> []" and old: "old = old_container (jb_app j) (work u)"
    and up: "route_upsert (new_route dv j x r (cloud_domain (work u)) (case snap_obj snap ''route_spec'' of Some m \<Rightarrow> m | None \<Rightarrow> [])) (work u) = Some ((), w)"
    and t: "work t = app_set (jb_app j) (\<lambda>x. x\<lparr>ua_mapping := b\<rparr>) (w\<lparr>mappings := ms\<rparr>)" by metis
  define rt where "rt = new_route dv j x r (cloud_domain (work u)) (case snap_obj snap ''route_spec'' of Some m \<Rightarrow> m | None \<Rightarrow> [])"
  have rt: "rt_app rt = jb_app j" "rt_release rt = jb_release j" "rt_container rt = containerName dv (ua_instance x) (jb_release j)"
    by (simp_all add: rt_def new_route_def)
  have w: "apps w = apps (work u)" "releases w = releases (work u)"
    "routes w = (if list_ex (\<lambda>y. rt_app y = jb_app j) (routes (work s))
       then map (\<lambda>y. if rt_app y = jb_app j then rt else y) (routes (work s)) else routes (work s) @ [rt])"
    using up unfolding rt_def [symmetric] by (auto simp: route_upsert_def rt parts split: if_split_asm)
  show thesis
  proof (rule that [of b rt x])
    show "apps (work t) = map (\<lambda>y. if ua_id y = jb_app j then (activated j y)\<lparr>ua_mapping := b\<rparr> else y) (apps (work s))"
      by (auto simp: t w parts app_set_def app_update_def activated_def)
    show "releases (work t) = releases (supersede_releases j (release_state j ''active'' (work s)))"
      by (simp add: t w parts app_set_def app_update_def)
    show "app_of (jb_app j) (app_set (jb_app j) (activated j) (work s)) = Some x" using x by (simp add: app_of_def parts)
    show "routes (work t) = (if list_ex (\<lambda>y. rt_app y = jb_app j) (routes (work s))
       then map (\<lambda>y. if rt_app y = jb_app j then rt else y) (routes (work s)) else routes (work s) @ [rt])"
      by (simp add: t w app_set_def app_update_def)
    show "old = old_container (jb_app j) (work s)" using old by (simp add: old_container_def parts)
    show "cloud_domain (work s) \<noteq> []" using dom by (simp add: cloud_domain_def parts)
  qed (fact rt)+
qed

text \<open>What a switch leaves behind: the application runs the release, its route leads to the container of the release, the
  release is the only active one, and the routes of other applications are as before.\<close>

definition switched :: "deploy_env \<Rightarrow> deployment_job \<Rightarrow> worker_db \<Rightarrow> worker_db \<Rightarrow> bool" where
  "switched dv j w w' =
    (list_ex (\<lambda>x. ua_id x = jb_app j) (apps w') \<and>
     (\<forall>x \<in> set (apps w'). ua_id x = jb_app j \<longrightarrow> ua_status x = ''running'' \<and> ua_release x = Some (jb_release j)) \<and>
     list_ex (\<lambda>rt. rt_app rt = jb_app j) (routes w') \<and>
     (\<forall>rt \<in> set (routes w'). rt_app rt = jb_app j \<longrightarrow> rt_release rt = jb_release j \<and>
        (\<exists>x \<in> set (apps w'). ua_id x = jb_app j \<and> rt_container rt = containerName dv (ua_instance x) (jb_release j))) \<and>
     (\<forall>rl \<in> set (releases w'). rl_app rl = jb_app j \<longrightarrow> (rl_state rl = ''active'') = (rl_id rl = jb_release j)) \<and>
     filter (\<lambda>rt. rt_app rt \<noteq> jb_app j) (routes w') = filter (\<lambda>rt. rt_app rt \<noteq> jb_app j) (routes w) \<and>
     filter (\<lambda>x. ua_id x \<noteq> jb_app j) (apps w') = filter (\<lambda>x. ua_id x \<noteq> jb_app j) (apps w) \<and>
     filter (\<lambda>rl. rl_app rl \<noteq> jb_app j) (releases w') = filter (\<lambda>rl. rl_app rl \<noteq> jb_app j) (releases w))"

lemma supersede_others: "filter (\<lambda>rl. rl_app rl \<noteq> jb_app j) (releases (supersede_releases j (release_state j ''active'' w))) =
    filter (\<lambda>rl. rl_app rl \<noteq> jb_app j) (releases w)"
proof -
  have "filter (\<lambda>rl. rl_app rl \<noteq> jb_app j) (map f rs) = filter (\<lambda>rl. rl_app rl \<noteq> jb_app j) rs"
    if "\<And>r. rl_app (f r) = rl_app r" "\<And>r. rl_app r \<noteq> jb_app j \<Longrightarrow> f r = r" for f :: "app_release \<Rightarrow> app_release" and rs
    using that by (induction rs) auto
  note this [simp]
  show ?thesis by (simp add: supersede_releases_def release_state_def release_update_def del: map_map)
qed

lemma supersede_active:
  "rl \<in> set (releases (supersede_releases j (release_state j ''active'' w))) \<Longrightarrow> rl_app rl = jb_app j \<Longrightarrow>
    (rl_state rl = ''active'') = (rl_id rl = jb_release j)"
  by (auto simp: supersede_releases_def release_state_def release_update_def split: if_split_asm)

lemma filter_other_map: "filter (\<lambda>y. rt_app y \<noteq> i) (map (\<lambda>y. if rt_app y = i then r else y) xs) =
    (if rt_app r = i then filter (\<lambda>y. rt_app y \<noteq> i) xs else filter (\<lambda>y. rt_app y \<noteq> i) (map (\<lambda>y. if rt_app y = i then r else y) xs))"
  by (induction xs) auto

lemma succeed_switched:
  assumes "succeed_release dv j a snap flt n s = Next t n' old"
  shows "switched dv j (work s) (work t)"
proof -
  from succeed_release_Next [OF assms] obtain b x rt where
    ap: "apps (work t) = map (\<lambda>y. if ua_id y = jb_app j then (activated j y)\<lparr>ua_mapping := b\<rparr> else y) (apps (work s))"
    and rl: "releases (work t) = releases (supersede_releases j (release_state j ''active'' (work s)))"
    and rt: "rt_app rt = jb_app j" "rt_release rt = jb_release j" "rt_container rt = containerName dv (ua_instance x) (jb_release j)"
    and x: "app_of (jb_app j) (app_set (jb_app j) (activated j) (work s)) = Some x"
    and rs: "routes (work t) = (if list_ex (\<lambda>y. rt_app y = jb_app j) (routes (work s))
       then map (\<lambda>y. if rt_app y = jb_app j then rt else y) (routes (work s)) else routes (work s) @ [rt])"
    by (rule succeed_release_Next [OF assms])
  obtain y where y: "y \<in> set (apps (work s))" "ua_id y = jb_app j" "x = activated j y"
    using x by (auto simp: app_of_def app_set_def app_update_def find_Some_iff activated_def split: if_split_asm)
      (metis nth_mem)
  have inst: "\<exists>z \<in> set (apps (work t)). ua_id z = jb_app j \<and> rt_container rt = containerName dv (ua_instance z) (jb_release j)"
    unfolding ap by (rule bexI [of _ "(activated j y)\<lparr>ua_mapping := b\<rparr>"]) (use y rt(3) in \<open>auto simp: activated_def image_iff intro!: bexI [of _ y]\<close>)
  have mem: "rt' = rt" if "rt' \<in> set (routes (work t))" "rt_app rt' = jb_app j" for rt'
    using that unfolding rs by (auto simp: list_ex_iff split: if_split_asm)
  have "\<exists>rt \<in> set (routes (work t)). rt_app rt = jb_app j" unfolding rs using rt(1) by (auto simp: list_ex_iff image_iff)
  moreover have "filter (\<lambda>rt. rt_app rt \<noteq> jb_app j) (routes (work t)) = filter (\<lambda>rt. rt_app rt \<noteq> jb_app j) (routes (work s))"
    unfolding rs using rt(1) by (simp add: filter_other_map)
  moreover have "\<forall>z \<in> set (apps (work t)). ua_id z = jb_app j \<longrightarrow> ua_status z = ''running'' \<and> ua_release z = Some (jb_release j)"
    unfolding ap by (auto simp: activated_def)
  moreover have "filter (\<lambda>x. ua_id x \<noteq> jb_app j) (apps (work t)) = filter (\<lambda>x. ua_id x \<noteq> jb_app j) (apps (work s))"
  proof -
    have "filter (\<lambda>x. ua_id x \<noteq> jb_app j) (map (\<lambda>y. if ua_id y = jb_app j then (activated j y)\<lparr>ua_mapping := b\<rparr> else y) xs) =
      filter (\<lambda>x. ua_id x \<noteq> jb_app j) xs" for xs by (induction xs) (auto simp: activated_def)
    then show ?thesis by (simp add: ap)
  qed
  moreover have "\<exists>z \<in> set (apps (work t)). ua_id z = jb_app j" using inst by blast
  moreover have "\<forall>rl \<in> set (releases (work t)). rl_app rl = jb_app j \<longrightarrow> (rl_state rl = ''active'') = (rl_id rl = jb_release j)"
    using supersede_active by (simp add: rl)
  moreover have "\<forall>rt' \<in> set (routes (work t)). rt_app rt' = jb_app j \<longrightarrow> rt_release rt' = jb_release j \<and>
      (\<exists>x \<in> set (apps (work t)). ua_id x = jb_app j \<and> rt_container rt' = containerName dv (ua_instance x) (jb_release j))"
    using inst mem rt(2) by blast
  ultimately show ?thesis unfolding switched_def list_ex_iff by (simp only: supersede_others rl simp_thms)
qed

text \<open>A committed pass either leaves the routes and only fails or keeps releases, or switches.\<close>

definition kept :: "app_release \<Rightarrow> app_release \<Rightarrow> bool" where
  "kept r r' = (rl_id r' = rl_id r \<and> rl_app r' = rl_app r \<and> (rl_state r' = rl_state r \<or> rl_state r' = ''failed''))"

lemma kept_trans: "kept r1 r2 \<Longrightarrow> kept r2 r3 \<Longrightarrow> kept r1 r3"
  by (auto simp: kept_def)

definition quiet :: "worker_db \<Rightarrow> worker_db \<Rightarrow> bool" where
  "quiet w w' = (routes w' = routes w \<and> map (\<lambda>a. (ua_id a, ua_release a)) (apps w') = map (\<lambda>a. (ua_id a, ua_release a)) (apps w) \<and>
     list_all2 kept (releases w) (releases w'))"

lemma quiet_refl [simp]: "quiet w w"
  by (simp add: quiet_def kept_def list_all2_conv_all_nth)

lemma quiet_trans: "quiet w1 w2 \<Longrightarrow> quiet w2 w3 \<Longrightarrow> quiet w1 w3"
  unfolding quiet_def using list_all2_trans [of kept kept kept] kept_trans by fastforce

lemma quiet_views:
  assumes "routes w' = routes w" "apps w' = apps w" "map release_view (releases w') = map release_view (releases w)"
  shows "quiet w w'"
proof -
  have "list_all2 kept (releases w) (releases w')"
    using assms(3) by (auto simp: kept_def list_all2_conv_all_nth list_eq_iff_nth_eq release_view_def)
  then show ?thesis using assms by (simp add: quiet_def)
qed

lemma quiet_statements:
  "quiet w (job_update i f w)" "quiet w (event_record j nxt msg w)" "quiet w (w\<lparr>mappings := ms\<rparr>)"
  "quiet w (release_state j ''failed'' w)" "quiet w (fail_app j b w)"
  by (auto simp: quiet_def kept_def job_update_def event_record_def release_state_def release_update_def fail_app_def app_set_def app_update_def
      list_all2_conv_all_nth split: prod.split)

lemma transition_quiet:
  assumes "transition_work dv j a snap nxt flt n s = Next t n' out" "nxt \<noteq> DeploymentSucceeded"
  shows "quiet (work s) (work t)"
  using assms unfolding transition_work_def fail_release_def
  by (auto simp: bindT_Next intro: quiet_trans [OF quiet_statements(5) quiet_statements(3)] quiet_statements split: if_split_asm)

lemma switched_frame:
  assumes "switched dv j w1 w2" "routes w1 = routes w" "apps w1 = apps w" "releases w1 = releases w" "apps w3 = apps w2" "routes w3 = routes w2" "releases w3 = releases w2"
  shows "switched dv j w w3"
  using assms by (simp add: switched_def)

lemma claim_routes:
  assumes "claim_and_advance dv flt n d = Commit d' r"
  shows "quiet (work d) (work d') \<or>
    (\<exists>j cs. claim_job (dp_now dv) (work d) = Some j \<and> jb_state j = DeploymentSwitching \<and> switched dv j (work d) (work d') \<and> r = JobDone cs \<and>
       set cs \<subseteq> {old_container (jb_app j) (work d)})"
proof -
  from claim_and_advance_Commit [OF assms] obtain j a n1 n2 s healthy failure where
    j: "claim_job (dp_now dv) (work d) = Some j" "phase dv j (job_snapshot j (work d)) flt n1 d = Next s n2 (healthy, failure)"
      "advance dv j a (job_snapshot j (work d)) healthy failure flt n2 s = Commit d' r" by metis
  have s: "routes (work s) = routes (work d)" "apps (work s) = apps (work d)" "map release_view (releases (work s)) = map release_view (releases (work d))"
    using stays_Next [OF stays_phase j(2)] phase_part_jobs by blast+
  have qs: "quiet (work d) (work s)" by (rule quiet_views [OF s])
  from advance_Commit [OF j(3)] obtain nxt m1 m2 t msg cont where
    nxt: "nextDeploymentStateWithHealth (jb_state j) healthy (deploymentHealthAttempt (jb_attempts j)) = Some nxt"
    and tw: "transition_work dv j a (job_snapshot j (work d)) nxt flt m1
       (s\<lparr>work := job_update (jb_id j) (advanced (dp_now dv) (healthInterval (job_snapshot j (work d))) nxt (failure_text j healthy nxt failure)) (work s)\<rparr>)
     = Next t m2 (msg, cont)"
    and d': "d' = t\<lparr>work := event_record j nxt msg (work t)\<rparr>" and r: "r = JobDone (if cont \<noteq> [] \<and> dp_executor dv \<noteq> None then [cont] else [])" by metis
  define s1 where "s1 = s\<lparr>work := job_update (jb_id j) (advanced (dp_now dv) (healthInterval (job_snapshot j (work d))) nxt (failure_text j healthy nxt failure)) (work s)\<rparr>"
  have rs1: "routes (work s1) = routes (work d)" "apps (work s1) = apps (work d)" by (simp_all add: s1_def job_update_def s)
  show ?thesis
  proof (cases "nxt = DeploymentSucceeded")
    case True
    have st: "jb_state j = DeploymentSwitching"
      using nxt True by (cases "jb_state j") (auto simp: nextDeploymentStateWithHealth_def split: if_split_asm)
    have same: "s = d" using j(2) st by (auto simp: phase_def split: option.split_asm)
    obtain old where su: "succeed_release dv j a (job_snapshot j (work d)) flt m1 s1 = Next t m2 old" and c: "cont = [] \<or> cont = old"
      using tw True unfolding transition_work_def s1_def [symmetric] by (auto simp: bindT_Next)
    have "old = old_container (jb_app j) (work s1)" by (rule succeed_release_Next [OF su])
    then have "old = old_container (jb_app j) (work d)" by (simp add: old_container_def rs1)
    moreover have "switched dv j (work d) (work d')"
      by (rule switched_frame [OF succeed_switched [OF su] rs1]) (use same in \<open>simp_all add: s1_def job_update_def d' event_record_def\<close>)
    ultimately show ?thesis using j(1) st r c by auto
  next
    case False
    have "quiet (work s1) (work t)" by (rule transition_quiet [OF _ False]) (use tw in \<open>simp add: s1_def\<close>)
    then have "quiet (work d) (work d')"
      using qs quiet_statements unfolding s1_def d' by (metis (no_types, lifting) db.select_convs(15) db.surjective db.update_convs(15) quiet_trans)
    then show ?thesis by blast
  qed
qed


lemma mark_quiet:
  assumes "markJobError dv i cause flt n d = Commit d' r"
  shows "quiet (work d) (work d')"
proof -
  from assms obtain j hasLast where "d' = d\<lparr>work := given_up j cause hasLast (work d)\<rparr>" by (rule markJobError_Commit)
  then have d': "work d' = given_up j cause hasLast (work d)" by simp
  have "quiet w ((if isRecoveryOperation (jb_operation j) then id else release_state j ''failed'') w)" for w
    by (simp add: quiet_statements)
  then show ?thesis unfolding d' given_up_def by (meson quiet_trans quiet_statements)
qed

lemma quiet_ok: "quiet w w' \<Longrightarrow> rollout_ok w \<Longrightarrow> rollout_ok w'"
proof -
  assume q: "quiet w w'" and ok: "rollout_ok w"
  have orig: "\<exists>r0 \<in> set (releases w). kept r0 r" if "r \<in> set (releases w')" for r
    using q that by (auto simp: quiet_def list_all2_conv_all_nth in_set_conv_nth) (metis nth_mem)
  have "single_active w'"
    unfolding single_active_def
  proof (intro ballI impI)
    fix r1 r2
    assume r: "r1 \<in> set (releases w')" "r2 \<in> set (releases w')"
      and a: "rl_app r1 = rl_app r2 \<and> rl_state r1 = ''active'' \<and> rl_state r2 = ''active''"
    obtain q1 q2 where "q1 \<in> set (releases w)" "kept q1 r1" "q2 \<in> set (releases w)" "kept q2 r2" using orig r by blast
    then have q: "q1 \<in> set (releases w)" "q2 \<in> set (releases w)" "rl_app q1 = rl_app q2" "rl_state q1 = ''active''" "rl_state q2 = ''active''"
      "rl_id q1 = rl_id r1" "rl_id q2 = rl_id r2" using a by (auto simp: kept_def)
    have "single_active w" using ok by (simp add: rollout_ok_def)
    from this [unfolded single_active_def, rule_format, OF q(1,2)] q show "rl_id r1 = rl_id r2" by simp
  qed
  moreover have "routes_live w'"
  proof -
    have m: "(\<lambda>a. (ua_id a, ua_release a)) ` set (apps w') = (\<lambda>a. (ua_id a, ua_release a)) ` set (apps w)"
      using q unfolding quiet_def by (metis set_map)
    have "\<exists>a \<in> set (apps w'). ua_id a = rt_app r \<and> ua_release a = Some (rt_release r)" if r: "r \<in> set (routes w')" for r
    proof -
      have "r \<in> set (routes w)" using q r by (simp add: quiet_def)
      then obtain a where "a \<in> set (apps w)" "ua_id a = rt_app r" "ua_release a = Some (rt_release r)"
        using ok unfolding rollout_ok_def routes_live_def by blast
      then have "(rt_app r, Some (rt_release r)) \<in> (\<lambda>a. (ua_id a, ua_release a)) ` set (apps w')" unfolding m by force
      then show ?thesis by auto
    qed
    then show ?thesis by (simp add: routes_live_def)
  qed
  ultimately show ?thesis by (simp add: rollout_ok_def)
qed


lemma switched_ok:
  assumes "switched dv j w w'" "rollout_ok w"
  shows "rollout_ok w'"
proof -
  have "single_active w'"
    unfolding single_active_def
  proof (intro ballI impI)
    fix r1 r2
    assume r: "r1 \<in> set (releases w')" "r2 \<in> set (releases w')"
      and a: "rl_app r1 = rl_app r2 \<and> rl_state r1 = ''active'' \<and> rl_state r2 = ''active''"
    show "rl_id r1 = rl_id r2"
    proof (cases "rl_app r1 = jb_app j")
      case True
      have act: "\<forall>rl \<in> set (releases w'). rl_app rl = jb_app j \<longrightarrow> (rl_state rl = ''active'') = (rl_id rl = jb_release j)"
        using assms(1) by (simp add: switched_def)
      have a': "rl_app r2 = jb_app j" "rl_state r1 = ''active''" "rl_state r2 = ''active''" using a True by simp_all
      have "rl_id r1 = jb_release j" by (rule iffD1 [OF act [rule_format, OF r(1) True] a'(2)])
      moreover have "rl_id r2 = jb_release j" by (rule iffD1 [OF act [rule_format, OF r(2) a'(1)] a'(3)])
      ultimately show ?thesis by (rule trans [OF _ sym])
    next
      case False
      have "set (filter (\<lambda>rl. rl_app rl \<noteq> jb_app j) (releases w')) = set (filter (\<lambda>rl. rl_app rl \<noteq> jb_app j) (releases w))"
        using assms(1) by (simp add: switched_def del: set_filter)
      then have eq: "{x \<in> set (releases w'). rl_app x \<noteq> jb_app j} = {x \<in> set (releases w). rl_app x \<noteq> jb_app j}" by simp
      have "r1 \<in> {x \<in> set (releases w'). rl_app x \<noteq> jb_app j}" "r2 \<in> {x \<in> set (releases w'). rl_app x \<noteq> jb_app j}" using r a False by simp_all
      then have m: "r1 \<in> set (releases w)" "r2 \<in> set (releases w)" unfolding eq by simp_all
      have "single_active w" using assms(2) by (simp add: rollout_ok_def)
      from this [unfolded single_active_def, rule_format, OF m a] show ?thesis .
    qed
  qed
  moreover have "\<exists>a \<in> set (apps w'). ua_id a = rt_app r \<and> ua_release a = Some (rt_release r)" if r: "r \<in> set (routes w')" for r
  proof (cases "rt_app r = jb_app j")
    case True
    have "\<exists>x \<in> set (apps w'). ua_id x = jb_app j" "\<forall>x \<in> set (apps w'). ua_id x = jb_app j \<longrightarrow> ua_release x = Some (jb_release j)"
      "\<forall>rt \<in> set (routes w'). rt_app rt = jb_app j \<longrightarrow> rt_release rt = jb_release j"
      using assms(1) by (simp_all add: switched_def list_ex_iff)
    then obtain x where x: "x \<in> set (apps w')" "ua_id x = jb_app j" "ua_release x = Some (jb_release j)" "rt_release r = jb_release j"
      using True r by blast
    show ?thesis by (rule bexI [OF _ x(1)]) (simp add: x True)
  next
    case False
    have "set (filter (\<lambda>rt. rt_app rt \<noteq> jb_app j) (routes w')) = set (filter (\<lambda>rt. rt_app rt \<noteq> jb_app j) (routes w))"
      "set (filter (\<lambda>x. ua_id x \<noteq> jb_app j) (apps w')) = set (filter (\<lambda>x. ua_id x \<noteq> jb_app j) (apps w))"
      using assms(1) by (simp_all add: switched_def del: set_filter)
    then have eq: "{x \<in> set (routes w'). rt_app x \<noteq> jb_app j} = {x \<in> set (routes w). rt_app x \<noteq> jb_app j}"
      "{x \<in> set (apps w'). ua_id x \<noteq> jb_app j} = {x \<in> set (apps w). ua_id x \<noteq> jb_app j}" by simp_all
    have "r \<in> {x \<in> set (routes w'). rt_app x \<noteq> jb_app j}" using r False by simp
    then have "r \<in> set (routes w)" unfolding eq by simp
    then obtain a where "a \<in> set (apps w)" "ua_id a = rt_app r" "ua_release a = Some (rt_release r)"
      using assms(2) unfolding rollout_ok_def routes_live_def by blast
    then have "a \<in> {x \<in> set (apps w'). ua_id x \<noteq> jb_app j}" unfolding eq using False by simp
    then show ?thesis using \<open>ua_id a = rt_app r\<close> \<open>ua_release a = Some (rt_release r)\<close> by blast
  qed
  ultimately show ?thesis by (simp add: rollout_ok_def routes_live_def)
qed

lemma processOne_switch:
  assumes "processOne dv flt flt' d = (r, d')"
  shows "quiet (work d) (work d') \<or>
    (\<exists>j cs. claim_job (dp_now dv) (work d) = Some j \<and> jb_state j = DeploymentSwitching \<and> switched dv j (work d) (work d') \<and> r = JobDone cs \<and>
       set cs \<subseteq> {old_container (jb_app j) (work d)})"
  using processOne_cases [OF assms] claim_routes [of dv flt 0 d d' r] mark_quiet [of dv _ _ flt' 0 d d' r] by auto

lemma deploys_rollout: "deploys P d d' \<Longrightarrow> rollout_ok (work d) \<Longrightarrow> rollout_ok (work d')"
proof (induction rule: deploys.induct)
  case (pass dv flt flt' d r d1 d2)
  then show ?case using processOne_switch [OF pass.hyps(2)] quiet_ok switched_ok by blast
qed

section \<open>How a pass ends\<close>

definition stops :: "('r \<Rightarrow> bool) \<Rightarrow> ('s, 'r, 'a) tx \<Rightarrow> bool" where
  "stops P m = (\<forall>flt n s r. m flt n s = Stop r \<longrightarrow> P r)"

named_theorems stops_intros "introduction rules for the answers a program can stop with"

lemma stopsD: "stops P m \<Longrightarrow> m flt n s = Stop r \<Longrightarrow> P r"
  by (simp add: stops_def)

lemma stops_bind [stops_intros]: "stops P m \<Longrightarrow> (\<And>a. stops P (k a)) \<Longrightarrow> stops P (bindT m k)"
  unfolding stops_def bindT_def by (auto split: txout.splits)

lemma stops_basic [stops_intros]:
  "P r \<Longrightarrow> stops P (reply r)" "stops P (done_tx a)" "P e \<Longrightarrow> stops P (queryW e f)" "P e \<Longrightarrow> stops P (requireW e h)"
  "P e \<Longrightarrow> stops P (updateW e u)" "P e \<Longrightarrow> stops P (execW e g)"
  by (auto simp: stops_def reply_def done_tx_def queryW_def requireW_def updateW_def execW_def query_def require_def exec_def
      split: option.splits if_splits)

lemma stops_cases [stops_intros]:
  "stops P a' \<Longrightarrow> stops P b' \<Longrightarrow> stops P (if c then a' else b')"
  "stops P n \<Longrightarrow> (\<And>x. stops P (s x)) \<Longrightarrow> stops P (case opt of None \<Rightarrow> n | Some x \<Rightarrow> s x)"
  "(\<And>x. stops P (l x)) \<Longrightarrow> (\<And>y. stops P (r y)) \<Longrightarrow> stops P (case sm of Inl x \<Rightarrow> l x | Inr y \<Rightarrow> r y)"
  "(\<And>x y. stops P (p x y)) \<Longrightarrow> stops P (case pr of (x, y) \<Rightarrow> p x y)"
  "stops P n \<Longrightarrow> (\<And>x xs. stops P (cs x xs)) \<Longrightarrow> stops P (case ls of [] \<Rightarrow> n | x # xs \<Rightarrow> cs x xs)"
  "stops P t \<Longrightarrow> stops P n \<Longrightarrow> stops P (case bl of True \<Rightarrow> t | False \<Rightarrow> n)"
  by (auto split: option.split sum.split prod.split list.split bool.split)

text \<open>The phases reject the claimed job only.\<close>

definition of_job :: "deployment_job \<Rightarrow> job_end \<Rightarrow> bool" where
  "of_job j r = (case r of JobRejected i c \<Rightarrow> i = jb_id j | _ \<Rightarrow> True)"

lemma of_job_simps [simp, stops_intros]: "of_job j (JobLogged m)" "of_job j (rejecting j c)" "of_job j JobIdle"
  by (simp_all add: of_job_def rejecting_def)

lemma of_job_aborted [simp, stops_intros]: "of_job j (publish_aborted ex j cid ms)" "of_job j (start_aborted ex j name cid ms)"
proof -
  show p: "of_job j (publish_aborted ex j cid ms)" by (cases ms) (auto split: sum.split)
  show "of_job j (start_aborted ex j name cid ms)" using p by (auto simp: start_aborted_def split: option.split)
qed

lemma stops_mappings [stops_intros]:
  assumes "\<And>e. P (fail e)"
  shows "stops P (mappings_loop dv fail acc vs)"
proof (induction vs arbitrary: acc)
  case (Cons v vs)
  show ?case unfolding mappings_loop.simps allocateConfiguredHostPort_def by (intro stops_intros assms Cons.IH)
qed (simp add: stops_intros)

lemma stops_loops [stops_intros]:
  "P e \<Longrightarrow> stops P (dependencies_check ex e u a deps)" "stops (of_job j) (publish_loop ex j cid ms)"
proof -
  show "P e \<Longrightarrow> stops P (dependencies_check ex e u a deps)"
  proof (induction deps)
    case (Cons d deps)
    show ?case unfolding dependencies_check.simps using Cons.prems by (intro stops_intros Cons.IH)
  qed (simp add: stops_intros)
  show "stops (of_job j) (publish_loop ex j cid ms)"
  proof (induction ms)
    case (Cons m ms)
    show ?case unfolding publish_loop.simps by (intro stops_intros Cons.IH)
  qed (simp add: stops_intros)
qed

lemma stops_secrets [stops_intros]: "stops (of_job j) (secrets_loop dv j e ds)"
proof (induction ds arbitrary: e)
  case (Cons d ds)
  obtain k v where "d = (k, v)" by fastforce
  then show ?case by (simp only: secrets_loop.simps) (intro stops_intros Cons.IH)
qed (simp add: stops_intros)

lemma stops_phase: "stops (of_job j) (phase dv j snap)"
  unfolding phase_def pull_release_def unavailableRuntimeDependencies_def start_release_def run_container_def routePortMappings_def
    check_release_def internal_probe_def public_check_def Let_def
  by (intro stops_intros)

lemma phase_idle:
  assumes "jb_state j \<notin> {DeploymentPulling, DeploymentStarting, DeploymentChecking}"
  shows "phase dv j snap flt n s = Next s n (True, [])"
  using assms by (auto simp: phase_def split: option.split)

section \<open>Progress\<close>

lemma once_event_works: "\<exists>w'. once_event now a c u t k w = Some ((), w')"
  by (simp add: once_event_def event_insert_def numeric12_one)

text \<open>A program that runs through without faults.\<close>

definition works :: "('s, 'r, 'a) tx \<Rightarrow> bool" where
  "works m = (\<forall>n s. \<exists>t n' a. m no_faults n s = Next t n' a)"

lemma works_intros:
  "works m \<Longrightarrow> (\<And>a. works (k a)) \<Longrightarrow> works (bindT m k)" "works (done_tx a)" "works (queryW err f)" "works (updateW err u)"
  "works a1 \<Longrightarrow> works a2 \<Longrightarrow> works (if c then a1 else a2)" "works (execW err (once_event now b co un t key))"
proof -
  show "works m \<Longrightarrow> (\<And>a. works (k a)) \<Longrightarrow> works (bindT m k)" unfolding works_def bindT_Next by meson
  show "works (execW err (once_event now b co un t key))"
    unfolding works_def using once_event_works [of now b co un t key] by (auto split: option.split prod.split)
qed (simp_all add: works_def)

lemma deployment_usage_works: "works (deployment_usage dv j a)"
  unfolding deployment_usage_def by (intro works_intros)

text \<open>The path of the new route is not taken by another application.\<close>

definition path_free :: "deployment_job \<Rightarrow> worker_db \<Rightarrow> bool" where
  "path_free j w = (\<forall>a \<in> set (apps w). \<forall>x \<in> set (routes w). ua_id a = jb_app j \<longrightarrow> rt_app x \<noteq> jb_app j \<longrightarrow>
     rt_path x \<noteq> ''//'' @ ua_host a @ ''.'' @ cloud_domain w @ ''/'')"

lemma switch_route_works:
  assumes "app_of (jb_app j) (work s) = Some a" "release_of (jb_release j) (jb_app j) (work s) = Some r" "cloud_domain (work s) \<noteq> []" "path_free j (work s)"
  shows "\<exists>t n'. switch_route dv j snap no_faults n s = Next t n' (old_container (jb_app j) (work s))"
proof -
  have "a \<in> set (apps (work s))" "ua_id a = jb_app j" using assms(1) by (auto simp: app_of_def find_Some_iff)
  then have "\<not> list_ex (\<lambda>x. rt_app x \<noteq> jb_app j \<and> rt_path x = ''//'' @ ua_host a @ ''.'' @ cloud_domain (work s) @ ''/'') (routes (work s))"
    using assms(4) by (auto simp: path_free_def list_ex_iff)
  then have "\<exists>w'. route_upsert (new_route dv j a r (cloud_domain (work s)) m) (work s) = Some ((), w')" for m
    by (auto simp: route_upsert_def new_route_def)
  then obtain w' where "route_upsert (new_route dv j a r (cloud_domain (work s)) (case snap_obj snap ''route_spec'' of Some m \<Rightarrow> m | None \<Rightarrow> [])) (work s) = Some ((), w')"
    by blast
  then show ?thesis using assms(1-3) by (simp add: switch_route_def Let_def bindT_Next)
qed

lemma find_map_id: "(\<And>x. P (f x) = P x) \<Longrightarrow> find P (map f xs) = map_option f (find P xs)"
  by (induction xs) auto

lemma succeed_works:
  assumes "app_of (jb_app j) (work s) = Some x" "release_of (jb_release j) (jb_app j) (work s) = Some r" "cloud_domain (work s) \<noteq> []" "path_free j (work s)"
  shows "\<exists>t n' out. succeed_release dv j a snap no_faults n s = Next t n' out"
proof -
  define w where "w = supersede_releases j (release_state j ''active'' ((if jb_operation j = ''billing_recovery'' then notify (recovered_notice j a) else id)
       (app_set (jb_app j) (activated j) (work s))))"
  obtain u n1 where u: "deployment_usage dv j a no_faults (Suc (Suc (Suc (Suc n)))) (s\<lparr>work := w\<rparr>) = Next u n1 ()"
    using deployment_usage_works [unfolded works_def] by fastforce
  obtain es where es: "work u = w\<lparr>events := es\<rparr>" using deployment_usage_Next [OF u] by auto
  have parts: "apps (work u) = apps (app_set (jb_app j) (activated j) (work s))" "routes (work u) = routes (work s)" "settings (work u) = settings (work s)"
    "releases (work u) = releases (supersede_releases j (release_state j ''active'' (work s)))"
    by (auto simp: es w_def supersede_releases_def release_state_def release_update_def app_set_def app_update_def notify_def)
  have "app_of (jb_app j) (work u) = Some (activated j x)"
    using assms(1) by (auto simp: app_of_def parts app_set_def app_update_def activated_def find_map_id find_Some_iff)
  moreover have "\<exists>q. release_of (jb_release j) (jb_app j) (work u) = Some q"
    using assms(2) unfolding release_of_def parts supersede_releases_def release_state_def release_update_def
    by (auto simp: find_map_id)
  moreover have dom: "cloud_domain (work u) = cloud_domain (work s)" by (simp add: cloud_domain_def parts)
  moreover have "path_free j (work u)"
    using assms(4) unfolding path_free_def dom parts by (auto simp: app_set_def app_update_def activated_def)
  ultimately obtain t n2 where "switch_route dv j snap no_faults n1 u = Next t n2 (old_container (jb_app j) (work u))"
    using switch_route_works assms(3) by metis
  then have "succeed_release dv j a snap no_faults n s = Next t n2 (old_container (jb_app j) (work u))"
    unfolding succeed_release_def bindT_def using u
    by (simp add: w_def activated_def [abs_def] if_distrib cong: if_cong split: if_split_asm)
  then show ?thesis by blast
qed

lemma transition_works:
  assumes "app_of (jb_app j) (work s) = Some x"
    "nxt = DeploymentSucceeded \<Longrightarrow> release_of (jb_release j) (jb_app j) (work s) \<noteq> None \<and> cloud_domain (work s) \<noteq> [] \<and> path_free j (work s)"
  shows "\<exists>t n' out. transition_work dv j a snap nxt no_faults n s = Next t n' out"
proof (cases "nxt = DeploymentSucceeded")
  case True
  with assms(2) obtain r where "release_of (jb_release j) (jb_app j) (work s) = Some r" "cloud_domain (work s) \<noteq> []" "path_free j (work s)" by auto
  from succeed_works [OF assms(1) this, of dv a snap n] True show ?thesis by (auto simp: transition_work_def bindT_Next)
next
  case False
  then show ?thesis using assms(1) by (auto simp: transition_work_def fail_release_def has_last_def bindT_Next)
qed

lemma next_exists:
  assumes "jb_state j \<noteq> DeploymentSucceeded" "jb_state j \<noteq> DeploymentFailed"
  obtains nxt where "nextDeploymentStateWithHealth (jb_state j) healthy n = Some nxt" "ok (ValidateDeploymentTransition (jb_state j) nxt)"
    "nxt = DeploymentSucceeded \<longleftrightarrow> jb_state j = DeploymentSwitching"
  using assms that by (cases "jb_state j"; cases healthy; cases "n < deploymentMaxHealthAttempts") (auto simp: nextDeploymentStateWithHealth_def)

lemma advance_works:
  assumes "jb_state j \<noteq> DeploymentSucceeded" "jb_state j \<noteq> DeploymentFailed" "app_of (jb_app j) (work s) = Some x"
    "jb_state j = DeploymentSwitching \<Longrightarrow> release_of (jb_release j) (jb_app j) (work s) \<noteq> None \<and> cloud_domain (work s) \<noteq> [] \<and> path_free j (work s)"
  shows "\<exists>d' cs. advance dv j a snap healthy failure no_faults n s = Commit d' (JobDone cs)"
proof -
  obtain nxt where nxt: "nextDeploymentStateWithHealth (jb_state j) healthy (deploymentHealthAttempt (jb_attempts j)) = Some nxt"
    "ok (ValidateDeploymentTransition (jb_state j) nxt)" "nxt = DeploymentSucceeded \<longleftrightarrow> jb_state j = DeploymentSwitching"
    using next_exists [OF assms(1,2)] by metis
  define s1 where "s1 = s\<lparr>work := job_update (jb_id j) (advanced (dp_now dv) (healthInterval snap) nxt (failure_text j healthy nxt failure)) (work s)\<rparr>"
  have same: "app_of (jb_app j) (work s1) = Some x" "release_of (jb_release j) (jb_app j) (work s1) = release_of (jb_release j) (jb_app j) (work s)"
    "cloud_domain (work s1) = cloud_domain (work s)" "path_free j (work s1) = path_free j (work s)"
    using assms(3) by (simp_all add: s1_def job_update_def app_of_def release_of_def cloud_domain_def path_free_def)
  obtain t n2 msg cont where t: "transition_work dv j a snap nxt no_faults (Suc n) s1 = Next t n2 (msg, cont)"
    using transition_works [of j s1 x nxt dv a snap "Suc n"] same assms(4) nxt(3) by fastforce
  have "advance dv j a snap healthy failure no_faults n s =
    bindT (transition_work dv j a snap nxt) (finish_pass dv j nxt) no_faults (Suc n) s1"
    unfolding advance_def Let_def s1_def failure_text_def by (simp only: nxt(1,2) option.case simp_thms if_False bindT_def work_no_faults txout.case)
  then show ?thesis using t by (simp add: bindT_def finish_pass_def)
qed

lemma markJobError_works:
  assumes "job_of i (work d) = Some j" "ok (ValidateDeploymentTransition (jb_state j) DeploymentFailed)" "app_of (jb_app j) (work d) = Some x"
  shows "\<exists>d' cs. markJobError dv i cause no_faults 0 d = Commit d' (JobDone cs)"
proof -
  have "jb_state j \<noteq> DeploymentFailed" "jb_state j \<noteq> DeploymentSucceeded" using assms(2) by (auto split: deployment_state.split_asm)
  then show ?thesis using assms
    by (auto simp: markJobError_def bindT_def has_last_def app_of_def job_update_def release_state_def release_update_def done_tx_def commit_then_def
        simp del: deployment_ok split: if_split)
qed

lemma find_unique: "distinct (map f xs) \<Longrightarrow> x \<in> set xs \<Longrightarrow> find (\<lambda>y. f y = f x) xs = Some x"
  by (induction xs) (auto simp: image_iff)

lemma job_of_mem: "distinct (map jb_id (jobs w)) \<Longrightarrow> j \<in> set (jobs w) \<Longrightarrow> job_of (jb_id j) w = Some j"
  unfolding job_of_def by (rule find_unique)

lemma progress:
  assumes "claim_job (dp_now dv) (work d) = Some j" "distinct (map jb_id (jobs (work d)))"
    "jb_state j = DeploymentSwitching \<Longrightarrow> cloud_domain (work d) \<noteq> [] \<and> path_free j (work d)"
    "(\<exists>s n verdict. phase dv j (job_snapshot j (work d)) no_faults 2 d = Next s n verdict) \<or>
     (\<exists>i cause. phase dv j (job_snapshot j (work d)) no_faults 2 d = Stop (JobRejected i cause))"
  shows "\<exists>cs d' nxt. processOne dv no_faults no_faults d = (JobDone cs, d') \<and> job_moves (work d) (work d') j nxt"
proof -
  have mem: "j \<in> set (jobs (work d))" and cl: "claimable_job (dp_now dv) (work d) j" using claim_job_mem [OF assms(1)] by auto
  then obtain x r where x: "app_of (jb_app j) (work d) = Some x" "release_of (jb_release j) (jb_app j) (work d) = Some r"
    and open_job: "jb_state j \<noteq> DeploymentSucceeded" "jb_state j \<noteq> DeploymentFailed" by (auto simp: claimable_job_def)
  have start: "claim_and_advance dv no_faults 0 d = bindT (phase dv j (job_snapshot j (work d)))
      (\<lambda>(healthy, failure). advance dv j x (job_snapshot j (work d)) healthy failure) no_faults 2 d"
    using assms(1) x(1) by (simp add: claim_and_advance_def bindT_def numeral_2_eq_2)
  from assms(4) show ?thesis
  proof (elim disjE exE)
    fix s n verdict
    assume ph: "phase dv j (job_snapshot j (work d)) no_faults 2 d = Next s n verdict"
    obtain h f where v: "verdict = (h, f)" by fastforce
    have ap: "app_of (jb_app j) (work s) = Some x"
      using stays_Next [OF stays_phase ph] phase_part_jobs [of "work s" "work d"] x(1) by (simp add: app_of_def)
    have sw: "release_of (jb_release j) (jb_app j) (work s) \<noteq> None \<and> cloud_domain (work s) \<noteq> [] \<and> path_free j (work s)"
      if "jb_state j = DeploymentSwitching"
      using that ph phase_idle [of j dv "job_snapshot j (work d)" no_faults 2 d] assms(3) x(2) by auto
    obtain d' cs where "advance dv j x (job_snapshot j (work d)) h f no_faults n s = Commit d' (JobDone cs)"
      using advance_works [OF open_job ap sw] by blast
    then have c: "claim_and_advance dv no_faults 0 d = Commit d' (JobDone cs)" using start ph v by (simp add: bindT_def)
    then have "processOne dv no_faults no_faults d = (JobDone cs, d')" by (simp add: processOne_def run_def)
    moreover obtain nxt where "job_moves (work d) (work d') j nxt" using claim_moves [OF c] assms(1) by auto
    ultimately show ?thesis by blast
  next
    fix i cause
    assume ph: "phase dv j (job_snapshot j (work d)) no_faults 2 d = Stop (JobRejected i cause)"
    have i: "i = jb_id j" using stopsD [OF stops_phase ph] by (simp add: of_job_def)
    have "jb_state j \<in> {DeploymentPulling, DeploymentStarting, DeploymentChecking}"
      using ph phase_idle [of j dv "job_snapshot j (work d)" no_faults 2 d] by auto
    then have "ok (ValidateDeploymentTransition (jb_state j) DeploymentFailed)" by auto
    from markJobError_works [OF job_of_mem [OF assms(2) mem] this x(1)] obtain d' cs where
      m: "markJobError dv (jb_id j) cause no_faults 0 d = Commit d' (JobDone cs)" by blast
    have "claim_and_advance dv no_faults 0 d = Stop (JobRejected i cause)" using start ph by (simp add: bindT_def)
    then have "processOne dv no_faults no_faults d = (JobDone cs, d')" using m i by (simp add: processOne_def run_def)
    moreover have "job_moves (work d) (work d') j DeploymentFailed" using mark_moves [OF m] job_of_mem [OF assms(2) mem] by auto
    ultimately show ?thesis by blast
  qed
qed


section \<open>A queue that cannot move\<close>

definition open_job :: "deployment_job \<Rightarrow> bool" where
  "open_job j = (jb_state j \<noteq> DeploymentSucceeded \<and> jb_state j \<noteq> DeploymentFailed)"

definition oldest_open :: "deployment_job \<Rightarrow> worker_db \<Rightarrow> bool" where
  "oldest_open j w = (j \<in> set (jobs w) \<and> release_of (jb_release j) (jb_app j) w \<noteq> None \<and> app_of (jb_app j) w \<noteq> None \<and>
     (\<forall>x \<in> set (jobs w). open_job x \<and> x \<noteq> j \<longrightarrow> jb_created j < jb_created x))"

lemma hd_sort_key: "x \<in> set xs \<Longrightarrow> sort_key f xs = y # ys \<Longrightarrow> f y \<le> f x"
  by (metis list.set_intros(1) set_ConsD set_sort sorted_sort_key list.simps(9) sorted_simps(2) imageI list.set_map order_refl)

lemma oldest_claimed:
  assumes "oldest_open j w" "open_job j" "jb_available j \<le> now"
  shows "claim_job now w = Some j"
proof -
  have c: "claimable_job now w j" using assms by (auto simp: oldest_open_def claimable_job_def open_job_def)
  then have "j \<in> set (filter (claimable_job now w) (jobs w))" using assms(1) by (auto simp: oldest_open_def)
  moreover from this obtain k ks where k: "sort_key jb_created (filter (claimable_job now w) (jobs w)) = k # ks"
    by (metis list.exhaust list.set(1) set_sort empty_iff)
  ultimately have le: "jb_created k \<le> jb_created j" by (rule hd_sort_key)
  have "k \<in> set (filter (claimable_job now w) (jobs w))" using k by (metis list.set_intros(1) set_sort)
  then have "k \<in> set (jobs w)" "open_job k" by (auto simp: claimable_job_def open_job_def)
  then have "k = j" using assms(1) le by (auto simp: oldest_open_def)
  then show ?thesis using k by (simp add: claim_job_def)
qed

fun is_log :: "job_end \<Rightarrow> bool" where
  "is_log (JobLogged m) = True" | "is_log _ = False"

lemma is_log_intro [stops_intros]: "is_log (JobLogged m)"
  by simp

lemma stops_commit [stops_intros]: "P e \<Longrightarrow> stops P (commit e r)"
  by (auto simp: stops_def commit_def)

lemma stops_advance: "stops is_log (advance dv j a snap healthy failure)"
  unfolding advance_def Let_def transition_work_def succeed_release_def fail_release_def switch_route_def deployment_usage_def finish_pass_def [abs_def]
  by (intro stops_intros)

text \<open>A pass ends in its first transaction with an answer or a commit.\<close>

definition final :: "('s, 'r, 'a) tx \<Rightarrow> bool" where
  "final m = (\<forall>flt n s t n' a. m flt n s \<noteq> Next t n' a)"

lemma final_intros:
  "(\<And>a. final (k a)) \<Longrightarrow> final (bindT m k)" "final (reply r)" "final (commit e r)" "final a1 \<Longrightarrow> final a2 \<Longrightarrow> final (if c then a1 else a2)"
  "final n \<Longrightarrow> (\<And>x. final (s x)) \<Longrightarrow> final (case opt of None \<Rightarrow> n | Some x \<Rightarrow> s x)" "(\<And>x y. final (p x y)) \<Longrightarrow> final (case pr of (x, y) \<Rightarrow> p x y)"
  by (auto simp: final_def bindT_Next commit_def reply_def split: option.split prod.split)

lemma final_claim: "final (claim_and_advance dv)"
  unfolding claim_and_advance_def advance_def Let_def finish_pass_def [abs_def] by (intro final_intros)

lemma blocked_pass:
  assumes "claim_job (dp_now dv) (work d) = Some j" "jb_state j = DeploymentSwitching" "cloud_domain (work d) = []"
  shows "snd (processOne dv flt flt' d) = d"
proof -
  have "claim_and_advance dv flt 0 d \<noteq> Commit d' r" for d' r
  proof
    assume "claim_and_advance dv flt 0 d = Commit d' r"
    from claim_and_advance_Commit [OF this] obtain a n1 n2 s healthy failure where
      ph: "phase dv j (job_snapshot j (work d)) flt n1 d = Next s n2 (healthy, failure)"
      and ad: "advance dv j a (job_snapshot j (work d)) healthy failure flt n2 s = Commit d' r"
      using assms(1) by (metis option.inject)
    have s: "s = d" using ph phase_idle [of j] assms(2) by auto
    from ad obtain nxt m1 m2 t msg cont where
      nxt: "nextDeploymentStateWithHealth (jb_state j) healthy (deploymentHealthAttempt (jb_attempts j)) = Some nxt"
      and tw: "transition_work dv j a (job_snapshot j (work d)) nxt flt m1
       (s\<lparr>work := job_update (jb_id j) (advanced (dp_now dv) (healthInterval (job_snapshot j (work d))) nxt (failure_text j healthy nxt failure)) (work s)\<rparr>)
        = Next t m2 (msg, cont)" by (rule advance_Commit)
    have "nxt = DeploymentSucceeded" using nxt assms(2) by (simp add: nextDeploymentStateWithHealth_def)
    with tw obtain old where "succeed_release dv j a (job_snapshot j (work d)) flt m1
       (s\<lparr>work := job_update (jb_id j) (advanced (dp_now dv) (healthInterval (job_snapshot j (work d))) nxt (failure_text j healthy nxt failure)) (work s)\<rparr>) = Next t m2 old"
      by (auto simp: transition_work_def bindT_Next)
    then have "cloud_domain (work d) \<noteq> []"
      by (rule succeed_release_Next) (simp add: s cloud_domain_def job_update_def)
    then show False using assms(3) by simp
  qed
  moreover have "r \<noteq> JobRejected i c" if "claim_and_advance dv flt 0 d = Stop r" for r i c
  proof -
    have "is_log r \<or> r = JobIdle"
      using that assms(1) phase_idle [of j dv "job_snapshot j (work d)" flt _ d] assms(2) stopsD [OF stops_advance]
      by (auto simp: claim_and_advance_def bindT_def query_def queryW_def split: if_split_asm)
    then show ?thesis by auto
  qed
  ultimately have "\<exists>r. run (claim_and_advance dv) flt d = (r, d) \<and> (\<forall>i c. r \<noteq> JobRejected i c)"
    using final_claim [unfolded final_def, rule_format, of dv flt 0 d] by (cases "claim_and_advance dv flt 0 d") (auto simp: run_def)
  then show ?thesis by (auto simp: processOne_def split: job_end.split)
qed

text \<open>C12: With an empty application domain a job that is about to switch never ends and holds back the whole queue: when it is the
  oldest open job, no sequence of passes, with any executor and any faults, changes the database, so
  no other deployment is ever worked on.\<close>

theorem queue_blocked_without_domain:
  assumes "deploys (\<lambda>dv. jb_available j \<le> dp_now dv) d d'" "oldest_open j (work d)" "jb_state j = DeploymentSwitching" "cloud_domain (work d) = []"
  shows "d' = d"
  using assms
proof (induction rule: deploys.induct)
  case (pass dv flt flt' d r d1 d2)
  have "claim_job (dp_now dv) (work d) = Some j"
    by (rule oldest_claimed) (use pass in \<open>auto simp: open_job_def\<close>)
  from blocked_pass [OF this pass.prems(2,3), of flt flt'] have "d1 = d" using pass.hyps(2) by simp
  then show ?case using pass by simp
qed simp

section \<open>Host ports\<close>

lemma find_SomeD: "find P xs = Some x \<Longrightarrow> P x \<and> x \<in> set xs"
  by (auto simp: find_Some_iff)

lemma allocate_Next:
  assumes "allocateConfiguredHostPort dv fail reserved flt n s = Next t n' p"
  shows "t = s \<and> host_port_free p (work s) \<and> p \<notin> set reserved \<and> (\<exists>c. settings (work s) = Some c \<and> ss_port_min c \<le> p \<and> p \<le> ss_port_max c)"
proof -
  from assms obtain c where c: "settings (work s) = Some c" "t = s"
    "find (\<lambda>q. host_port_free q (work s) \<and> q \<notin> set reserved) [ss_port_min c .. ss_port_max c] = Some p"
    unfolding allocateConfiguredHostPort_def by (auto simp: bindT_Next) (auto split: option.split_asm)
  from find_SomeD [OF c(3)] show ?thesis using c(1,2) by auto
qed

lemma port_value_range: "port_value v = Some p \<Longrightarrow> 1 \<le> p \<and> p \<le> 65535"
proof -
  assume "port_value v = Some p"
  then obtain f where f: "Fin 1 \<le> f" "f \<le> Fin 65535" "p = int_of_gofloat f"
    by (auto simp: port_value_def split: option.split_asm if_split_asm)
  obtain q where "f = Fin q" using f(1,2) by (cases f) (auto simp: less_eq_gofloat_def)
  then have q: "1 \<le> q" "q \<le> 65535" "p = int_of_gofloat (Fin q)" using f by simp_all
  then have "trunc_rat q = \<lfloor>q\<rfloor>" "1 \<le> \<lfloor>q\<rfloor>" "\<lfloor>q\<rfloor> \<le> 65535" by (simp_all add: trunc_rat_def)
  with q(3) show ?thesis by (simp add: int_of_gofloat_def in64_def)
qed


definition reserved_ok :: "worker_db \<Rightarrow> (PortMapping \<times> portMappingMeta) list \<Rightarrow> bool" where
  "reserved_ok w ms = (distinct (map (\<lambda>m. mp_host (fst m)) ms) \<and>
     (\<forall>m \<in> set ms. host_port_free (mp_host (fst m)) w \<and> 1 \<le> mp_internal (fst m) \<and> mp_internal (fst m) \<le> 65535 \<and>
       (\<exists>c. settings w = Some c \<and> ss_port_min c \<le> mp_host (fst m) \<and> mp_host (fst m) \<le> ss_port_max c)))"

lemma mappings_loop_Next:
  "mappings_loop dv fail acc vs flt n s = Next t n' ms \<Longrightarrow> reserved_ok (work s) acc \<Longrightarrow> t = s \<and> reserved_ok (work s) ms"
proof (induction vs arbitrary: acc n)
  case (Cons v vs)
  show ?case
  proof (cases "\<exists>item. as_obj v = Some item \<and> truthy (mget item ''mappingEnabled'')")
    case True
    then obtain item where item: "as_obj v = Some item" "truthy (mget item ''mappingEnabled'')" by blast
    with Cons.prems(1) obtain port where port: "port_value (mget item ''containerPort'') = Some port"
      by (auto split: option.split_asm)
    with Cons.prems(1) item obtain s1 n1 host where
      al: "allocateConfiguredHostPort dv fail (map (\<lambda>m. mp_host (fst m)) acc) flt n s = Next s1 n1 host"
      and rest: "mappings_loop dv fail (acc @ [(\<lparr>mp_enabled = True, mp_internal = port, mp_host = host\<rparr>,
            \<lparr>meta_key = str_or_empty (mget item ''key''), meta_remark = str_or_empty (mget item ''remark''),
             meta_primary = truthy (mget item ''primary'')\<rparr>)]) vs flt n1 s1 = Next t n' ms"
      by (auto simp: bindT_Next)
    have s1: "s1 = s" using allocate_Next [OF al] by blast
    show ?thesis by (rule Cons.IH [OF rest [unfolded s1]])
      (use Cons.prems(2) allocate_Next [OF al] port_value_range [OF port] in \<open>auto simp: reserved_ok_def\<close>)
  next
    case False
    then have "mappings_loop dv fail acc vs flt n s = Next t n' ms" using Cons.prems(1) by (cases "as_obj v") auto
    then show ?thesis using Cons by blast
  qed
qed (simp add: reserved_ok_def)

lemma routePortMappings_Next:
  assumes "routePortMappings dv fail route legacy flt n s = Next t n' ms"
  shows "t = s \<and> reserved_ok (work s) ms"
proof -
  have "reserved_ok (work s) []" by (simp add: reserved_ok_def)
  then show ?thesis using assms unfolding routePortMappings_def
    by (auto simp del: mappings_loop.simps dest: mappings_loop_Next split: option.split_asm list.split_asm if_split_asm)
qed

section \<open>Properties\<close>

definition deploy_example_env :: deploy_env where
  "deploy_example_env = \<lparr>dp_now = 100, dp_executor = None, dp_router = ''router'', dp_egress = [], dp_token = [], dp_owner = ''cloudmeter'', dp_helper = ''helper'',
     dp_docker = Inl ''x'', dp_open = toy_open, dp_box = \<lparr>box_key = []\<rparr>, dp_sha256 = id, dp_hmac = (\<lambda>k m. m), dp_db_error = ''e'', dp_json_error = ''j''\<rparr>"

definition example_app :: user_app where
  "example_app = \<lparr>ua_id = ''A'', ua_user = ''U'', ua_product = ''P'', ua_slug = ''a'', ua_service = ''a'', ua_host = ''a-u'', ua_instance = ''I'',
     ua_status = ''updating'', ua_reason = None, ua_suspended = None, ua_release = None, ua_mapping = False, ua_created = 1, ua_deleted = None,
     ua_refresh_days = None, ua_refreshed = 0, ua_refresh_next = None\<rparr>"

definition example_release :: app_release where
  "example_release = \<lparr>rl_id = ''R'', rl_app = ''A'', rl_version = ''V'', rl_number = 1, rl_snapshot = [], rl_state = ''created'', rl_container_id = [], rl_host_port = None\<rparr>"

definition example_job :: "deployment_state \<Rightarrow> int \<Rightarrow> deployment_job" where
  "example_job s n = \<lparr>jb_id = ''J'', jb_app = ''A'', jb_release = ''R'', jb_key = ''k'', jb_operation = ''deploy'', jb_source = None, jb_state = s,
     jb_attempts = n, jb_available = 5, jb_created = 5, jb_error = None\<rparr>"

definition example_deploy_db :: "deployment_state \<Rightarrow> int \<Rightarrow> db" where
  "example_deploy_db s n = empty_db\<lparr>work := empty_worker_db\<lparr>apps := [example_app], releases := [example_release], jobs := [example_job s n]\<rparr>\<rparr>"

lemmas example_deploy_simps = example_deploy_db_def example_job_def example_release_def example_app_def empty_db_def empty_worker_db_def

lemma example_claimed:
  assumes "s \<noteq> DeploymentSucceeded" "s \<noteq> DeploymentFailed"
  shows "claim_job 100 (work (example_deploy_db s n)) = Some (example_job s n)"
  using assms by (simp add: claim_job_def claimable_job_def release_of_def app_of_def example_deploy_simps)

lemma example_queued:
  "claim_job (dp_now deploy_example_env) (work (example_deploy_db DeploymentQueued 0)) = Some (example_job DeploymentQueued 0)"
  "distinct (map jb_id (jobs (work (example_deploy_db DeploymentQueued 0))))"
  "jb_state (example_job DeploymentQueued 0) = DeploymentSwitching \<Longrightarrow> cloud_domain (work (example_deploy_db DeploymentQueued 0)) \<noteq> [] \<and>
     path_free (example_job DeploymentQueued 0) (work (example_deploy_db DeploymentQueued 0))"
  "(\<exists>s n verdict. phase deploy_example_env (example_job DeploymentQueued 0) (job_snapshot (example_job DeploymentQueued 0) (work (example_deploy_db DeploymentQueued 0)))
      no_faults 2 (example_deploy_db DeploymentQueued 0) = Next s n verdict) \<or>
   (\<exists>i cause. phase deploy_example_env (example_job DeploymentQueued 0) (job_snapshot (example_job DeploymentQueued 0) (work (example_deploy_db DeploymentQueued 0)))
      no_faults 2 (example_deploy_db DeploymentQueued 0) = Stop (JobRejected i cause))"
proof -
  show "claim_job (dp_now deploy_example_env) (work (example_deploy_db DeploymentQueued 0)) = Some (example_job DeploymentQueued 0)"
    using example_claimed [of DeploymentQueued 0] by (simp add: deploy_example_env_def)
qed (auto simp: example_deploy_simps phase_def deploy_example_env_def)


text \<open>C7: A pass of the worker, under any faults in either of its transactions, either leaves the database as it is or
  moves one job by one step of the deployment machine, counts the pass, and appends one event with the
  old and the new state.\<close>

theorem deployment_pass_refines:
  "snd (processOne dv flt flt' d) = d \<or> (\<exists>j nxt. job_moves (work d) (work (snd (processOne dv flt flt' d))) j nxt)"
  using pass_moves [of dv flt flt' d "fst (processOne dv flt flt' d)"] by simp

lemma example_pass:
  "\<exists>cs d' nxt. processOne deploy_example_env no_faults no_faults (example_deploy_db DeploymentQueued 0) = (JobDone cs, d') \<and>
     job_moves (work (example_deploy_db DeploymentQueued 0)) (work d') (example_job DeploymentQueued 0) nxt"
  by (rule progress [OF example_queued])

text \<open>C8: A deployment job comes to an end.  However often the worker passes over it and whatever fails, a queued job sees
  at most twelve changes, one for each event; its events are a history the transition table allows,
  beginning at queued, and the last of them is the state of the job.\<close>

theorem deployment_bounded:
  assumes "deploys P d d'" "distinct (map jb_id (jobs (work d)))" "j \<in> set (jobs (work d))" "jb_state j = DeploymentQueued" "jb_attempts j = 0"
    "job_log (jb_id j) (work d) = []"
  shows "length (job_log (jb_id j) (work d')) \<le> 12 \<and> history ValidateDeploymentTransition (DeploymentQueued # job_log (jb_id j) (work d')) \<and>
    (\<exists>x \<in> set (jobs (work d')). jb_id x = jb_id j \<and> jb_state x = last (DeploymentQueued # job_log (jb_id j) (work d')))"
proof -
  have "job_tracked (jb_id j) (work d)"
    unfolding job_tracked_def using assms(3-6) by (auto simp: job_view_def job_shape_def intro!: image_eqI [of _ _ j])
  from deploys_tracked [OF assms(1,2) this] obtain s where
    s: "(jb_id j, s, int (length (job_log (jb_id j) (work d')))) \<in> job_view ` set (jobs (work d'))" "s = last (DeploymentQueued # job_log (jb_id j) (work d'))"
    "job_shape s (int (length (job_log (jb_id j) (work d'))))" "history ValidateDeploymentTransition (DeploymentQueued # job_log (jb_id j) (work d'))"
    unfolding job_tracked_def by blast
  have "int (length (job_log (jb_id j) (work d'))) \<le> 12"
    using s(3) by (auto simp: job_shape_def deploymentMaxHealthAttempts_def split: deployment_state.splits)
  then show ?thesis using s by (force simp: job_view_def)
qed

theorem deployment_bounded_witness:
  "\<exists>d'. deploys (\<lambda>_. True) (example_deploy_db DeploymentQueued 0) d' \<and> d' \<noteq> example_deploy_db DeploymentQueued 0 \<and> length (job_log ''J'' (work d')) \<le> 12"
proof -
  obtain cs d' nxt where p: "processOne deploy_example_env no_faults no_faults (example_deploy_db DeploymentQueued 0) = (JobDone cs, d')"
    and m: "job_moves (work (example_deploy_db DeploymentQueued 0)) (work d') (example_job DeploymentQueued 0) nxt"
    using example_pass by blast
  have s: "deploys (\<lambda>_. True) (example_deploy_db DeploymentQueued 0) d'" by (rule deploys.pass [OF TrueI p deploys.none])
  have "d' \<noteq> example_deploy_db DeploymentQueued 0" using m by (auto simp: job_moves_def)
  with s deployment_bounded [OF s, of "example_job DeploymentQueued 0"] show ?thesis
    by (auto simp: example_deploy_simps job_log_def)
qed

text \<open>Only a job that is switching touches routes.  Every other pass, whatever fails, leaves all routes as they are, keeps
  the release each application points to, and at most marks a release failed.  A switch makes the
  application run the release, points its route at the container of that release, leaves it as the only
  active release, and does not touch other applications; the only container removed afterwards is the
  one the route led to before.\<close>

theorem deployment_switch_safe:
  "quiet (work d) (work (snd (processOne dv flt flt' d))) \<or>
    (\<exists>j cs. claim_job (dp_now dv) (work d) = Some j \<and> jb_state j = DeploymentSwitching \<and>
       switched dv j (work d) (work (snd (processOne dv flt flt' d))) \<and> fst (processOne dv flt flt' d) = JobDone cs \<and>
       set cs \<subseteq> {old_container (jb_app j) (work d)})"
  using processOne_switch [of dv flt flt' d "fst (processOne dv flt flt' d)"] by simp



theorem queue_blocked_without_domain_witness:
  "snd (processOne deploy_example_env no_faults no_faults (example_deploy_db DeploymentSwitching 4)) = example_deploy_db DeploymentSwitching 4"
proof -
  have dom: "cloud_domain (work (example_deploy_db DeploymentSwitching 4)) = []"
    by (simp add: cloud_domain_def example_deploy_simps) code_simp
  have old: "oldest_open (example_job DeploymentSwitching 4) (work (example_deploy_db DeploymentSwitching 4))"
    by (simp add: oldest_open_def release_of_def app_of_def example_deploy_simps)
  have av: "jb_available (example_job DeploymentSwitching 4) \<le> dp_now deploy_example_env" by (simp add: example_job_def deploy_example_env_def)
  obtain r d' where p: "processOne deploy_example_env no_faults no_faults (example_deploy_db DeploymentSwitching 4) = (r, d')" by fastforce
  have "deploys (\<lambda>dv. jb_available (example_job DeploymentSwitching 4) \<le> dp_now dv) (example_deploy_db DeploymentSwitching 4) d'"
    by (rule deploys.pass [OF _ p deploys.none]) (rule av)
  from queue_blocked_without_domain [OF this old _ dom] p show ?thesis by (simp add: example_job_def)
qed

text \<open>C11: The host ports a release is given are pairwise different, lie in the configured range, and none of them is in use by a
  route or a stored mapping; the container ports are valid port numbers, and nothing is written while
  they are chosen.\<close>

theorem host_ports_reserved:
  assumes "routePortMappings dv fail route legacy flt n s = Next t n' ms"
  shows "t = s \<and> distinct (map (\<lambda>m. mp_host (fst m)) ms) \<and>
    list_all (\<lambda>m. host_port_free (mp_host (fst m)) (work s) \<and> 1 \<le> mp_internal (fst m) \<and> mp_internal (fst m) \<le> 65535 \<and>
      (\<exists>c. settings (work s) = Some c \<and> ss_port_min c \<le> mp_host (fst m) \<and> mp_host (fst m) \<le> ss_port_max c)) ms"
  using routePortMappings_Next [OF assms] by (auto simp: reserved_ok_def list_all_iff)

definition example_ports_db :: db where
  "example_ports_db = empty_db\<lparr>work := empty_worker_db\<lparr>settings := Some \<lparr>ss_reserve = 0, ss_domain = [], ss_port_min = 30000, ss_port_max = 30001, ss_delete_days = 0\<rparr>\<rparr>\<rparr>"

definition example_listener :: "rat \<Rightarrow> goval" where
  "example_listener p = VObj [(''key'', VStr ''web''), (''containerPort'', VFloat (Fin p)), (''mappingEnabled'', VBool True)]"

theorem host_ports_reserved_witness:
  "\<exists>ms. routePortMappings deploy_example_env JobLogged [(''listeners'', VArr [example_listener 80, example_listener 81])] False no_faults 0 example_ports_db
      = Next example_ports_db 6 ms \<and> distinct (map (\<lambda>m. mp_host (fst m)) ms) \<and> length ms = 2"
proof -
  have up: "[30000..30001 :: int] = [30000, 30001]" by (simp add: upto.simps)
  have fl: "\<lfloor>80 :: rat\<rfloor> = 80" "\<lfloor>81 :: rat\<rfloor> = 81" by simp_all
  obtain ms where r: "routePortMappings deploy_example_env JobLogged [(''listeners'', VArr [example_listener 80, example_listener 81])] False no_faults 0 example_ports_db
      = Next example_ports_db 6 ms" "length ms = 2"
    by (simp add: routePortMappings_def example_listener_def mget_def allocateConfiguredHostPort_def bindT_def example_ports_db_def empty_worker_db_def
        empty_db_def host_port_free_def port_value_def int_of_gofloat_def trunc_rat_def in64_def up deploy_example_env_def)
  from host_ports_reserved [OF r(1)] r show ?thesis by blast
qed

end
