(* ===== verification/Metering.thy ===== *)
theory Metering
  imports Wallets Runtime_Spec
begin

text \<open>
  Metering: the worker records runtime, CPU, memory and storage of every application per window of five minutes
  (\<^verbatim>\<open>apps/worker/main.go\<close>), and outgoing traffic from the samples that the egress proxy reports to
  \<^verbatim>\<open>internal/httpapi/egress_features.go\<close>.  The answers of the Docker executor, the printed form of numbers in
  \<^verbatim>\<open>jsonb\<close> and \<^verbatim>\<open>numeric\<close>, the division of \<^verbatim>\<open>numeric\<close> and the time format are arguments.
\<close>

section \<open>Quantities\<close>

text \<open>\<^verbatim>\<open>big.Rat.SetString\<close> on decimal numbers and fractions.  Exponents and prefixed bases are not reproduced: the
  strings come from \<^verbatim>\<open>jsonb\<close> and \<^verbatim>\<open>numeric\<close>, which never print them.\<close>

definition decimal_digits :: "string \<Rightarrow> rat option" where
  "decimal_digits s = (case cut_on CHR ''.'' s of (a, b, point) \<Rightarrow>
     if list_all is_digit a \<and> list_all is_digit b \<and> (a \<noteq> [] \<or> b \<noteq> [])
     then Some (of_nat (digits_val (a @ b)) / 10 ^ length b) else None)"

definition signed_decimal :: "string \<Rightarrow> rat option" where
  "signed_decimal s = (if prefix ''-'' s then map_option uminus (decimal_digits (tl s))
     else if prefix ''+'' s then decimal_digits (tl s) else decimal_digits s)"

definition rat_set_string :: "string \<Rightarrow> rat option" where
  "rat_set_string s = (case cut_on CHR ''/'' s of (a, b, slash) \<Rightarrow>
     if \<not> slash then signed_decimal s
     else if \<not> list_all is_digit b \<or> b = [] \<or> digits_val b = 0 then None
     else map_option (\<lambda>x. x / of_nat (digits_val b)) (signed_decimal a))"

text \<open>\<^verbatim>\<open>big.Rat.FloatString(12)\<close>: twelve decimals, halves rounded away from zero.\<close>

definition pad_left :: "nat \<Rightarrow> string \<Rightarrow> string" where
  "pad_left n s = replicate (n - length s) CHR ''0'' @ s"

definition float_string12 :: "rat \<Rightarrow> string" where
  "float_string12 q = (let n = nat \<bar>round_half_away (q * 10 ^ 12)\<bar> in
     (if q < 0 then ''-'' else []) @ show_nat (n div 10 ^ 12) @ ''.'' @ pad_left 12 (show_nat (n mod 10 ^ 12)))"

definition bytesQuantity :: "int \<Rightarrow> int \<Rightarrow> int \<Rightarrow> string" where
  "bytesQuantity n numerator minutes = (if n \<le> 0 then ''0''
     else float_string12 (of_int (n * numerator) / of_int (2 ^ 30 * minutes)))"

definition decimalTimeQuantity :: "string \<Rightarrow> int \<Rightarrow> int \<Rightarrow> string" where
  "decimalTimeQuantity value numerator denominator = (case rat_set_string (trim_space value) of None \<Rightarrow> ''0''
     | Some quantity \<Rightarrow> if quantity \<le> 0 \<or> numerator \<le> 0 \<or> denominator \<le> 0 then ''0''
        else float_string12 (quantity * (of_int numerator / of_int denominator)))"

definition egressQuotaExceeded :: "string \<Rightarrow> string \<Rightarrow> int \<Rightarrow> bool" where
  "egressQuotaExceeded limit used deltaBytes = (case (rat_set_string (trim_space limit), rat_set_string (trim_space used)) of
     (Some l, Some u) \<Rightarrow> if deltaBytes < 0 then True else l < u + of_int deltaBytes / 2 ^ 30
   | _ \<Rightarrow> True)"

section \<open>Environment and statements outside transactions\<close>

record meter_env =
  me_now :: int
  me_rfc3339 :: "int \<Rightarrow> string"
  me_number :: "gofloat \<Rightarrow> string"
  me_numeric :: "rat \<Rightarrow> string"
  me_div :: "rat \<Rightarrow> rat \<Rightarrow> rat"
  me_stats :: "(string \<Rightarrow> (string + gofloat \<times> int)) option"
  me_volume :: "(string \<Rightarrow> string + int) option"
  me_sha256 :: "string \<Rightarrow> string"
  me_owner :: string

text \<open>The two executor fields are \<^const>\<open>None\<close> when Docker is disabled.  A statement that fails on its own is logged and skipped.\<close>

definition attempt :: "(worker_db \<Rightarrow> (unit \<times> worker_db) option) \<Rightarrow> bool \<Rightarrow> worker_db \<Rightarrow> worker_db" where
  "attempt f lost w = (if lost then w else case f w of None \<Rightarrow> w | Some (_, w') \<Rightarrow> w')"

definition window :: int where
  "window = 300 * 10 ^ 9"

definition window_end :: "int \<Rightarrow> int" where
  "window_end now = now - now mod window"

definition usage_insert :: "string \<Rightarrow> string \<Rightarrow> string \<Rightarrow> rat \<Rightarrow> string \<Rightarrow> int \<Rightarrow> int \<Rightarrow> string \<Rightarrow> worker_db \<Rightarrow> (unit \<times> worker_db) option" where
  "usage_insert userID appID code q unit start stop key w = event_insert \<lparr>ev_user = userID, ev_app = Some appID, ev_code = code, ev_quantity = q,
     ev_unit = unit, ev_start = start, ev_end = stop, ev_price = resolve_pricing_version code unit start w, ev_key = key, ev_aggregated = None\<rparr> w"

text \<open>The cast \<^verbatim>\<open>$4::numeric\<close> reads the decimal text back.\<close>

definition insertUsage :: "string \<Rightarrow> string \<Rightarrow> string \<Rightarrow> string \<Rightarrow> string \<Rightarrow> int \<Rightarrow> int \<Rightarrow> string \<Rightarrow> bool \<Rightarrow> worker_db \<Rightarrow> worker_db" where
  "insertUsage userID appID code unit quantity start stop key lost w =
    (if quantity = [] \<or> has_prefix quantity ''-'' then w
     else case signed_decimal quantity of None \<Rightarrow> w
     | Some q \<Rightarrow> attempt (usage_insert userID appID code q unit start stop key) lost w)"

section \<open>Runtime\<close>

text \<open>The operator \<^verbatim>\<open>->>\<close> on a value, empty for null and missing.\<close>

definition json_text :: "meter_env \<Rightarrow> goval \<Rightarrow> string" where
  "json_text me v = (case v of VStr s \<Rightarrow> s | VFloat f \<Rightarrow> me_number me f | VBool True \<Rightarrow> ''true'' | VBool False \<Rightarrow> ''false'' | _ \<Rightarrow> [])"

definition runtime_field :: "app_release \<Rightarrow> string \<Rightarrow> goval" where
  "runtime_field r k = (case mget (rl_snapshot r) ''runtime_spec'' of VObj m \<Rightarrow> mget m k | _ \<Rightarrow> VNil)"

record meter_row =
  mr_app :: string
  mr_user :: string
  mr_container :: string
  mr_cpu :: string
  mr_memory :: string

definition meter_rows :: "meter_env \<Rightarrow> worker_db \<Rightarrow> meter_row list" where
  "meter_rows me w = concat (map (\<lambda>a. concat (map (\<lambda>r. map (\<lambda>c. \<lparr>mr_app = ua_id a, mr_user = ua_user a, mr_container = c,
       mr_cpu = json_text me (runtime_field r ''cpuCores''), mr_memory = json_text me (runtime_field r ''memoryMiB'')\<rparr>)
         (case map rt_container (filter (\<lambda>x. rt_app x = ua_id a) (routes w)) of [] \<Rightarrow> [[]] | cs \<Rightarrow> cs))
       (filter (\<lambda>r. ua_release a = Some (rl_id r)) (releases w))))
     (filter (\<lambda>a. ua_status a = ''running'') (apps w)))"

definition metric_upsert :: "string \<Rightarrow> gofloat \<Rightarrow> int \<Rightarrow> worker_db \<Rightarrow> (unit \<times> worker_db) option" where
  "metric_upsert appID cpu mem w = (if cpu < Fin 0 \<or> mem < 0 then None
     else Some ((), w\<lparr>runtime_metrics := AList.update appID (cpu, mem) (runtime_metrics w)\<rparr>))"

definition window_key :: "meter_env \<Rightarrow> string \<Rightarrow> string \<Rightarrow> int \<Rightarrow> string" where
  "window_key me appID kind start = appID @ kind @ me_rfc3339 me start"

text \<open>One row; statement \<open>n\<close> of the pass fails if \<open>flt n\<close>.\<close>

definition meter_app :: "meter_env \<Rightarrow> int \<Rightarrow> int \<Rightarrow> faults \<Rightarrow> nat \<Rightarrow> meter_row \<Rightarrow> worker_db \<Rightarrow> worker_db" where
  "meter_app me start stop flt n row w =
    (case me_stats me of None \<Rightarrow> w
     | Some stats \<Rightarrow>
       if mr_container row = [] then w
       else (case stats (mr_container row) of Inl _ \<Rightarrow> w
       | Inr (cpuUsage, memoryUsage) \<Rightarrow>
         let appID = mr_app row; userID = mr_user row;
             w1 = attempt (metric_upsert appID cpuUsage memoryUsage) (flt n) w;
             w2 = attempt (usage_insert userID appID ''app.runtime.minutes'' 5 ''minute'' start stop (window_key me appID '':runtime:'' start)) (flt (n + 1)) w1;
             w3 = insertUsage userID appID ''cpu.core_hours'' ''core_hour'' (decimalTimeQuantity (mr_cpu row) 5 60) start stop
                    (window_key me appID '':cpu:'' start) (flt (n + 2)) w2
         in insertUsage userID appID ''memory.gib_hours'' ''GiB_hour'' (decimalTimeQuantity (mr_memory row) 5 (1024 * 60)) start stop
              (window_key me appID '':memory:'' start) (flt (n + 3)) w3))"

fun meter_apps :: "meter_env \<Rightarrow> int \<Rightarrow> int \<Rightarrow> faults \<Rightarrow> nat \<Rightarrow> meter_row list \<Rightarrow> worker_db \<Rightarrow> worker_db" where
  "meter_apps me start stop flt n [] w = w"
| "meter_apps me start stop flt n (row # rows) w = meter_apps me start stop flt (n + 4) rows (meter_app me start stop flt n row w)"

definition meterRuntime :: "meter_env \<Rightarrow> faults \<Rightarrow> worker_db \<Rightarrow> worker_db" where
  "meterRuntime me flt w =
    (let stop = window_end (me_now me); start = stop - window in
     if me_now me < stop \<or> stop = start \<or> flt 0 then w
     else meter_apps me start stop flt 1 (meter_rows me w) w)"

section \<open>Storage\<close>

text \<open>A cast of a field to \<^verbatim>\<open>numeric\<close>: null stays null, text that is no number is an error of the query.\<close>

definition json_numeric :: "meter_env \<Rightarrow> goval \<Rightarrow> rat option option" where
  "json_numeric me v = (case v of VNil \<Rightarrow> Some None | VFloat f \<Rightarrow> map_option Some (signed_decimal (me_number me f))
     | VStr t \<Rightarrow> map_option Some (signed_decimal t) | _ \<Rightarrow> None)"

record storage_row =
  sr_app :: string
  sr_user :: string
  sr_key :: string
  sr_size :: rat

text \<open>\<^verbatim>\<open>coalesce\<close> casts the size of the volume only when the shared size is null; ten is the default.\<close>

definition volume_size :: "meter_env \<Rightarrow> goval \<Rightarrow> goval \<Rightarrow> rat option" where
  "volume_size me dataVolume sizeGiB = (case json_numeric me dataVolume of None \<Rightarrow> None | Some (Some q) \<Rightarrow> Some q
     | Some None \<Rightarrow> (case json_numeric me sizeGiB of None \<Rightarrow> None | Some (Some q) \<Rightarrow> Some q | Some None \<Rightarrow> Some 10))"

text \<open>One row per named volume of the last successful release; \<^const>\<open>None\<close> when a cast fails.\<close>

fun volume_rows :: "meter_env \<Rightarrow> user_app \<Rightarrow> goval \<Rightarrow> goval list \<Rightarrow> storage_row list option" where
  "volume_rows me a dataVolume [] = Some []"
| "volume_rows me a dataVolume (v # vs) =
    (let m = (case v of VObj m \<Rightarrow> m | _ \<Rightarrow> []); key = json_text me (mget m ''name'') in
     if key = [] then volume_rows me a dataVolume vs
     else (case (volume_size me dataVolume (mget m ''sizeGiB''), volume_rows me a dataVolume vs) of
       (Some q, Some rows) \<Rightarrow> Some (\<lparr>sr_app = ua_id a, sr_user = ua_user a, sr_key = key, sr_size = q\<rparr> # rows)
     | _ \<Rightarrow> None))"

fun concat_opt :: "'a list option list \<Rightarrow> 'a list option" where
  "concat_opt [] = Some []"
| "concat_opt (x # xs) = (case (x, concat_opt xs) of (Some a, Some b) \<Rightarrow> Some (a @ b) | _ \<Rightarrow> None)"

text \<open>A missing field counts as no volumes; a field that is no array, null included, is an error of the query.\<close>

definition volumes_field :: "app_release \<Rightarrow> goval option" where
  "volumes_field r = (case mget (rl_snapshot r) ''runtime_spec'' of VObj m \<Rightarrow> map_of m ''volumes'' | _ \<Rightarrow> None)"

definition storage_rows :: "meter_env \<Rightarrow> worker_db \<Rightarrow> storage_row list option" where
  "storage_rows me w = concat_opt (concat (map (\<lambda>a. map (\<lambda>r.
       (case volumes_field r of None \<Rightarrow> Some [] | Some (VArr vs) \<Rightarrow> volume_rows me a (runtime_field r ''dataVolumeGiB'') vs | Some _ \<Rightarrow> None))
       (filter (\<lambda>r. ua_release a = Some (rl_id r)) (releases w)))
     (filter (\<lambda>a. ua_deleted a = None) (apps w))))"

text \<open>The window function gives every row of an application the largest size; the rows are gathered per application.\<close>

definition capacity :: "storage_row list \<Rightarrow> string \<Rightarrow> rat" where
  "capacity rows app = Max (sr_size ` set (filter (\<lambda>r. sr_app r = app) rows))"

definition volume_upsert :: "string \<Rightarrow> string \<Rightarrow> int \<Rightarrow> worker_db \<Rightarrow> (unit \<times> worker_db) option" where
  "volume_upsert appID key size_bytes w = (if size_bytes < 0 then None
     else Some ((), w\<lparr>storage_metrics := AList.update (appID, key) size_bytes (storage_metrics w)\<rparr>))"

fun meter_volumes :: "meter_env \<Rightarrow> (string \<Rightarrow> string + int) \<Rightarrow> string \<Rightarrow> faults \<Rightarrow> nat \<Rightarrow> string list \<Rightarrow> bool \<times> worker_db \<Rightarrow> bool \<times> worker_db" where
  "meter_volumes me vol appID flt n [] acc = acc"
| "meter_volumes me vol appID flt n (key # keys) (observed, w) =
    meter_volumes me vol appID flt (n + 1) keys
      (case vol (AppVolumeNameForOwner (me_sha256 me) (me_owner me) appID key) of
         Inl _ \<Rightarrow> (observed, w)
       | Inr b \<Rightarrow> (True, attempt (volume_upsert appID key b) (flt n) w))"

definition meter_volume_app :: "meter_env \<Rightarrow> (string \<Rightarrow> string + int) \<Rightarrow> int \<Rightarrow> int \<Rightarrow> faults \<Rightarrow> nat \<Rightarrow> storage_row list \<Rightarrow> string \<Rightarrow> worker_db \<Rightarrow> worker_db" where
  "meter_volume_app me vol start stop flt n rows appID w =
    (let mine = filter (\<lambda>r. sr_app r = appID) rows; keys = remdups (map sr_key mine) in
     case meter_volumes me vol appID flt (n + 1) keys (False, w) of (observed, w1) \<Rightarrow>
     if observed then insertUsage (sr_user (hd mine)) appID ''storage.data.gib_days'' ''GiB_day''
         (decimalTimeQuantity (me_numeric me (capacity rows appID)) 5 (24 * 60)) start stop (window_key me appID '':data-storage:shared:'' start) (flt n) w1
     else w1)"

fun meter_volume_apps :: "meter_env \<Rightarrow> (string \<Rightarrow> string + int) \<Rightarrow> int \<Rightarrow> int \<Rightarrow> faults \<Rightarrow> nat \<Rightarrow> storage_row list \<Rightarrow> string list \<Rightarrow> worker_db \<Rightarrow> worker_db" where
  "meter_volume_apps me vol start stop flt n rows [] w = w"
| "meter_volume_apps me vol start stop flt n rows (app # as) w =
    meter_volume_apps me vol start stop flt (n + 1 + length rows) rows as (meter_volume_app me vol start stop flt n rows app w)"

definition meterStorage :: "meter_env \<Rightarrow> faults \<Rightarrow> worker_db \<Rightarrow> worker_db" where
  "meterStorage me flt w = (case me_volume me of None \<Rightarrow> w
     | Some vol \<Rightarrow>
       let stop = window_end (me_now me); start = stop - window in
       if me_now me < stop \<or> stop = start \<or> flt 0 then w
       else case storage_rows me w of None \<Rightarrow> w
       | Some rows \<Rightarrow> meter_volume_apps me vol start stop flt 1 rows (remdups (map sr_app rows)) w)"

section \<open>Samples of outgoing traffic\<close>

record egressSampleRequest =
  SampleID :: string
  ByteDelta :: int
  ObservedAt :: "int option"
  SampleSource :: string

definition total_upsert :: "string \<Rightarrow> int \<Rightarrow> string \<Rightarrow> worker_db \<Rightarrow> (int \<times> worker_db) option" where
  "total_upsert appID observed source w = (case find (\<lambda>t. et_app t = appID) (egress_totals w) of
     Some t \<Rightarrow> Some (et_bytes t, w\<lparr>egress_totals := map (\<lambda>x. if et_app x = appID
        then x\<lparr>et_observed := max (et_observed x) observed, et_source := source\<rparr> else x) (egress_totals w)\<rparr>)
   | None \<Rightarrow> Some (0, w\<lparr>egress_totals := egress_totals w @ [\<lparr>et_app = appID, et_bytes = 0, et_observed = observed, et_source = source\<rparr>]\<rparr>))"

text \<open>A duplicate identifier is skipped; a repeated running total of the application is refused by the other unique
  constraint, and the sum has to fit 64 bits.\<close>

definition sample_insert :: "egress_sample \<Rightarrow> worker_db \<Rightarrow> (bool \<times> worker_db) option" where
  "sample_insert s w =
    (if \<not> in64 (eg_cumulative s) then None
     else if list_ex (\<lambda>x. eg_sample x = eg_sample s) (samples w) then Some (False, w)
     else if list_ex (\<lambda>x. eg_app x = eg_app s \<and> eg_cumulative x = eg_cumulative s) (samples w) then None
     else Some (True, w\<lparr>samples := samples w @ [s]\<rparr>))"

definition total_set :: "string \<Rightarrow> int \<Rightarrow> worker_db \<Rightarrow> worker_db" where
  "total_set appID b w = w\<lparr>egress_totals := map (\<lambda>x. if et_app x = appID then x\<lparr>et_bytes := b\<rparr> else x) (egress_totals w)\<rparr>"

definition store_sample :: "string \<Rightarrow> egressSampleRequest \<Rightarrow> string \<Rightarrow> int \<Rightarrow> (db, response, response) tx" where
  "store_sample appID q sid observed =
    bindT (queryW internalError (\<lambda>_. ())) (\<lambda>_.
    bindT (execW internalError (total_upsert appID observed (SampleSource q))) (\<lambda>cumulative.
    bindT (execW internalError (sample_insert \<lparr>eg_sample = sid, eg_app = appID, eg_cumulative = cumulative + ByteDelta q, eg_delta = ByteDelta q,
      eg_observed = observed, eg_source = SampleSource q, eg_processed = None\<rparr>)) (\<lambda>inserted.
    bindT (if inserted then updateW internalError (total_set appID (wrap64 (cumulative + ByteDelta q))) else done_tx ()) (\<lambda>_.
    commit internalError (Json 202 [(''accepted'', VBool True), (''duplicate'', VBool (\<not> inserted))])))))"

text \<open>\<open>is_test\<close> says whether the identifier names a product test.\<close>

definition ingestEgressSample :: "string \<Rightarrow> string \<Rightarrow> (string \<Rightarrow> bool) \<Rightarrow> int \<Rightarrow> string \<Rightarrow> (string + egressSampleRequest) \<Rightarrow> (db, response, response) tx" where
  "ingestEgressSample configured provided is_test now appID req =
    (let token = trim_space configured in
     if token = [] \<or> length provided \<noteq> length token \<or> provided \<noteq> token
     then reply (Error 403 ''egress_collector_forbidden'' ''egress collector authentication failed'')
     else case req of Inl e \<Rightarrow> reply (Error 400 ''invalid_request'' e)
     | Inr q \<Rightarrow>
       let sid = trim_space (SampleID q) in
       if sid = [] \<or> length sid > 128 \<or> ByteDelta q < 0 \<or> (SampleSource q \<noteq> ''egress_gateway'' \<and> SampleSource q \<noteq> ''egress_proxy'')
       then reply (Error 400 ''validation_failed'' ''sampleId, byteDelta and source are invalid'')
       else let observed = (case ObservedAt q of Some t \<Rightarrow> t | None \<Rightarrow> now) in
       if observed > now + 120 * 10 ^ 9 \<or> observed < window_end now
       then reply (Error 400 ''validation_failed'' ''observedAt must belong to the current open window'')
       else
       bindT begin_tx (\<lambda>_.
       bindT (queryW internalError (\<lambda>w. list_ex (\<lambda>a. ua_id a = appID) (apps w))) (\<lambda>appExists.
       if \<not> appExists then
         bindT (queryW internalError (\<lambda>_. is_test appID)) (\<lambda>productTestExists.
         if \<not> productTestExists then reply (Error 404 ''app_not_found'' ''application not found'')
         else commit internalError (Json 202 [(''accepted'', VBool True), (''testTraffic'', VBool True)]))
       else store_sample appID q sid observed)))"

section \<open>Metering the samples\<close>

definition in_window :: "string \<Rightarrow> int \<Rightarrow> egress_sample \<Rightarrow> bool" where
  "in_window appID start s = (eg_app s = appID \<and> eg_processed s = None \<and> start \<le> eg_observed s \<and> eg_observed s < start + window)"

definition egress_rows :: "int \<Rightarrow> worker_db \<Rightarrow> (string \<times> string \<times> int) list" where
  "egress_rows closedBefore w = take 100 (sort_key (\<lambda>(a, u, t). t) (remdups (concat (map (\<lambda>s. map (\<lambda>a. (ua_id a, ua_user a, window_end (eg_observed s)))
     (filter (\<lambda>a. ua_id a = eg_app s) (apps w)))
     (filter (\<lambda>s. eg_processed s = None \<and> eg_observed s < closedBefore) (samples w))))))"

definition window_bytes :: "string \<Rightarrow> int \<Rightarrow> worker_db \<Rightarrow> int" where
  "window_bytes appID start w = sum_list (map eg_delta (filter (in_window appID start) (samples w)))"

definition window_top :: "string \<Rightarrow> int \<Rightarrow> worker_db \<Rightarrow> int" where
  "window_top appID start w = foldr max (map eg_cumulative (filter (in_window appID start) (samples w))) 0"

definition cursor_upsert :: "string \<Rightarrow> int \<Rightarrow> worker_db \<Rightarrow> worker_db" where
  "cursor_upsert appID b w =
    (if list_ex (\<lambda>c. ec_app c = appID) (cursors w)
     then w\<lparr>cursors := map (\<lambda>c. if ec_app c = appID then c\<lparr>ec_billed := max (ec_billed c) b\<rparr> else c) (cursors w)\<rparr>
     else w\<lparr>cursors := cursors w @ [\<lparr>ec_app = appID, ec_billed = b\<rparr>]\<rparr>)"

definition meter_window :: "meter_env \<Rightarrow> string \<times> string \<times> int \<Rightarrow> (db, bool, bool) tx" where
  "meter_window me row = (case row of (appID, userID, start) \<Rightarrow>
    bindT (query False (\<lambda>_. ())) (\<lambda>_.
    bindT (queryW False (\<lambda>_. ())) (\<lambda>_.
    bindT (queryW False (\<lambda>w. (window_bytes appID start w, window_top appID start w))) (\<lambda>(delta, cumulative).
    if \<not> in64 delta then reply False
    else
    bindT (if delta > 0 then execW False (usage_insert userID appID ''network.egress_gib'' (me_div me (of_int delta) 1073741824) ''GiB'' start (start + window)
        (window_key me appID '':egress:'' start)) else done_tx ()) (\<lambda>_.
    bindT (updateW False (\<lambda>w. w\<lparr>samples := map (\<lambda>s. if in_window appID start s then s\<lparr>eg_processed := Some (me_now me)\<rparr> else s) (samples w)\<rparr>)) (\<lambda>_.
    bindT (updateW False (cursor_upsert appID cumulative)) (\<lambda>_.
    commit False True)))))))"

fun meter_windows :: "meter_env \<Rightarrow> (nat \<Rightarrow> faults) \<Rightarrow> nat \<Rightarrow> (string \<times> string \<times> int) list \<Rightarrow> db \<Rightarrow> db" where
  "meter_windows me flts n [] d = d"
| "meter_windows me flts n (row # rows) d = meter_windows me flts (n + 1) rows (snd (run (meter_window me row) (flts n) d))"

definition meterEgress :: "meter_env \<Rightarrow> bool \<Rightarrow> (nat \<Rightarrow> faults) \<Rightarrow> db \<Rightarrow> db" where
  "meterEgress me lost flts d = (if lost then d else meter_windows me flts 0 (egress_rows (window_end (me_now me)) (work d)) d)"

end
