(* ===== verification/Metering_Correct.thy ===== *)
theory Metering_Correct
  imports Metering
begin

text \<open>
  Correctness of metering: quantities, usage recorded once, windows and totals of outgoing traffic.
\<close>

section \<open>Quantities\<close>

lemma digits_val_snoc: "digits_val (a @ [c]) = digits_val a * 10 + (byte c - 48)"
  by (simp add: digits_val_def)

lemma digits_val_append: "digits_val (a @ b) = digits_val a * 10 ^ length b + digits_val b"
proof (induction b rule: rev_induct)
  case (snoc c b)
  have "digits_val (a @ b @ [c]) = digits_val (a @ b) * 10 + (byte c - 48)" by (simp add: digits_val_def)
  then show ?case using snoc by (simp add: digits_val_snoc algebra_simps)
qed (simp add: digits_val_def)

lemma digits_val_zeros: "digits_val (replicate n CHR ''0'' @ s) = digits_val s"
proof -
  have "digits_val (replicate n CHR ''0'') = 0" by (induction n) (simp_all add: digits_val_def byte_def flip: replicate_append_same)
  then show ?thesis by (simp add: digits_val_append)
qed

lemma show_nat_length: "n < 10 ^ k \<Longrightarrow> 0 < k \<Longrightarrow> length (show_nat n) \<le> k"
proof (induction n arbitrary: k rule: show_nat.induct)
  case (1 n)
  show ?case
  proof (cases "n < 10")
    case False
    then obtain j where j: "k = Suc j" "0 < j" using 1(2,3) by (cases k; cases "k - 1") auto
    then have "length (show_nat (n div 10)) \<le> j" using 1(1) [OF False] 1(2) by (simp add: div_less_iff_less_mult)
    then show ?thesis using False j by (subst show_nat.simps) simp
  qed (use 1(3) in \<open>subst show_nat.simps, simp\<close>)
qed

lemma pad_left_props:
  assumes "n < 10 ^ k" "0 < k"
  shows "length (pad_left k (show_nat n)) = k" "list_all is_digit (pad_left k (show_nat n))" "digits_val (pad_left k (show_nat n)) = n"
  using show_nat_length [OF assms] by (auto simp: pad_left_def digits_val_zeros list_all_iff is_digit_def byte_def)
    (use show_nat_digits in \<open>auto simp: list_all_iff is_digit_def byte_def\<close>)

lemma cut_on_none: "c \<notin> set s \<Longrightarrow> cut_on c s = (s, [], False)"
  by (induction s) auto

lemma cut_on_first: "c \<notin> set a \<Longrightarrow> cut_on c (a @ c # b) = (a, b, True)"
  by (induction a) auto

lemma digits_no_point: "list_all is_digit s \<Longrightarrow> CHR ''.'' \<notin> set s \<and> CHR ''-'' \<notin> set s \<and> CHR ''+'' \<notin> set s"
  by (auto simp: list_all_iff is_digit_def byte_def)

text \<open>Reading the printed number back gives the number rounded to twelve decimals.\<close>

lemma float_string12_read:
  assumes "0 \<le> q"
  shows "signed_decimal (float_string12 q) = Some (of_int (round_half_away (q * 10 ^ 12)) / 10 ^ 12)"
proof -
  define n where "n = nat \<bar>round_half_away (q * 10 ^ 12)\<bar>"
  have nn: "0 \<le> round_half_away (q * 10 ^ 12)" using assms by (simp add: round_half_away_def)
  let ?a = "show_nat (n div 10 ^ 12)" and ?b = "pad_left 12 (show_nat (n mod 10 ^ 12))"
  have b: "length ?b = 12" "list_all is_digit ?b" "digits_val ?b = n mod 10 ^ 12"
    using pad_left_props [of "n mod 10 ^ 12" 12] by simp_all
  have f: "float_string12 q = ?a @ CHR ''.'' # ?b" using assms by (simp add: float_string12_def n_def Let_def)
  have a: "CHR ''.'' \<notin> set ?a" "CHR ''-'' \<notin> set ?a" "CHR ''+'' \<notin> set ?a" using digits_no_point show_nat_digits by blast+
  obtain c r where c: "?a = c # r" using show_nat_nonempty by (metis list.exhaust)
  have "decimal_digits (?a @ CHR ''.'' # ?b) = Some (of_nat (digits_val (?a @ ?b)) / 10 ^ 12)"
    unfolding decimal_digits_def cut_on_first [OF a(1)] using b by simp
  moreover have "digits_val (?a @ ?b) = n" using b by (simp add: digits_val_append)
  moreover have "\<not> prefix ''-'' (?a @ CHR ''.'' # ?b)" "\<not> prefix ''+'' (?a @ CHR ''.'' # ?b)" using a c by auto
  ultimately show ?thesis unfolding f signed_decimal_def using nn by (simp add: n_def)
qed

lemma round_half_away_near: "\<bar>of_int (round_half_away q) - q\<bar> \<le> (1 / 2 :: rat)"
proof -
  have near: "\<bar>of_int \<lfloor>x + 1 / 2\<rfloor> - x\<bar> \<le> 1 / 2" for x :: rat
    using floor_correct [of "x + 1 / 2"] by linarith
  show ?thesis
  proof (cases "q < 0")
    case True
    have "of_int (round_half_away q) - q = - (of_int \<lfloor>- q + 1 / 2\<rfloor> - (- q))" using True by (simp add: round_half_away_def)
    then show ?thesis using near [of "- q"] by (simp only: abs_minus)
  qed (use near [of q] in \<open>simp add: round_half_away_def\<close>)
qed

text \<open>C28: A metered quantity is the exact product, rounded to twelve decimals: reading the text that goes to the database gives a number
  at most half a unit of the twelfth decimal away from value times numerator over denominator.\<close>

theorem metered_quantity_exact:
  assumes "rat_set_string (trim_space v) = Some q" "0 < q" "0 < a" "0 < b"
  shows "\<exists>x. signed_decimal (decimalTimeQuantity v a b) = Some x \<and> \<bar>x - q * of_int a / of_int b\<bar> \<le> 1 / (2 * 10 ^ 12)"
proof -
  let ?e = "q * (of_int a / of_int b)"
  have "0 \<le> ?e" using assms by simp
  then have "signed_decimal (decimalTimeQuantity v a b) = Some (of_int (round_half_away (?e * 10 ^ 12)) / 10 ^ 12)"
    using assms float_string12_read [of ?e] by (simp add: decimalTimeQuantity_def)
  moreover have "\<bar>of_int (round_half_away (?e * 10 ^ 12)) / 10 ^ 12 - q * of_int a / of_int b\<bar> \<le> (1 / (2 * 10 ^ 12) :: rat)"
    using round_half_away_near [of "?e * 10 ^ 12"] by (simp add: abs_le_iff field_simps)
  ultimately show ?thesis by blast
qed

theorem metered_quantity_exact_witness:
  "\<exists>x. signed_decimal (decimalTimeQuantity ''0.5'' 5 60) = Some x \<and> \<bar>x - 1 / 24\<bar> \<le> 1 / (2 * 10 ^ 12)"
proof -
  have "trim_space ''0.5'' = ''0.5''" by code_simp
  then have "rat_set_string (trim_space ''0.5'') = Some (1 / 2)"
    by (simp add: rat_set_string_def signed_decimal_def decimal_digits_def is_digit_def byte_def digits_val_def)
  from metered_quantity_exact [OF this, of 5 60] show ?thesis by simp
qed

section \<open>Programs that keep an invariant\<close>

definition holds_after :: "('s \<Rightarrow> bool) \<Rightarrow> ('s, 'r, 'a) txout \<Rightarrow> bool" where
  "holds_after P o' = (case o' of Stop r \<Rightarrow> True | Commit t r \<Rightarrow> P t | Next t n a \<Rightarrow> P t)"

lemma holds_after_simps [simp]: "holds_after P (Stop r)" "holds_after P (Commit t r) = P t" "holds_after P (Next t n a) = P t"
  by (simp_all add: holds_after_def)

definition maintains :: "('s \<Rightarrow> bool) \<Rightarrow> ('s, 'r, 'a) tx \<Rightarrow> bool" where
  "maintains P m = (\<forall>flt n s. P s \<longrightarrow> holds_after P (m flt n s))"

named_theorems maintains_intros "introduction rules for programs that keep an invariant"

lemma maintains_bind [maintains_intros]:
  assumes "maintains P m" "\<And>a. maintains P (k a)"
  shows "maintains P (bindT m k)"
  unfolding maintains_def
proof (intro allI impI)
  fix flt n s
  assume "P s"
  then have m: "holds_after P (m flt n s)" using assms(1) by (simp add: maintains_def)
  show "holds_after P (bindT m k flt n s)"
  proof (cases "m flt n s")
    case (Next t n' a)
    then show ?thesis using m assms(2) [of a] by (simp add: bindT_def maintains_def)
  qed (use m in \<open>simp_all add: bindT_def\<close>)
qed

lemma maintains_basic [maintains_intros]:
  "maintains P (reply r)" "maintains P (done_tx a)" "maintains P (commit err r)" "maintains P (query err g)" "maintains P (require err h)"
  "maintains P (queryW err gw)" "maintains P (requireW err hw)"
  by (simp_all add: maintains_def reply_def done_tx_def commit_def query_def require_def queryW_def requireW_def split: option.split)

lemma maintains_exec: "(\<And>s a s'. P s \<Longrightarrow> g s = Some (a, s') \<Longrightarrow> P s') \<Longrightarrow> maintains P (exec err g)"
  by (auto simp: maintains_def exec_def split: option.split)

lemma maintains_if [maintains_intros]: "(c \<Longrightarrow> maintains P a) \<Longrightarrow> (\<not> c \<Longrightarrow> maintains P b) \<Longrightarrow> maintains P (if c then a else b)"
  by simp

lemma maintains_option [maintains_intros]:
  "maintains P a \<Longrightarrow> (\<And>x. maintains P (b x)) \<Longrightarrow> maintains P (case v of None \<Rightarrow> a | Some x \<Rightarrow> b x)"
  by (cases v) simp_all

lemma maintains_sum [maintains_intros]:
  "(\<And>x. maintains P (a x)) \<Longrightarrow> (\<And>x. maintains P (b x)) \<Longrightarrow> maintains P (case v of Inl x \<Rightarrow> a x | Inr x \<Rightarrow> b x)"
  by (cases v) simp_all

lemma maintains_prod [maintains_intros]: "(\<And>x y. maintains P (a x y)) \<Longrightarrow> maintains P (case v of (x, y) \<Rightarrow> a x y)"
  by (cases v) simp

lemma maintains_transactional:
  assumes "transactional errs m" "\<And>n s. P s \<Longrightarrow> holds_after P (m no_faults n s)"
  shows "maintains P m"
  unfolding maintains_def
proof (intro allI impI)
  fix flt n s
  assume s: "P s"
  consider e where "m flt n s = Stop e" | "m flt n s = m no_faults n s"
    using assms(1) unfolding transactional_def by blast
  then show "holds_after P (m flt n s)" using assms(2) [OF s] by cases simp_all
qed

lemma maintains_run: "maintains P m \<Longrightarrow> P s \<Longrightarrow> P (snd (run m flt s))"
  unfolding maintains_def run_def by (drule spec [of _ flt], drule spec [of _ 0], drule spec [of _ s]) (cases "m flt 0 s"; simp)

lemma maintains_unchanged:
  assumes "unchanged f m" "\<And>s t. f t = f s \<Longrightarrow> P s \<Longrightarrow> P t"
  shows "maintains P m"
  unfolding maintains_def
proof (intro allI impI)
  fix flt n s
  assume "P s"
  then show "holds_after P (m flt n s)"
  proof (cases "m flt n s")
    case (Commit t r)
    then show ?thesis using assms(2) [OF unchanged_Commit [OF assms(1) Commit] \<open>P s\<close>] by simp
  next
    case (Next t n' a)
    then show ?thesis using assms(2) [OF unchanged_Next [OF assms(1) Next] \<open>P s\<close>] by simp
  qed simp
qed

section \<open>Usage is recorded once\<close>

text \<open>No event conflicts with an earlier one: keys are unique, and authorization and public ingress appear once per
  application.\<close>

definition events_ok :: "worker_db \<Rightarrow> bool" where
  "events_ok w = sorted_wrt (\<lambda>x y. \<not> event_conflict y x) (events w)"

lemma event_conflict_quantity [simp]: "event_conflict (e\<lparr>ev_quantity := q\<rparr>) x = event_conflict e x"
  by (simp add: event_conflict_def event_key_def)

lemma event_insert_ok: "event_insert e w = Some (u, w') \<Longrightarrow> events_ok w \<Longrightarrow> events_ok w'"
  by (auto simp: event_insert_def events_ok_def sorted_wrt_append list_ex_iff split: option.splits if_splits)

lemma meter_volumes_events: "events (snd (meter_volumes me vol app flt n keys acc)) = events (snd acc)"
proof (induction keys arbitrary: n acc)
  case (Cons k ks)
  obtain b w where "acc = (b, w)" by fastforce
  then show ?case using Cons by (auto simp: attempt_def volume_upsert_def split: sum.split)
qed simp

section \<open>Windows of outgoing traffic\<close>

definition window_closed :: "meter_env \<Rightarrow> string \<Rightarrow> int \<Rightarrow> int \<Rightarrow> worker_db \<Rightarrow> worker_db" where
  "window_closed me app start peak w = cursor_upsert app peak (w\<lparr>samples := map (\<lambda>s. if in_window app start s
     then s\<lparr>eg_processed := Some (me_now me)\<rparr> else s) (samples w)\<rparr>)"

definition window_usage :: "meter_env \<Rightarrow> string \<Rightarrow> string \<Rightarrow> int \<Rightarrow> worker_db \<Rightarrow> (unit \<times> worker_db) option" where
  "window_usage me app user start w = (if window_bytes app start w > 0
     then usage_insert user app ''network.egress_gib'' (me_div me (of_int (window_bytes app start w)) 1073741824) ''GiB''
          start (start + window) (window_key me app '':egress:'' start) w
     else Some ((), w))"

lemma transactional_meter_window: "transactional {False} (meter_window me row)"
  by (cases row) (auto simp: meter_window_def intro!: tx_intros)

lemma run_meter_window:
  "run (meter_window me (app, user, start)) no_faults d =
    (if in64 (window_bytes app start (work d)) then
       case window_usage me app user start (work d) of None \<Rightarrow> (False, d)
       | Some (u, w) \<Rightarrow> (True, d\<lparr>work := window_closed me app start (window_top app start (work d)) w\<rparr>)
     else (False, d))"
  unfolding run_def meter_window_def window_usage_def window_closed_def
  by (simp add: bindT_def split: option.split)

lemma meter_window_cases:
  assumes "run (meter_window me (app, user, start)) flt d = (r, d')"
  obtains (lost) "d' = d" "\<not> r"
  | (metered) w where "r" "window_usage me app user start (work d) = Some ((), w)" "in64 (window_bytes app start (work d))"
      "d' = d\<lparr>work := window_closed me app start (window_top app start (work d)) w\<rparr>"
proof -
  consider "run (meter_window me (app, user, start)) flt d = (False, d)"
    | "run (meter_window me (app, user, start)) flt d = run (meter_window me (app, user, start)) no_faults d"
    using run_transactional [OF transactional_meter_window] by fast
  then show thesis
  proof cases
    case 1
    then show ?thesis using assms lost by simp
  next
    case 2
    show ?thesis
    proof (cases "in64 (window_bytes app start (work d))")
      case True
      show ?thesis
      proof (cases "window_usage me app user start (work d)")
        case None
        then show ?thesis using assms lost True unfolding 2 run_meter_window by simp
      next
        case (Some uw)
        obtain w where "uw = ((), w)" by (cases uw) simp
        then show ?thesis using assms metered True Some unfolding 2 run_meter_window by simp
      qed
    qed (use assms lost 2 run_meter_window in simp)
  qed
qed

lemma filter_mark:
  assumes "\<And>s. P s \<Longrightarrow> \<not> q s" "\<And>s. P (f s) = P s"
  shows "filter P (map (\<lambda>s. if q s then f s else s) xs) = filter P xs"
  using assms by (induction xs) auto

lemma cursor_upsert_other [simp]:
  "samples (cursor_upsert a b w) = samples w" "events (cursor_upsert a b w) = events w"
  "egress_totals (cursor_upsert a b w) = egress_totals w" "apps (cursor_upsert a b w) = apps w"
  by (simp_all add: cursor_upsert_def)

lemma window_closed_other [simp]:
  "events (window_closed me a start p w) = events w" "egress_totals (window_closed me a start p w) = egress_totals w"
  "apps (window_closed me a start p w) = apps w"
  by (simp_all add: window_closed_def)

lemma window_usage_other:
  assumes "window_usage me app user start w = Some (u, w')"
  shows "samples w' = samples w" "egress_totals w' = egress_totals w" "apps w' = apps w"
  using assms by (auto simp: window_usage_def usage_insert_def event_insert_def split: if_splits option.splits)

lemma in_window_processed [simp]: "\<not> in_window a start (s\<lparr>eg_processed := Some t\<rparr>)"
  by (simp add: in_window_def)

definition window_event :: "meter_env \<Rightarrow> string \<Rightarrow> string \<Rightarrow> int \<Rightarrow> worker_db \<Rightarrow> usage_event" where
  "window_event me app user start w = \<lparr>ev_user = user, ev_app = Some app, ev_code = ''network.egress_gib'',
     ev_quantity = me_div me (of_int (window_bytes app start w)) 1073741824, ev_unit = ''GiB'', ev_start = start, ev_end = start + window,
     ev_price = resolve_pricing_version ''network.egress_gib'' ''GiB'' start w, ev_key = window_key me app '':egress:'' start, ev_aggregated = None\<rparr>"

lemma window_usage_events:
  assumes "window_usage me app user start w = Some (u, w')"
  shows "if window_bytes app start w > 0 \<and> \<not> list_ex (event_conflict (window_event me app user start w)) (events w)
    then \<exists>q. numeric12 (ev_quantity (window_event me app user start w)) = Some q \<and> 0 \<le> q \<and>
      events w' = events w @ [(window_event me app user start w)\<lparr>ev_quantity := q\<rparr>]
    else events w' = events w"
  using assms unfolding window_usage_def usage_insert_def event_insert_def window_event_def
  by (auto split: if_splits option.splits)

lemma window_left_closed:
  assumes "run (meter_window me (app, user, start)) flt d = (True, d')"
  shows "filter (in_window app start) (samples (work d')) = []"
  using assms
proof (cases rule: meter_window_cases)
  case (metered w)
  show ?thesis by (simp add: metered(4) window_closed_def filter_map filter_empty_conv)
qed simp

text \<open>A window of outgoing traffic that was metered has no open sample left, whatever failed in other passes; if bytes were sent and
  no event of the window exists, one event with their gibibytes, rounded to twelve decimals, is recorded at the price of the
  window's start; other samples and events stay.\<close>

theorem egress_window_metered:
  assumes "run (meter_window me (app, user, start)) flt d = (True, d')"
  shows "filter (in_window app start) (samples (work d')) = [] \<and>
    filter (\<lambda>s. \<not> (eg_app s = app \<and> start \<le> eg_observed s \<and> eg_observed s < start + window)) (samples (work d')) =
      filter (\<lambda>s. \<not> (eg_app s = app \<and> start \<le> eg_observed s \<and> eg_observed s < start + window)) (samples (work d)) \<and>
    (if window_bytes app start (work d) > 0 \<and> \<not> list_ex (event_conflict (window_event me app user start (work d))) (events (work d))
     then \<exists>q. numeric12 (me_div me (of_int (window_bytes app start (work d))) 1073741824) = Some q \<and> 0 \<le> q \<and>
       events (work d') = events (work d) @ [(window_event me app user start (work d))\<lparr>ev_quantity := q\<rparr>]
     else events (work d') = events (work d))"
  using assms
proof (cases rule: meter_window_cases)
  case (metered w)
  note same = window_usage_other [OF metered(2)]
  have "filter (in_window app start) (samples (work d')) = []" using assms by (rule window_left_closed)
  moreover have "filter (\<lambda>s. \<not> (eg_app s = app \<and> start \<le> eg_observed s \<and> eg_observed s < start + window)) (samples (work d')) =
      filter (\<lambda>s. \<not> (eg_app s = app \<and> start \<le> eg_observed s \<and> eg_observed s < start + window)) (samples (work d))"
    unfolding metered(4) by (simp add: window_closed_def same) (rule filter_mark, auto simp: in_window_def)
  moreover have q: "ev_quantity (window_event me app user start (work d)) = me_div me (of_int (window_bytes app start (work d))) 1073741824"
    by (simp add: window_event_def)
  moreover have ev: "events (work d') = events w" by (simp add: metered(4))
  ultimately show ?thesis using window_usage_events [OF metered(2)] unfolding ev q by blast
qed simp

text \<open>A sample that arrives after its window was metered is closed without being recorded.\<close>

lemma late_sample_lost:
  assumes "run (meter_window me (app, user, start)) flt d = (True, d')"
    "x \<in> set (events (work d))" "event_conflict (window_event me app user start (work d)) x"
  shows "events (work d') = events (work d) \<and> filter (in_window app start) (samples (work d')) = []"
  using assms(1)
proof (cases rule: meter_window_cases)
  case (metered w)
  have "list_ex (event_conflict (window_event me app user start (work d))) (events (work d))"
    using assms(2,3) by (auto simp: list_ex_iff)
  then show ?thesis using window_usage_events [OF metered(2)] window_left_closed [OF assms(1)]
    by (simp add: metered(4))
qed simp

lemma meter_windows_induct:
  assumes "P d" and "\<And>row flt d. P d \<Longrightarrow> P (snd (run (meter_window me row) flt d))"
  shows "P (meter_windows me flts n rows d)"
  using assms(1) by (induction rows arbitrary: n d) (simp_all add: assms(2))

lemma meterEgress_induct:
  assumes "P d" and "\<And>row flt d. P d \<Longrightarrow> P (snd (run (meter_window me row) flt d))"
  shows "P (meterEgress me lost flts d)"
  using assms by (auto simp: meterEgress_def intro: meter_windows_induct)

section \<open>Totals of outgoing traffic\<close>

text \<open>The running total of an application is the sum of the samples that were accepted for it, and every sample carries the total up
  to itself.\<close>

definition sample_sum :: "string \<Rightarrow> egress_sample list \<Rightarrow> int" where
  "sample_sum app xs = sum_list (map eg_delta (filter (\<lambda>s. eg_app s = app) xs))"

definition totals_ok :: "worker_db \<Rightarrow> bool" where
  "totals_ok w = (distinct (map et_app (egress_totals w)) \<and> distinct (map eg_sample (samples w)) \<and>
     (\<forall>t \<in> set (egress_totals w). et_bytes t = sample_sum (et_app t) (samples w) \<and> in64 (et_bytes t)) \<and>
     (\<forall>s \<in> set (samples w). 0 \<le> eg_delta s \<and> eg_app s \<in> et_app ` set (egress_totals w)))"

lemma sample_sum_append [simp]: "sample_sum a (xs @ ys) = sample_sum a xs + sample_sum a ys"
  by (simp add: sample_sum_def)

lemma sample_sum_absent: "\<forall>s \<in> set xs. eg_app s \<noteq> a \<Longrightarrow> sample_sum a xs = 0"
  by (simp add: sample_sum_def filter_False)

lemma totals_ok_mark:
  assumes "totals_ok w" "egress_totals w' = egress_totals w" "samples w' = map f (samples w)"
    "\<And>s. eg_app (f s) = eg_app s \<and> eg_delta (f s) = eg_delta s \<and> eg_sample (f s) = eg_sample s"
  shows "totals_ok w'"
proof -
  have "sample_sum a (map f xs) = sample_sum a xs" for a xs
    using assms(4) by (induction xs) (auto simp: sample_sum_def)
  moreover have "eg_sample \<circ> f = eg_sample" using assms(4) by (simp add: fun_eq_iff)
  ultimately show ?thesis using assms by (auto simp: totals_ok_def)
qed

lemma meter_window_totals: "totals_ok (work d) \<Longrightarrow> totals_ok (work (snd (run (meter_window me row) flt d)))"
proof (cases row)
  fix app user start
  assume ok: "totals_ok (work d)" and row: "row = (app, user, start)"
  obtain r d' where d': "run (meter_window me (app, user, start)) flt d = (r, d')" by fastforce
  then show ?thesis
  proof (cases rule: meter_window_cases)
    case (metered w)
    note same = window_usage_other [OF metered(2)]
    have "totals_ok (work d')"
      by (rule totals_ok_mark [OF ok, of _ "\<lambda>s. if in_window app start s then s\<lparr>eg_processed := Some (me_now me)\<rparr> else s"])
        (simp_all add: metered(4) same window_closed_def)
    then show ?thesis using d' row by simp
  qed (use ok d' row in simp)
qed

lemma meterEgress_totals: "totals_ok (work d) \<Longrightarrow> totals_ok (work (meterEgress me lost flts d))"
  by (rule meterEgress_induct [where P = "\<lambda>d. totals_ok (work d)"]) (simp_all add: meter_window_totals)

lemma totals_okI:
  assumes "egress_totals w' = map f ts" "\<And>t. et_app (f t) = et_app t" "distinct (map et_app ts)" "distinct (map eg_sample (samples w'))"
    "\<And>t. t \<in> set ts \<Longrightarrow> et_bytes (f t) = sample_sum (et_app t) (samples w')" "\<And>t. t \<in> set ts \<Longrightarrow> in64 (sample_sum (et_app t) (samples w'))"
    "\<And>s. s \<in> set (samples w') \<Longrightarrow> 0 \<le> eg_delta s \<and> eg_app s \<in> et_app ` set ts"
  shows "totals_ok w'"
proof -
  have "et_app \<circ> f = et_app" using assms(2) by (simp add: fun_eq_iff)
  then have "distinct (map et_app (egress_totals w'))" "et_app ` set (egress_totals w') = et_app ` set ts"
    using assms(1,3) by (simp_all add: image_comp)
  moreover have "\<forall>t \<in> set (egress_totals w'). et_bytes t = sample_sum (et_app t) (samples w') \<and> in64 (et_bytes t)"
    using assms(1,2,5,6) by simp
  moreover have "\<forall>s \<in> set (samples w'). 0 \<le> eg_delta s \<and> eg_app s \<in> et_app ` set (egress_totals w')"
    using assms(7) calculation(2) by simp
  ultimately show ?thesis using assms(4) unfolding totals_ok_def by (intro conjI)
qed

lemma totals_okD:
  assumes "totals_ok w"
  shows "distinct (map et_app (egress_totals w))" "distinct (map eg_sample (samples w))"
    "t \<in> set (egress_totals w) \<Longrightarrow> et_bytes t = sample_sum (et_app t) (samples w)"
    "t \<in> set (egress_totals w) \<Longrightarrow> in64 (sample_sum (et_app t) (samples w))"
    "s \<in> set (samples w) \<Longrightarrow> 0 \<le> eg_delta s" "s \<in> set (samples w) \<Longrightarrow> eg_app s \<in> et_app ` set (egress_totals w)"
proof -
  note ok = assms [unfolded totals_ok_def]
  show "distinct (map et_app (egress_totals w))" by (rule ok [THEN conjunct1])
  show "distinct (map eg_sample (samples w))" by (rule ok [THEN conjunct2, THEN conjunct1])
  show t: "et_bytes t = sample_sum (et_app t) (samples w)" if "t \<in> set (egress_totals w)"
    using bspec [OF ok [THEN conjunct2, THEN conjunct2, THEN conjunct1] that] by (elim conjE)
  show "in64 (sample_sum (et_app t) (samples w))" if "t \<in> set (egress_totals w)"
    using bspec [OF ok [THEN conjunct2, THEN conjunct2, THEN conjunct1] that] t [OF that] by simp
  show "0 \<le> eg_delta s" "eg_app s \<in> et_app ` set (egress_totals w)" if "s \<in> set (samples w)"
    using bspec [OF ok [THEN conjunct2, THEN conjunct2, THEN conjunct2] that] by simp_all
qed

lemma total_upsert_ok:
  assumes "total_upsert app obs src w = Some (b, w')" "totals_ok w"
  shows "totals_ok w'" "samples w' = samples w" "b = sample_sum app (samples w)" "app \<in> et_app ` set (egress_totals w')" "in64 b"
    "events w' = events w" "apps w' = apps w"
proof -
  have "totals_ok w' \<and> samples w' = samples w \<and> b = sample_sum app (samples w) \<and> app \<in> et_app ` set (egress_totals w') \<and> in64 b \<and>
    events w' = events w \<and> apps w' = apps w"
  proof (cases "find (\<lambda>t. et_app t = app) (egress_totals w)")
    case None
    then have no: "app \<notin> et_app ` set (egress_totals w)" by (auto simp: find_None_iff)
    have zero: "sample_sum app (samples w) = 0" using totals_okD(6) [OF assms(2)] no by (intro sample_sum_absent) auto
    have w': "w' = w\<lparr>egress_totals := egress_totals w @ [\<lparr>et_app = app, et_bytes = 0, et_observed = obs, et_source = src\<rparr>]\<rparr>" "b = 0"
      using assms(1) None by (simp_all add: total_upsert_def)
    have "totals_ok w'"
      by (rule totals_okI [of _ "\<lambda>t. t" "egress_totals w'"])
        (use no zero totals_okD [OF assms(2)] in \<open>auto simp: w' in64_def\<close>)
    then show ?thesis using zero w' by (simp add: in64_def)
  next
    case (Some t)
    then have t: "t \<in> set (egress_totals w)" "et_app t = app" by (auto simp: find_Some_iff)
    let ?f = "\<lambda>x. if et_app x = app then x\<lparr>et_observed := max (et_observed x) obs, et_source := src\<rparr> else x"
    have w': "w' = w\<lparr>egress_totals := map ?f (egress_totals w)\<rparr>" "b = et_bytes t"
      using assms(1) Some by (simp_all add: total_upsert_def)
    have ok: "totals_ok w'"
      by (rule totals_okI [of _ ?f "egress_totals w"]) (simp_all add: w' totals_okD [OF assms(2)])
    have "?f t \<in> set (egress_totals w')" "et_app (?f t) = app" using t w' by simp_all
    from imageI [OF this(1), of et_app] this(2) have "app \<in> et_app ` set (egress_totals w')" by (simp only:)
    moreover have "b = sample_sum app (samples w)" "in64 b" using totals_okD(3,4) [OF assms(2) t(1)] t(2) w'(2) by simp_all
    ultimately show ?thesis using ok w'(1) by simp
  qed
  then show "totals_ok w'" "samples w' = samples w" "b = sample_sum app (samples w)" "app \<in> et_app ` set (egress_totals w')" "in64 b"
    "events w' = events w" "apps w' = apps w" by auto
qed

lemma sample_accepted_ok:
  assumes ok: "totals_ok w" and app: "eg_app s \<in> et_app ` set (egress_totals w)"
    and new: "eg_sample s \<notin> eg_sample ` set (samples w)" and pos: "0 \<le> eg_delta s"
    and b: "b = sample_sum (eg_app s) (samples w) + eg_delta s" "in64 b"
  shows "totals_ok (total_set (eg_app s) b (w\<lparr>samples := samples w @ [s]\<rparr>))"
  by (rule totals_okI [of _ "\<lambda>x. if et_app x = eg_app s then x\<lparr>et_bytes := b\<rparr> else x" "egress_totals w"])
    (use assms in \<open>auto simp: totals_ok_def total_set_def sample_sum_def\<close>)

lemma store_sample_no_faults:
  "store_sample app q sid observed no_faults n d = (case total_upsert app observed (SampleSource q) (work d) of
     None \<Rightarrow> Stop internalError
   | Some (b, w) \<Rightarrow> (case sample_insert \<lparr>eg_sample = sid, eg_app = app, eg_cumulative = b + ByteDelta q, eg_delta = ByteDelta q,
        eg_observed = observed, eg_source = SampleSource q, eg_processed = None\<rparr> w of None \<Rightarrow> Stop internalError
      | Some (inserted, w') \<Rightarrow> Commit (d\<lparr>work := if inserted then total_set app (wrap64 (b + ByteDelta q)) w' else w'\<rparr>)
          (Json 202 [(''accepted'', VBool True), (''duplicate'', VBool (\<not> inserted))])))"
  unfolding store_sample_def by (simp add: bindT_def split: option.split)

lemma transactional_store_sample: "transactional {internalError} (store_sample app q sid observed)"
  unfolding store_sample_def by (auto intro!: tx_intros)

lemma sample_insert_cases:
  assumes "sample_insert s w = Some (r, w')"
  obtains (seen) "\<not> r" "w' = w" | (fresh) "r" "w' = w\<lparr>samples := samples w @ [s]\<rparr>" "eg_sample s \<notin> eg_sample ` set (samples w)" "in64 (eg_cumulative s)"
proof (cases "r")
  case True
  then show ?thesis using assms by (intro fresh) (auto simp: sample_insert_def list_ex_iff split: if_splits)
next
  case False
  then show ?thesis using assms by (intro seen) (auto simp: sample_insert_def split: if_splits)
qed

lemma store_sample_totals:
  assumes "0 \<le> ByteDelta q"
  shows "maintains (\<lambda>d. totals_ok (work d)) (store_sample app q sid observed)"
proof (rule maintains_transactional [OF transactional_store_sample])
  fix n and d :: db
  assume ok: "totals_ok (work d)"
  obtain b w where up: "total_upsert app observed (SampleSource q) (work d) = Some (b, w)"
    by (cases "find (\<lambda>t. et_app t = app) (egress_totals (work d))") (auto simp: total_upsert_def)
  note w = total_upsert_ok [OF up ok]
  let ?s = "\<lparr>eg_sample = sid, eg_app = app, eg_cumulative = b + ByteDelta q, eg_delta = ByteDelta q,
      eg_observed = observed, eg_source = SampleSource q, eg_processed = None\<rparr>"
  show "holds_after (\<lambda>d. totals_ok (work d)) (store_sample app q sid observed no_faults n d)"
  proof (cases "sample_insert ?s w")
    case None
    then show ?thesis unfolding store_sample_no_faults by (simp add: up)
  next
    case (Some rw)
    obtain r w' where rw: "sample_insert ?s w = Some (r, w')" using Some by (cases rw) simp
    then show ?thesis
    proof (cases rule: sample_insert_cases)
      case seen
      then show ?thesis using w(1) rw unfolding store_sample_no_faults by (simp add: up)
    next
      case fresh
      then show ?thesis using rw sample_accepted_ok [OF w(1), of ?s "b + ByteDelta q"] w(2,3,4) assms
        unfolding store_sample_no_faults by (simp add: up)
    qed
  qed
qed

lemma ingest_maintains:
  assumes "\<And>q sid observed. 0 \<le> ByteDelta q \<Longrightarrow> maintains P (store_sample app q sid observed)"
  shows "maintains P (ingestEgressSample configured provided is_test now app req)"
  unfolding ingestEgressSample_def Let_def begin_tx_def
  by (intro maintains_intros assms; simp)

text \<open>Samples arrive and windows are metered in any order, with any faults.\<close>

datatype traffic =
    Ingest string string "string \<Rightarrow> bool" int string "string + egressSampleRequest" faults
  | MeterPass meter_env bool "nat \<Rightarrow> faults"

fun traffic_step :: "traffic \<Rightarrow> db \<Rightarrow> db" where
  "traffic_step (Ingest configured provided is_test now app req flt) d = snd (run (ingestEgressSample configured provided is_test now app req) flt d)"
| "traffic_step (MeterPass me lost flts) d = meterEgress me lost flts d"


definition example_meter :: meter_env where
  "example_meter = \<lparr>me_now = 600 * 10 ^ 9, me_rfc3339 = (\<lambda>t. show_nat (nat t)), me_number = (\<lambda>_. []), me_numeric = (\<lambda>_. []), me_div = (\<lambda>a b. a / b),
     me_stats = None, me_volume = None, me_sha256 = (\<lambda>s. s), me_owner = []\<rparr>"

definition example_traffic_db :: db where
  "example_traffic_db = empty_db\<lparr>work := empty_worker_db\<lparr>samples := [\<lparr>eg_sample = ''S'', eg_app = ''A'', eg_cumulative = 1073741824,
     eg_delta = 1073741824, eg_observed = 7, eg_source = ''egress_proxy'', eg_processed = None\<rparr>],
     egress_totals := [\<lparr>et_app = ''A'', et_bytes = 1073741824, et_observed = 7, et_source = ''egress_proxy''\<rparr>]\<rparr>\<rparr>"

lemma example_window:
  "window_bytes ''A'' 0 (work example_traffic_db) = 1073741824" "events (work example_traffic_db) = []"
  by (simp_all add: window_bytes_def in_window_def example_traffic_db_def empty_worker_db_def window_def)

theorem egress_window_metered_witness:
  "map ev_quantity (events (work (snd (run (meter_window example_meter (''A'', ''U'', 0)) no_faults example_traffic_db)))) = [1]"
proof -
  obtain w where u: "window_usage example_meter ''A'' ''U'' 0 (work example_traffic_db) = Some ((), w)"
    by (simp add: window_usage_def example_window usage_insert_def event_insert_def example_meter_def numeric12_one window_def)
  then have "run (meter_window example_meter (''A'', ''U'', 0)) no_faults example_traffic_db =
      (True, snd (run (meter_window example_meter (''A'', ''U'', 0)) no_faults example_traffic_db))"
    by (simp add: run_meter_window example_window in64_def)
  from egress_window_metered [OF this] show ?thesis
    by (simp add: example_window example_meter_def numeric12_one)
qed


section \<open>Complete passes\<close>

text \<open>Metering only closes samples: it changes no sample otherwise and opens none again.\<close>

definition only_closed :: "worker_db \<Rightarrow> worker_db \<Rightarrow> bool" where
  "only_closed w w' = (\<exists>f. samples w' = map f (samples w) \<and>
     (\<forall>s. eg_app (f s) = eg_app s \<and> eg_observed (f s) = eg_observed s \<and> (eg_processed (f s) = None \<longrightarrow> eg_processed s = None)))"

lemma only_closed_refl [simp]: "only_closed w w"
  unfolding only_closed_def by (rule exI [of _ "\<lambda>s. s"]) simp

lemma only_closed_trans:
  assumes "only_closed u v" "only_closed v w"
  shows "only_closed u w"
proof -
  obtain f where f: "samples v = map f (samples u)"
    "\<forall>s. eg_app (f s) = eg_app s \<and> eg_observed (f s) = eg_observed s \<and> (eg_processed (f s) = None \<longrightarrow> eg_processed s = None)"
    using assms(1) unfolding only_closed_def by (elim exE conjE)
  obtain g where g: "samples w = map g (samples v)"
    "\<forall>s. eg_app (g s) = eg_app s \<and> eg_observed (g s) = eg_observed s \<and> (eg_processed (g s) = None \<longrightarrow> eg_processed s = None)"
    using assms(2) unfolding only_closed_def by (elim exE conjE)
  have "samples w = map (\<lambda>s. g (f s)) (samples u)" using f(1) g(1) by simp
  moreover have "eg_app (g (f s)) = eg_app s \<and> eg_observed (g (f s)) = eg_observed s \<and> (eg_processed (g (f s)) = None \<longrightarrow> eg_processed s = None)" for s
    using f(2) [THEN spec, of s] g(2) [THEN spec, of "f s"] by argo
  ultimately show ?thesis unfolding only_closed_def by blast
qed

lemma only_closed_sample:
  assumes "only_closed w w'" "s' \<in> set (samples w')" "eg_processed s' = None"
  obtains s where "s \<in> set (samples w)" "eg_processed s = None" "eg_app s = eg_app s'" "eg_observed s = eg_observed s'"
proof -
  obtain f where f: "samples w' = map f (samples w)"
    "\<forall>s. eg_app (f s) = eg_app s \<and> eg_observed (f s) = eg_observed s \<and> (eg_processed (f s) = None \<longrightarrow> eg_processed s = None)"
    using assms(1) unfolding only_closed_def by (elim exE conjE)
  from f(1) assms(2) obtain s where "s \<in> set (samples w)" "s' = f s" by auto
  then show thesis using that f(2) [THEN spec, of s] assms(3) by simp
qed

lemma only_closed_window:
  assumes "only_closed w w'" "filter (in_window a start) (samples w) = []"
  shows "filter (in_window a start) (samples w') = []"
proof (rule ccontr)
  assume "filter (in_window a start) (samples w') \<noteq> []"
  then obtain s' where s': "s' \<in> set (samples w')" "in_window a start s'" by (auto simp: filter_empty_conv)
  then have "eg_processed s' = None" by (simp add: in_window_def)
  from only_closed_sample [OF assms(1) s'(1) this] obtain s where
    s: "s \<in> set (samples w)" "eg_processed s = None" "eg_app s = eg_app s'" "eg_observed s = eg_observed s'" .
  then have "in_window a start s" using s'(2) by (simp add: in_window_def)
  then show False using assms(2) s(1) by (simp add: filter_empty_conv)
qed

lemma window_bytes_in64:
  assumes "totals_ok w"
  shows "in64 (window_bytes app start w) \<and> 0 \<le> window_bytes app start w"
proof -
  have sums: "0 \<le> sum_list (map eg_delta (filter (in_window app start) xs)) \<and> sum_list (map eg_delta (filter (in_window app start) xs)) \<le> sample_sum app xs"
    if "\<forall>s \<in> set xs. 0 \<le> eg_delta s" for xs
    using that by (induction xs) (auto simp: sample_sum_def in_window_def)
  have pos: "\<forall>s \<in> set (samples w). 0 \<le> eg_delta s" using totals_okD(5) [OF assms] by simp
  have "in64 (sample_sum app (samples w))"
  proof (cases "app \<in> et_app ` set (egress_totals w)")
    case True
    then show ?thesis using totals_okD(4) [OF assms] by auto
  next
    case False
    then have "sample_sum app (samples w) = 0" using totals_okD(6) [OF assms] by (intro sample_sum_absent) auto
    then show ?thesis by (simp add: in64_def)
  qed
  then show ?thesis using sums [OF pos] by (auto simp: window_bytes_def in64_def)
qed

definition divides :: "meter_env \<Rightarrow> bool" where
  "divides me = (\<forall>b. 0 < b \<and> in64 b \<longrightarrow> (\<exists>q. numeric12 (me_div me (of_int b) 1073741824) = Some q \<and> 0 \<le> q))"

lemma meter_window_complete:
  assumes "totals_ok (work d)" "divides me"
  shows "fst (run (meter_window me (app, user, start)) no_faults d)"
proof -
  have b: "in64 (window_bytes app start (work d))" using window_bytes_in64 [OF assms(1)] by blast
  have "window_usage me app user start (work d) \<noteq> None"
  proof (cases "0 < window_bytes app start (work d)")
    case True
    then obtain q where "numeric12 (me_div me (of_int (window_bytes app start (work d))) 1073741824) = Some q" "0 \<le> q"
      using assms(2) b unfolding divides_def by blast
    then show ?thesis using True by (simp add: window_usage_def usage_insert_def event_insert_def window_def)
  qed (simp add: window_usage_def)
  then show ?thesis using b by (auto simp: run_meter_window)
qed

lemma meter_window_only_closed: "only_closed (work d) (work (snd (run (meter_window me row) flt d)))"
proof (cases row)
  fix app user start
  assume row: "row = (app, user, start)"
  obtain r d' where d': "run (meter_window me (app, user, start)) flt d = (r, d')" by fastforce
  then show ?thesis
  proof (cases rule: meter_window_cases)
    case (metered w)
    have "only_closed (work d) (work d')" unfolding only_closed_def
      by (rule exI [of _ "\<lambda>s. if in_window app start s then s\<lparr>eg_processed := Some (me_now me)\<rparr> else s"])
        (simp add: metered(4) window_closed_def window_usage_other [OF metered(2)])
    then show ?thesis using d' row by simp
  qed (use d' row in simp)
qed

lemma meter_windows_only_closed: "only_closed (work d) (work (meter_windows me flts n rows d))"
  by (rule meter_windows_induct [where P = "\<lambda>x. only_closed (work d) (work x)"])
    (auto intro: only_closed_trans meter_window_only_closed)

lemma meter_windows_complete:
  assumes "totals_ok (work d)" "divides me" "(app, user, start) \<in> set rows"
  shows "filter (in_window app start) (samples (work (meter_windows me (\<lambda>_. no_faults) n rows d))) = []"
  using assms(1,3)
proof (induction rows arbitrary: n d)
  case (Cons row rows)
  let ?d = "snd (run (meter_window me row) no_faults d)"
  show ?case
  proof (cases "row = (app, user, start)")
    case True
    have "fst (run (meter_window me row) no_faults d)" unfolding True by (rule meter_window_complete [OF Cons.prems(1) assms(2)])
    then have "run (meter_window me (app, user, start)) no_faults d = (True, ?d)"
      unfolding True by (cases "run (meter_window me (app, user, start)) no_faults d") simp
    then have "filter (in_window app start) (samples (work ?d)) = []" by (rule window_left_closed)
    from only_closed_window [OF meter_windows_only_closed this] show ?thesis by (simp only: meter_windows.simps)
  next
    case False
    then show ?thesis using Cons.IH [OF meter_window_totals [OF Cons.prems(1)]] Cons.prems(2) by simp
  qed
qed simp

lemma window_end_bounds: "window_end t \<le> t" "t < window_end t + window"
  using pos_mod_bound [of window t] by (simp_all add: window_end_def window_def)

text \<open>C30: A metering pass without faults leaves no closed window open: when at most a hundred windows wait, every sample of an
  existing application from before the current window has been recorded afterwards.  That no window is too large follows from the
  totals.\<close>

theorem egress_pass_complete:
  assumes "totals_ok (work d)" "divides me"
    and few: "length (remdups (concat (map (\<lambda>s. map (\<lambda>a. (ua_id a, ua_user a, window_end (eg_observed s)))
      (filter (\<lambda>a. ua_id a = eg_app s) (apps (work d))))
      (filter (\<lambda>s. eg_processed s = None \<and> eg_observed s < window_end (me_now me)) (samples (work d)))))) \<le> 100"
    and "s \<in> set (samples (work (meterEgress me False (\<lambda>_. no_faults) d)))" "eg_observed s < window_end (me_now me)"
    and "a \<in> set (apps (work d))" "ua_id a = eg_app s"
  shows "eg_processed s \<noteq> None"
proof
  assume open_s: "eg_processed s = None"
  let ?rows = "egress_rows (window_end (me_now me)) (work d)"
  have pass: "meterEgress me False (\<lambda>_. no_faults) d = meter_windows me (\<lambda>_. no_faults) 0 ?rows d" by (simp add: meterEgress_def)
  obtain s0 where s0: "s0 \<in> set (samples (work d))" "eg_processed s0 = None" "eg_app s0 = eg_app s" "eg_observed s0 = eg_observed s"
    using only_closed_sample [OF meter_windows_only_closed assms(4) [unfolded pass] open_s] by blast
  let ?start = "window_end (eg_observed s)"
  have "(eg_app s, ua_user a, ?start) \<in> set ?rows"
    unfolding egress_rows_def using few s0 assms(5,6,7) by (force simp: take_all)
  from meter_windows_complete [OF assms(1,2) this] have "filter (in_window (eg_app s) ?start) (samples (work (meterEgress me False (\<lambda>_. no_faults) d))) = []"
    unfolding pass .
  then have "\<not> in_window (eg_app s) ?start s" using assms(4) by (simp add: filter_empty_conv)
  then show False using open_s window_end_bounds [of "eg_observed s"] by (simp add: in_window_def)
qed

lemma numeric12_gib:
  assumes "0 < b" "in64 b"
  shows "\<exists>q. numeric12 (of_int b / 1073741824) = Some q \<and> 0 \<le> q"
proof -
  let ?x = "of_int b / 1073741824 * 10 ^ 12 :: rat"
  have b: "(of_int b :: rat) \<le> 9223372036854775808"
    using assms(2) of_int_le_iff [of b 9223372036854775808, where ?'a = rat] by (simp add: in64_def)
  have "of_int (round_half_away ?x) \<le> ?x + 1 / 2" using round_half_away_near [of ?x] by linarith
  also have "\<dots> < 10 ^ 18 * 10 ^ 12" using b by simp
  finally have "of_int (round_half_away ?x) / 10 ^ 12 < (10 ^ 18 :: rat)" by (simp add: divide_less_eq)
  moreover have "0 \<le> round_half_away ?x" using assms(1) by (simp add: round_half_away_def)
  ultimately show ?thesis unfolding numeric12_def Let_def
    by (intro exI [of _ "of_int (round_half_away ?x) / 10 ^ 12"]) simp
qed

definition example_open_db :: db where
  "example_open_db = example_traffic_db\<lparr>work := (work example_traffic_db)\<lparr>apps := [\<lparr>ua_id = ''A'', ua_user = ''U'', ua_product = ''P'',
     ua_slug = ''s'', ua_service = ''s'', ua_host = ''h'', ua_instance = ''i'', ua_status = ''running'', ua_reason = None, ua_suspended = None,
     ua_release = None, ua_mapping = False, ua_created = 0, ua_deleted = None,
     ua_refresh_days = None, ua_refreshed = 0, ua_refresh_next = None\<rparr>]\<rparr>\<rparr>"

theorem egress_pass_complete_witness:
  "eg_processed (hd (samples (work (meterEgress example_meter False (\<lambda>_. no_faults) example_open_db)))) \<noteq> None"
proof -
  let ?d = "meterEgress example_meter False (\<lambda>_. no_faults) example_open_db"
  have div: "divides example_meter" using numeric12_gib by (simp add: divides_def example_meter_def)
  have ok: "totals_ok (work example_open_db)"
    by (simp add: totals_ok_def example_open_db_def example_traffic_db_def sample_sum_def in64_def)
  have "only_closed (work example_open_db) (work ?d)" unfolding meterEgress_def by (simp add: meter_windows_only_closed)
  then obtain x where x: "samples (work ?d) = [x]" "eg_app x = ''A''" "eg_observed x = 7"
    unfolding only_closed_def by (auto simp: example_open_db_def example_traffic_db_def)
  have now: "window_end (me_now example_meter) = 600000000000" by (simp add: window_end_def window_def example_meter_def)
  have "eg_processed x \<noteq> None"
    by (rule egress_pass_complete [OF ok div, of x "hd (apps (work example_open_db))"])
      (simp_all add: x now, simp_all add: example_open_db_def example_traffic_db_def)
  then show ?thesis using x by simp
qed

end
