(* ===== verification/Usage_Once.thy ===== *)
theory Usage_Once
  imports Metering_Correct Billing_Ledger Deployment_Rollout
begin

text \<open>
  Usage across the passes of the worker: metering, deployments, aggregation and billing write or read
  \<^verbatim>\<open>usage_events\<close>.  Whatever order they run in and whatever fails, no usage is recorded twice and recorded usage
  is never lost or changed, except that aggregation marks it.
\<close>

section \<open>Statements that leave the events alone\<close>

text \<open>The events of a database, without the mark of aggregation.\<close>

definition recorded :: "worker_db \<Rightarrow> usage_event list" where
  "recorded w = map (\<lambda>e. e\<lparr>ev_aggregated := None\<rparr>) (events w)"

definition once_from :: "usage_event list \<Rightarrow> worker_db \<Rightarrow> bool" where
  "once_from es w = (events_ok w \<and> prefix es (recorded w))"

lemma event_conflict_aggregated [simp]:
  "event_conflict (e\<lparr>ev_aggregated := a\<rparr>) x = event_conflict e x" "event_conflict e (x\<lparr>ev_aggregated := a\<rparr>) = event_conflict e x"
  by (simp_all add: event_conflict_def event_key_def)

lemma events_ok_recorded: "events_ok w = sorted_wrt (\<lambda>x y. \<not> event_conflict y x) (recorded w)"
  by (simp add: events_ok_def recorded_def sorted_wrt_map)

lemma once_from_recorded: "recorded w' = recorded w \<Longrightarrow> once_from es w' = once_from es w"
  by (simp add: once_from_def events_ok_recorded)

lemma once_from_events: "events w' = events w \<Longrightarrow> once_from es w' = once_from es w"
  by (rule once_from_recorded) (simp add: recorded_def)

lemma event_insert_prefix: "event_insert e w = Some (u, w') \<Longrightarrow> prefix (recorded w) (recorded w')"
  by (auto simp: event_insert_def recorded_def split: option.splits if_splits)

lemma event_insert_once: "event_insert e w = Some (u, w') \<Longrightarrow> once_from es w \<Longrightarrow> once_from es w'"
  using event_insert_ok event_insert_prefix prefix_order.trans unfolding once_from_def by blast

lemma mark_first_recorded: "map (\<lambda>e. e\<lparr>ev_aggregated := None\<rparr>) (mark_first n now es) = map (\<lambda>e. e\<lparr>ev_aggregated := None\<rparr>) es"
  by (induction n now es rule: mark_first.induct) simp_all

abbreviation once :: "usage_event list \<Rightarrow> db \<Rightarrow> bool" where
  "once es d \<equiv> once_from es (work d)"

lemma once_keep: "events w' = events w \<Longrightarrow> once_from es w \<Longrightarrow> once_from es w'"
  using once_from_events by blast

lemma once_execW:
  assumes "\<And>w a w'. g w = Some (a, w') \<Longrightarrow> events w' = events w"
  shows "maintains (once es) (execW err g)"
proof -
  have "once_from es w'" if "g w = Some (a, w')" "once_from es w" for w a w'
    using assms [OF that(1)] that(2) by (rule once_keep)
  then show ?thesis unfolding execW_def by (intro maintains_exec) auto
qed

lemma once_execW_insert:
  assumes "\<And>w a w'. g w = Some (a, w') \<Longrightarrow> \<exists>e u. event_insert e w = Some (u, w')"
  shows "maintains (once es) (execW err g)"
proof -
  have "once_from es w'" if "g w = Some (a, w')" "once_from es w" for w a w'
    using assms [OF that(1)] event_insert_once that(2) by blast
  then show ?thesis unfolding execW_def by (intro maintains_exec) auto
qed

lemma once_updateW: "(\<And>w. events (k w) = events w) \<Longrightarrow> maintains (once es) (updateW err k)"
  unfolding updateW_def by (rule once_execW) auto

lemma once_exec: "(\<And>d a d'. g d = Some (a, d') \<Longrightarrow> work d' = work d) \<Longrightarrow> maintains (once es) (exec err g)"
  by (rule maintains_exec) auto

section \<open>Billing\<close>

lemma events_of_updates [simp]:
  "events (notify n w) = events w" "events (app_update p f w) = events w" "events (release_update q g w) = events w"
  "events (low_balance_alert now u b i w) = events w" "events (clear_alert u b w) = events w" "events (seal_aggregate now a pr w) = events w"
  "events (queue_recovery be u b w) = events w" "events (start_recovery u w) = events w" "events (suspend_apps now u w) = events w"
  "events (drop_suspended_routes u w) = events w"
  by (simp_all add: notify_def app_update_def release_update_def low_balance_alert_def clear_alert_def seal_aggregate_def Let_def
      queue_recovery_def start_recovery_def suspend_apps_def drop_suspended_routes_def)

lemma events_of_inserts:
  "attempt_insert b w = Some (u, w') \<Longrightarrow> events w' = events w"
  "charge_insert c w = Some (i, w') \<Longrightarrow> events w' = events w"
  "consumption_insert g cid x w = Some (u, w') \<Longrightarrow> events w' = events w"
  "bill_upsert n uid s e w = Some (j, w') \<Longrightarrow> events w' = events w"
  "bill_item_insert bid cid a p amt w = Some (u, w') \<Longrightarrow> events w' = events w"
  "bill_add bid amt w = Some (u, w') \<Longrightarrow> events w' = events w"
  "mapping_insert m w = Some (u, w') \<Longrightarrow> events w' = events w"
  "route_upsert r w = Some (u, w') \<Longrightarrow> events w' = events w"
  by (auto simp: attempt_insert_def charge_insert_def consumption_insert_def bill_upsert_def bill_item_insert_def bill_add_def
      mapping_insert_def route_upsert_def Let_def split: if_splits option.splits)

lemma work_of_statements:
  "ledger_insert wid k r a b d = Some (i, d') \<Longrightarrow> work d' = work d"
  "wallet_set p b d = Some (u, d') \<Longrightarrow> work d' = work d"
  "grant_spend g x d = Some (u, d') \<Longrightarrow> work d' = work d"
  by (auto simp: ledger_insert_def wallet_set_def grant_spend_def Let_def split: if_splits option.splits)

lemma once_statements:
  "maintains (once es) (execW err (attempt_insert b))" "maintains (once es) (execW err (charge_insert c))"
  "maintains (once es) (execW err (consumption_insert g cid x))" "maintains (once es) (execW err (bill_upsert n uid s e))"
  "maintains (once es) (execW err (bill_item_insert bid cid a p amt))" "maintains (once es) (execW err (bill_add bid amt))"
  "maintains (once es) (execW err (mapping_insert m))" "maintains (once es) (execW err (route_upsert r))"
  by (rule once_execW, erule events_of_inserts)+

lemma once_wallet_statements:
  "maintains (once es) (exec err (ledger_insert wid k ref am bal))" "maintains (once es) (exec err (wallet_set p bal))"
  "maintains (once es) (exec err (grant_spend g x))"
  by (rule once_exec, erule work_of_statements)+

lemma once_consume: "maintains (once es) (consume_loop cid r gs)"
proof (induction gs arbitrary: r)
  case (Cons g gs)
  show ?case unfolding consume_loop.simps Let_def by (intro maintains_intros once_statements once_wallet_statements Cons.IH)
qed (simp add: maintains_intros)

lemma once_record_charge: "maintains (once es) (record_charge be a price amount b gs c u x e)"
  unfolding record_charge_def bill_line_def after_charge_def reserve_suspension_def Let_def
  by (intro maintains_intros once_statements once_consume once_updateW; simp)

lemma once_billUsage: "maintains (once es) (billUsage be)"
  unfolding billUsage_def settle_usage_def bill_charge_def bill_insufficient_def charge_wallet_def Let_def
  by (intro maintains_intros once_statements once_wallet_statements once_record_charge once_updateW; simp)

lemma write_groups_events: "events (fold (write_group now) gs w) = events w"
  by (induction gs arbitrary: w) (auto simp: write_group_def)

lemma once_aggregateUsage: "maintains (once es) (aggregateUsage now)"
proof -
  have "once_from es w'" if "once_from es w" "aggregate_statement now w = Some (u, w')" for w w' u
  proof -
    have "recorded w' = recorded w" using that(2)
      by (auto simp: aggregate_statement_def Let_def recorded_def mark_first_recorded split: if_splits)
    then show ?thesis using that(1) once_from_recorded by blast
  qed
  then have "maintains (once es) (execW err (aggregate_statement now))" for err :: worker_end
    unfolding execW_def by (intro maintains_exec) auto
  then show ?thesis unfolding aggregateUsage_def by (intro maintains_intros)
qed

lemma once_serve_billing: "maintains (once es) (serve_billing q)"
proof (cases q)
  case (SealUnpricedUsage now)
  show ?thesis unfolding SealUnpricedUsage serve_billing.simps sealUnpricedUsage_def by (intro maintains_intros once_execW) (auto simp: Let_def)
qed (simp_all add: once_billUsage once_aggregateUsage)

section \<open>Deployments\<close>

lemma maintains_stays:
  assumes "stays g m" "\<And>s t. g t = g s \<Longrightarrow> P s \<Longrightarrow> P t"
  shows "maintains P m"
  unfolding maintains_def
proof (intro allI impI)
  fix flt n s
  assume "P s"
  then show "holds_after P (m flt n s)"
  proof (cases "m flt n s")
    case (Commit t r)
    then show ?thesis using stays_Commit [OF assms(1)] by blast
  next
    case (Next t n' a)
    then show ?thesis using assms(2) [OF stays_Next [OF assms(1) Next] \<open>P s\<close>] by simp
  qed simp
qed

lemma once_phase: "maintains (once es) (phase dv j snap)"
  by (rule maintains_stays [OF stays_phase]) (erule once_keep [rotated], simp add: phase_part_def)

lemma once_event_insert: "maintains (once es) (execW err (once_event now a code unit t key))"
  by (rule once_execW_insert) (auto simp: once_event_def)

lemma events_of_deployment [simp]:
  "events (job_update i f w) = events w" "events (app_set i h w) = events w" "events (release_state j st w) = events w"
  "events (supersede_releases j w) = events w" "events (event_record j nxt m w) = events w" "events (fail_app j b w) = events w"
  by (simp_all add: job_update_def app_set_def release_state_def supersede_releases_def event_record_def fail_app_def split: prod.split)

lemma once_transition: "maintains (once es) (transition_work dv j a snap nxt)"
  unfolding transition_work_def succeed_release_def deployment_usage_def switch_route_def fail_release_def Let_def
  by (intro maintains_intros once_statements once_event_insert once_updateW; simp)

lemma once_advance: "maintains (once es) (advance dv j a snap healthy failure)"
  unfolding advance_def finish_pass_def Let_def
  by (intro maintains_intros once_transition once_updateW; simp)

lemma once_processOne: "once es d \<Longrightarrow> once es (snd (processOne dv flt flt' d))"
proof -
  assume d: "once es d"
  have "maintains (once es) (claim_and_advance dv)"
    unfolding claim_and_advance_def by (intro maintains_intros once_phase once_advance)
  from maintains_run [OF this d] have c: "once es (snd (run (claim_and_advance dv) flt d))" .
  have then_ok: "maintains (once es) (commit_then e f)" for e :: job_end and f by (simp add: maintains_def commit_then_def)
  have "maintains (once es) (markJobError dv i cause)" for i cause
    unfolding markJobError_def by (intro maintains_intros then_ok once_updateW; simp)
  from maintains_run [OF this] c show ?thesis
    unfolding processOne_def by (auto split: prod.split job_end.split)
qed

section \<open>Metering\<close>

lemma once_attempt:
  assumes "\<And>u w'. f w = Some (u, w') \<Longrightarrow> once_from es w'" "once_from es w"
  shows "once_from es (attempt f lost w)"
  using assms by (auto simp: attempt_def split: option.split)

lemma once_usage: "once_from es w \<Longrightarrow> once_from es (attempt (usage_insert a b c q u s e k) lost w)"
  by (rule once_attempt) (auto simp: usage_insert_def dest: event_insert_once)

lemma once_insertUsage:
  assumes "once_from es w"
  shows "once_from es (insertUsage a b c u q s e k lost w)"
  unfolding insertUsage_def using assms once_usage [OF assms] by (simp split: option.split)

lemma once_meterRuntime: "once_from es w \<Longrightarrow> once_from es (meterRuntime me flt w)"
proof -
  have one: "once_from es (meter_app me start stop flt n row w)" if w: "once_from es w" for start stop n row w
  proof -
    have m: "once_from es (attempt (metric_upsert a c m) l w)" for a c m l
      by (rule once_attempt [OF _ w]) (rule once_keep [OF _ w], auto simp: metric_upsert_def split: if_splits)
    show ?thesis unfolding meter_app_def Let_def
      using w m by (simp add: once_insertUsage once_usage split: option.split sum.split prod.split)
  qed
  have "once_from es w \<Longrightarrow> once_from es (meter_apps me start stop flt n rows w)" for start stop n rows w
    by (induction rows arbitrary: n w) (simp_all add: one)
  then show "once_from es w \<Longrightarrow> once_from es (meterRuntime me flt w)" by (simp add: meterRuntime_def Let_def)
qed

lemma once_meterStorage: "once_from es w \<Longrightarrow> once_from es (meterStorage me flt w)"
proof -
  have one: "once_from es (meter_volume_app me vol start stop flt n rows app w)" if w: "once_from es w" for vol start stop n rows app w
  proof -
    let ?mine = "filter (\<lambda>r. sr_app r = app) rows"
    obtain o' w1 where m: "meter_volumes me vol app flt (n + 1) (remdups (map sr_key ?mine)) (False, w) = (o', w1)" by fastforce
    have "events w1 = events w" using meter_volumes_events [of me vol app flt "n + 1" "remdups (map sr_key ?mine)" "(False, w)"] m by simp
    then have "once_from es w1" using w once_from_events by blast
    then show ?thesis unfolding meter_volume_app_def Let_def m by (simp add: once_insertUsage)
  qed
  have "once_from es w \<Longrightarrow> once_from es (meter_volume_apps me vol start stop flt n rows as w)" for vol start stop n rows as w
    by (induction as arbitrary: n w) (simp_all add: one)
  then show "once_from es w \<Longrightarrow> once_from es (meterStorage me flt w)" by (auto simp: meterStorage_def Let_def split: option.split)
qed

lemma once_meter_window: "maintains (once es) (meter_window me row)"
proof (cases row)
  case (fields app user start)
  have u: "maintains (once es) (execW err (usage_insert a b c q v s e k))" for err :: bool and a b c q v s e k
    by (rule once_execW_insert) (auto simp: usage_insert_def)
  show ?thesis unfolding fields meter_window_def by (simp only: prod.case) (intro maintains_intros u once_updateW; simp)
qed

lemma once_meterEgress: "once es d \<Longrightarrow> once es (meterEgress me lost flts d)"
  by (rule meterEgress_induct) (simp_all add: maintains_run [OF once_meter_window])

lemma once_ingest: "maintains (once es) (ingestEgressSample configured provided is_test now app req)"
proof (rule ingest_maintains)
  fix q sid observed
  have "events w' = events w" if "total_upsert app o' src w = Some (a, w')" for o' src w a w'
    using that by (auto simp: total_upsert_def split: option.splits)
  moreover have "events w' = events w" if "sample_insert s w = Some (a, w')" for s w a w'
    using that by (auto simp: sample_insert_def split: if_splits)
  ultimately show "maintains (once es) (store_sample app q sid observed)" unfolding store_sample_def
    by (intro maintains_intros once_execW once_updateW; simp add: total_set_def)
qed

section \<open>Histories of the worker\<close>

text \<open>The steps that write usage, each with the failures of its statements.\<close>

datatype usage_pass =
    MeterRuntime meter_env faults
  | MeterStorage meter_env faults
  | MeterEgress meter_env bool "nat \<Rightarrow> faults"
  | Sample string string "string \<Rightarrow> bool" int string "string + egressSampleRequest" faults
  | Deploy deploy_env faults faults
  | Billing billing_request faults

fun usage_step :: "usage_pass \<Rightarrow> db \<Rightarrow> db" where
  "usage_step (MeterRuntime me flt) d = d\<lparr>work := meterRuntime me flt (work d)\<rparr>"
| "usage_step (MeterStorage me flt) d = d\<lparr>work := meterStorage me flt (work d)\<rparr>"
| "usage_step (MeterEgress me lost flts) d = meterEgress me lost flts d"
| "usage_step (Sample configured provided is_test now app req flt) d = snd (run (ingestEgressSample configured provided is_test now app req) flt d)"
| "usage_step (Deploy dv flt flt') d = snd (processOne dv flt flt' d)"
| "usage_step (Billing q flt) d = snd (run (serve_billing q) flt d)"

lemma once_step: "once es d \<Longrightarrow> once es (usage_step x d)"
  by (cases x) (simp_all add: once_meterRuntime once_meterStorage once_meterEgress once_processOne
      maintains_run [OF once_ingest] maintains_run [OF once_serve_billing])



end
