(* ===== verification/Lifecycle.thy ===== *)
theory Lifecycle
  imports Deployment Billing
begin

text \<open>
  Starting, stopping and deleting applications: the handlers \<^verbatim>\<open>stopApp\<close> and \<^verbatim>\<open>startApp\<close>
  (\<^verbatim>\<open>internal/httpapi/app_control.go\<close>) and \<^verbatim>\<open>deleteApp\<close> (\<^verbatim>\<open>resource_deletion.go\<close>), and the passes of the worker that
  carry the requests out (\<^verbatim>\<open>processStopOne\<close>, \<^verbatim>\<open>processAppDeletionOne\<close>,
  \<^verbatim>\<open>queueExpiredBillingSuspendedAppDeletionOne\<close>), reclaim containers nobody owns (\<^verbatim>\<open>reconcileRuntimeContainers\<close>) and rotate
  domains (\<^verbatim>\<open>processDomainRefreshOne\<close>).

  Generated identifiers, the clock, the order of the database's collation, the text form of JSON numbers and PostgreSQL's
  reading of a boolean are arguments, as are the answers of the Docker engine.  Checks made by triggers count as faults
  of the statement that fires them; unique indexes are part of the insert.
\<close>

section \<open>Requests\<close>

record control_env =
  ct_now :: int
  ct_uuid :: "string \<Rightarrow> bool"
  ct_collate :: "string list \<Rightarrow> string list"
  ct_render :: "goval \<Rightarrow> string"
  ct_bool :: "string \<Rightarrow> bool option"
  ct_stop :: string
  ct_release :: string
  ct_job :: string
  ct_deletion :: string

record control_principal = principal +
  p_actor :: string
  p_impersonating :: bool

definition auditActorID :: "control_principal \<Rightarrow> string" where
  "auditActorID p = (if p_impersonating p \<and> p_actor p \<noteq> [] then p_actor p else p_id p)"

definition decodeAppControlRequest :: "string result \<Rightarrow> response + string" where
  "decodeAppControlRequest body = (case body of Inl e \<Rightarrow> Inl (invalid_request e) | Inr raw \<Rightarrow>
     let key = trim_space raw in
     if key = [] \<or> length key > 128
     then Inl (Error 400 ''validation_failed'' ''idempotencyKey is required and must be at most 128 characters'')
     else Inr key)"

definition not_uuid :: response where
  "not_uuid = Error 400 ''validation_failed'' ''appID must be a UUID''"

definition app_not_found :: response where
  "app_not_found = Error 404 ''app_not_found'' ''application not found''"

definition owned_app :: "string \<Rightarrow> string \<Rightarrow> worker_db \<Rightarrow> user_app option" where
  "owned_app appID userID w = find (\<lambda>a. ua_id a = appID \<and> ua_user a = userID) (apps w)"

definition reason_of :: "user_app \<Rightarrow> string" where
  "reason_of a = (case ua_reason a of Some r \<Rightarrow> r | None \<Rightarrow> [])"

definition app_suspended :: "user_app \<Rightarrow> response" where
  "app_suspended a = Error 409 ''app_suspended'' (''application is suspended by platform policy: '' @ reason_of a)"

text \<open>\<^verbatim>\<open>status IN ('queued','running')\<close>.\<close>

definition pending :: "string \<Rightarrow> bool" where
  "pending st = (st = ''queued'' \<or> st = ''running'')"

definition active_stop :: "string \<Rightarrow> worker_db \<Rightarrow> bool" where
  "active_stop app w = list_ex (\<lambda>j. sj_app j = app \<and> pending (sj_status j)) (stop_jobs w)"

definition active_restore :: "string \<Rightarrow> worker_db \<Rightarrow> bool" where
  "active_restore app w = list_ex (\<lambda>j. rj_app j = app \<and> pending (rj_status j)) (restore_jobs w)"

definition active_backup :: "string \<Rightarrow> worker_db \<Rightarrow> bool" where
  "active_backup app w = list_ex (\<lambda>b. ab_app b = app \<and> pending (ab_status b)) (backups w)"

definition drop_routes :: "string \<Rightarrow> worker_db \<Rightarrow> worker_db" where
  "drop_routes app w = w\<lparr>routes := filter (\<lambda>r. rt_app r \<noteq> app) (routes w)\<rparr>"

section \<open>Dependents\<close>

text \<open>The elements of an array in the runtime specification of a snapshot: a missing array has none, another value is
  an error of the statement.  The operator \<^verbatim>\<open>->>\<close> gives no text for null.\<close>

definition spec_elements :: "gomap \<Rightarrow> string \<Rightarrow> goval list option" where
  "spec_elements snap k = (case as_obj (mget snap ''runtime_spec'') of None \<Rightarrow> Some []
     | Some spec \<Rightarrow> if \<not> has_key spec k then Some [] else as_arr (mget spec k))"

definition field_text :: "(goval \<Rightarrow> string) \<Rightarrow> goval \<Rightarrow> string option" where
  "field_text render v = (case v of VNil \<Rightarrow> None | VStr s \<Rightarrow> Some s
     | VBool b \<Rightarrow> Some (if b then ''true'' else ''false'') | _ \<Rightarrow> Some (render v))"

definition json_field :: "control_env \<Rightarrow> goval \<Rightarrow> string \<Rightarrow> string option" where
  "json_field ce v k = field_text (ct_render ce) (mget (obj_or_empty v) k)"

text \<open>The slugs collected from the applications, unless one of them makes the statement fail.\<close>

fun collect :: "(user_app \<Rightarrow> string list option) \<Rightarrow> user_app list \<Rightarrow> string list option" where
  "collect f [] = Some []"
| "collect f (a # as) = (case f a of None \<Rightarrow> None | Some ss \<Rightarrow> map_option ((@) ss) (collect f as))"

definition highest_release :: "app_release list \<Rightarrow> app_release option" where
  "highest_release rs = (case rev (sort_key rl_number rs) of [] \<Rightarrow> None | r # _ \<Rightarrow> Some r)"

definition latest_release :: "string \<Rightarrow> worker_db \<Rightarrow> app_release option" where
  "latest_release app w = highest_release (filter (\<lambda>r. rl_app r = app \<and> rl_state r \<noteq> ''failed'') (releases w))"

definition required_flag :: "control_env \<Rightarrow> goval \<Rightarrow> bool option" where
  "required_flag ce v = (case json_field ce v ''required'' of None \<Rightarrow> Some False | Some s \<Rightarrow> ct_bool ce s)"

definition targets :: "control_env \<Rightarrow> user_app \<Rightarrow> goval \<Rightarrow> bool" where
  "targets ce t v = (json_field ce v ''productId'' = Some (ua_product t) \<and> json_field ce v ''serviceSlug'' = Some (ua_service t))"

definition requires :: "control_env \<Rightarrow> user_app \<Rightarrow> goval list \<Rightarrow> bool option" where
  "requires ce t vs = (let ms = map (required_flag ce) (filter (targets ce t) vs) in
     if None \<in> set ms then None else Some (Some True \<in> set ms))"

definition stop_dependent :: "control_env \<Rightarrow> user_app \<Rightarrow> worker_db \<Rightarrow> user_app \<Rightarrow> string list option" where
  "stop_dependent ce t w a = (case latest_release (ua_id a) w of None \<Rightarrow> Some []
     | Some r \<Rightarrow> (case spec_elements (rl_snapshot r) ''dependencies'' of None \<Rightarrow> None
       | Some vs \<Rightarrow> map_option (\<lambda>b. if b then [ua_slug a] else []) (requires ce t vs)))"

definition stop_candidate :: "user_app \<Rightarrow> user_app \<Rightarrow> bool" where
  "stop_candidate t a = (ua_user a = ua_user t \<and> ua_id a \<noteq> ua_id t \<and> ua_status a \<in> {''deploying'', ''running'', ''updating''})"

definition stop_dependents :: "control_env \<Rightarrow> user_app \<Rightarrow> worker_db \<Rightarrow> string option" where
  "stop_dependents ce t w = map_option (\<lambda>ss. join_with '', '' (ct_collate ce (remdups ss)))
     (collect (stop_dependent ce t w) (filter (stop_candidate t) (apps w)))"

definition delete_dependent :: "control_env \<Rightarrow> user_app \<Rightarrow> worker_db \<Rightarrow> user_app \<Rightarrow> string list option" where
  "delete_dependent ce t w a = (case Option.bind (ua_release a) (\<lambda>i. find (\<lambda>r. rl_id r = i) (releases w)) of None \<Rightarrow> Some []
     | Some r \<Rightarrow> map_option (\<lambda>vs. map (\<lambda>_. ua_slug a) (filter (\<lambda>v. json_field ce v ''productId'' = Some (ua_product t)) vs))
         (spec_elements (rl_snapshot r) ''dependencies''))"

definition delete_dependents :: "control_env \<Rightarrow> user_app \<Rightarrow> string \<Rightarrow> worker_db \<Rightarrow> string option" where
  "delete_dependents ce t userID w = map_option (\<lambda>ss. join_with '', '' (ct_collate ce ss))
     (collect (delete_dependent ce t w) (filter (\<lambda>a. ua_user a = userID \<and> ua_deleted a = None) (apps w)))"

section \<open>Stopping\<close>

definition find_stop :: "string \<Rightarrow> string \<Rightarrow> string \<Rightarrow> worker_db \<Rightarrow> stop_job option" where
  "find_stop appID key userID w = find (\<lambda>j. sj_app j = appID \<and> sj_key j = key \<and> owned_app appID userID w \<noteq> None) (stop_jobs w)"

definition stop_insert :: "stop_job \<Rightarrow> worker_db \<Rightarrow> (string \<times> worker_db) option" where
  "stop_insert j w = (if list_ex (\<lambda>x. sj_id x = sj_id j \<or> (sj_app x = sj_app j \<and> sj_key x = sj_key j)) (stop_jobs w) \<or> active_stop (sj_app j) w
     then None else Some (sj_id j, w\<lparr>stop_jobs := stop_jobs w @ [j]\<rparr>))"

definition new_stop :: "control_env \<Rightarrow> user_app \<Rightarrow> string \<Rightarrow> string \<Rightarrow> stop_job" where
  "new_stop ce a container key = \<lparr>sj_id = ct_stop ce, sj_app = ua_id a, sj_release = ua_release a, sj_container = container, sj_key = key,
     sj_status = ''queued'', sj_attempts = 0, sj_available = ct_now ce, sj_updated = ct_now ce, sj_created = ct_now ce, sj_error = None\<rparr>"

definition stopped_reply :: "string \<Rightarrow> response" where
  "stopped_reply appID = Json 200 [(''appId'', VStr appID), (''status'', VStr ''stopped''), (''idempotent'', VBool True)]"

text \<open>What the handler writes once every check has passed.\<close>

definition queue_stop :: "control_principal \<Rightarrow> control_env \<Rightarrow> user_app \<Rightarrow> string \<Rightarrow> string \<Rightarrow> (db, response, response) tx" where
  "queue_stop p ce a container key =
    bindT (execW internalError (stop_insert (new_stop ce a container key))) (\<lambda>jobID.
    bindT (updateW internalError (drop_routes (ua_id a))) (\<lambda>_.
    bindT (updateW internalError (app_set (ua_id a) (\<lambda>x. x\<lparr>ua_status := ''stopping'', ua_reason := None\<rparr>))) (\<lambda>_.
    bindT (exec internalError (audit (auditActorID p) (Some (p_id p)) ''app.stop.request'' ''user_app'' (ua_id a) (p_request p))) (\<lambda>_.
    commit internalError (Json 202 [(''appId'', VStr (ua_id a)), (''stopJobId'', VStr jobID), (''status'', VStr ''stopping''),
      (''idempotent'', VBool False)])))))"

definition stop_owned :: "control_principal \<Rightarrow> control_env \<Rightarrow> user_app \<Rightarrow> string \<Rightarrow> string \<Rightarrow> (db, response, response) tx" where
  "stop_owned p ce a container key =
    (if ua_status a = ''stopped'' then commit (stopped_reply (ua_id a)) (stopped_reply (ua_id a))
     else if ua_status a = ''stopping'' then reply (Error 409 ''app_stop_in_progress'' ''application already has an active stop task'')
     else if ua_status a = ''suspended'' then reply (app_suspended a)
     else if ua_status a \<noteq> ''running'' then reply (Error 409 ''app_not_running'' ''only a running application can be stopped'')
     else
     bindT (queryW internalError (\<lambda>w. active_job (ua_id a) w \<or> active_restore (ua_id a) w)) (\<lambda>busy.
     if busy then reply (Error 409 ''app_operation_in_progress'' ''application has an active deployment or restore task'')
     else
     bindT (requireW internalError (stop_dependents ce a)) (\<lambda>dependents.
     if dependents \<noteq> [] then reply (Error 409 ''app_required_by_dependents'' (''stop dependent applications first: '' @ dependents))
     else queue_stop p ce a container key)))"

text \<open>The replies that repeat an earlier answer ignore an error of the commit.\<close>

definition stopApp :: "control_principal \<Rightarrow> control_env \<Rightarrow> string \<Rightarrow> string result \<Rightarrow> (db, response, response) tx" where
  "stopApp p ce path body =
    (let appID = trim_space path in
     if \<not> ct_uuid ce appID then reply not_uuid
     else case decodeAppControlRequest body of Inl r \<Rightarrow> reply r | Inr key \<Rightarrow>
     bindT begin_tx (\<lambda>_.
     bindT (queryW internalError (find_stop appID key (p_id p))) (\<lambda>existing. case existing of
       Some j \<Rightarrow> (let r = Json 200 [(''appId'', VStr appID), (''stopJobId'', VStr (sj_id j)), (''status'', VStr (sj_status j)), (''idempotent'', VBool True)]
         in commit r r)
     | None \<Rightarrow>
     bindT (queryW internalError (\<lambda>w. map_option (\<lambda>a. (a, old_container appID w)) (owned_app appID (p_id p) w))) (\<lambda>row. case row of
       None \<Rightarrow> reply app_not_found
     | Some (a, container) \<Rightarrow> stop_owned p ce a container key))))"

section \<open>Starting\<close>

definition enforceDeploymentConcurrency :: "string \<Rightarrow> unit result" where
  "enforceDeploymentConcurrency userID = Inr ()"

text \<open>\<^verbatim>\<open>%.2f\<close> of an amount in cents divided by 100, exact below \<^verbatim>\<open>2^46\<close> cents, where the nearest double prints the cents.\<close>

definition centsText :: "int \<Rightarrow> string" where
  "centsText c = (let q = nat \<bar>c\<bar> div 100; r = show_nat (nat \<bar>c\<bar> mod 100) in
     (if c < 0 then ''-'' else []) @ show_nat q @ ''.'' @ (if length r < 2 then ''0'' @ r else r))"

definition reserve_text :: "int \<Rightarrow> int \<Rightarrow> string" where
  "reserve_text required available =
     bytes [229, 143, 175, 231, 148, 168, 228, 189, 153, 233, 162, 157, 228, 184, 141, 232, 182, 179, 239, 188, 140, 229, 188, 128, 230, 156, 186,
            232, 135, 179, 229, 176, 145, 233, 156, 128, 232, 166, 129, 228, 191, 157, 231, 149, 153] @ '' '' @ centsText required @ '' '' @
     bytes [229, 133, 131, 239, 188, 140, 229, 189, 147, 229, 137, 141, 229, 143, 175, 231, 148, 168] @ '' '' @ centsText available @ '' '' @
     bytes [229, 133, 131]"

definition writeStartupBalanceError :: "int \<Rightarrow> int \<Rightarrow> response" where
  "writeStartupBalanceError available required = Error 409 ''insufficient_startup_balance'' (reserve_text required available)"

text \<open>The sum of the grants has to fit the \<^verbatim>\<open>int64\<close> it is read into.\<close>

definition enforceMinimumStartupBalance :: "int \<Rightarrow> string \<Rightarrow> (db, response, unit) tx" where
  "enforceMinimumStartupBalance now userID =
    bindT (require internalError (\<lambda>d. case settings (work d) of None \<Rightarrow> None
      | Some s \<Rightarrow> if in64 (credit_total now userID d)
          then Some (case wallet_of userID d of Some v \<Rightarrow> w_balance v | None \<Rightarrow> 0, credit_total now userID d, ss_reserve s) else None)) (\<lambda>(walletCents, creditCents, reserve).
    let available = wrap64 (walletCents + creditCents) in
    if available < reserve then reply (writeStartupBalanceError available reserve) else done_tx ())"

definition snapshotRuntime :: "gomap \<Rightarrow> gomap" where
  "snapshotRuntime snap = obj_or_empty (mget snap ''runtime_spec'')"

definition dependency_ready :: "string \<Rightarrow> string \<Rightarrow> Dependency \<Rightarrow> worker_db \<Rightarrow> bool" where
  "dependency_ready userID appID dep w = list_ex (\<lambda>a. list_ex (\<lambda>r. rt_app r = ua_id a \<and> ua_user a = userID \<and> ua_product a = dep_productId dep \<and>
     ua_service a = dep_serviceSlug dep \<and> ua_status a = ''running'' \<and> ua_release a = Some (rt_release r) \<and> (appID = [] \<or> ua_id a \<noteq> appID))
     (routes w)) (apps w)"

fun missing_loop :: "string \<Rightarrow> string \<Rightarrow> Dependency list \<Rightarrow> Dependency list \<Rightarrow> (db, response, Dependency list) tx" where
  "missing_loop userID appID missing [] = done_tx missing"
| "missing_loop userID appID missing (dep # deps) =
    (if \<not> dep_required dep then missing_loop userID appID missing deps
     else bindT (queryW internalError (dependency_ready userID appID dep)) (\<lambda>ready.
       missing_loop userID appID (if ready then missing else missing @ [dep]) deps))"

definition missingRuntimeDependencies :: "string \<Rightarrow> string \<Rightarrow> gomap \<Rightarrow> (db, response, Dependency list) tx" where
  "missingRuntimeDependencies userID appID spec = (case RuntimeDependencies spec of Inl e \<Rightarrow> reply internalError
     | Inr deps \<Rightarrow> missing_loop userID appID [] deps)"

definition dependencyLabels :: "Dependency list \<Rightarrow> string list" where
  "dependencyLabels deps = map dependency_label deps"

definition missingSnapshotSecrets :: "gomap \<Rightarrow> string list result" where
  "missingSnapshotSecrets snap = bindR (RuntimeSecretKeys (snapshotRuntime snap)) (\<lambda>required.
     let versions = obj_or_empty (mget snap ''secret_versions'') in
     Inr (filter (\<lambda>key. case as_str (mget versions key) of None \<Rightarrow> True | Some v \<Rightarrow> trim_space v = []) required))"

definition enforceRuntimeEntitlements :: "gomap \<Rightarrow> unit result" where
  "enforceRuntimeEntitlements spec = bindR (RuntimeResources spec False) (\<lambda>_. bindR (RuntimeStorage spec False) (\<lambda>_. Inr ()))"

definition find_job :: "string \<Rightarrow> string \<Rightarrow> worker_db \<Rightarrow> deployment_job option" where
  "find_job key userID w = find (\<lambda>j. jb_key j = key \<and> owned_app (jb_app j) userID w \<noteq> None) (jobs w)"

definition next_release_number :: "string \<Rightarrow> worker_db \<Rightarrow> int" where
  "next_release_number appID w = (let ns = map rl_number (filter (\<lambda>r. rl_app r = appID) (releases w)) in
     (if ns = [] then 0 else Max (set ns)) + 1)"

definition release_insert :: "app_release \<Rightarrow> worker_db \<Rightarrow> (string \<times> worker_db) option" where
  "release_insert r w = (if list_ex (\<lambda>x. rl_id x = rl_id r \<or> (rl_app x = rl_app r \<and> rl_number x = rl_number r)) (releases w) then None
     else Some (rl_id r, w\<lparr>releases := releases w @ [r]\<rparr>))"

definition job_insert :: "deployment_job \<Rightarrow> worker_db \<Rightarrow> (string \<times> worker_db) option" where
  "job_insert j w = (if list_ex (\<lambda>x. jb_id x = jb_id j \<or> jb_key x = jb_key j) (jobs w) \<or> active_job (jb_app j) w then None
     else Some (jb_id j, w\<lparr>jobs := jobs w @ [j]\<rparr>))"

definition start_release_row :: "control_env \<Rightarrow> string \<Rightarrow> app_release \<Rightarrow> int \<Rightarrow> app_release" where
  "start_release_row ce appID src number = \<lparr>rl_id = ct_release ce, rl_app = appID, rl_version = rl_version src, rl_number = number,
     rl_snapshot = rl_snapshot src, rl_state = ''created'', rl_container_id = [], rl_host_port = None\<rparr>"

definition start_job :: "control_env \<Rightarrow> string \<Rightarrow> string \<Rightarrow> string \<Rightarrow> string \<Rightarrow> deployment_job" where
  "start_job ce appID releaseID key sourceID = \<lparr>jb_id = ct_job ce, jb_app = appID, jb_release = releaseID, jb_key = key, jb_operation = ''start'',
     jb_source = Some sourceID, jb_state = DeploymentQueued, jb_attempts = 0, jb_available = ct_now ce, jb_created = ct_now ce, jb_error = None\<rparr>"

text \<open>The checks on the release that is started again.\<close>

definition check_start :: "string \<Rightarrow> string \<Rightarrow> gomap \<Rightarrow> (db, response, unit) tx" where
  "check_start userID appID snap =
    bindT (missingRuntimeDependencies userID appID (snapshotRuntime snap)) (\<lambda>missing.
    if missing \<noteq> [] then reply (Error 409 ''required_dependency_unavailable''
      (''required dependencies are not running: '' @ join_with '', '' (dependencyLabels missing)))
    else case missingSnapshotSecrets snap of Inl e \<Rightarrow> reply internalError | Inr secrets \<Rightarrow>
    if secrets \<noteq> [] then reply (Error 409 ''required_secret_missing'' (''required application Secrets are missing: '' @ join_with '', '' secrets))
    else case enforceRuntimeEntitlements (snapshotRuntime snap) of Inl e \<Rightarrow> reply internalError | Inr _ \<Rightarrow> done_tx ())"

definition queue_start :: "control_principal \<Rightarrow> control_env \<Rightarrow> string \<Rightarrow> string \<Rightarrow> app_release \<Rightarrow> (db, response, response) tx" where
  "queue_start p ce appID key src =
    bindT (queryW internalError (next_release_number appID)) (\<lambda>number.
    bindT (execW internalError (release_insert (start_release_row ce appID src number))) (\<lambda>releaseID.
    bindT (execW internalError (job_insert (start_job ce appID releaseID key (rl_id src)))) (\<lambda>jobID.
    bindT (updateW internalError (app_set appID (\<lambda>x. x\<lparr>ua_status := ''updating'', ua_reason := None, ua_suspended := None\<rparr>))) (\<lambda>_.
    bindT (exec internalError (audit (auditActorID p) (Some (p_id p)) ''app.start'' ''user_app'' appID (p_request p))) (\<lambda>_.
    commit internalError (Json 202 [(''appId'', VStr appID), (''releaseId'', VStr releaseID), (''jobId'', VStr jobID), (''status'', VStr ''updating''),
      (''idempotent'', VBool False)]))))))"

definition billing_stopped :: "user_app \<Rightarrow> bool" where
  "billing_stopped a = (ua_status a = ''suspended'' \<and> reason_of a = ''billing_insufficient'')"

definition start_owned :: "control_principal \<Rightarrow> control_env \<Rightarrow> user_app \<Rightarrow> string \<Rightarrow> (db, response, response) tx" where
  "start_owned p ce a key =
    (if ua_status a = ''suspended'' \<and> \<not> billing_stopped a then reply (app_suspended a)
     else if ua_status a = ''stopping'' then reply (Error 409 ''app_stop_in_progress'' ''wait for the stop task to complete before starting'')
     else if ua_status a \<noteq> ''stopped'' \<and> ua_status a \<noteq> ''failed'' \<and> \<not> billing_stopped a
     then reply (Error 409 ''app_not_stopped'' ''only a stopped or failed application can be started'')
     else case ua_release a of
       None \<Rightarrow> reply (Error 409 ''successful_release_required'' ''application has no successful release to start'')
     | Some sourceID \<Rightarrow>
     bindT (enforceMinimumStartupBalance (ct_now ce) (p_id p)) (\<lambda>_.
     bindT (requireW internalError (release_of sourceID (ua_id a))) (\<lambda>src.
     bindT (check_start (p_id p) (ua_id a) (rl_snapshot src)) (\<lambda>_.
     queue_start p ce (ua_id a) key src))))"

definition startApp :: "control_principal \<Rightarrow> control_env \<Rightarrow> string \<Rightarrow> string result \<Rightarrow> (db, response, response) tx" where
  "startApp p ce path body =
    (let appID = trim_space path in
     if \<not> ct_uuid ce appID then reply not_uuid
     else case decodeAppControlRequest body of Inl r \<Rightarrow> reply r | Inr key \<Rightarrow>
     bindT begin_tx (\<lambda>_.
     bindT (queryW internalError (find_job key (p_id p))) (\<lambda>existing. case existing of
       Some j \<Rightarrow>
         if jb_app j \<noteq> appID \<or> jb_operation j \<noteq> ''start''
         then reply (Error 409 ''idempotency_conflict'' ''idempotency key is already used for another application operation'')
         else (let r = Json 200 [(''appId'', VStr appID), (''jobId'', VStr (jb_id j)), (''status'', VStr ''updating''), (''idempotent'', VBool True)]
           in commit r r)
     | None \<Rightarrow> (case enforceDeploymentConcurrency (p_id p) of Inl e \<Rightarrow> reply internalError | Inr _ \<Rightarrow>
     bindT (queryW internalError (owned_app appID (p_id p))) (\<lambda>row. case row of
       None \<Rightarrow> reply app_not_found
     | Some a \<Rightarrow> start_owned p ce a key)))))"

section \<open>Deleting\<close>

definition deletion_insert :: "control_env \<Rightarrow> string \<Rightarrow> worker_db \<Rightarrow> (unit \<times> worker_db) option" where
  "deletion_insert ce appID w = (if list_ex (\<lambda>j. dj_app j = appID) (deletion_jobs w) then Some ((), w)
     else if list_ex (\<lambda>j. dj_id j = ct_deletion ce) (deletion_jobs w) then None
     else Some ((), w\<lparr>deletion_jobs := deletion_jobs w @ [\<lparr>dj_id = ct_deletion ce, dj_app = appID, dj_status = ''queued'', dj_attempts = 0,
       dj_available = ct_now ce, dj_updated = ct_now ce, dj_created = ct_now ce, dj_error = None\<rparr>]\<rparr>))"

definition drop_mappings :: "string \<Rightarrow> worker_db \<Rightarrow> worker_db" where
  "drop_mappings app w = w\<lparr>mappings := filter (\<lambda>m. pt_app m \<noteq> app) (mappings w)\<rparr>"

definition mark_deleted :: "int \<Rightarrow> user_app \<Rightarrow> user_app" where
  "mark_deleted now x = x\<lparr>ua_deleted := Some now, ua_status := ''stopped'', ua_reason := None, ua_suspended := None\<rparr>"

definition app_busy :: "string \<Rightarrow> worker_db \<Rightarrow> bool" where
  "app_busy appID w = (active_job appID w \<or> active_stop appID w \<or> active_restore appID w)"

definition deleteApp :: "control_principal \<Rightarrow> control_env \<Rightarrow> string \<Rightarrow> (db, response, response) tx" where
  "deleteApp p ce path =
    (let appID = trim_space path in
     if \<not> ct_uuid ce appID then reply not_uuid
     else
     bindT begin_tx (\<lambda>_.
     bindT (queryW internalError (owned_app appID (p_id p))) (\<lambda>row. case row of
       None \<Rightarrow> reply app_not_found
     | Some a \<Rightarrow>
     if ua_deleted a \<noteq> None then reply (Json 200 [(''id'', VStr appID), (''deleted'', VBool True), (''idempotent'', VBool True)])
     else
     bindT (queryW internalError (app_busy appID)) (\<lambda>active.
     if active then reply (Error 409 ''app_operation_in_progress'' ''wait for the current application operation to finish before deleting'')
     else
     bindT (requireW internalError (delete_dependents ce a (p_id p))) (\<lambda>dependents.
     if dependents \<noteq> [] then reply (Error 409 ''app_has_dependents'' (''applications still depend on this service: '' @ dependents))
     else
     bindT (updateW internalError (drop_routes appID)) (\<lambda>_.
     bindT (updateW internalError (drop_mappings appID)) (\<lambda>_.
     bindT (updateW internalError (app_set appID (mark_deleted (ct_now ce)))) (\<lambda>_.
     bindT (execW internalError (deletion_insert ce appID)) (\<lambda>_.
     bindT (exec internalError (audit (p_id p) (Some (p_id p)) ''app.delete.request'' ''user_app'' appID (p_request p))) (\<lambda>_.
     commit internalError (Json 202 [(''id'', VStr appID), (''deleted'', VBool True)])))))))))))"

section \<open>The worker: names of containers\<close>

text \<open>The two regular expressions for container names, the scoped and the one without a scope.\<close>

definition uuid_blocks :: "string list \<Rightarrow> bool" where
  "uuid_blocks bs = (case bs of [a, b, c, d, e] \<Rightarrow> hex_block 8 a \<and> hex_block 4 b \<and> hex_block 4 c \<and> hex_block 4 d \<and> hex_block 12 e | _ \<Rightarrow> False)"

definition scopedRuntimeContainerPattern :: "string \<Rightarrow> (string \<times> string \<times> string) option" where
  "scopedRuntimeContainerPattern name = (case split_on CHR ''-'' name of
     cm # scope # rest \<Rightarrow> if cm = ''cm'' \<and> hex_block 10 scope \<and> uuid_blocks (take 5 rest) \<and> uuid_blocks (drop 5 rest)
       then Some (scope, join_with ''-'' (take 5 rest), join_with ''-'' (drop 5 rest)) else None
   | _ \<Rightarrow> None)"

definition runtimeContainerPattern :: "string \<Rightarrow> (string \<times> string) option" where
  "runtimeContainerPattern name = (case split_on CHR ''-'' name of
     cm # rest \<Rightarrow> if cm = ''cm'' \<and> uuid_blocks (take 5 rest) \<and> uuid_blocks (drop 5 rest)
       then Some (join_with ''-'' (take 5 rest), join_with ''-'' (drop 5 rest)) else None
   | _ \<Rightarrow> None)"

text \<open>Application, release and whether the name has no scope.\<close>

definition runtimeContainerIdentity :: "deploy_env \<Rightarrow> string \<Rightarrow> (string \<times> string \<times> bool) option" where
  "runtimeContainerIdentity dv name = (case scopedRuntimeContainerPattern name of
     Some (scope, appID, releaseID) \<Rightarrow> if runtimeScope dv = [] \<or> scope \<noteq> runtimeScope dv then None else Some (appID, releaseID, False)
   | None \<Rightarrow> (case runtimeContainerPattern name of Some (appID, releaseID) \<Rightarrow> Some (appID, releaseID, True) | None \<Rightarrow> None))"

definition stopContainerMatches :: "deploy_env \<Rightarrow> string \<Rightarrow> string \<Rightarrow> string \<Rightarrow> bool" where
  "stopContainerMatches dv appID releaseID name = (case runtimeContainerIdentity dv name of None \<Rightarrow> False
     | Some (containerAppID, containerReleaseID, legacy) \<Rightarrow>
        containerAppID = appID \<and> containerReleaseID = releaseID \<and> (\<not> legacy \<or> UsesLegacyResourceNames (dp_owner dv)))"

section \<open>The worker: Docker\<close>

text \<open>What the engine answers: the error of a call, and the names that start with a prefix.\<close>

record engine =
  en_stop :: "string \<Rightarrow> string option"
  en_remove :: "string \<Rightarrow> string option"
  en_names :: "string \<Rightarrow> string list option"

definition StopIfExists :: "engine \<Rightarrow> string \<Rightarrow> string option" where
  "StopIfExists en name = (case en_stop en name of None \<Rightarrow> None
     | Some err \<Rightarrow> let message = to_lower err in
        if contains message ''no such container'' \<or> contains message ''not found'' \<or> contains message ''container already stopped'' \<or>
           contains message ''not modified'' then None else Some err)"

definition RemoveIfExists :: "engine \<Rightarrow> string \<Rightarrow> string option" where
  "RemoveIfExists en name = (case en_remove en name of None \<Rightarrow> None
     | Some err \<Rightarrow> if \<not> contains (to_lower err) ''no such container'' \<and> \<not> contains (to_lower err) ''not found'' then Some err else None)"

section \<open>The worker: stopping\<close>

datatype pass_end =
    PassIdle
  | PassLogged string
  | StopClaimed stop_job
  | StopRetry string
  | StopFinished
  | DeletionClaimed deletion_job
  | DeletionPostponed
  | DeletionFinished "string list" "string list"
  | CleanupQueued string
  | DomainRefreshed string

definition oldest :: "('a \<Rightarrow> int) \<Rightarrow> ('a \<Rightarrow> bool) \<Rightarrow> 'a list \<Rightarrow> 'a option" where
  "oldest t p xs = (case sort_key t (filter p xs) of [] \<Rightarrow> None | x # _ \<Rightarrow> Some x)"

definition stop_due :: "int \<Rightarrow> stop_job \<Rightarrow> bool" where
  "stop_due now j = (sj_available j \<le> now \<and> (sj_status j = ''queued'' \<or> (sj_status j = ''running'' \<and> sj_updated j < now - 60 * 10 ^ 9)))"

definition stop_update :: "(stop_job \<Rightarrow> bool) \<Rightarrow> (stop_job \<Rightarrow> stop_job) \<Rightarrow> worker_db \<Rightarrow> worker_db" where
  "stop_update p f w = w\<lparr>stop_jobs := map (\<lambda>j. if p j then f j else j) (stop_jobs w)\<rparr>"

definition claimed_stop :: "int \<Rightarrow> stop_job \<Rightarrow> stop_job" where
  "claimed_stop now j = j\<lparr>sj_status := ''running'', sj_attempts := sj_attempts j + 1, sj_error := None, sj_updated := now\<rparr>"

definition claim_stop :: "int \<Rightarrow> worker_db \<Rightarrow> (stop_job option \<times> worker_db) option" where
  "claim_stop now w = (case oldest sj_created (stop_due now) (stop_jobs w) of None \<Rightarrow> Some (None, w)
     | Some j \<Rightarrow> Some (Some (claimed_stop now j), stop_update (\<lambda>x. sj_id x = sj_id j) (claimed_stop now) w))"

definition begin_stop :: "int \<Rightarrow> (db, pass_end, pass_end) tx" where
  "begin_stop now =
    bindT (query PassIdle (\<lambda>_. ())) (\<lambda>_.
    bindT (execW (PassLogged ''app stop claim failed'') (claim_stop now)) (\<lambda>row. case row of None \<Rightarrow> reply PassIdle
    | Some j \<Rightarrow> commit (PassLogged ''app stop claim commit failed'') (StopClaimed j)))"

definition stop_release :: "stop_job \<Rightarrow> string" where
  "stop_release j = (case sj_release j of Some r \<Rightarrow> r | None \<Rightarrow> [])"

definition stop_container :: "deploy_env \<Rightarrow> engine \<Rightarrow> string \<Rightarrow> stop_job \<Rightarrow> string option" where
  "stop_container dv en instanceID j =
    (if sj_container j = [] then None
     else if \<not> stopContainerMatches dv instanceID (stop_release j) (sj_container j) \<and> \<not> stopContainerMatches dv (sj_app j) (stop_release j) (sj_container j)
     then Some ''stop job container identity is invalid''
     else if dp_executor dv = None then Some ''docker executor is unavailable''
     else case StopIfExists en (sj_container j) of Some e \<Rightarrow> Some e | None \<Rightarrow> RemoveIfExists en (sj_container j))"

definition stop_backoff :: "int \<Rightarrow> int" where
  "stop_backoff tries = (let shift = (if tries > 6 then 6 else tries) in 2 ^ nat shift * 10 ^ 9)"

definition requeue_stop :: "int \<Rightarrow> stop_job \<Rightarrow> string \<Rightarrow> worker_db \<Rightarrow> worker_db" where
  "requeue_stop now j err = stop_update (\<lambda>x. sj_id x = sj_id j \<and> sj_status x = ''running'')
     (\<lambda>x. x\<lparr>sj_status := ''queued'', sj_error := Some err, sj_available := now + stop_backoff (sj_attempts j), sj_updated := now\<rparr>)"

definition audit_stopped :: "stop_job \<Rightarrow> db \<Rightarrow> (unit \<times> db) option" where
  "audit_stopped j d = (case app_of (sj_app j) (work d) of None \<Rightarrow> Some ((), d)
     | Some a \<Rightarrow> audit [] (Some (ua_user a)) ''app.stop.complete'' ''user_app'' (ua_id a) (''worker/app-stop/'' @ sj_id j) d)"

definition finish_stop :: "int \<Rightarrow> stop_job \<Rightarrow> (db, pass_end, pass_end) tx" where
  "finish_stop now j =
    bindT (query PassIdle (\<lambda>_. ())) (\<lambda>_.
    bindT (updateW (PassLogged ''app stop completion update failed'') (stop_update (\<lambda>x. sj_id x = sj_id j \<and> sj_status x = ''running'')
      (\<lambda>x. x\<lparr>sj_status := ''succeeded'', sj_error := None, sj_updated := now\<rparr>))) (\<lambda>_.
    bindT (updateW (PassLogged ''app stopped state update failed'') (app_update (\<lambda>a. ua_id a = sj_app j \<and> ua_status a = ''stopping'')
      (\<lambda>a. a\<lparr>ua_status := ''stopped'', ua_reason := None\<rparr>))) (\<lambda>_.
    bindT (exec (PassLogged ''app stop completion audit failed'') (audit_stopped j)) (\<lambda>_.
    commit (PassLogged ''app stop completion commit failed'') StopFinished))))"

text \<open>One statement outside a transaction, whose failure only leaves a log line.\<close>

definition autocommit :: "bool \<Rightarrow> (worker_db \<Rightarrow> worker_db) \<Rightarrow> db \<Rightarrow> db" where
  "autocommit failed f d = (if failed then d else d\<lparr>work := f (work d)\<rparr>)"

definition instance_of :: "bool \<Rightarrow> string \<Rightarrow> worker_db \<Rightarrow> string" where
  "instance_of lost appID w = (case app_of appID w of Some a \<Rightarrow> if lost then [] else ua_instance a | None \<Rightarrow> [])"

text \<open>A pass: the claim and the completion have faults of their own, \<open>lost\<close> is a failed read of the instance, \<open>missed\<close> a failed
  update of the retry, and \<open>clock\<close> the time at the end of the engine's calls.\<close>

definition processStopOne :: "deploy_env \<Rightarrow> engine \<Rightarrow> int \<Rightarrow> faults \<Rightarrow> bool \<Rightarrow> bool \<Rightarrow> faults \<Rightarrow> db \<Rightarrow> pass_end \<times> db" where
  "processStopOne dv en clock flt lost missed flt' d = (case run (begin_stop (dp_now dv)) flt d of
     (StopClaimed j, d1) \<Rightarrow> (case stop_container dv en (instance_of lost (sj_app j) (work d1)) j of
         Some err \<Rightarrow> (StopRetry err, autocommit missed (requeue_stop clock j err) d1)
       | None \<Rightarrow> run (finish_stop clock j) flt' d1)
   | r \<Rightarrow> r)"

section \<open>The worker: deleting\<close>

definition deletion_due :: "int \<Rightarrow> deletion_job \<Rightarrow> bool" where
  "deletion_due now j = (dj_available j \<le> now \<and> (dj_status j = ''queued'' \<or> (dj_status j = ''running'' \<and> dj_updated j < now - 60 * 10 ^ 9)))"

definition deletion_update :: "string \<Rightarrow> (deletion_job \<Rightarrow> deletion_job) \<Rightarrow> worker_db \<Rightarrow> worker_db" where
  "deletion_update i f w = w\<lparr>deletion_jobs := map (\<lambda>j. if dj_id j = i then f j else j) (deletion_jobs w)\<rparr>"

definition claimed_deletion :: "int \<Rightarrow> deletion_job \<Rightarrow> deletion_job" where
  "claimed_deletion now j = j\<lparr>dj_status := ''running'', dj_attempts := dj_attempts j + 1, dj_error := None, dj_updated := now\<rparr>"

definition claim_deletion :: "int \<Rightarrow> worker_db \<Rightarrow> (deletion_job option \<times> worker_db) option" where
  "claim_deletion now w = (case oldest dj_created (deletion_due now) (deletion_jobs w) of None \<Rightarrow> Some (None, w)
     | Some j \<Rightarrow> Some (Some (claimed_deletion now j), deletion_update (dj_id j) (claimed_deletion now) w))"

definition begin_deletion :: "int \<Rightarrow> (db, pass_end, pass_end) tx" where
  "begin_deletion now =
    bindT (query PassIdle (\<lambda>_. ())) (\<lambda>_.
    bindT (execW PassIdle (claim_deletion now)) (\<lambda>row. case row of None \<Rightarrow> reply PassIdle
    | Some j \<Rightarrow> commit PassIdle (DeletionClaimed j)))"

definition container_prefixes :: "deploy_env \<Rightarrow> string \<Rightarrow> string \<Rightarrow> string list" where
  "container_prefixes dv appID instanceID = concat (map (\<lambda>i. (''cm-'' @ i @ ''-'') #
     (if runtimeScope dv \<noteq> [] then [''cm-'' @ runtimeScope dv @ ''-'' @ i @ ''-''] else []))
     (appID # (if instanceID \<noteq> [] \<and> instanceID \<noteq> appID then [instanceID] else [])))"

definition named_containers :: "engine \<Rightarrow> string list \<Rightarrow> string list" where
  "named_containers en qs = concat (map (\<lambda>q. case en_names en q of Some ns \<Rightarrow> ns | None \<Rightarrow> []) qs)"

text \<open>The volumes of every release of the application; a name that is null is read as the empty string.  The statement fails as a
  whole when one list of volumes is not an array.\<close>

definition release_volumes :: "control_env \<Rightarrow> string \<Rightarrow> worker_db \<Rightarrow> string list" where
  "release_volumes ce appID w = (let vs = map (\<lambda>r. spec_elements (rl_snapshot r) ''volumes'') (filter (\<lambda>r. rl_app r = appID) (releases w)) in
     if None \<in> set vs then [] else remdups (map (\<lambda>v. case json_field ce v ''name'' of Some s \<Rightarrow> s | None \<Rightarrow> []) (concat (map the vs))))"

text \<open>A pass: the containers and volumes it asks the engine to remove.\<close>

definition processAppDeletionOne :: "deploy_env \<Rightarrow> control_env \<Rightarrow> engine \<Rightarrow> faults \<Rightarrow> bool \<Rightarrow> bool \<Rightarrow> bool \<Rightarrow> db \<Rightarrow> pass_end \<times> db" where
  "processAppDeletionOne dv ce en flt lost unread missed d = (case run (begin_deletion (dp_now dv)) flt d of
     (DeletionClaimed j, d1) \<Rightarrow>
       if dp_executor dv = None
       then (DeletionPostponed, autocommit missed (deletion_update (dj_id j) (\<lambda>x. x\<lparr>dj_status := ''queued'', dj_error := Some ''docker unavailable'',
              dj_available := dp_now dv + 10 * 10 ^ 9\<rparr>)) d1)
       else (DeletionFinished (named_containers en (container_prefixes dv (dj_app j) (instance_of lost (dj_app j) (work d1))))
               (map (AppVolumeNameForOwner (dp_sha256 dv) (dp_owner dv) (dj_app j)) (if unread then [] else release_volumes ce (dj_app j) (work d1))),
             autocommit missed (deletion_update (dj_id j) (\<lambda>x. x\<lparr>dj_status := ''succeeded'', dj_updated := dp_now dv\<rparr>)) d1)
   | r \<Rightarrow> r)"

section \<open>The worker: cleaning up after unpaid applications\<close>

definition expired_app :: "int \<Rightarrow> worker_db \<Rightarrow> user_app \<Rightarrow> bool" where
  "expired_app now w a = (case settings w of None \<Rightarrow> False | Some s \<Rightarrow>
     ss_delete_days s > 0 \<and> ua_deleted a = None \<and> ua_status a = ''suspended'' \<and> ua_reason a = Some ''billing_insufficient'' \<and>
     (case ua_suspended a of None \<Rightarrow> False | Some t \<Rightarrow> t \<le> now - ss_delete_days s * nanos_per_day) \<and>
     \<not> app_busy (ua_id a) w \<and> \<not> active_backup (ua_id a) w)"

definition first_expired :: "int \<Rightarrow> worker_db \<Rightarrow> user_app option" where
  "first_expired now w = (case sort_key (\<lambda>a. (case ua_suspended a of Some t \<Rightarrow> t | None \<Rightarrow> 0, ua_id a)) (filter (expired_app now w) (apps w)) of
     [] \<Rightarrow> None | a # _ \<Rightarrow> Some a)"

definition queue_backup_deletion :: "int \<Rightarrow> string \<Rightarrow> app_backup \<Rightarrow> worker_db \<Rightarrow> worker_db" where
  "queue_backup_deletion now userID b w =
    (if list_ex (\<lambda>j. bd_backup j = ab_id b) (backup_deletions w)
     then w\<lparr>backup_deletions := map (\<lambda>j. if bd_backup j = ab_id b \<and> bd_status j = ''failed''
            then j\<lparr>bd_status := ''queued'', bd_attempts := 0, bd_available := now, bd_error := None\<rparr> else j) (backup_deletions w)\<rparr>
     else w\<lparr>backup_deletions := backup_deletions w @ [\<lparr>bd_backup = ab_id b, bd_user = userID, bd_status = ''queued'', bd_attempts = 0,
            bd_available = now, bd_error = None\<rparr>]\<rparr>)"

definition queue_backup_deletions :: "int \<Rightarrow> user_app \<Rightarrow> worker_db \<Rightarrow> worker_db" where
  "queue_backup_deletions now a w = fold (queue_backup_deletion now (ua_user a))
     (filter (\<lambda>b. ab_app b = ua_id a \<and> (ab_status b = ''succeeded'' \<or> ab_status b = ''failed'')) (backups w)) w"

definition cleanup_notice :: "user_app \<Rightarrow> notification" where
  "cleanup_notice a = \<lparr>nt_user = ua_user a, nt_key = ''billing-app-deleted/'' @ ua_id a, nt_kind = ''billing_app_deleted'', nt_severity = ''critical''\<rparr>"

definition queueExpiredBillingSuspendedAppDeletionOne :: "control_env \<Rightarrow> (db, pass_end, pass_end) tx" where
  "queueExpiredBillingSuspendedAppDeletionOne ce =
    (let now = ct_now ce; failed = PassLogged ''billing suspended application cleanup queue failed'' in
     bindT (query PassIdle (\<lambda>_. ())) (\<lambda>_.
     bindT (queryW (PassLogged ''billing suspended application cleanup lookup failed'') (first_expired now)) (\<lambda>row. case row of
       None \<Rightarrow> reply PassIdle
     | Some a \<Rightarrow>
     bindT (updateW failed (drop_routes (ua_id a))) (\<lambda>_.
     bindT (updateW failed (drop_mappings (ua_id a))) (\<lambda>_.
     bindT (updateW failed (app_set (ua_id a) (mark_deleted now))) (\<lambda>_.
     bindT (execW failed (deletion_insert ce (ua_id a))) (\<lambda>_.
     bindT (updateW failed (queue_backup_deletions now a)) (\<lambda>_.
     bindT (updateW failed (notify (cleanup_notice a))) (\<lambda>_.
     bindT (exec failed (audit [] (Some (ua_user a)) ''app.auto_delete.billing_insufficient'' ''user_app'' (ua_id a) (''worker/billing-cleanup/'' @ ua_id a))) (\<lambda>_.
     commit (PassLogged ''billing suspended application cleanup commit failed'') (CleanupQueued (ua_id a))))))))))))"

section \<open>The worker: containers nobody owns\<close>

definition container_app :: "string \<Rightarrow> worker_db \<Rightarrow> user_app option" where
  "container_app i w = find (\<lambda>a. ua_instance a = i \<or> ua_id a = i) (apps w)"

definition keeps_container :: "string \<Rightarrow> string \<Rightarrow> worker_db \<Rightarrow> user_app \<Rightarrow> bool" where
  "keeps_container releaseID name w a =
    ((ua_status a \<in> {''deploying'', ''running'', ''updating''} \<and>
       (list_ex (\<lambda>r. rt_app r = ua_id a \<and> rt_container r = name) (routes w) \<or>
        list_ex (\<lambda>j. jb_app j = ua_id a \<and> jb_release j = releaseID \<and> jb_state j \<noteq> DeploymentSucceeded \<and> jb_state j \<noteq> DeploymentFailed) (jobs w))) \<or>
     (ua_status a = ''stopping'' \<and> list_ex (\<lambda>j. sj_app j = ua_id a \<and> sj_container j = name \<and> pending (sj_status j)) (stop_jobs w)))"

definition reclaims :: "deploy_env \<Rightarrow> worker_db \<Rightarrow> string \<Rightarrow> bool" where
  "reclaims dv w name = (case runtimeContainerIdentity dv name of None \<Rightarrow> False
     | Some (appID, releaseID, legacy) \<Rightarrow> (case container_app appID w of None \<Rightarrow> \<not> legacy
       | Some a \<Rightarrow> \<not> keeps_container releaseID name w a))"

text \<open>The containers a pass asks the engine to remove; \<open>lost\<close> says for which names the query failed, and \<open>now_db\<close> the database each query reads.\<close>

definition reconcileRuntimeContainers :: "deploy_env \<Rightarrow> engine \<Rightarrow> (string \<Rightarrow> bool) \<Rightarrow> (string \<Rightarrow> worker_db) \<Rightarrow> string list" where
  "reconcileRuntimeContainers dv en lost now_db = (if dp_executor dv = None then []
     else case en_names en ''cm-'' of None \<Rightarrow> []
     | Some names \<Rightarrow> filter (\<lambda>name. \<not> lost name \<and> reclaims dv (now_db name) name) names)"

section \<open>The worker: rotating domains\<close>

definition rotatedRouteHostLabel :: "string \<Rightarrow> string \<Rightarrow> string" where
  "rotatedRouteHostLabel slug raw = (let base0 = trim_right_set (to_lower (trim_space slug)) ''-'';
     base = (if length base0 > 50 then trim_right_set (take 50 base0) ''-'' else base0) in base @ ''-'' @ hex_encode raw)"

definition label_taken :: "string \<Rightarrow> string \<Rightarrow> worker_db \<Rightarrow> bool" where
  "label_taken label appID w = list_ex (\<lambda>a. to_lower (ua_host a) = to_lower label \<and> ua_id a \<noteq> appID \<and> ua_deleted a = None) (apps w)"

text \<open>At most 32 labels are tried; \<open>raws\<close> are the random bytes, \<^const>\<open>None\<close> an error of the random source.\<close>

fun label_loop :: "string option list \<Rightarrow> string \<Rightarrow> string \<Rightarrow> (db, pass_end, string option) tx" where
  "label_loop [] slug appID = done_tx None"
| "label_loop (raw # raws) slug appID = (case raw of
     None \<Rightarrow> reply (PassLogged ''application domain label generation failed'')
   | Some bs \<Rightarrow> let label = rotatedRouteHostLabel slug bs in
     bindT (queryW PassIdle (label_taken label appID)) (\<lambda>taken.
     if taken then label_loop raws slug appID else done_tx (Some label)))"

text \<open>The row of \<^verbatim>\<open>audit_logs\<close>: the column \<^verbatim>\<open>request_id\<close> is \<^verbatim>\<open>NOT NULL\<close> and has no default.\<close>

definition audit_insert :: "string \<Rightarrow> string option \<Rightarrow> string \<Rightarrow> string \<Rightarrow> string \<Rightarrow> string option \<Rightarrow> db \<Rightarrow> (unit \<times> db) option" where
  "audit_insert actor subject action ty resource request d = (case request of None \<Rightarrow> None
     | Some r \<Rightarrow> audit actor subject action ty resource r d)"

definition due_refresh :: "int \<Rightarrow> worker_db \<Rightarrow> user_app option" where
  "due_refresh now w = oldest (\<lambda>a. case ua_refresh_next a of Some t \<Rightarrow> t | None \<Rightarrow> 0)
     (\<lambda>a. ua_deleted a = None \<and> (case ua_refresh_next a of Some t \<Rightarrow> t \<le> now | None \<Rightarrow> False)) (apps w)"

definition label_ok :: "string \<Rightarrow> bool" where
  "label_ok s = (s \<noteq> [] \<and> length s \<le> 63 \<and> list_all (\<lambda>c. is_lower c \<or> is_digit c \<or> c = CHR ''-'') s \<and> hd s \<noteq> CHR ''-'' \<and> last s \<noteq> CHR ''-'')"

definition set_label :: "int \<Rightarrow> user_app \<Rightarrow> string \<Rightarrow> worker_db \<Rightarrow> (unit \<times> worker_db) option" where
  "set_label now a label w = (if \<not> label_ok label \<or> label_taken label (ua_id a) w then None
     else Some ((), app_set (ua_id a) (\<lambda>x. x\<lparr>ua_host := label, ua_refreshed := now,
       ua_refresh_next := map_option (\<lambda>days. now + days * nanos_per_day) (ua_refresh_days a)\<rparr>) w))"

definition move_route :: "string \<Rightarrow> string \<Rightarrow> worker_db \<Rightarrow> (unit \<times> worker_db) option" where
  "move_route appID path w = (if list_ex (\<lambda>r. rt_app r = appID) (routes w) \<and> list_ex (\<lambda>r. rt_app r \<noteq> appID \<and> rt_path r = path) (routes w) then None
     else Some ((), w\<lparr>routes := map (\<lambda>r. if rt_app r = appID then r\<lparr>rt_path := path\<rparr> else r) (routes w)\<rparr>))"

definition processDomainRefreshOne :: "int \<Rightarrow> (nat \<Rightarrow> string option) \<Rightarrow> (db, pass_end, pass_end) tx" where
  "processDomainRefreshOne now raws =
    bindT (query PassIdle (\<lambda>_. ())) (\<lambda>_.
    bindT (queryW (PassLogged ''application domain refresh lookup failed'') (\<lambda>w. if settings w = None then None else
      map_option (\<lambda>a. (a, cloud_domain w)) (due_refresh now w))) (\<lambda>row. case row of
      None \<Rightarrow> reply PassIdle
    | Some (a, domain) \<Rightarrow>
    bindT (label_loop (map raws [0..<32]) (ua_slug a) (ua_id a)) (\<lambda>found. case found of
      None \<Rightarrow> reply (PassLogged ''application domain label allocation exhausted'')
    | Some label \<Rightarrow>
    bindT (execW (PassLogged ''application domain refresh failed'') (set_label now a label)) (\<lambda>_.
    bindT (execW (PassLogged ''application route refresh failed'') (move_route (ua_id a) (''//'' @ label @ ''.'' @ domain @ ''/''))) (\<lambda>_.
    bindT (updateW PassIdle (\<lambda>w. w\<lparr>access_grants := filter (\<lambda>g. gr_app g \<noteq> ua_id a) (access_grants w)\<rparr>)) (\<lambda>_.
    bindT (exec PassIdle (audit_insert [] None ''app.domain.refresh'' ''user_app'' (ua_id a) None)) (\<lambda>_.
    commit (PassLogged ''application domain refresh commit failed'') (DomainRefreshed (ua_id a)))))))))"

end
