(* ===== verification/Lifecycle_Machine.thy ===== *)
theory Lifecycle_Machine
  imports Lifecycle Deployment_Rollout
begin

text \<open>
  One application as a small machine: its status, whether it has a release and a route, the operations of its open
  deployment jobs and the number of its open stop jobs.  Every committed request to start, stop or delete an application
  and every pass of the worker that carries one out moves each application along the machine, and the machine keeps
  operations on one application apart.
\<close>

section \<open>The machine\<close>

record app_state =
  as_status :: string
  as_released :: bool
  as_routed :: bool
  as_jobs :: "string list"
  as_stops :: nat

text \<open>Operations that bring back an application without a route.\<close>

definition resumes :: "string \<Rightarrow> bool" where
  "resumes op = (op \<in> {''start'', ''billing_recovery'', ''subscription_recovery''})"

inductive app_step :: "app_state \<Rightarrow> app_state \<Rightarrow> bool" where
  stop: "as_status s = ''running'' \<Longrightarrow> as_jobs s = [] \<Longrightarrow> as_stops s = 0 \<Longrightarrow>
    app_step s (s\<lparr>as_status := ''stopping'', as_routed := False, as_stops := 1\<rparr>)"
| stopped: "as_status s = ''stopping'' \<Longrightarrow> as_stops s = 1 \<Longrightarrow> app_step s (s\<lparr>as_status := ''stopped'', as_stops := 0\<rparr>)"
| start: "as_status s \<in> {''stopped'', ''failed'', ''suspended''} \<Longrightarrow> as_released s \<Longrightarrow> as_jobs s = [] \<Longrightarrow>
    app_step s (s\<lparr>as_status := ''updating'', as_jobs := [''start'']\<rparr>)"
| recover: "as_status s = ''suspended'' \<Longrightarrow> as_released s \<Longrightarrow> as_jobs s = [] \<Longrightarrow>
    app_step s (s\<lparr>as_status := ''updating'', as_jobs := [''billing_recovery'']\<rparr>)"
| succeed: "as_jobs s = [op] \<Longrightarrow> app_step s (s\<lparr>as_status := ''running'', as_released := True, as_routed := True, as_jobs := []\<rparr>)"
| failed: "as_jobs s = [op] \<Longrightarrow> app_step s (s\<lparr>as_status := fst (deploymentFailureState op (as_released s)), as_jobs := []\<rparr>)"
| suspend: "as_status s = ''running'' \<Longrightarrow> app_step s (s\<lparr>as_status := ''suspended'', as_routed := False\<rparr>)"
| delete: "as_jobs s = [] \<Longrightarrow> as_stops s = 0 \<Longrightarrow> app_step s (s\<lparr>as_status := ''stopped'', as_routed := False\<rparr>)"

abbreviation app_path :: "app_state \<Rightarrow> app_state \<Rightarrow> bool" where
  "app_path \<equiv> app_step\<^sup>*\<^sup>*"

inductive_cases app_stepE: "app_step s t"

text \<open>What holds of one application: at most one operation is open at a time and the status says which; a route leads to a
  running or updating application with a release, a running application has a route, and an operation that resumes an
  application finds no route.\<close>

definition app_ok :: "app_state \<Rightarrow> bool" where
  "app_ok s = (length (as_jobs s) \<le> 1 \<and> as_stops s \<le> 1 \<and>
     (as_jobs s \<noteq> [] \<longleftrightarrow> as_status s \<in> {''deploying'', ''updating''}) \<and> (as_stops s = 1 \<longleftrightarrow> as_status s = ''stopping'') \<and>
     (as_routed s \<longrightarrow> as_released s \<and> as_status s \<in> {''running'', ''updating''}) \<and> (as_status s = ''running'' \<longrightarrow> as_routed s) \<and>
     list_all (\<lambda>op. if resumes op then \<not> as_routed s else as_released s \<longrightarrow> as_routed s) (as_jobs s))"

lemma app_step_ok: "app_step s t \<Longrightarrow> app_ok s \<Longrightarrow> app_ok t"
  by (erule app_stepE) (auto simp: app_ok_def resumes_def deploymentFailureState_def le_Suc_eq)

lemma app_path_ok: "app_path s t \<Longrightarrow> app_ok s \<Longrightarrow> app_ok t"
  by (induction rule: rtranclp_induct) (auto intro: app_step_ok)

section \<open>The applications of the database\<close>

definition app_state :: "string \<Rightarrow> worker_db \<Rightarrow> app_state" where
  "app_state i w = \<lparr>as_status = (case app_of i w of Some a \<Rightarrow> ua_status a | None \<Rightarrow> []),
     as_released = (case app_of i w of Some a \<Rightarrow> ua_release a \<noteq> None | None \<Rightarrow> False),
     as_routed = list_ex (\<lambda>r. rt_app r = i) (routes w),
     as_jobs = map jb_operation (filter (\<lambda>j. jb_app j = i \<and> open_job j) (jobs w)),
     as_stops = length (filter (\<lambda>j. sj_app j = i \<and> pending (sj_status j)) (stop_jobs w))\<rparr>"

definition life_ids :: "worker_db \<Rightarrow> bool" where
  "life_ids w = (distinct (map ua_id (apps w)) \<and> distinct (map jb_id (jobs w)) \<and> distinct (map sj_id (stop_jobs w)))"

definition life_ok :: "worker_db \<Rightarrow> bool" where
  "life_ok w = (life_ids w \<and> (\<forall>i. app_ok (app_state i w)))"

text \<open>Moving every application along the machine and keeping identifiers.\<close>

definition moves :: "worker_db \<Rightarrow> worker_db \<Rightarrow> bool" where
  "moves w w' = (life_ids w' \<and> (\<forall>i. app_path (app_state i w) (app_state i w')))"

lemma moves_ok: "moves w w' \<Longrightarrow> life_ok w \<Longrightarrow> life_ok w'"
  unfolding moves_def life_ok_def using app_path_ok by blast

lemma moves_refl: "life_ok w \<Longrightarrow> moves w w"
  by (simp add: moves_def life_ok_def)

lemma moves_trans: "moves w1 w2 \<Longrightarrow> moves w2 w3 \<Longrightarrow> moves w1 w3"
  unfolding moves_def by (meson rtranclp_trans)

text \<open>The part of the database the machine looks at.\<close>

definition life_part :: "worker_db \<Rightarrow> _" where
  "life_part w = (map (\<lambda>a. (ua_id a, ua_status a, ua_release a \<noteq> None)) (apps w), map rt_app (routes w),
     map (\<lambda>j. (jb_id j, jb_app j, jb_operation j, open_job j)) (jobs w), map (\<lambda>j. (sj_id j, sj_app j, pending (sj_status j))) (stop_jobs w))"

lemma find_views:
  assumes "map (\<lambda>a. (f a, g a)) xs = map (\<lambda>a. (f a, g a)) ys"
  shows "map_option g (find (\<lambda>a. f a = i) xs) = map_option g (find (\<lambda>a. f a = i) ys)"
  using assms
proof (induction xs arbitrary: ys)
  case (Cons x xs)
  then obtain y zs where "ys = y # zs" "f x = f y" "g x = g y" "map (\<lambda>a. (f a, g a)) xs = map (\<lambda>a. (f a, g a)) zs"
    by (cases ys) auto
  then show ?case using Cons.IH by simp
qed simp

lemma filter_views:
  assumes "map v xs = map v ys" "\<And>x y. v x = v y \<Longrightarrow> P x = P y \<and> f x = f y"
  shows "map f (filter P xs) = map f (filter P ys)"
  using assms(1)
proof (induction xs arbitrary: ys)
  case (Cons x xs)
  then obtain y zs where ys: "ys = y # zs" "v x = v y" "map v xs = map v zs" by (cases ys) auto
  have "map f (filter P xs) = map f (filter P zs)" by (rule Cons.IH [OF ys(3)])
  then show ?case using assms(2) [OF ys(2)] by (simp add: ys(1))
qed simp

lemma life_part_state:
  assumes "life_part w' = life_part w"
  shows "app_state i w' = app_state i w"
proof -
  have a: "map_option (\<lambda>a. (ua_status a, ua_release a \<noteq> None)) (app_of i w') = map_option (\<lambda>a. (ua_status a, ua_release a \<noteq> None)) (app_of i w)"
    unfolding app_of_def using assms by (intro find_views) (simp add: life_part_def)
  have j: "map jb_operation (filter (\<lambda>j. jb_app j = i \<and> open_job j) (jobs w')) = map jb_operation (filter (\<lambda>j. jb_app j = i \<and> open_job j) (jobs w))"
    by (rule filter_views [where v = "\<lambda>j. (jb_id j, jb_app j, jb_operation j, open_job j)"]) (use assms in \<open>auto simp: life_part_def\<close>)
  have s: "map sj_id (filter (\<lambda>j. sj_app j = i \<and> pending (sj_status j)) (stop_jobs w')) = map sj_id (filter (\<lambda>j. sj_app j = i \<and> pending (sj_status j)) (stop_jobs w))"
    by (rule filter_views [where v = "\<lambda>j. (sj_id j, sj_app j, pending (sj_status j))"]) (use assms in \<open>auto simp: life_part_def\<close>)
  have r: "list_ex (\<lambda>r. rt_app r = i) (routes v) = (i \<in> set (map rt_app (routes v)))" for v by (auto simp: list_ex_iff)
  have "map rt_app (routes w') = map rt_app (routes w)" using assms by (simp add: life_part_def)
  moreover have "length (filter (\<lambda>j. sj_app j = i \<and> pending (sj_status j)) (stop_jobs w')) = length (filter (\<lambda>j. sj_app j = i \<and> pending (sj_status j)) (stop_jobs w))"
    using arg_cong [OF s, of length] by simp
  ultimately show ?thesis using a j unfolding app_state_def r by (auto split: option.splits)
qed

lemma life_part_ids:
  assumes "life_part w' = life_part w"
  shows "life_ids w' = life_ids w"
proof -
  have "map ua_id (apps w') = map ua_id (apps w)" "map jb_id (jobs w') = map jb_id (jobs w)" "map sj_id (stop_jobs w') = map sj_id (stop_jobs w)"
    using assms by (auto simp: life_part_def dest!: arg_cong [where f = "map fst"] simp: o_def)
  then show ?thesis by (simp add: life_ids_def)
qed

lemma life_part_moves: "life_part w' = life_part w \<Longrightarrow> life_ok w \<Longrightarrow> moves w w'"
  unfolding moves_def using life_part_ids life_part_state life_ok_def by (metis rtranclp.rtrancl_refl)

section \<open>Statements on applications\<close>

lemma exec_Next [simp]: "exec err g flt n s = Next t n' z \<longleftrightarrow> \<not> flt n \<and> n' = Suc n \<and> g s = Some (z, t)"
  "require err h flt n s = Next t n' y \<longleftrightarrow> \<not> flt n \<and> n' = Suc n \<and> t = s \<and> h s = Some y"
  "exec err g flt n s \<noteq> Commit t r" "require err h flt n s \<noteq> Commit t r"
  by (auto simp: exec_def require_def split: option.split)

lemma audit_Some [simp]: "audit ac su act ty re rq d = Some (u, d') \<longleftrightarrow> d' = d\<lparr>audits := audits d @
     [\<lparr>al_actor = ac, al_subject = su, al_action = act, al_type = ty, al_resource = re, al_request = rq\<rparr>]\<rparr>"
  by (auto simp: audit_def)

lemma app_of_update:
  assumes "\<And>a. ua_id (f a) = ua_id a"
  shows "app_of k (app_update p f w) = map_option (\<lambda>a. if p a then f a else a) (app_of k w)"
proof -
  have "find (\<lambda>a. ua_id a = k) (map (\<lambda>a. if p a then f a else a) as) = map_option (\<lambda>a. if p a then f a else a) (find (\<lambda>a. ua_id a = k) as)" for as
    by (induction as) (auto simp: assms)
  then show ?thesis by (simp add: app_of_def app_update_def)
qed

lemma app_of_id: "app_of k w = Some a \<Longrightarrow> ua_id a = k \<and> a \<in> set (apps w)"
  by (auto simp: app_of_def find_Some_iff)

lemma app_of_set:
  assumes "\<And>a. ua_id (f a) = ua_id a"
  shows "app_of k (app_set i f w) = (if k = i then map_option f (app_of k w) else app_of k w)"
  unfolding app_set_def app_of_update [OF assms] by (cases "app_of k w") (auto dest: app_of_id)

lemma app_set_parts [simp]:
  "routes (app_set i f w) = routes w" "jobs (app_set i f w) = jobs w" "stop_jobs (app_set i f w) = stop_jobs w"
  "releases (app_set i f w) = releases w" "settings (app_set i f w) = settings w"
  by (simp_all add: app_set_def app_update_def)

lemma drop_parts [simp]:
  "apps (drop_routes i w) = apps w" "jobs (drop_routes i w) = jobs w" "stop_jobs (drop_routes i w) = stop_jobs w"
  "apps (drop_mappings i w) = apps w" "jobs (drop_mappings i w) = jobs w" "stop_jobs (drop_mappings i w) = stop_jobs w"
  "routes (drop_mappings i w) = routes w" "routes (drop_routes i w) = filter (\<lambda>r. rt_app r \<noteq> i) (routes w)"
  by (simp_all add: drop_routes_def drop_mappings_def)

lemma app_of_frame [simp]:
  "app_of k (drop_routes i w) = app_of k w" "app_of k (drop_mappings i w) = app_of k w" "app_of k (w\<lparr>stop_jobs := sj\<rparr>) = app_of k w"
  "app_of k (w\<lparr>releases := rl, jobs := js\<rparr>) = app_of k w"
  by (simp_all add: app_of_def drop_routes_def drop_mappings_def)

lemma list_ex_filter_other: "list_ex (\<lambda>r. rt_app r = k) (filter (\<lambda>r. rt_app r \<noteq> i) rs) \<longleftrightarrow> k \<noteq> i \<and> list_ex (\<lambda>r. rt_app r = k) rs"
  by (auto simp: list_ex_iff)

lemma owned_app_of:
  assumes "life_ids w" "owned_app i u w = Some a"
  shows "app_of i w = Some a" "ua_id a = i" "ua_user a = u" "a \<in> set (apps w)"
proof -
  show a: "ua_id a = i" "ua_user a = u" "a \<in> set (apps w)" using assms(2) by (auto simp: owned_app_def find_Some_iff)
  have "find (\<lambda>x. ua_id x = ua_id a) xs = Some a" if "a \<in> set xs" "distinct (map ua_id xs)" for xs
    using that by (induction xs) auto
  then show "app_of i w = Some a" using a assms(1) by (auto simp: app_of_def life_ids_def)
qed

lemma active_job_open: "active_job i w \<longleftrightarrow> as_jobs (app_state i w) \<noteq> []"
  by (auto simp: active_job_def app_state_def open_job_def list_ex_iff filter_empty_conv)

lemma active_stop_open: "active_stop i w \<longleftrightarrow> as_stops (app_state i w) \<noteq> 0"
  by (auto simp: active_stop_def app_state_def list_ex_iff filter_empty_conv)

lemma app_state_known: "app_of i w = Some a \<Longrightarrow> as_status (app_state i w) = ua_status a \<and> as_released (app_state i w) = (ua_release a \<noteq> None)"
  by (simp add: app_state_def)

lemma map_ids_set [simp]: "(\<And>a. ua_id (f a) = ua_id a) \<Longrightarrow> map ua_id (apps (app_set i f w)) = map ua_id (apps w)"
  by (auto simp: app_set_def app_update_def)

section \<open>Requests\<close>

lemma stop_insert_Some: "stop_insert j w = Some (u, w') \<longleftrightarrow>
    \<not> list_ex (\<lambda>x. sj_id x = sj_id j \<or> (sj_app x = sj_app j \<and> sj_key x = sj_key j)) (stop_jobs w) \<and> \<not> active_stop (sj_app j) w \<and>
    u = sj_id j \<and> w' = w\<lparr>stop_jobs := stop_jobs w @ [j]\<rparr>"
  by (auto simp: stop_insert_def)

definition stopped_by :: "control_env \<Rightarrow> user_app \<Rightarrow> string \<Rightarrow> string \<Rightarrow> worker_db \<Rightarrow> worker_db" where
  "stopped_by ce a container key w = app_set (ua_id a) (\<lambda>x. x\<lparr>ua_status := ''stopping'', ua_reason := None\<rparr>)
     (drop_routes (ua_id a) (w\<lparr>stop_jobs := stop_jobs w @ [new_stop ce a container key]\<rparr>))"

lemma stopApp_Commit:
  assumes "stopApp p ce path body flt n d = Commit d' r"
  shows "(work d' = work d \<and> status_of r = 200) \<or> (\<exists>a key container. status_of r = 202 \<and> owned_app (trim_space path) (p_id p) (work d) = Some a \<and> ua_status a = ''running'' \<and>
     \<not> active_job (ua_id a) (work d) \<and> \<not> active_restore (ua_id a) (work d) \<and> stop_dependents ce a (work d) = Some [] \<and>
     container = old_container (trim_space path) (work d) \<and> stop_insert (new_stop ce a container key) (work d) \<noteq> None \<and>
     decodeAppControlRequest body = Inr key \<and> work d' = stopped_by ce a container key (work d))"
  using assms unfolding stopApp_def stop_owned_def queue_stop_def begin_tx_def Let_def
  by (auto simp: bindT_Commit stop_insert_Some stopped_by_def stopped_reply_def split: if_split_asm option.split_asm sum.split_asm prod.split_asm)

lemma stopApp_moves:
  assumes "stopApp p ce path body flt n d = Commit d' r" "life_ok (work d)"
  shows "moves (work d) (work d')"
proof (cases "work d' = work d")
  case False
  then obtain a key container where a: "owned_app (trim_space path) (p_id p) (work d) = Some a" "ua_status a = ''running''"
      "\<not> active_job (ua_id a) (work d)" and ins: "stop_insert (new_stop ce a container key) (work d) \<noteq> None"
    and w: "work d' = stopped_by ce a container key (work d)"
    using stopApp_Commit [OF assms(1)] by blast
  let ?w = "work d" and ?i = "ua_id a"
  have ids: "life_ids ?w" using assms(2) by (simp add: life_ok_def)
  have ao: "app_of ?i ?w = Some a" using owned_app_of [OF ids a(1)] by simp
  have fresh: "ct_stop ce \<notin> sj_id ` set (stop_jobs ?w)" and idle: "\<not> active_stop ?i ?w"
    using ins by (auto simp: stop_insert_def new_stop_def list_ex_iff split: if_split_asm)
  have st: "app_state k (work d') = (if k = ?i then (app_state k ?w)\<lparr>as_status := ''stopping'', as_routed := False, as_stops := Suc (as_stops (app_state k ?w))\<rparr>
      else app_state k ?w)" for k
    by (auto simp: w stopped_by_def app_state_def app_of_set list_ex_filter_other new_stop_def pending_def ao)
  have "app_path (app_state k ?w) (app_state k (work d'))" for k
  proof (cases "k = ?i")
    case True
    have "as_stops (app_state ?i ?w) = 0" "as_jobs (app_state ?i ?w) = []" using idle a(3) by (simp_all add: active_stop_open active_job_open)
    then show ?thesis using True app_step.stop [of "app_state ?i ?w"] app_state_known [OF ao] a(2) by (auto simp: st)
  qed (simp add: st)
  moreover have "life_ids (work d')" using ids fresh by (auto simp: w stopped_by_def life_ids_def new_stop_def)
  ultimately show ?thesis by (simp add: moves_def)
qed (use assms(2) in \<open>simp add: moves_refl\<close>)

definition started_by :: "control_env \<Rightarrow> user_app \<Rightarrow> string \<Rightarrow> app_release \<Rightarrow> worker_db \<Rightarrow> worker_db" where
  "started_by ce a key src w = app_set (ua_id a) (\<lambda>x. x\<lparr>ua_status := ''updating'', ua_reason := None, ua_suspended := None\<rparr>)
     (w\<lparr>releases := releases w @ [start_release_row ce (ua_id a) src (next_release_number (ua_id a) w)],
        jobs := jobs w @ [start_job ce (ua_id a) (ct_release ce) key (rl_id src)]\<rparr>)"

definition funded :: "int \<Rightarrow> string \<Rightarrow> db \<Rightarrow> bool" where
  "funded now userID d = (case settings (work d) of None \<Rightarrow> False
     | Some s \<Rightarrow> wrap64 ((case wallet_of userID d of Some v \<Rightarrow> w_balance v | None \<Rightarrow> 0) + credit_total now userID d) \<ge> ss_reserve s)"

definition deps_running :: "string \<Rightarrow> string \<Rightarrow> gomap \<Rightarrow> worker_db \<Rightarrow> bool" where
  "deps_running userID appID spec w = (case RuntimeDependencies spec of Inl e \<Rightarrow> False
     | Inr deps \<Rightarrow> list_all (\<lambda>dep. dep_required dep \<longrightarrow> dependency_ready userID appID dep w) deps)"

lemma enforceMinimumStartupBalance_Next:
  "enforceMinimumStartupBalance now u flt n d = Next t n' x \<Longrightarrow> t = d \<and> funded now u d"
  by (auto simp: enforceMinimumStartupBalance_def bindT_Next funded_def Let_def split: option.split_asm if_split_asm)

lemma missing_loop_Next:
  "missing_loop u i ms deps flt n d = Next t n' xs \<Longrightarrow> t = d \<and> xs = ms @ filter (\<lambda>dep. dep_required dep \<and> \<not> dependency_ready u i dep (work d)) deps"
proof (induction deps arbitrary: ms n)
  case (Cons dep deps)
  then show ?case by (auto simp: bindT_Next split: if_split_asm dest!: Cons.IH)
qed auto

lemma check_start_Next: "check_start u i snap flt n d = Next t n' x \<Longrightarrow> t = d \<and> deps_running u i (snapshotRuntime snap) (work d) \<and>
    missingSnapshotSecrets snap = Inr [] \<and> ok (enforceRuntimeEntitlements (snapshotRuntime snap))"
  unfolding check_start_def missingRuntimeDependencies_def
  by (auto simp: bindT_Next deps_running_def filter_empty_conv list_all_iff dest!: missing_loop_Next split: sum.split_asm if_split_asm)

lemma no_commit_checks [simp]:
  "enforceMinimumStartupBalance now u flt n d \<noteq> Commit t r" "check_start u i snap flt n d \<noteq> Commit t r"
proof -
  have m: "missing_loop u i ms deps flt n d \<noteq> Commit t r" for ms deps n
    by (induction deps arbitrary: ms n) (auto simp: bindT_Commit)
  show "enforceMinimumStartupBalance now u flt n d \<noteq> Commit t r"
    by (auto simp: enforceMinimumStartupBalance_def bindT_Commit Let_def split: prod.split)
  show "check_start u i snap flt n d \<noteq> Commit t r"
    by (auto simp: check_start_def missingRuntimeDependencies_def bindT_Commit m split: sum.split_asm if_split_asm)
qed

lemma release_insert_Some: "release_insert r w = Some (u, w') \<longleftrightarrow>
    \<not> list_ex (\<lambda>x. rl_id x = rl_id r \<or> (rl_app x = rl_app r \<and> rl_number x = rl_number r)) (releases w) \<and> u = rl_id r \<and> w' = w\<lparr>releases := releases w @ [r]\<rparr>"
  by (auto simp: release_insert_def)

lemma job_insert_Some: "job_insert j w = Some (u, w') \<longleftrightarrow>
    \<not> list_ex (\<lambda>x. jb_id x = jb_id j \<or> jb_key x = jb_key j) (jobs w) \<and> \<not> active_job (jb_app j) w \<and> u = jb_id j \<and> w' = w\<lparr>jobs := jobs w @ [j]\<rparr>"
  by (auto simp: job_insert_def)

text \<open>What has to hold for a start to be accepted.\<close>

definition startable :: "user_app \<Rightarrow> bool" where
  "startable a = (ua_release a \<noteq> None \<and> (ua_status a \<in> {''stopped'', ''failed''} \<or> billing_stopped a))"

lemma startApp_Commit:
  assumes "startApp p ce path body flt n d = Commit d' r"
  shows "(work d' = work d \<and> status_of r = 200) \<or> (\<exists>a key src. status_of r = 202 \<and> owned_app (trim_space path) (p_id p) (work d) = Some a \<and> startable a \<and>
     decodeAppControlRequest body = Inr key \<and> funded (ct_now ce) (p_id p) d \<and> ua_release a = Some (rl_id src) \<and>
     release_of (rl_id src) (ua_id a) (work d) = Some src \<and> deps_running (p_id p) (ua_id a) (snapshotRuntime (rl_snapshot src)) (work d) \<and>
     missingSnapshotSecrets (rl_snapshot src) = Inr [] \<and>
     job_insert (start_job ce (ua_id a) (ct_release ce) key (rl_id src)) (work d) \<noteq> None \<and> work d' = started_by ce a key src (work d))"
proof -
  have rid: "release_of i app w = Some src \<Longrightarrow> rl_id src = i" for i app w src by (auto simp: release_of_def find_Some_iff)
  consider "work d' = work d" "status_of r = 200" | a key m where "owned_app (trim_space path) (p_id p) (work d) = Some a" "decodeAppControlRequest body = Inr key"
    "start_owned p ce a key flt m d = Commit d' r"
    using assms unfolding startApp_def begin_tx_def Let_def enforceDeploymentConcurrency_def
    by (auto simp: bindT_Commit split: if_split_asm option.split_asm sum.split_asm)
  then show ?thesis
  proof cases
    case a: (2 a key m)
    obtain src m2 where s: "startable a" "ua_release a = Some (rl_id src)" "funded (ct_now ce) (p_id p) d" "release_of (rl_id src) (ua_id a) (work d) = Some src"
      "deps_running (p_id p) (ua_id a) (snapshotRuntime (rl_snapshot src)) (work d)" "missingSnapshotSecrets (rl_snapshot src) = Inr []"
      "queue_start p ce (ua_id a) key src flt m2 d = Commit d' r"
      using a(3) unfolding start_owned_def
      by (auto simp: bindT_Commit startable_def dest!: enforceMinimumStartupBalance_Next check_start_Next dest: rid split: if_split_asm option.split_asm)
    then have "job_insert (start_job ce (ua_id a) (ct_release ce) key (rl_id src)) (work d) \<noteq> None \<and> work d' = started_by ce a key src (work d) \<and> status_of r = 202"
      unfolding queue_start_def
      by (auto simp: bindT_Commit release_insert_Some job_insert_Some started_by_def start_release_row_def active_job_def)
    then show ?thesis using a s by blast
  qed blast
qed

lemma startApp_moves:
  assumes "startApp p ce path body flt n d = Commit d' r" "life_ok (work d)"
  shows "moves (work d) (work d')"
proof (cases "work d' = work d")
  case False
  then obtain a key src where a: "owned_app (trim_space path) (p_id p) (work d) = Some a" "startable a"
    and ins: "job_insert (start_job ce (ua_id a) (ct_release ce) key (rl_id src)) (work d) \<noteq> None" and w: "work d' = started_by ce a key src (work d)"
    using startApp_Commit [OF assms(1)] by blast
  let ?w = "work d" and ?i = "ua_id a"
  have ids: "life_ids ?w" using assms(2) by (simp add: life_ok_def)
  have ao: "app_of ?i ?w = Some a" using owned_app_of [OF ids a(1)] by simp
  have fresh: "ct_job ce \<notin> jb_id ` set (jobs ?w)" and idle: "\<not> active_job ?i ?w"
    using ins by (auto simp: job_insert_def start_job_def list_ex_iff split: if_split_asm)
  then have none: "as_jobs (app_state ?i ?w) = []" by (simp add: active_job_open)
  have st: "app_state k (work d') = (if k = ?i then (app_state k ?w)\<lparr>as_status := ''updating'', as_jobs := as_jobs (app_state k ?w) @ [''start'']\<rparr> else app_state k ?w)" for k
    by (auto simp: w started_by_def app_state_def app_of_set start_job_def open_job_def ao)
  have "app_path (app_state k ?w) (app_state k (work d'))" for k
  proof (cases "k = ?i")
    case True
    have "as_status (app_state ?i ?w) \<in> {''stopped'', ''failed'', ''suspended''}" "as_released (app_state ?i ?w)"
      using a(2) app_state_known [OF ao] by (auto simp: startable_def billing_stopped_def)
    then show ?thesis using True app_step.start [of "app_state ?i ?w"] none by (auto simp: st)
  qed (simp add: st)
  moreover have "life_ids (work d')" using ids fresh by (auto simp: w started_by_def life_ids_def start_job_def)
  ultimately show ?thesis by (simp add: moves_def)
qed (use assms(2) in \<open>simp add: moves_refl\<close>)

text \<open>Deleting, by request or after the retention period.\<close>

definition removed_by :: "int \<Rightarrow> string \<Rightarrow> worker_db \<Rightarrow> worker_db" where
  "removed_by now i w = app_set i (mark_deleted now) (drop_mappings i (drop_routes i w))"

lemma removed_moves:
  assumes "life_ok w" "app_of i w = Some a" "\<not> active_job i w" "\<not> active_stop i w" "life_part w' = life_part (removed_by now i w)"
  shows "moves w w'"
proof -
  have st: "app_state k w' = (if k = i then (app_state k w)\<lparr>as_status := ''stopped'', as_routed := False\<rparr> else app_state k w)" for k
    unfolding life_part_state [OF assms(5)]
    by (auto simp: removed_by_def app_state_def app_of_set mark_deleted_def list_ex_filter_other assms(2))
  have "app_path (app_state k w) (app_state k w')" for k
    using app_step.delete [of "app_state i w"] assms(3,4) by (auto simp: st active_job_open active_stop_open)
  moreover have "life_ids w'" unfolding life_part_ids [OF assms(5)] using assms(1)
    by (simp add: removed_by_def life_ids_def life_ok_def mark_deleted_def)
  ultimately show ?thesis by (simp add: moves_def)
qed

lemma deletion_insert_part: "deletion_insert ce i w = Some (u, w') \<Longrightarrow> life_part w' = life_part w"
  by (auto simp: deletion_insert_def life_part_def split: if_split_asm)

lemma life_part_statements [simp]:
  "life_part (notify m w) = life_part w" "life_part (queue_backup_deletions now a w) = life_part w"
proof -
  show "life_part (notify m w) = life_part w" by (simp add: notify_def life_part_def)
  have "life_part (queue_backup_deletion now u b w) = life_part w" for u b w by (simp add: queue_backup_deletion_def life_part_def)
  then have "life_part (fold (queue_backup_deletion now u) bs w) = life_part w" for u bs by (induction bs arbitrary: w) simp_all
  then show "life_part (queue_backup_deletions now a w) = life_part w" by (simp add: queue_backup_deletions_def)
qed

lemma deleteApp_Commit:
  assumes "deleteApp p ce path flt n d = Commit d' r"
  shows "\<exists>a. owned_app (trim_space path) (p_id p) (work d) = Some a \<and> ua_deleted a = None \<and> \<not> app_busy (trim_space path) (work d) \<and>
     delete_dependents ce a (p_id p) (work d) = Some [] \<and> deletion_insert ce (trim_space path) (removed_by (ct_now ce) (trim_space path) (work d)) = Some ((), work d')"
  using assms unfolding deleteApp_def begin_tx_def Let_def
  by (auto simp: bindT_Commit removed_by_def split: if_split_asm option.split_asm)

lemma deleteApp_moves:
  assumes "deleteApp p ce path flt n d = Commit d' r" "life_ok (work d)"
  shows "moves (work d) (work d')"
proof -
  from deleteApp_Commit [OF assms(1)] obtain a where a: "owned_app (trim_space path) (p_id p) (work d) = Some a" "\<not> app_busy (trim_space path) (work d)"
    "deletion_insert ce (trim_space path) (removed_by (ct_now ce) (trim_space path) (work d)) = Some ((), work d')" by blast
  have "life_ids (work d)" using assms(2) by (simp add: life_ok_def)
  with a show ?thesis using owned_app_of [OF _ a(1)] removed_moves [OF assms(2)] deletion_insert_part [OF a(3)] by (auto simp: app_busy_def)
qed

section \<open>Passes that stop and delete\<close>

lemma first_expired_Some: "first_expired now w = Some a \<Longrightarrow> a \<in> set (apps w) \<and> expired_app now w a"
  unfolding first_expired_def by (auto split: list.split_asm dest!: arg_cong [where f = set])

lemma cleanup_Commit:
  assumes "queueExpiredBillingSuspendedAppDeletionOne ce flt n d = Commit d' r"
  shows "\<exists>a w1. first_expired (ct_now ce) (work d) = Some a \<and> deletion_insert ce (ua_id a) (removed_by (ct_now ce) (ua_id a) (work d)) = Some ((), w1) \<and>
     work d' = notify (cleanup_notice a) (queue_backup_deletions (ct_now ce) a w1) \<and> r = CleanupQueued (ua_id a)"
  using assms unfolding queueExpiredBillingSuspendedAppDeletionOne_def Let_def
  by (auto simp: bindT_Commit removed_by_def split: option.split_asm)

lemma app_of_member: "life_ids w \<Longrightarrow> a \<in> set (apps w) \<Longrightarrow> app_of (ua_id a) w = Some a"
proof -
  have "find (\<lambda>x. ua_id x = ua_id a) xs = Some a" if "a \<in> set xs" "distinct (map ua_id xs)" for xs
    using that by (induction xs) auto
  then show "life_ids w \<Longrightarrow> a \<in> set (apps w) \<Longrightarrow> app_of (ua_id a) w = Some a" by (simp add: app_of_def life_ids_def)
qed

lemma list_ex_app:
  assumes "life_ids w"
  shows "list_ex (\<lambda>a. ua_id a = k \<and> P a) (apps w) \<longleftrightarrow> (\<exists>a. app_of k w = Some a \<and> P a)"
proof
  assume "list_ex (\<lambda>a. ua_id a = k \<and> P a) (apps w)"
  then obtain a where "a \<in> set (apps w)" "ua_id a = k" "P a" by (auto simp: list_ex_iff)
  then show "\<exists>a. app_of k w = Some a \<and> P a" using app_of_member [OF assms] by blast
next
  assume "\<exists>a. app_of k w = Some a \<and> P a"
  then show "list_ex (\<lambda>a. ua_id a = k \<and> P a) (apps w)" using app_of_id by (auto simp: list_ex_iff)
qed

lemma cleanup_moves:
  assumes "queueExpiredBillingSuspendedAppDeletionOne ce flt n d = Commit d' r" "life_ok (work d)"
  shows "moves (work d) (work d')"
proof -
  from cleanup_Commit [OF assms(1)] obtain a w1 where a: "first_expired (ct_now ce) (work d) = Some a"
    "deletion_insert ce (ua_id a) (removed_by (ct_now ce) (ua_id a) (work d)) = Some ((), w1)"
    "work d' = notify (cleanup_notice a) (queue_backup_deletions (ct_now ce) a w1)" by blast
  have e: "a \<in> set (apps (work d))" "expired_app (ct_now ce) (work d) a" using first_expired_Some [OF a(1)] by auto
  have "\<not> app_busy (ua_id a) (work d)" using e(2) by (auto simp: expired_app_def split: option.split_asm)
  moreover have "life_ids (work d)" using assms(2) by (simp add: life_ok_def)
  ultimately show ?thesis using removed_moves [OF assms(2) app_of_member [OF _ e(1)]] deletion_insert_part [OF a(2)]
    by (auto simp: app_busy_def a(3))
qed

text \<open>Closing one row of a queue in which at most one row satisfies \<open>P\<close>.\<close>

lemma distinct_key_eq: "distinct (map key xs) \<Longrightarrow> x \<in> set xs \<Longrightarrow> y \<in> set xs \<Longrightarrow> key x = key y \<Longrightarrow> x = y"
  by (simp add: distinct_map inj_on_def)

lemma close_one:
  assumes "distinct (map key xs)" "x \<in> set xs" "P x" "length (filter P xs) \<le> 1" "\<And>z. \<not> P (f z)"
  shows "filter P (map (\<lambda>z. if key z = key x then f z else z) xs) = []" "filter P xs = [x]"
proof -
  have "x \<in> set (filter P xs)" using assms(2,3) by simp
  then show 1: "filter P xs = [x]" using assms(4) by (cases "filter P xs") auto
  have "\<not> P z" if "z \<in> set xs" "key z \<noteq> key x" for z
  proof
    assume "P z"
    then have "z \<in> set (filter P xs)" using that by simp
    then show False using 1 that(2) by simp
  qed
  then show "filter P (map (\<lambda>z. if key z = key x then f z else z) xs) = []" using assms(5) by (auto simp: filter_empty_conv)
qed

lemma close_other:
  assumes "distinct (map key xs)" "x \<in> set xs" "\<not> P x" "\<not> P (f x)"
  shows "filter P (map (\<lambda>z. if key z = key x then f z else z) xs) = filter P xs"
proof -
  have same: "map (\<lambda>z. if key z = key x then f z else z) xs = map (\<lambda>z. if z = x then f x else z) xs"
    using distinct_key_eq [OF assms(1) _ assms(2)] by (intro map_cong) auto
  have "filter P (map (\<lambda>z. if z = x then f x else z) ys) = filter P ys" for ys by (induction ys) (auto simp: assms(3,4))
  then show ?thesis by (simp only: same)
qed

lemma oldest_mem: "oldest t p xs = Some x \<Longrightarrow> x \<in> set xs \<and> p x"
  unfolding oldest_def by (auto split: list.split_asm dest!: arg_cong [where f = set])

lemma begin_stop_Commit:
  assumes "begin_stop now flt n d = Commit d' r"
  shows "\<exists>j. oldest sj_created (stop_due now) (stop_jobs (work d)) = Some j \<and> r = StopClaimed (claimed_stop now j) \<and>
     d' = d\<lparr>work := stop_update (\<lambda>x. sj_id x = sj_id j) (claimed_stop now) (work d)\<rparr>"
  using assms unfolding begin_stop_def claim_stop_def by (auto simp: bindT_Commit split: option.split_asm)

lemma begin_stop_moves:
  assumes "begin_stop now flt n d = Commit d' r" "life_ok (work d)"
  shows "moves (work d) (work d')"
proof -
  from begin_stop_Commit [OF assms(1)] obtain j where j: "oldest sj_created (stop_due now) (stop_jobs (work d)) = Some j"
    "d' = d\<lparr>work := stop_update (\<lambda>x. sj_id x = sj_id j) (claimed_stop now) (work d)\<rparr>" by blast
  have "j \<in> set (stop_jobs (work d))" "pending (sj_status j)" using oldest_mem [OF j(1)] by (auto simp: stop_due_def pending_def)
  moreover have "distinct (map sj_id (stop_jobs (work d)))" using assms(2) by (simp add: life_ok_def life_ids_def)
  ultimately have "pending (sj_status x)" if "x \<in> set (stop_jobs (work d))" "sj_id x = sj_id j" for x using distinct_key_eq that by metis
  then have "life_part (work d') = life_part (work d)" by (auto simp: j(2) life_part_def stop_update_def claimed_stop_def pending_def)
  then show ?thesis using assms(2) by (rule life_part_moves)
qed

lemma requeue_moves: "life_ok w \<Longrightarrow> moves w (requeue_stop now j err w)"
  by (rule life_part_moves) (auto simp: life_part_def requeue_stop_def stop_update_def pending_def)

text \<open>The row the pass has claimed is still there and running.\<close>

definition claimed :: "stop_job \<Rightarrow> worker_db \<Rightarrow> bool" where
  "claimed j w = list_ex (\<lambda>x. sj_id x = sj_id j \<and> sj_app x = sj_app j \<and> sj_status x = ''running'') (stop_jobs w)"

definition finished_stop :: "int \<Rightarrow> stop_job \<Rightarrow> worker_db \<Rightarrow> worker_db" where
  "finished_stop now j w = app_update (\<lambda>a. ua_id a = sj_app j \<and> ua_status a = ''stopping'') (\<lambda>a. a\<lparr>ua_status := ''stopped'', ua_reason := None\<rparr>)
     (stop_update (\<lambda>x. sj_id x = sj_id j \<and> sj_status x = ''running'') (\<lambda>x. x\<lparr>sj_status := ''succeeded'', sj_error := None, sj_updated := now\<rparr>) w)"

lemma audit_stopped_work: "audit_stopped j d = Some (u, d') \<Longrightarrow> work d' = work d"
  by (auto simp: audit_stopped_def split: option.split_asm)

lemma finish_stop_Commit:
  assumes "finish_stop now j flt n d = Commit d' r"
  shows "work d' = finished_stop now j (work d) \<and> r = StopFinished"
proof -
  have "\<exists>u. audit_stopped j (d\<lparr>work := finished_stop now j (work d)\<rparr>) = Some (u, d') \<and> r = StopFinished"
    using assms unfolding finish_stop_def finished_stop_def by (simp add: bindT_Commit)
  then show ?thesis using audit_stopped_work by fastforce
qed

lemma finished_stop_state:
  assumes ok: "life_ok w" and "claimed j w"
  shows "app_state k (finished_stop now j w) = (if k = sj_app j then (app_state k w)\<lparr>as_status := ''stopped'', as_stops := 0\<rparr> else app_state k w)"
    "as_status (app_state (sj_app j) w) = ''stopping''" "as_stops (app_state (sj_app j) w) = 1"
proof -
  let ?i = "sj_app j" and ?f = "\<lambda>x::stop_job. x\<lparr>sj_status := ''succeeded'', sj_error := None, sj_updated := now\<rparr>"
  let ?P = "\<lambda>k x. sj_app x = k \<and> pending (sj_status x)"
  obtain x where x: "x \<in> set (stop_jobs w)" "sj_id x = sj_id j" "sj_app x = ?i" "sj_status x = ''running''"
    using assms(2) by (auto simp: claimed_def list_ex_iff)
  have d: "distinct (map sj_id (stop_jobs w))" using ok by (simp add: life_ok_def life_ids_def)
  have sj: "stop_jobs (finished_stop now j w) = map (\<lambda>z. if sj_id z = sj_id x then ?f z else z) (stop_jobs w)"
  proof -
    have "(sj_id z = sj_id j \<and> sj_status z = ''running'') = (sj_id z = sj_id x)" if "z \<in> set (stop_jobs w)" for z
      using distinct_key_eq [OF d that x(1)] x(2,4) by metis
    then show ?thesis by (simp add: finished_stop_def app_update_def stop_update_def cong: map_cong)
  qed
  have inv: "app_ok (app_state ?i w)" using ok by (simp add: life_ok_def)
  then have "length (filter (?P ?i) (stop_jobs w)) \<le> 1" by (simp add: app_ok_def app_state_def)
  note one = close_one [where P = "?P ?i" and f = ?f, OF d x(1) _ this]
  have p: "?P ?i x" using x by (simp add: pending_def)
  have emp: "filter (?P ?i) (stop_jobs (finished_stop now j w)) = []" unfolding sj using p by (intro one(1)) (simp_all add: pending_def)
  have "filter (?P ?i) (stop_jobs w) = [x]" using p by (intro one(2)) (simp_all add: pending_def)
  then show 1: "as_stops (app_state ?i w) = 1" by (simp add: app_state_def)
  with inv show 2: "as_status (app_state ?i w) = ''stopping''" by (simp add: app_ok_def)
  have oth: "filter (?P k) (stop_jobs (finished_stop now j w)) = filter (?P k) (stop_jobs w)" if "k \<noteq> ?i" for k
    unfolding sj using x that by (intro close_other [OF d x(1)]) auto
  have ap: "app_of k (finished_stop now j w) = map_option (\<lambda>a. if k = ?i \<and> ua_status a = ''stopping'' then a\<lparr>ua_status := ''stopped'', ua_reason := None\<rparr> else a) (app_of k w)" for k
  proof -
    have "app_of k (stop_update p f w) = app_of k w" for p f by (simp add: app_of_def stop_update_def)
    then show ?thesis unfolding finished_stop_def by (cases "app_of k w") (auto simp: app_of_update dest: app_of_id)
  qed
  have parts: "routes (finished_stop now j w) = routes w" "jobs (finished_stop now j w) = jobs w"
    by (simp_all add: finished_stop_def app_update_def stop_update_def)
  show "app_state k (finished_stop now j w) = (if k = ?i then (app_state k w)\<lparr>as_status := ''stopped'', as_stops := 0\<rparr> else app_state k w)"
  proof (cases "k = ?i")
    case True
    obtain a where "app_of ?i w = Some a" "ua_status a = ''stopping''" using 2 by (auto simp: app_state_def split: option.split_asm)
    then show ?thesis using emp by (simp add: True app_state_def ap parts)
  next
    case False
    then show ?thesis using oth [OF False] by (cases "app_of k w") (simp_all add: app_state_def ap parts)
  qed
qed

lemma finish_stop_moves:
  assumes "finish_stop now j flt n d = Commit d' r" "life_ok (work d)" "claimed j (work d)"
  shows "moves (work d) (work d')"
proof -
  have w: "work d' = finished_stop now j (work d)" using finish_stop_Commit [OF assms(1)] by simp
  note st = finished_stop_state [OF assms(2,3)]
  have "app_path (app_state k (work d)) (app_state k (work d'))" for k
    using app_step.stopped [OF st(2,3)] by (auto simp: w st(1))
  moreover have "map ua_id (apps (finished_stop now j w)) = map ua_id (apps w)" "map sj_id (stop_jobs (finished_stop now j w)) = map sj_id (stop_jobs w)"
    "jobs (finished_stop now j w) = jobs w" for w
    by (auto simp: finished_stop_def app_update_def stop_update_def)
  then have "life_ids (work d')" using assms(2) by (simp add: w life_ids_def life_ok_def)
  ultimately show ?thesis by (simp add: moves_def)
qed

end
