(* ===== verification/Lifecycle_Moves.thy ===== *)
theory Lifecycle_Moves
  imports Lifecycle_Machine Billing_Ledger
begin

text \<open>
  Deployment and billing passes as moves of the machine of \<^verbatim>\<open>Lifecycle_Machine\<close>, and histories in which requests and the
  transactions of all passes interleave.
\<close>

section \<open>Deployment passes\<close>

lemma app_of_jobs [simp]: "app_of k (job_update i f w) = app_of k w" "app_of k (release_state j st w) = app_of k w"
  "app_of k (event_record j nxt msg w) = app_of k w" "app_of k (w\<lparr>mappings := ms\<rparr>) = app_of k w"
  by (simp_all add: app_of_def job_update_def release_state_def release_update_def event_record_def)

lemma fail_app_of: "app_of k (fail_app j b w) = (if k = jb_app j then map_option (\<lambda>x. x\<lparr>ua_status := fst (deploymentFailureState (jb_operation j) b),
     ua_reason := (if snd (deploymentFailureState (jb_operation j) b) = [] then None else Some (snd (deploymentFailureState (jb_operation j) b)))\<rparr>) (app_of k w) else app_of k w)"
  by (simp add: fail_app_def app_of_set split: prod.split)

text \<open>What a pass does to jobs and stop jobs: one open job of a known application moves to \<open>nxt\<close>.\<close>

definition job_turns :: "worker_db \<Rightarrow> worker_db \<Rightarrow> deployment_job \<Rightarrow> deployment_state \<Rightarrow> bool" where
  "job_turns w w' j nxt = (j \<in> set (jobs w) \<and> open_job j \<and> stop_jobs w' = stop_jobs w \<and>
     (\<exists>f. (\<forall>x. jb_id (f x) = jb_id x \<and> jb_app (f x) = jb_app x \<and> jb_operation (f x) = jb_operation x \<and> jb_state (f x) = nxt) \<and>
        jobs w' = map (\<lambda>x. if jb_id x = jb_id j then f x else x) (jobs w)))"

lemma job_turns_ids: "job_turns w w' j nxt \<Longrightarrow> map jb_id (jobs w') = map jb_id (jobs w) \<and> map sj_id (stop_jobs w') = map sj_id (stop_jobs w)"
  by (auto simp: job_turns_def)

lemma job_turns_open:
  assumes "job_turns w w' j nxt" "life_ids w" "nxt \<noteq> DeploymentSucceeded" "nxt \<noteq> DeploymentFailed"
  shows "map (\<lambda>j. (jb_id j, jb_app j, jb_operation j, open_job j)) (jobs w') = map (\<lambda>j. (jb_id j, jb_app j, jb_operation j, open_job j)) (jobs w)"
proof -
  obtain f where f: "\<And>x. jb_id (f x) = jb_id x \<and> jb_app (f x) = jb_app x \<and> jb_operation (f x) = jb_operation x \<and> jb_state (f x) = nxt"
    "jobs w' = map (\<lambda>x. if jb_id x = jb_id j then f x else x) (jobs w)" and j: "j \<in> set (jobs w)" "open_job j"
    using assms(1) unfolding job_turns_def by blast
  have "open_job x" if "x \<in> set (jobs w)" "jb_id x = jb_id j" for x
    using distinct_key_eq [of jb_id "jobs w" x j] that j assms(2) by (simp add: life_ids_def)
  moreover have "open_job (f x)" for x using f(1) assms(3,4) by (simp add: open_job_def)
  ultimately show ?thesis using f by auto
qed

lemma job_turns_closed:
  assumes "job_turns w w' j nxt" "life_ok w" "nxt = DeploymentSucceeded \<or> nxt = DeploymentFailed"
  shows "as_jobs (app_state (jb_app j) w) = [jb_operation j]" "as_jobs (app_state (jb_app j) w') = []"
    "k \<noteq> jb_app j \<Longrightarrow> as_jobs (app_state k w') = as_jobs (app_state k w)"
proof -
  let ?P = "\<lambda>k x. jb_app x = k \<and> open_job x"
  obtain f where f: "\<And>x. jb_id (f x) = jb_id x \<and> jb_app (f x) = jb_app x \<and> jb_operation (f x) = jb_operation x \<and> jb_state (f x) = nxt"
    "jobs w' = map (\<lambda>x. if jb_id x = jb_id j then f x else x) (jobs w)" and j: "j \<in> set (jobs w)" "open_job j"
    using assms(1) unfolding job_turns_def by blast
  have closed: "\<not> open_job (f x)" for x using f(1) assms(3) by (auto simp: open_job_def)
  have d: "distinct (map jb_id (jobs w))" using assms(2) by (simp add: life_ok_def life_ids_def)
  have "app_ok (app_state (jb_app j) w)" using assms(2) by (simp add: life_ok_def)
  then have "length (filter (?P (jb_app j)) (jobs w)) \<le> 1" by (simp add: app_ok_def app_state_def)
  note one = close_one [where P = "?P (jb_app j)" and f = f, OF d j(1) _ this]
  show "as_jobs (app_state (jb_app j) w) = [jb_operation j]" using one(2) j closed by (simp add: app_state_def)
  show "as_jobs (app_state (jb_app j) w') = []" using one(1) j closed by (simp add: app_state_def f(2))
  show "as_jobs (app_state k w') = as_jobs (app_state k w)" if "k \<noteq> jb_app j"
    using close_other [where P = "?P k" and f = f, OF d j(1)] that closed by (simp add: app_state_def f(2))
qed

lemma job_turns_stops: "job_turns w w' j nxt \<Longrightarrow> as_stops (app_state k w') = as_stops (app_state k w)"
  by (simp add: job_turns_def app_state_def)

lemma open_moves:
  assumes "job_turns w w' j nxt" "life_ok w" "nxt \<noteq> DeploymentSucceeded" "nxt \<noteq> DeploymentFailed" "apps w' = apps w" "routes w' = routes w"
  shows "moves w w'"
proof (rule life_part_moves [OF _ assms(2)])
  have "life_ids w" "stop_jobs w' = stop_jobs w" using assms(1,2) by (simp_all add: life_ok_def job_turns_def)
  then show "life_part w' = life_part w" using job_turns_open [OF assms(1)] assms(3-6) by (simp add: life_part_def)
qed

lemma failed_moves:
  assumes "job_turns w w' j DeploymentFailed" "life_ok w" "apps w' = apps (fail_app j b w)" "routes w' = routes w" "has_last (jb_app j) w = Some b"
  shows "moves w w'"
proof -
  note c = job_turns_closed [OF assms(1,2)]
  have ap: "app_of k w' = app_of k (fail_app j b w)" for k by (simp add: app_of_def assms(3))
  obtain a where a: "app_of (jb_app j) w = Some a" "b = (ua_release a \<noteq> None)" using assms(5) by (auto simp: has_last_def)
  have st: "app_state k w' = (if k = jb_app j then (app_state k w)\<lparr>as_status := fst (deploymentFailureState (jb_operation j) b), as_jobs := []\<rparr> else app_state k w)" for k
    using c job_turns_stops [OF assms(1), of k] by (auto simp: app_state_def ap fail_app_of assms(4) a(1))
  have "app_path (app_state k w) (app_state k w')" for k
    using app_step.failed [of "app_state (jb_app j) w" "jb_operation j"] c(1) a app_state_known [OF a(1)] by (auto simp: st)
  moreover have "map ua_id (apps w') = map ua_id (apps w)" by (simp add: assms(3) fail_app_def split: prod.split)
  then have "life_ids w'" using job_turns_ids [OF assms(1)] assms(2) by (simp add: life_ids_def life_ok_def)
  ultimately show ?thesis by (simp add: moves_def)
qed

lemma succeeded_moves:
  assumes "job_turns w w' j DeploymentSucceeded" "life_ok w"
    "apps w' = map (\<lambda>y. if ua_id y = jb_app j then (activated j y)\<lparr>ua_mapping := b\<rparr> else y) (apps w)" "app_of (jb_app j) w \<noteq> None" "rt_app rt = jb_app j"
    "routes w' = (if list_ex (\<lambda>y. rt_app y = jb_app j) (routes w) then map (\<lambda>y. if rt_app y = jb_app j then rt else y) (routes w) else routes w @ [rt])"
  shows "moves w w'"
proof -
  note c = job_turns_closed [OF assms(1,2)]
  have "apps w' = apps (app_set (jb_app j) (\<lambda>y. (activated j y)\<lparr>ua_mapping := b\<rparr>) w)" by (simp add: assms(3) app_set_def app_update_def)
  then have ap: "app_of k w' = (if k = jb_app j then map_option (\<lambda>y. (activated j y)\<lparr>ua_mapping := b\<rparr>) (app_of k w) else app_of k w)" for k
    using app_of_set [of "\<lambda>y. (activated j y)\<lparr>ua_mapping := b\<rparr>" k "jb_app j" w] by (simp add: app_of_def activated_def)
  have rt: "list_ex (\<lambda>r. rt_app r = k) (routes w') \<longleftrightarrow> k = jb_app j \<or> list_ex (\<lambda>r. rt_app r = k) (routes w)" for k
  proof -
    have m: "map rt_app (map (\<lambda>y. if rt_app y = jb_app j then rt else y) rs) = map rt_app rs" for rs using assms(5) by simp
    have ex: "list_ex (\<lambda>r. rt_app r = k) rs \<longleftrightarrow> k \<in> set (map rt_app rs)" for k rs by (auto simp: list_ex_iff)
    show ?thesis
    proof (cases "list_ex (\<lambda>y. rt_app y = jb_app j) (routes w)")
      case True
      then have "map rt_app (routes w') = map rt_app (routes w)" "jb_app j \<in> set (map rt_app (routes w))"
        by (simp_all only: assms(6) m if_True ex)
      then show ?thesis unfolding ex by metis
    qed (use assms(5) in \<open>auto simp: assms(6)\<close>)
  qed
  have st: "app_state k w' = (if k = jb_app j then (app_state k w)\<lparr>as_status := ''running'', as_released := True, as_routed := True, as_jobs := []\<rparr> else app_state k w)" for k
    using c job_turns_stops [OF assms(1), of k] assms(4) by (auto simp: app_state_def ap rt activated_def)
  have "app_path (app_state k w) (app_state k w')" for k
    using app_step.succeed [OF c(1)] by (auto simp: st)
  moreover have "map ua_id (apps w') = map ua_id (apps w)" by (auto simp: assms(3) activated_def)
  then have "life_ids w'" using job_turns_ids [OF assms(1)] assms(2) by (simp add: life_ids_def life_ok_def)
  ultimately show ?thesis by (simp add: moves_def)
qed

lemma mark_life_moves:
  assumes "markJobError dv i cause flt n d = Commit d' r" "life_ok (work d)"
  shows "moves (work d) (work d')"
proof -
  obtain j b where j: "job_of i (work d) = Some j" "ok (ValidateDeploymentTransition (jb_state j) DeploymentFailed)" "has_last (jb_app j) (work d) = Some b"
    and w: "work d' = given_up j cause b (work d)"
    using assms(1) unfolding markJobError_def
    by (auto simp: bindT_Commit given_up_def has_last_def dest: job_of_id simp del: deployment_ok split: if_split_asm)
  have mem: "j \<in> set (jobs (work d))" using job_of_id [OF j(1)] by simp
  have "open_job j" using j(2) by (cases "jb_state j") (auto simp: open_job_def)
  with mem have "job_turns (work d) (work d') j DeploymentFailed"
    unfolding job_turns_def w given_up_def
    by (auto simp: event_record_def fail_app_def app_set_def app_update_def release_state_def release_update_def job_update_def split: prod.split
        intro!: exI [of _ "\<lambda>x. x\<lparr>jb_state := DeploymentFailed, jb_error := Some cause, jb_attempts := jb_attempts x + 1\<rparr>"])
  then show ?thesis
    by (rule failed_moves [OF _ assms(2) _ _ j(3)])
      (auto simp: w given_up_def event_record_def fail_app_def app_set_def app_update_def release_state_def release_update_def job_update_def split: prod.split)
qed

lemma transition_others:
  assumes "transition_work dv j a snap nxt flt n s = Next t n' out" "nxt \<noteq> DeploymentSucceeded" "nxt \<noteq> DeploymentFailed"
  shows "apps (work t) = apps (work s) \<and> routes (work t) = routes (work s)"
  using assms unfolding transition_work_def
  by (auto simp: bindT_Next release_state_def release_update_def split: if_split_asm)

lemma transition_fails:
  assumes "transition_work dv j a snap DeploymentFailed flt n s = Next t n' out"
  shows "\<exists>b. has_last (jb_app j) (work s) = Some b \<and> apps (work t) = apps (fail_app j b (work s)) \<and> routes (work t) = routes (work s)"
  using assms unfolding transition_work_def fail_release_def
  by (auto simp: bindT_Next fail_app_def app_set_def app_update_def split: prod.split)

lemma claim_life_moves:
  assumes "claim_and_advance dv flt n d = Commit d' r" "life_ok (work d)"
  shows "moves (work d) (work d')"
proof -
  from claim_and_advance_Commit [OF assms(1)] obtain j a n1 n2 s healthy failure where
    j: "claim_job (dp_now dv) (work d) = Some j" "phase dv j (job_snapshot j (work d)) flt n1 d = Next s n2 (healthy, failure)"
      "advance dv j a (job_snapshot j (work d)) healthy failure flt n2 s = Commit d' r" "app_of (jb_app j) (work d) = Some a" by metis
  define f where "f nxt = advanced (dp_now dv) (healthInterval (job_snapshot j (work d))) nxt (failure_text j healthy nxt failure)" for nxt
  from advance_Commit [OF j(3)] obtain nxt m1 m2 t msg cont where
    tw: "transition_work dv j a (job_snapshot j (work d)) nxt flt m1 (s\<lparr>work := job_update (jb_id j) (f nxt) (work s)\<rparr>) = Next t m2 (msg, cont)"
    and d': "d' = t\<lparr>work := event_record j nxt msg (work t)\<rparr>" unfolding f_def by metis
  let ?s1 = "s\<lparr>work := job_update (jb_id j) (f nxt) (work s)\<rparr>"
  have s: "job_part (work s) = job_part (work d)" "routes (work s) = routes (work d)" "apps (work s) = apps (work d)"
    using stays_Next [OF stays_phase j(2)] phase_part_jobs by blast+
  have s1: "routes (work ?s1) = routes (work d)" "apps (work ?s1) = apps (work d)" by (simp_all add: job_update_def s)
  have "job_part (work t) = job_part (job_update (jb_id j) (f nxt) (work s))" using stays_Next [OF stays_jobs_transition tw] by simp
  then have jobs: "jobs (work d') = map (\<lambda>x. if jb_id x = jb_id j then f nxt x else x) (jobs (work d))" "stop_jobs (work d') = stop_jobs (work d)"
    using s(1) by (auto simp: d' job_part_def job_update_def event_record_def)
  have "j \<in> set (jobs (work d))" "open_job j" using claim_job_mem [OF j(1)] by (auto simp: claimable_job_def open_job_def)
  then have turns: "job_turns (work d) (work d') j nxt" using jobs unfolding job_turns_def
    by (auto intro!: exI [of _ "f nxt"] simp: f_def advanced_def)
  have e: "apps (work d') = apps (work t)" "routes (work d') = routes (work t)" by (simp_all add: d' event_record_def)
  consider "nxt = DeploymentSucceeded" | "nxt = DeploymentFailed" | "nxt \<noteq> DeploymentSucceeded" "nxt \<noteq> DeploymentFailed" by blast
  then show ?thesis
  proof cases
    case 1
    obtain old where su: "succeed_release dv j a (job_snapshot j (work d)) flt m1 ?s1 = Next t m2 old"
      using tw 1 unfolding transition_work_def by (auto simp: bindT_Next)
    obtain b rt where
      "apps (work t) = map (\<lambda>y. if ua_id y = jb_app j then (activated j y)\<lparr>ua_mapping := b\<rparr> else y) (apps (work ?s1))" "rt_app rt = jb_app j"
      "routes (work t) = (if list_ex (\<lambda>y. rt_app y = jb_app j) (routes (work ?s1))
         then map (\<lambda>y. if rt_app y = jb_app j then rt else y) (routes (work ?s1)) else routes (work ?s1) @ [rt])"
      by (rule succeed_release_Next [OF su]) (rule that, assumption+)
    then show ?thesis using turns 1 j(4) unfolding s1 by (intro succeeded_moves [where b = b and rt = rt, OF _ assms(2)]) (simp_all add: e)
  next
    case 2
    from transition_fails [OF tw [unfolded 2]] obtain b where b: "has_last (jb_app j) (work ?s1) = Some b" "apps (work t) = apps (fail_app j b (work ?s1))" "routes (work t) = routes (work ?s1)"
      by (auto simp: 2)
    have "apps (fail_app j b (work ?s1)) = apps (fail_app j b (work d))" by (simp add: fail_app_def app_set_def app_update_def s1 [simplified] split: prod.split)
    moreover have "has_last (jb_app j) (work d) = Some b" using b(1) by (simp add: has_last_def app_of_def job_update_def s(3))
    ultimately show ?thesis using turns 2 b s1 by (intro failed_moves [OF _ assms(2)]) (simp_all add: e)
  next
    case 3
    then show ?thesis using turns transition_others [OF tw 3] s1 by (intro open_moves [OF _ assms(2)]) (simp_all add: e)
  qed
qed

lemma processOne_moves:
  assumes "processOne dv flt flt' d = (r, d')" "life_ok (work d)"
  shows "moves (work d) (work d')"
  using processOne_cases [OF assms(1)] claim_life_moves [OF _ assms(2)] mark_life_moves [OF _ assms(2)] moves_refl [OF assms(2)] by blast

section \<open>Billing passes\<close>

text \<open>Suspending the running applications of a user and taking their routes down.\<close>

definition suspended_all :: "int \<Rightarrow> string \<Rightarrow> worker_db \<Rightarrow> worker_db" where
  "suspended_all now uid w = drop_suspended_routes uid (suspend_apps now uid w)"

lemma suspend_parts [simp]:
  "jobs (suspend_apps now uid w) = jobs w" "stop_jobs (suspend_apps now uid w) = stop_jobs w" "routes (suspend_apps now uid w) = routes w"
  "map ua_id (apps (suspend_apps now uid w)) = map ua_id (apps w)"
  "apps (drop_suspended_routes uid w) = apps w" "jobs (drop_suspended_routes uid w) = jobs w" "stop_jobs (drop_suspended_routes uid w) = stop_jobs w"
  by (auto simp: suspend_apps_def app_update_def drop_suspended_routes_def)

lemma suspended_all_moves:
  assumes "life_ok w" "life_part w1 = life_part w" "apps w1 = apps w" "life_part w' = life_part (suspended_all now uid w1)"
  shows "moves w w'"
proof -
  let ?f = "\<lambda>a. if running_app uid a then a\<lparr>ua_status := ''suspended'', ua_reason := Some ''billing_insufficient'',
     ua_suspended := (case ua_suspended a of None \<Rightarrow> Some now | Some t \<Rightarrow> Some t)\<rparr> else a"
  have ok1: "life_ok w1" by (rule moves_ok [OF life_part_moves [OF assms(2,1)] assms(1)])
  then have ids: "life_ids w1" by (simp add: life_ok_def)
  have ap: "app_of k (suspended_all now uid w1) = map_option ?f (app_of k w1)" for k
    using app_of_update [of _ k "running_app uid" w1] by (simp add: suspended_all_def drop_suspended_routes_def suspend_apps_def app_of_def)
  have sp: "app_of k (suspend_apps now uid w1) = map_option ?f (app_of k w1)" for k
    using app_of_update [of _ k "running_app uid" w1] by (simp add: suspend_apps_def)
  have ex: "list_ex (\<lambda>a. ua_id a = k \<and> billing_suspended uid a) (apps (suspend_apps now uid w1)) \<longleftrightarrow>
      (\<exists>a. app_of k w1 = Some a \<and> billing_suspended uid (?f a))" for k
  proof -
    have li: "life_ids (suspend_apps now uid w1)" using ids by (simp add: life_ids_def)
    have "list_ex (\<lambda>a. ua_id a = k \<and> billing_suspended uid a) (apps (suspend_apps now uid w1)) \<longleftrightarrow> (\<exists>a. app_of k (suspend_apps now uid w1) = Some a \<and> billing_suspended uid a)"
      by (rule list_ex_app [OF li])
    moreover have "(\<exists>a. map_option g x = Some a \<and> P a) \<longleftrightarrow> (\<exists>a. x = Some a \<and> P (g a))" for g :: "user_app \<Rightarrow> user_app" and x P by (cases x) simp_all
    ultimately show ?thesis by (simp only: sp)
  qed
  have inv: "app_ok (app_state k w1)" for k using ok1 by (simp add: life_ok_def)
  have sus: "running_app uid a \<or> billing_suspended uid (?f a) = billing_suspended uid a" for a by (auto simp: running_app_def)
  have rt: "list_ex (\<lambda>r. rt_app r = k) (routes (suspended_all now uid w1)) \<longleftrightarrow> list_ex (\<lambda>r. rt_app r = k) (routes w1) \<and>
      \<not> (\<exists>a. app_of k w1 = Some a \<and> running_app uid a)" for k
  proof -
    have "list_ex (\<lambda>r. rt_app r = k) (routes (suspended_all now uid w1)) \<longleftrightarrow> list_ex (\<lambda>r. rt_app r = k) (routes w1) \<and>
      \<not> (\<exists>a. app_of k w1 = Some a \<and> billing_suspended uid (?f a))"
      unfolding suspended_all_def drop_suspended_routes_def using ex by (auto simp: list_ex_iff suspend_apps_def app_update_def)
    moreover have "billing_suspended uid (?f a) = running_app uid a" if "list_ex (\<lambda>r. rt_app r = k) (routes w1)" "app_of k w1 = Some a" for a
      using inv [of k] that by (auto simp: app_ok_def app_state_def running_app_def billing_suspended_def)
    ultimately show ?thesis by blast
  qed
  have st: "app_state k w' = (if \<exists>a. app_of k w1 = Some a \<and> running_app uid a then (app_state k w1)\<lparr>as_status := ''suspended'', as_routed := False\<rparr> else app_state k w1)" for k
  proof -
    have "jobs (suspended_all now uid w1) = jobs w1" "stop_jobs (suspended_all now uid w1) = stop_jobs w1" by (simp_all add: suspended_all_def)
    then have "app_state k (suspended_all now uid w1) = (if \<exists>a. app_of k w1 = Some a \<and> running_app uid a
        then (app_state k w1)\<lparr>as_status := ''suspended'', as_routed := False\<rparr> else app_state k w1)"
      unfolding app_state_def ap rt by (cases "app_of k w1") auto
    then show ?thesis by (simp only: life_part_state [OF assms(4)])
  qed
  have "app_path (app_state k w1) (app_state k w')" for k
    using app_step.suspend [of "app_state k w1"] app_state_known [of k w1] by (auto simp: st running_app_def)
  moreover have "life_ids w'" unfolding life_part_ids [OF assms(4)] using ids
    by (simp add: life_ids_def suspended_all_def)
  ultimately show ?thesis using life_part_state [OF assms(2)] by (simp add: moves_def)
qed

text \<open>Queueing the recovery of suspended applications; the database generates new identifiers for the jobs.\<close>

definition fresh_jobs :: "billing_env \<Rightarrow> worker_db \<Rightarrow> bool" where
  "fresh_jobs be w = (inj_on (be_job be) (ua_id ` set (apps w)) \<and> (\<forall>i \<in> ua_id ` set (apps w). be_job be i \<notin> jb_id ` set (jobs w)))"

lemma filter_one_app:
  "distinct (map ua_id as) \<Longrightarrow> filter (\<lambda>a. R a \<and> ua_id a = k) as = (case find (\<lambda>a. ua_id a = k) as of Some a \<Rightarrow> if R a then [a] else [] | None \<Rightarrow> [])"
proof (induction as)
  case (Cons x xs)
  have "filter (\<lambda>a. R a \<and> ua_id a = ua_id x) xs = []" using Cons.prems by (auto simp: filter_empty_conv intro: rev_image_eqI)
  then show ?case using Cons by auto
qed simp

lemma recovery_jobs:
  assumes "life_ids w"
  shows "map jb_operation (filter (\<lambda>j. jb_app j = k \<and> open_job j) (jobs (queue_recovery be uid available w))) =
    as_jobs (app_state k w) @ (if \<exists>a. app_of k w = Some a \<and> recoverable uid available w a then [''billing_recovery''] else [])"
proof -
  have "filter (\<lambda>a. recoverable uid available w a \<and> ua_id a = k) (apps w) =
      (case app_of k w of Some a \<Rightarrow> if recoverable uid available w a then [a] else [] | None \<Rightarrow> [])"
    using assms filter_one_app unfolding life_ids_def app_of_def by blast
  then show ?thesis
    by (simp add: queue_recovery_def app_state_def filter_map o_def open_job_def conj_commute filter_filter [symmetric] del: filter_filter)
      (simp add: conj_commute split: option.split)
qed

lemma recovery_moves:
  assumes ok: "life_ok w" and fr: "fresh_jobs be w" and w': "w' = start_recovery uid (queue_recovery be uid available w)"
  shows "moves w w'"
proof -
  let ?q = "queue_recovery be uid available w" and ?R = "recoverable uid available w"
  let ?c = "\<lambda>a. billing_suspended uid a \<and> list_ex (\<lambda>j. jb_app j = ua_id a \<and> jb_state j = DeploymentQueued \<and> has_prefix (jb_key j) ''billing-resume/'') (jobs ?q)"
  have ids: "life_ids w" and inv: "\<And>k. app_ok (app_state k w)" using ok by (simp_all add: life_ok_def)
  have due: "?c a = ?R a" if a: "app_of k w = Some a" for k a
  proof
    assume c: "?c a"
    then have "as_status (app_state k w) = ''suspended''" using app_state_known [OF a] by (simp add: billing_suspended_def)
    with inv [of k] have none: "as_jobs (app_state k w) = []" by (auto simp: app_ok_def)
    from c obtain j where "j \<in> set (jobs ?q)" "jb_app j = k" "open_job j" using app_of_id [OF a] by (auto simp: list_ex_iff open_job_def)
    then have "map jb_operation (filter (\<lambda>j. jb_app j = k \<and> open_job j) (jobs ?q)) \<noteq> []" by (auto simp: filter_empty_conv)
    then show "?R a" unfolding recovery_jobs [OF ids] using none a by (auto split: if_split_asm)
  next
    assume r: "?R a"
    have "a \<in> set (apps w)" using app_of_id [OF a] by simp
    with r show "?c a" by (auto simp: recoverable_def queue_recovery_def list_ex_iff resume_key_def has_prefix_def bex_Un)
  qed
  have ap: "app_of k w' = map_option (\<lambda>a. if ?R a then a\<lparr>ua_status := ''updating'', ua_reason := None\<rparr> else a) (app_of k w)" for k
  proof -
    have "app_of k w' = map_option (\<lambda>a. if ?c a then a\<lparr>ua_status := ''updating'', ua_reason := None\<rparr> else a) (app_of k ?q)"
      unfolding w' start_recovery_def by (rule app_of_update) simp
    moreover have "app_of k ?q = app_of k w" by (simp add: app_of_def queue_recovery_def)
    ultimately show ?thesis using due by (cases "app_of k w") auto
  qed
  have parts: "routes w' = routes w" "stop_jobs w' = stop_jobs w" "jobs w' = jobs ?q"
    by (simp_all add: w' start_recovery_def app_update_def queue_recovery_def)
  have st: "app_state k w' = (if \<exists>a. app_of k w = Some a \<and> ?R a then (app_state k w)\<lparr>as_status := ''updating'', as_jobs := as_jobs (app_state k w) @ [''billing_recovery'']\<rparr>
      else app_state k w)" for k
    using recovery_jobs [OF ids, of k be uid available] by (cases "app_of k w") (auto simp: app_state_def ap parts)
  have "app_path (app_state k w) (app_state k w')" for k
  proof (cases "\<exists>a. app_of k w = Some a \<and> ?R a")
    case True
    then obtain a where a: "app_of k w = Some a" "?R a" by blast
    then have "as_status (app_state k w) = ''suspended''" "as_released (app_state k w)" "as_jobs (app_state k w) = []"
      using app_state_known [OF a(1)] app_of_id [OF a(1)] active_job_open [of k w] by (auto simp: recoverable_def billing_suspended_def)
    then show ?thesis using app_step.recover [of "app_state k w"] True by (auto simp: st)
  qed (auto simp: st)
  moreover have "life_ids w'"
  proof -
    let ?is = "map ua_id (filter ?R (apps w))"
    have q: "map jb_id (jobs ?q) = map jb_id (jobs w) @ map (be_job be) ?is" by (simp add: queue_recovery_def o_def)
    have "inj_on (be_job be) (set ?is)" using fr unfolding fresh_jobs_def by (auto elim: inj_on_subset)
    moreover have "distinct ?is" using ids by (simp add: life_ids_def distinct_map_filter)
    ultimately have "distinct (map (be_job be) ?is)" unfolding distinct_map [of "be_job be"] by blast
    moreover have "set (map jb_id (jobs w)) \<inter> set (map (be_job be) ?is) = {}" using fr unfolding fresh_jobs_def by (auto simp: image_iff) metis
    ultimately have "distinct (map jb_id (jobs ?q))" using ids unfolding q distinct_append by (simp add: life_ids_def)
    moreover have "map ua_id (apps w') = map ua_id (apps w)" by (auto simp: w' start_recovery_def app_update_def queue_recovery_def)
    ultimately show ?thesis using ids by (simp add: life_ids_def parts)
  qed
  ultimately show ?thesis by (simp add: moves_def)
qed

text \<open>The tables of the machine, which the recording of a charge leaves alone.\<close>

definition life_tables :: "worker_db \<Rightarrow> user_app list \<times> app_route list \<times> deployment_job list \<times> stop_job list" where
  "life_tables w = (apps w, routes w, jobs w, stop_jobs w)"

lemma life_tables_part: "life_tables w' = life_tables w \<Longrightarrow> life_part w' = life_part w \<and> apps w' = apps w"
  by (simp add: life_tables_def life_part_def)

lemma stays_exec: "(\<And>s a s'. x s = Some (a, s') \<Longrightarrow> g s' = g s) \<Longrightarrow> stays g (exec err x)"
  by (auto simp: stays_def exec_def split: option.split)

lemma stays_require [stays_intros]: "stays g (require err h)"
  by (auto simp: stays_def require_def split: option.split)

lemma life_tables_statements:
  "charge_insert c w = Some (i, w') \<Longrightarrow> life_tables w' = life_tables w" "consumption_insert gid cid used w = Some (u, w') \<Longrightarrow> life_tables w' = life_tables w"
  "bill_upsert b uid s e w = Some (v, w') \<Longrightarrow> life_tables w' = life_tables w" "bill_item_insert v i a price amount w = Some (u, w') \<Longrightarrow> life_tables w' = life_tables w"
  "bill_add v amount w = Some (u, w') \<Longrightarrow> life_tables w' = life_tables w" "attempt_insert t w = Some (u, w') \<Longrightarrow> life_tables w' = life_tables w"
  by (auto simp: life_tables_def charge_insert_def consumption_insert_def bill_upsert_def bill_item_insert_def bill_add_def attempt_insert_def Let_def
      split: if_split_asm option.split_asm)

lemma life_tables_updates [simp]:
  "life_tables (notify m w) = life_tables w" "life_tables (seal_aggregate now a price w) = life_tables w"
  "life_tables (low_balance_alert now uid b i w) = life_tables w" "life_tables (clear_alert uid b w) = life_tables w"
  by (simp_all add: life_tables_def notify_def seal_aggregate_def low_balance_alert_def clear_alert_def Let_def)

lemma stays_life_statements:
  "stays (\<lambda>d. life_tables (work d)) (execW err (charge_insert c))" "stays (\<lambda>d. life_tables (work d)) (execW err (consumption_insert gid cid used))"
  "stays (\<lambda>d. life_tables (work d)) (execW err (bill_upsert b uid s e))" "stays (\<lambda>d. life_tables (work d)) (execW err (bill_item_insert v i a price amount))"
  "stays (\<lambda>d. life_tables (work d)) (execW err (bill_add v amount))" "stays (\<lambda>d. life_tables (work d)) (execW err (attempt_insert t))"
  "stays (\<lambda>d. life_tables (work d)) (exec err (grant_spend gid used))" "stays (\<lambda>d. life_tables (work d)) (exec err (ledger_insert wid ty rf am af))"
  "stays (\<lambda>d. life_tables (work d)) (exec err (wallet_set p bal))"
  by (intro stays_change, erule life_tables_statements)+
    (intro stays_exec, auto simp: grant_spend_def ledger_insert_def wallet_set_def split: if_split_asm)+

lemma stays_life_consume: "stays (\<lambda>d. life_tables (work d)) (consume_loop cid remaining gs)"
proof (induction gs arbitrary: remaining)
  case (Cons g gs)
  show ?case unfolding consume_loop.simps Let_def by (intro stays_intros stays_life_statements Cons.IH)
qed (simp add: stays_intros)

lemma stays_life_record:
  "stays (\<lambda>d. life_tables (work d)) (charge_wallet be a price wid charge newBalance)" "stays (\<lambda>d. life_tables (work d)) (bill_line be a price amount cid)"
  unfolding charge_wallet_def bill_line_def by (intro stays_intros stays_life_statements)+

text \<open>What the billing of one aggregate leaves: the applications as they were, or suspended and perhaps recovering.\<close>

definition billed_life :: "billing_env \<Rightarrow> worker_db \<Rightarrow> worker_db \<Rightarrow> bool" where
  "billed_life be w w' = (\<exists>w1 uid. life_tables w1 = life_tables w \<and>
     (life_tables w' = life_tables (suspended_all (be_now be) uid w1) \<or>
      (\<exists>w2 available. (life_tables w2 = life_tables w \<or> life_tables w2 = life_tables (suspended_all (be_now be) uid w1)) \<and>
         w' = start_recovery uid (queue_recovery be uid available w2))))"

lemma suspended_all_tables: "life_tables w1 = life_tables w \<Longrightarrow> life_tables (suspended_all now uid w1) = life_tables (suspended_all now uid w)"
  by (simp add: life_tables_def suspended_all_def drop_suspended_routes_def suspend_apps_def app_update_def)

lemma bill_insufficient_life:
  assumes "bill_insufficient be a price amount balance credit flt n d = Commit d' r"
  shows "billed_life be (work d) (work d')"
proof -
  obtain w1 where "attempt_insert (new_attempt a price amount ''insufficient_funds'' balance credit) (work d) = Some ((), w1)"
    "work d' = suspended_all (be_now be) (ag_user a) (notify (suspended_notice (ag_user a) ''billing-suspended/'' (ag_id a)) w1)"
    using assms unfolding bill_insufficient_def Let_def suspended_all_def by (auto simp: bindT_Commit)
  then show ?thesis unfolding billed_life_def using life_tables_statements(6)
    by (intro exI [of _ "notify (suspended_notice (ag_user a) ''billing-suspended/'' (ag_id a)) w1"] exI [of _ "ag_user a"]) auto
qed

lemma reserve_suspension_life:
  assumes "reserve_suspension be a available flt n d = Next t n' cs"
  shows "life_tables (work t) = life_tables (work d) \<or> life_tables (work t) = life_tables (suspended_all (be_now be) (ag_user a) (work d))"
  using assms unfolding reserve_suspension_def Let_def suspended_all_def by (auto simp: bindT_Next split: if_split_asm)

lemma no_commit_reserve: "reserve_suspension be a available flt n d \<noteq> Commit t r"
  unfolding reserve_suspension_def Let_def by (auto simp: bindT_Commit split: if_split_asm)

lemma after_charge_life:
  assumes "after_charge be a price amount newBalance credit creditUsed walletCharge flt n d = Commit d' r"
  shows "billed_life be (work d) (work d')"
proof -
  let ?uid = "ag_user a" and ?av = "wrap64 (wrap64 (newBalance + credit) - creditUsed)"
  let ?alert = "if walletCharge > 0 then
      bindT (updateW recording_failed (low_balance_alert (be_now be) ?uid newBalance (ag_id a))) (\<lambda>_. updateW recording_failed (clear_alert ?uid newBalance))
    else done_tx ()"
  let ?att = "execW recording_failed (attempt_insert (new_attempt a price amount ''charged'' newBalance (wrap64 (credit - creditUsed)))) :: (db, worker_end, unit) tx"
  have al: "stays (\<lambda>d. life_tables (work d)) (?alert :: (db, worker_end, unit) tx)"
    by (intro stays_intros stays_change(1) [where g = life_tables] life_tables_updates)
  obtain t1 n1 t2 n2 u t3 n3 cs where 1: "?alert flt (Suc n) (d\<lparr>work := seal_aggregate (be_now be) a price (work d)\<rparr>) = Next t1 n1 u"
    and 2: "?att flt n1 t1 = Next t2 n2 ()" and 3: "reserve_suspension be a ?av flt n2 t2 = Next t3 n3 cs"
    and w: "work d' = start_recovery ?uid (queue_recovery be ?uid ?av (work t3))"
    using assms stays_Commit [OF al] no_commit_reserve unfolding after_charge_def Let_def by (auto simp: bindT_Commit simp del: split_paired_Ex)
  have "life_tables (work t2) = life_tables (work d)"
  proof -
    have "life_tables (work t1) = life_tables (work (d\<lparr>work := seal_aggregate (be_now be) a price (work d)\<rparr>))" by (rule stays_Next [OF al 1])
    moreover have "life_tables (work t2) = life_tables (work t1)" using 2 life_tables_statements(6) by fastforce
    ultimately show ?thesis by simp
  qed
  then show ?thesis using reserve_suspension_life [OF 3] w unfolding billed_life_def by auto
qed

lemma billed_life_tables: "life_tables w1 = life_tables w \<Longrightarrow> billed_life be w1 w' \<Longrightarrow> billed_life be w w'"
  unfolding billed_life_def by metis

lemma record_charge_life:
  assumes "record_charge be a price amount newBalance gs credit creditUsed walletCharge entry flt n d = Commit d' r"
  shows "billed_life be (work d) (work d')"
proof -
  obtain t1 n1 cid t2 n2 u t3 n3 v where
    1: "execW recording_failed (charge_insert (new_charge a price amount entry)) flt n d = Next t1 n1 cid"
    and 2: "consume_loop cid creditUsed gs flt n1 t1 = Next t2 n2 u" and 3: "bill_line be a price amount cid flt n2 t2 = Next t3 n3 v"
    and 4: "after_charge be a price amount newBalance credit creditUsed walletCharge flt n3 t3 = Commit d' r"
    using assms stays_Commit [OF stays_life_consume] stays_Commit [OF stays_life_record(2)] unfolding record_charge_def bindT_Commit
    by (auto simp del: statement_Next)
  have "life_tables (work t1) = life_tables (work d)" using 1 life_tables_statements(1) by fastforce
  moreover have "life_tables (work t2) = life_tables (work t1)" by (rule stays_Next [OF stays_life_consume 2])
  moreover have "life_tables (work t3) = life_tables (work t2)" by (rule stays_Next [OF stays_life_record(2) 3])
  ultimately have "life_tables (work t3) = life_tables (work d)" by simp
  then show ?thesis by (rule billed_life_tables [OF _ after_charge_life [OF 4]])
qed

lemma settle_usage_life:
  assumes "settle_usage be a price amount w gs flt n d = Commit d' r"
  shows "billed_life be (work d) (work d')"
proof -
  define credit where "credit = credit_balance gs"
  define used where "used = (if amount > credit then credit else amount)"
  define charge where "charge = wrap64 (amount - used)"
  define bal where "bal = wrap64 (w_balance w - charge)"
  consider "bill_insufficient be a price amount (w_balance w) credit flt n d = Commit d' r"
    | "bill_charge be a price amount (w_id w) (w_balance w) gs credit used charge flt n d = Commit d' r"
    using assms unfolding settle_usage_def Let_def credit_def used_def charge_def by (auto split: if_split_asm)
  then show ?thesis
  proof cases
    case 2
    then obtain t1 n1 e where 1: "charge_wallet be a price (w_id w) charge bal flt n d = Next t1 n1 e"
      and 3: "record_charge be a price amount bal gs credit used charge e flt n1 t1 = Commit d' r"
      unfolding bill_charge_def Let_def bindT_Commit bal_def using stays_Commit [OF stays_life_record(1)] by blast
    have "life_tables (work t1) = life_tables (work d)" by (rule stays_Next [OF stays_life_record(1) 1])
    then show ?thesis by (rule billed_life_tables [OF _ record_charge_life [OF 3]])
  qed (rule bill_insufficient_life)
qed

lemma billUsage_life:
  assumes "billUsage be flt n d = Commit d' r"
  shows "billed_life be (work d) (work d')"
  using assms unfolding billUsage_def Let_def
  by (auto simp: bindT_Commit split: option.split_asm if_split_asm dest: settle_usage_life)

lemma billed_moves:
  assumes "billed_life be w w'" "life_ok w" "fresh_jobs be w"
  shows "moves w w'"
proof -
  from assms(1) obtain w1 uid where w1: "life_tables w1 = life_tables w" and alt: "life_tables w' = life_tables (suspended_all (be_now be) uid w1) \<or>
      (\<exists>w2 available. (life_tables w2 = life_tables w \<or> life_tables w2 = life_tables (suspended_all (be_now be) uid w1)) \<and> w' = start_recovery uid (queue_recovery be uid available w2))"
    unfolding billed_life_def by metis
  have sus: "moves w v" if "life_tables v = life_tables (suspended_all (be_now be) uid w1)" for v
    using suspended_all_moves [OF assms(2)] life_tables_part [OF w1] life_tables_part [OF that] by blast
  from alt show ?thesis
  proof
    assume "\<exists>w2 available. (life_tables w2 = life_tables w \<or> life_tables w2 = life_tables (suspended_all (be_now be) uid w1)) \<and> w' = start_recovery uid (queue_recovery be uid available w2)"
    then obtain w2 available where w2: "life_tables w2 = life_tables w \<or> life_tables w2 = life_tables (suspended_all (be_now be) uid w1)"
      and w': "w' = start_recovery uid (queue_recovery be uid available w2)" by blast
    have m: "moves w w2" using w2 sus life_part_moves [OF _ assms(2)] life_tables_part by blast
    have "jobs w2 = jobs w" "map ua_id (apps w2) = map ua_id (apps w)"
      using w2 w1 by (auto simp: life_tables_def suspended_all_def)
    then have "fresh_jobs be w2" using assms(3) unfolding fresh_jobs_def by (metis set_map)
    then show ?thesis using moves_trans [OF m recovery_moves [OF moves_ok [OF m assms(2)] _ w']] by blast
  qed (rule sus)
qed

lemma aggregate_tables: "aggregate_statement now w = Some (u, w') \<Longrightarrow> life_tables w' = life_tables w"
proof -
  have "life_tables (write_group now g w) = life_tables w" for g w by (simp add: write_group_def life_tables_def split: prod.split)
  then have "life_tables (fold (write_group now) gs w) = life_tables w" for gs by (induction gs arbitrary: w) simp_all
  then show "aggregate_statement now w = Some (u, w') \<Longrightarrow> life_tables w' = life_tables w"
    by (auto simp: aggregate_statement_def Let_def life_tables_def split: if_split_asm)
qed

fun fresh_billing :: "billing_request \<Rightarrow> worker_db \<Rightarrow> bool" where
  "fresh_billing (BillUsage be) w = fresh_jobs be w"
| "fresh_billing q w = True"

lemma serve_billing_moves:
  assumes "serve_billing q flt n d = Commit d' r" "life_ok (work d)" "fresh_billing q (work d)"
  shows "moves (work d) (work d')"
proof (cases q)
  case (BillUsage be)
  then show ?thesis using assms billed_moves [OF billUsage_life] by simp
next
  case (AggregateUsage now)
  then have "life_tables (work d') = life_tables (work d)" using assms(1) unfolding AggregateUsage serve_billing.simps aggregateUsage_def
    by (auto simp: bindT_Commit dest: aggregate_tables)
  then show ?thesis using life_part_moves [OF _ assms(2)] life_tables_part by blast
next
  case (SealUnpricedUsage now)
  then have "life_tables (work d') = life_tables (work d)" using assms(1) unfolding SealUnpricedUsage serve_billing.simps sealUnpricedUsage_def
    by (auto simp: bindT_Commit Let_def life_tables_def)
  then show ?thesis using life_part_moves [OF _ assms(2)] life_tables_part by blast
qed

section \<open>Services\<close>

datatype control_request =
    StopApp control_principal control_env string "string result"
  | StartApp control_principal control_env string "string result"
  | DeleteApp control_principal control_env string

fun serve_control :: "control_request \<Rightarrow> (db, response, response) tx" where
  "serve_control (StopApp p ce path body) = stopApp p ce path body"
| "serve_control (StartApp p ce path body) = startApp p ce path body"
| "serve_control (DeleteApp p ce path) = deleteApp p ce path"

text \<open>The transactions of the passes that stop and delete.\<close>

datatype stop_transaction =
    ClaimStop int
  | FinishStop int stop_job
  | ClaimDeletion int
  | QueueCleanup control_env
  | RefreshDomain int "nat \<Rightarrow> string option"

fun serve_stop :: "stop_transaction \<Rightarrow> (db, pass_end, pass_end) tx" where
  "serve_stop (ClaimStop now) = begin_stop now"
| "serve_stop (FinishStop now j) = finish_stop now j"
| "serve_stop (ClaimDeletion now) = begin_deletion now"
| "serve_stop (QueueCleanup ce) = queueExpiredBillingSuspendedAppDeletionOne ce"
| "serve_stop (RefreshDomain now raws) = processDomainRefreshOne now raws"

fun admits_stop :: "stop_transaction \<Rightarrow> worker_db \<Rightarrow> bool" where
  "admits_stop (FinishStop now j) w = claimed j w"
| "admits_stop q w = True"

text \<open>A service whose committed transactions move every application along the machine, under what they may rely on.\<close>

locale app_service =
  fixes serve :: "'q \<Rightarrow> (db, 'r, 'r) tx" and admits :: "'q \<Rightarrow> worker_db \<Rightarrow> bool"
  assumes committed_moves: "serve q flt 0 d = Commit d' r \<Longrightarrow> life_ok (work d) \<Longrightarrow> admits q (work d) \<Longrightarrow> moves (work d) (work d')"
begin

lemma run_moves: "life_ok (work d) \<Longrightarrow> admits q (work d) \<Longrightarrow> moves (work d) (work (snd (run (serve q) flt d)))"
  using tx_run_cases [of "serve q" flt d] committed_moves [of q flt d] moves_refl by auto

lemma run_ok: "life_ok (work d) \<Longrightarrow> admits q (work d) \<Longrightarrow> life_ok (work (snd (run (serve q) flt d)))"
  using run_moves moves_ok by blast

end

lemma serve_control_moves: "serve_control q flt n d = Commit d' r \<Longrightarrow> life_ok (work d) \<Longrightarrow> moves (work d) (work d')"
  by (cases q) (auto dest: stopApp_moves startApp_moves deleteApp_moves)

interpretation control_requests: app_service serve_control "\<lambda>_ _. True"
  by unfold_locales (rule serve_control_moves)

interpretation billing_passes: app_service serve_billing fresh_billing
  by unfold_locales (rule serve_billing_moves)

text \<open>The audit row of a domain refresh has no request id, so the transaction never commits.\<close>

lemma processDomainRefreshOne_no_commit: "processDomainRefreshOne now raws flt n d \<noteq> Commit d' r"
proof -
  have "label_loop rs slug i flt m s \<noteq> Commit t x" for rs slug i m s t x
    by (induction rs arbitrary: m) (auto simp: bindT_Commit Let_def split: option.split if_split_asm)
  then show ?thesis unfolding processDomainRefreshOne_def
    by (auto simp: bindT_Commit audit_insert_def split: option.split_asm)
qed

lemma begin_deletion_moves:
  assumes "begin_deletion now flt n d = Commit d' r" "life_ok (work d)"
  shows "moves (work d) (work d')"
proof (rule life_part_moves [OF _ assms(2)])
  show "life_part (work d') = life_part (work d)"
    using assms(1) unfolding begin_deletion_def claim_deletion_def
    by (auto simp: bindT_Commit life_part_def deletion_update_def split: option.split_asm)
qed

lemma serve_stop_moves:
  assumes "serve_stop q flt n d = Commit d' r" "life_ok (work d)" "admits_stop q (work d)"
  shows "moves (work d) (work d')"
  using assms processDomainRefreshOne_no_commit
  by (cases q) (auto dest: begin_stop_moves finish_stop_moves begin_deletion_moves cleanup_moves)

interpretation stop_passes: app_service serve_stop admits_stop
  by unfold_locales (rule serve_stop_moves)

section \<open>Histories\<close>

text \<open>Requests, deployment and billing passes, and the single transactions of the passes that stop and delete, in any order.\<close>

inductive lifecycle :: "db \<Rightarrow> db \<Rightarrow> bool" for d :: db where
  none: "lifecycle d d"
| request: "lifecycle d d1 \<Longrightarrow> lifecycle d (snd (run (serve_control q) flt d1))"
| deploy: "lifecycle d d1 \<Longrightarrow> lifecycle d (snd (processOne dv flt flt' d1))"
| bill: "lifecycle d d1 \<Longrightarrow> fresh_billing q (work d1) \<Longrightarrow> lifecycle d (snd (run (serve_billing q) flt d1))"
| transaction: "lifecycle d d1 \<Longrightarrow> admits_stop q (work d1) \<Longrightarrow> lifecycle d (snd (run (serve_stop q) flt d1))"
| retry: "lifecycle d d1 \<Longrightarrow> lifecycle d (autocommit missed (requeue_stop now j err) d1)"
| deletion: "lifecycle d d1 \<Longrightarrow> lifecycle d (autocommit missed (deletion_update i f) d1)"

lemma lifecycle_moves: "lifecycle d d' \<Longrightarrow> life_ok (work d) \<Longrightarrow> moves (work d) (work d') \<and> life_ok (work d')"
proof (induction rule: lifecycle.induct)
  case (request d1 q flt)
  then show ?case using control_requests.run_moves moves_trans moves_ok by blast
next
  case (deploy d1 dv flt flt')
  then show ?case using processOne_moves [of dv flt flt' d1] moves_trans moves_ok by (metis prod.collapse)
next
  case (bill d1 q flt)
  then show ?case using billing_passes.run_moves moves_trans moves_ok by blast
next
  case (transaction d1 q flt)
  then show ?case using stop_passes.run_moves moves_trans moves_ok by blast
next
  case (retry d1 missed now j err)
  then have "moves (work d1) (work (autocommit missed (requeue_stop now j err) d1))" by (simp add: autocommit_def requeue_moves moves_refl)
  then show ?case using retry moves_trans moves_ok by blast
next
  case (deletion d1 missed i f)
  then have "moves (work d1) (work (autocommit missed (deletion_update i f) d1))"
    by (auto simp: autocommit_def deletion_update_def life_part_def moves_refl intro: life_part_moves)
  then show ?case using deletion moves_trans moves_ok by blast
qed (simp add: moves_refl)

text \<open>The passes are such histories: the row a stop pass has claimed is there for its second transaction.\<close>

lemma claimed_after:
  assumes "run (begin_stop now) flt d = (StopClaimed j, d1)"
  shows "claimed j (work d1)"
proof -
  from assms consider "begin_stop now flt 0 d = Commit d1 (StopClaimed j)" | "begin_stop now flt 0 d = Stop (StopClaimed j)"
    | n where "begin_stop now flt 0 d = Next d1 n (StopClaimed j)" | s n where "begin_stop now flt 0 d = Next s n (StopClaimed j)"
    by (auto simp: run_def split: txout.split_asm)
  then show ?thesis
  proof cases
    case 1
    from begin_stop_Commit [OF 1] obtain x where x: "oldest sj_created (stop_due now) (stop_jobs (work d)) = Some x" "j = claimed_stop now x"
      "d1 = d\<lparr>work := stop_update (\<lambda>y. sj_id y = sj_id x) (claimed_stop now) (work d)\<rparr>" by auto
    then have "x \<in> set (stop_jobs (work d))" using oldest_mem by fastforce
    then have "claimed_stop now x \<in> set (stop_jobs (work d1))" by (auto simp: x(3) stop_update_def intro!: image_eqI [of _ _ x])
    then show ?thesis unfolding claimed_def list_ex_iff by (rule bexI [rotated]) (simp add: x(2) claimed_stop_def)
  qed (auto simp: begin_stop_def bindT_def query_def execW_def exec_def reply_def commit_def split: if_split_asm option.split_asm txout.split_asm)
qed

lemma stop_pass_history:
  assumes "lifecycle d d1" "processStopOne dv en clock flt lost missed flt' d1 = (r, d2)"
  shows "lifecycle d d2"
proof -
  obtain r1 e where e: "run (begin_stop (dp_now dv)) flt d1 = (r1, e)" by fastforce
  have le: "lifecycle d e" using lifecycle.transaction [OF assms(1), of "ClaimStop (dp_now dv)" flt] e by simp
  show ?thesis
  proof (cases "\<exists>j. r1 = StopClaimed j")
    case True
    then obtain j where j: "r1 = StopClaimed j" by blast
    have "claimed j (work e)" using claimed_after e j by blast
    then show ?thesis using assms(2) lifecycle.retry [OF le] lifecycle.transaction [OF le, of "FinishStop clock j" flt']
      unfolding processStopOne_def e j by (auto split: option.split_asm)
  next
    case False
    then show ?thesis using assms(2) le e unfolding processStopOne_def by (cases r1) auto
  qed
qed

lemma deletion_pass_history:
  assumes "lifecycle d d1" "processAppDeletionOne dv ce en flt lost unread missed d1 = (r, d2)"
  shows "lifecycle d d2"
proof -
  obtain r1 e where e: "run (begin_deletion (dp_now dv)) flt d1 = (r1, e)" by fastforce
  have le: "lifecycle d e" using lifecycle.transaction [OF assms(1), of "ClaimDeletion (dp_now dv)" flt] e by simp
  show ?thesis using assms(2) le lifecycle.deletion [OF le] unfolding processAppDeletionOne_def e
    by (cases r1) (auto split: if_split_asm)
qed

end
