(* ===== verification/Lifecycle_Correct.thy ===== *)
theory Lifecycle_Correct
  imports Lifecycle_Moves
begin

text \<open>
  What follows for applications: operations on one application exclude each other over all histories, container names
  lead back to their application, only unused containers are reclaimed, an accepted start is funded, an accepted stop
  ends, and repeated requests change nothing.
\<close>

section \<open>Container names\<close>

lemma split_on_append: "split_on c (a @ c # b) = split_on c a @ split_on c b"
proof (induction a)
  case (Cons x a)
  obtain y ys where "split_on c a = y # ys" by (metis split_on_nonempty list.exhaust)
  with Cons show ?case by auto
qed simp

lemma split_on_plain: "c \<notin> set a \<Longrightarrow> split_on c a = [a]"
  by (induction a) auto

lemma join_split_on: "join_with [c] (split_on c s) = s"
proof (induction s)
  case (Cons x s)
  obtain y ys where y: "split_on c s = y # ys" by (metis split_on_nonempty list.exhaust)
  with Cons have "join_with [c] (y # ys) = s" by simp
  with y show ?case by (cases ys) auto
qed simp

lemma regexpUUID_blocks: "regexpUUID s \<longleftrightarrow> uuid_blocks (split_on CHR ''-'' s)"
  by (simp add: regexpUUID_def uuid_blocks_def)

lemma uuid_blocks_length: "uuid_blocks bs \<Longrightarrow> length bs = 5"
  by (auto simp: uuid_blocks_def split: list.split_asm)

lemma hex_no_dash: "list_all is_hex s \<Longrightarrow> CHR ''-'' \<notin> set s"
  by (auto simp: list_all_iff is_hex_def is_digit_def byte_def)

text \<open>A hash of 32 bytes gives a scope of ten hexadecimal digits.\<close>

definition sha_ok :: "deploy_env \<Rightarrow> bool" where
  "sha_ok dv = (\<forall>x. length (dp_sha256 dv x) = 32)"

lemma runtimeScope_block: "sha_ok dv \<Longrightarrow> hex_block 10 (runtimeScope dv)"
  by (simp add: sha_ok_def runtimeScope_def hex_block_def length_scope scope_hex)

lemma container_identity:
  assumes "sha_ok dv" "regexpUUID instanceID" "regexpUUID releaseID"
  shows "runtimeContainerIdentity dv (containerName dv instanceID releaseID) = Some (instanceID, releaseID, False)"
proof -
  let ?s = "runtimeScope dv" and ?d = "CHR ''-''"
  have s: "hex_block 10 ?s" "?s \<noteq> []" using runtimeScope_block [OF assms(1)] by (auto simp: hex_block_def)
  have "containerName dv instanceID releaseID = ''cm'' @ ?d # ?s @ ?d # instanceID @ ?d # releaseID" using s(2) by (simp add: containerName_def)
  then have sp: "split_on ?d (containerName dv instanceID releaseID) = ''cm'' # ?s # split_on ?d instanceID @ split_on ?d releaseID"
    using s(1) by (simp add: split_on_append split_on_plain hex_no_dash hex_block_def del: append.simps)
  have b: "uuid_blocks (split_on ?d instanceID)" "uuid_blocks (split_on ?d releaseID)" using assms(2,3) by (simp_all add: regexpUUID_blocks)
  then have "scopedRuntimeContainerPattern (containerName dv instanceID releaseID) = Some (?s, instanceID, releaseID)"
    using s uuid_blocks_length [OF b(1)] unfolding scopedRuntimeContainerPattern_def sp by (simp add: join_split_on)
  then show ?thesis using s(2) by (simp add: runtimeContainerIdentity_def)
qed

lemma container_matches:
  assumes "sha_ok dv" "regexpUUID instanceID" "regexpUUID releaseID"
  shows "stopContainerMatches dv appID releaseID' (containerName dv instanceID releaseID) \<longleftrightarrow> appID = instanceID \<and> releaseID' = releaseID"
  unfolding stopContainerMatches_def container_identity [OF assms] by auto

text \<open>The name the worker gives to the container of a release is read back as that application instance and that release, for
  every scope, so a stop job and the reconciliation recognise exactly the containers the deployment created.\<close>

theorem container_name_roundtrip:
  assumes "sha_ok dv" "regexpUUID instanceID" "regexpUUID releaseID"
  shows "runtimeContainerIdentity dv (containerName dv instanceID releaseID) = Some (instanceID, releaseID, False) \<and>
    (stopContainerMatches dv appID releaseID' (containerName dv instanceID releaseID) \<longleftrightarrow> appID = instanceID \<and> releaseID' = releaseID)"
  using container_identity [OF assms] container_matches [OF assms] by blast

section \<open>Containers nobody owns\<close>

text \<open>A container of an application is in use when its route leads there, an open deployment is about its release, or an open stop job
  names it.\<close>

definition in_use :: "worker_db \<Rightarrow> user_app \<Rightarrow> string \<Rightarrow> string \<Rightarrow> bool" where
  "in_use w a releaseID name = ((\<exists>r \<in> set (routes w). rt_app r = ua_id a \<and> rt_container r = name) \<or>
     (\<exists>j \<in> set (jobs w). jb_app j = ua_id a \<and> jb_release j = releaseID \<and> open_job j) \<or>
     (\<exists>j \<in> set (stop_jobs w). sj_app j = ua_id a \<and> sj_container j = name \<and> pending (sj_status j)))"

text \<open>Identifiers of applications and of instances are generated and do not collide.\<close>

definition identities_ok :: "worker_db \<Rightarrow> bool" where
  "identities_ok w = (\<forall>a \<in> set (apps w). \<forall>b \<in> set (apps w). ua_instance b = ua_instance a \<or> ua_id b = ua_instance a \<longrightarrow> b = a)"

lemma container_app_instance:
  assumes "identities_ok w" "a \<in> set (apps w)"
  shows "container_app (ua_instance a) w = Some a"
proof -
  have "container_app (ua_instance a) w \<noteq> None" using assms(2) by (auto simp: container_app_def find_None_iff)
  then obtain b where b: "container_app (ua_instance a) w = Some b" by blast
  then have "b \<in> set (apps w)" "ua_instance b = ua_instance a \<or> ua_id b = ua_instance a" by (auto simp: container_app_def find_Some_iff)
  then show ?thesis using assms b unfolding identities_ok_def by blast
qed

lemma keeps_container_in_use:
  assumes "life_ok w" "a \<in> set (apps w)"
  shows "keeps_container releaseID name w a = in_use w a releaseID name"
proof -
  let ?s = "app_state (ua_id a) w"
  have ids: "life_ids w" and inv: "app_ok ?s" using assms(1) by (simp_all add: life_ok_def)
  have st: "as_status ?s = ua_status a" using app_state_known [OF app_of_member [OF ids assms(2)]] by simp
  have r: "ua_status a \<in> {''running'', ''updating''}" if "r \<in> set (routes w)" "rt_app r = ua_id a" for r
  proof -
    have "as_routed ?s" using that by (auto simp: app_state_def list_ex_iff)
    then show ?thesis using inv st by (auto simp: app_ok_def)
  qed
  have j: "ua_status a \<in> {''deploying'', ''updating''}" if "j \<in> set (jobs w)" "jb_app j = ua_id a" "open_job j" for j
  proof -
    have "as_jobs ?s \<noteq> []" using that by (auto simp: app_state_def filter_empty_conv)
    then show ?thesis using inv st by (auto simp: app_ok_def)
  qed
  have p: "ua_status a = ''stopping''" if "j \<in> set (stop_jobs w)" "sj_app j = ua_id a" "pending (sj_status j)" for j
  proof -
    have "as_stops ?s \<noteq> 0" using that by (auto simp: app_state_def filter_empty_conv)
    then show ?thesis using inv st by (auto simp: app_ok_def le_Suc_eq)
  qed
  show ?thesis unfolding keeps_container_def in_use_def list_ex_iff open_job_def [symmetric]
    using r j p by (auto simp: open_job_def)
qed


section \<open>Histories\<close>


lemma exclusive_operations:
  assumes "life_ok w" "a \<in> set (apps w)"
  shows "length (filter (\<lambda>j. jb_app j = ua_id a \<and> open_job j) (jobs w)) +
      length (filter (\<lambda>j. sj_app j = ua_id a \<and> pending (sj_status j)) (stop_jobs w)) \<le> 1"
    "active_job (ua_id a) w \<longleftrightarrow> ua_status a \<in> {''deploying'', ''updating''}"
    "active_stop (ua_id a) w \<longleftrightarrow> ua_status a = ''stopping''"
    "list_ex (\<lambda>r. rt_app r = ua_id a) (routes w) \<longrightarrow> ua_release a \<noteq> None \<and> ua_status a \<in> {''running'', ''updating''}"
    "ua_status a = ''running'' \<longrightarrow> list_ex (\<lambda>r. rt_app r = ua_id a) (routes w)"
proof -
  let ?s = "app_state (ua_id a) w"
  have inv: "app_ok ?s" and ids: "life_ids w" using assms(1) by (simp_all add: life_ok_def)
  have st: "as_status ?s = ua_status a" "as_released ?s = (ua_release a \<noteq> None)" using app_state_known [OF app_of_member [OF ids assms(2)]] by simp_all
  have routed: "as_routed ?s = list_ex (\<lambda>r. rt_app r = ua_id a) (routes w)" by (simp add: app_state_def)
  show "length (filter (\<lambda>j. jb_app j = ua_id a \<and> open_job j) (jobs w)) +
      length (filter (\<lambda>j. sj_app j = ua_id a \<and> pending (sj_status j)) (stop_jobs w)) \<le> 1"
  proof -
    have "length (as_jobs ?s) + as_stops ?s \<le> 1" using inv by (cases "as_jobs ?s") (auto simp: app_ok_def le_Suc_eq)
    then show ?thesis by (simp add: app_state_def)
  qed
  show "active_job (ua_id a) w \<longleftrightarrow> ua_status a \<in> {''deploying'', ''updating''}" using inv st by (auto simp: active_job_open app_ok_def)
  show "active_stop (ua_id a) w \<longleftrightarrow> ua_status a = ''stopping''" using inv st by (auto simp: active_stop_open app_ok_def le_Suc_eq)
  show "list_ex (\<lambda>r. rt_app r = ua_id a) (routes w) \<longrightarrow> ua_release a \<noteq> None \<and> ua_status a \<in> {''running'', ''updating''}"
    "ua_status a = ''running'' \<longrightarrow> list_ex (\<lambda>r. rt_app r = ua_id a) (routes w)"
    using inv st routed by (auto simp: app_ok_def)
qed


section \<open>Requests\<close>

lemma run_accepted:
  assumes "run m flt d = (r, d')" "P r" "stops (\<lambda>x. \<not> P x) m" "\<And>s n x. m flt 0 d \<noteq> Next s n x"
  shows "m flt 0 d = Commit d' r"
  using assms stopsD [OF assms(3), of flt 0 d] by (auto simp: run_def split: txout.split_asm)

lemma stops_more [stops_intros]:
  "P e \<Longrightarrow> stops P (query e f)" "P e \<Longrightarrow> stops P (exec e g)" "P e \<Longrightarrow> stops P (require e h)" "P e \<Longrightarrow> stops P (commit e r)" "P internalError \<Longrightarrow> stops P begin_tx"
  by (auto simp: stops_def query_def exec_def require_def commit_def begin_tx_def split: option.splits if_splits)

lemma decode_refusal: "decodeAppControlRequest body = Inl r \<Longrightarrow> status_of r \<noteq> 202"
  by (auto simp: decodeAppControlRequest_def invalid_request_def Let_def split: sum.split_asm if_split_asm goerr.split_asm)

lemma not_accepted [simp]: "status_of internalError \<noteq> 202" "status_of not_uuid \<noteq> 202" "status_of app_not_found \<noteq> 202" "status_of (app_suspended a) \<noteq> 202"
  "status_of (stopped_reply i) \<noteq> 202" "status_of (writeStartupBalanceError av rq) \<noteq> 202"
  by (simp_all add: internalError_def not_uuid_def app_not_found_def app_suspended_def stopped_reply_def writeStartupBalanceError_def)

lemma stops_sum_eq: "(\<And>x. sm = Inl x \<Longrightarrow> stops P (l x)) \<Longrightarrow> (\<And>y. stops P (r y)) \<Longrightarrow> stops P (case sm of Inl x \<Rightarrow> l x | Inr y \<Rightarrow> r y)"
  by (cases sm) auto

lemma stopApp_stops: "stops (\<lambda>r. status_of r \<noteq> 202) (stopApp p ce path body)"
  unfolding stopApp_def stop_owned_def queue_stop_def Let_def
  by (intro stops_intros(1) stops_cases(1,2,4) stops_sum_eq stops_basic stops_more) (simp_all add: decode_refusal)

lemma missing_loop_stops: "stops (\<lambda>r. status_of r \<noteq> 202) (missing_loop u i ms deps)"
proof (induction deps arbitrary: ms)
  case (Cons dep deps)
  show ?case unfolding missing_loop.simps by (intro stops_intros Cons.IH) simp
qed (simp add: stops_intros)

lemma startApp_stops: "stops (\<lambda>r. status_of r \<noteq> 202) (startApp p ce path body)"
proof -
  have c: "stops (\<lambda>r. status_of r \<noteq> 202) (check_start u i snap)" for u i snap
    unfolding check_start_def missingRuntimeDependencies_def by (intro stops_intros missing_loop_stops) simp_all
  have b: "stops (\<lambda>r. status_of r \<noteq> 202) (enforceMinimumStartupBalance now u)" for now u
    unfolding enforceMinimumStartupBalance_def Let_def by (intro stops_intros) simp_all
  have q: "stops (\<lambda>r. status_of r \<noteq> 202) (queue_start p ce i key src)" for i key src
    unfolding queue_start_def by (intro stops_intros) simp_all
  have o: "stops (\<lambda>r. status_of r \<noteq> 202) (start_owned p ce a key)" for a key
    unfolding start_owned_def by (intro stops_intros b c q) simp_all
  show ?thesis unfolding startApp_def Let_def
    by (intro stops_bind stops_cases(1,2) stops_sum_eq stops_basic stops_more o) (simp_all add: decode_refusal)
qed

lemma commit_Next: "commit e r flt n d \<noteq> Next s m x"
  by (simp add: commit_def)

lemma stopApp_accepted:
  assumes "run (stopApp p ce path body) flt d = (r, d')" "status_of r = 202"
  shows "\<exists>a key. owned_app (trim_space path) (p_id p) (work d) = Some a \<and> ua_status a = ''running'' \<and> decodeAppControlRequest body = Inr key \<and>
     stop_insert (new_stop ce a (old_container (trim_space path) (work d)) key) (work d) \<noteq> None \<and> ct_uuid ce (trim_space path) \<and>
     work d' = stopped_by ce a (old_container (trim_space path) (work d)) key (work d)"
proof -
  have n: "stopApp p ce path body flt 0 d \<noteq> Next s m x" for s m x
    unfolding stopApp_def stop_owned_def queue_stop_def Let_def begin_tx_def
    by (auto simp: bindT_Next commit_Next split: option.split_asm sum.split_asm if_split_asm)
  have "stopApp p ce path body flt 0 d = Commit d' r" by (rule run_accepted [OF assms stopApp_stops n])
  moreover from this have "ct_uuid ce (trim_space path)" unfolding stopApp_def Let_def by (auto split: if_split_asm)
  ultimately show ?thesis using stopApp_Commit [of p ce path body flt 0 d d' r] assms(2) by auto
qed

lemma startApp_accepted:
  assumes "run (startApp p ce path body) flt d = (r, d')" "status_of r = 202"
  shows "startApp p ce path body flt 0 d = Commit d' r"
proof -
  have n: "startApp p ce path body flt 0 d \<noteq> Next s m x" for s m x
    unfolding startApp_def start_owned_def queue_start_def Let_def begin_tx_def
    by (auto simp: bindT_Next commit_Next split: option.split_asm sum.split_asm if_split_asm)
  show ?thesis by (rule run_accepted [OF assms startApp_stops n])
qed

text \<open>C15: A start is accepted only for an application of the caller that is stopped, failed or suspended for lack of balance and has
  a successful release, when the balance with the unexpired credit reaches the reserve, every required dependency runs with a
  route, every required secret has a version and no deployment is open; it then adds one release with the snapshot of the
  last successful one and one queued job, and sets the application updating.\<close>

theorem start_accepted:
  assumes "run (startApp p ce path body) flt d = (r, d')" "status_of r = 202"
  shows "\<exists>a key src. owned_app (trim_space path) (p_id p) (work d) = Some a \<and> startable a \<and> decodeAppControlRequest body = Inr key \<and>
     funded (ct_now ce) (p_id p) d \<and> ua_release a = Some (rl_id src) \<and> src \<in> set (releases (work d)) \<and>
     deps_running (p_id p) (ua_id a) (snapshotRuntime (rl_snapshot src)) (work d) \<and> missingSnapshotSecrets (rl_snapshot src) = Inr [] \<and>
     \<not> active_job (ua_id a) (work d) \<and> work d' = started_by ce a key src (work d)"
proof -
  have "release_of i app w = Some src \<Longrightarrow> src \<in> set (releases w)" for i app w src by (auto simp: release_of_def find_Some_iff)
  moreover have "job_insert j w \<noteq> None \<Longrightarrow> \<not> active_job (jb_app j) w" for j w by (auto simp: job_insert_def)
  ultimately show ?thesis using startApp_Commit [OF startApp_accepted [OF assms]] assms(2) by (fastforce simp: start_job_def)
qed

lemma find_new:
  assumes "\<not> list_ex P xs" "P x"
  shows "find P (xs @ [x]) = Some x"
  using assms by (induction xs) auto

text \<open>Repeating an accepted stop request with the same key answers with the same job and changes nothing, whatever
  identifier and time the repetition would have used.\<close>

theorem stop_replay:
  assumes "run (stopApp p ce path body) flt d = (r, d')" "status_of r = 202"
  shows "run (stopApp p (ce\<lparr>ct_stop := other, ct_now := later\<rparr>) path body) flt' d' = (if flt' 0 \<or> flt' 1 then internalError
     else Json 200 [(''appId'', VStr (trim_space path)), (''stopJobId'', VStr (ct_stop ce)), (''status'', VStr ''queued''), (''idempotent'', VBool True)], d')"
proof -
  let ?i = "trim_space path" and ?c = "old_container (trim_space path) (work d)"
  from stopApp_accepted [OF assms] obtain a key where a: "owned_app ?i (p_id p) (work d) = Some a" "decodeAppControlRequest body = Inr key"
    "stop_insert (new_stop ce a ?c key) (work d) \<noteq> None" "ct_uuid ce ?i" and w: "work d' = stopped_by ce a ?c key (work d)" by blast
  have id: "ua_id a = ?i" "ua_user a = p_id p" using a(1) by (auto simp: owned_app_def find_Some_iff)
  have "a \<in> set (apps (work d))" using a(1) by (auto simp: owned_app_def find_Some_iff)
  then have "a\<lparr>ua_status := ''stopping'', ua_reason := None\<rparr> \<in> set (apps (work d'))"
    using id by (auto simp: w stopped_by_def app_set_def app_update_def drop_routes_def)
  moreover have "ua_id (a\<lparr>ua_status := ''stopping'', ua_reason := None\<rparr>) = ?i \<and> ua_user (a\<lparr>ua_status := ''stopping'', ua_reason := None\<rparr>) = p_id p" using id by simp
  ultimately have "owned_app ?i (p_id p) (work d') \<noteq> None" unfolding owned_app_def find_None_iff by blast
  moreover have "\<not> list_ex (\<lambda>j. sj_app j = ?i \<and> sj_key j = key) (stop_jobs (work d))"
    using a(3) id by (auto simp: stop_insert_def new_stop_def list_ex_iff split: if_split_asm)
  ultimately have "find_stop ?i key (p_id p) (work d') = Some (new_stop ce a ?c key)"
    unfolding find_stop_def using id find_new [of "\<lambda>j. sj_app j = ?i \<and> sj_key j = key" "stop_jobs (work d)" "new_stop ce a ?c key"]
    by (auto simp: w stopped_by_def new_stop_def drop_routes_def)
  then show ?thesis using a(2,4)
    by (auto simp: run_def stopApp_def Let_def begin_tx_def bindT_def query_def queryW_def commit_def new_stop_def)
qed

section \<open>Stopping ends\<close>

lemma oldest_new:
  assumes "\<not> list_ex p xs" "p x"
  shows "oldest t p (xs @ [x]) = Some x"
proof -
  have "filter p (xs @ [x]) = [x]" using assms by (auto simp: list_ex_iff filter_empty_conv)
  then show ?thesis by (simp add: oldest_def)
qed

lemma audit_stopped_total: "\<exists>u d'. audit_stopped j d = Some (u, d')"
  by (cases "app_of (sj_app j) (work d)") (simp_all add: audit_stopped_def audit_def)

text \<open>A pass without faults that finds the engine willing finishes the oldest job that is due.\<close>

lemma stop_pass_completes:
  assumes "life_ok (work d)" "oldest sj_created (stop_due (dp_now dv)) (stop_jobs (work d)) = Some j"
    "stop_container dv en (instance_of False (sj_app j) (work d)) j = None"
  shows "\<exists>d'. processStopOne dv en clock no_faults False missed no_faults d = (StopFinished, d') \<and>
     app_state (sj_app j) (work d') = (app_state (sj_app j) (work d))\<lparr>as_status := ''stopped'', as_stops := 0\<rparr>"
proof -
  let ?now = "dp_now dv" and ?j = "claimed_stop (dp_now dv) j"
  let ?d1 = "d\<lparr>work := stop_update (\<lambda>x. sj_id x = sj_id j) (claimed_stop ?now) (work d)\<rparr>"
  have claim: "begin_stop ?now no_faults 0 d = Commit ?d1 (StopClaimed ?j)"
    using assms(2) by (simp add: begin_stop_def bindT_def claim_stop_def)
  then have ok1: "life_ok (work ?d1)" using begin_stop_moves moves_ok assms(1) by blast
  have jmem: "j \<in> set (stop_jobs (work d))" "stop_due ?now j" using oldest_mem [OF assms(2)] by simp_all
  have same: "sj_app ?j = sj_app j" "sj_id ?j = sj_id j" "sj_container ?j = sj_container j" "stop_release ?j = stop_release j"
    by (simp_all add: claimed_stop_def stop_release_def)
  have inst: "instance_of False (sj_app ?j) (work ?d1) = instance_of False (sj_app j) (work d)"
    by (simp add: instance_of_def app_of_def stop_update_def same)
  have stop: "stop_container dv en (instance_of False (sj_app ?j) (work ?d1)) ?j = None"
    unfolding inst using assms(3) unfolding stop_container_def same .
  have cl: "claimed ?j (work ?d1)" using claimed_after [of ?now no_faults d] claim by (simp add: run_def)
  obtain d2 u where a: "audit_stopped ?j (?d1\<lparr>work := finished_stop clock ?j (work ?d1)\<rparr>) = Some (u, d2)"
    using audit_stopped_total by blast
  then have "finish_stop clock ?j no_faults 0 ?d1 = Commit d2 StopFinished"
    by (simp add: finish_stop_def bindT_def finished_stop_def)
  then have "processStopOne dv en clock no_faults False missed no_faults d = (StopFinished, d2)"
    unfolding processStopOne_def using claim stop by (simp add: run_def)
  moreover have "app_state (sj_app j) (work d2) = (app_state (sj_app j) (work ?d1))\<lparr>as_status := ''stopped'', as_stops := 0\<rparr>"
    using finished_stop_state(1) [OF ok1 cl, of "sj_app j" clock] audit_stopped_work [OF a] by (simp add: same)
  moreover have "app_state (sj_app j) (work ?d1) = app_state (sj_app j) (work d)"
  proof (rule life_part_state)
    have "pending (sj_status x)" if "x \<in> set (stop_jobs (work d))" "sj_id x = sj_id j" for x
      using distinct_key_eq [of sj_id "stop_jobs (work d)"] that jmem assms(1)
      by (metis life_ok_def life_ids_def stop_due_def pending_def)
    then show "life_part (work ?d1) = life_part (work d)" by (auto simp: life_part_def stop_update_def claimed_stop_def pending_def)
  qed
  ultimately show ?thesis by auto
qed

text \<open>The engine stops and removes a container, or says it is gone already.\<close>

definition engine_willing :: "engine \<Rightarrow> string \<Rightarrow> bool" where
  "engine_willing en name = (StopIfExists en name = None \<and> RemoveIfExists en name = None)"

text \<open>C16: An accepted stop ends: the first pass that finds no older job due, with the application's container named as the deployment
  names it and an engine that stops and removes it, leaves the application stopped, without a route and without an open job.\<close>

theorem stop_request_completes:
  assumes "run (stopApp p ce path body) flt d = (r, d')" "status_of r = 202" "life_ok (work d)"
    "app_of (trim_space path) (work d) = Some a" "ua_release a = Some releaseID" "old_container (trim_space path) (work d) = containerName dv (ua_instance a) releaseID"
    "sha_ok dv" "regexpUUID (ua_instance a)" "regexpUUID releaseID" "dp_executor dv \<noteq> None" "engine_willing en (containerName dv (ua_instance a) releaseID)"
    "ct_now ce \<le> dp_now dv" "\<not> list_ex (stop_due (dp_now dv)) (stop_jobs (work d))"
  shows "\<exists>d''. processStopOne dv en clock no_faults False missed no_faults d' = (StopFinished, d'') \<and>
     app_state (trim_space path) (work d'') = \<lparr>as_status = ''stopped'', as_released = True, as_routed = False, as_jobs = [], as_stops = 0\<rparr>"
proof -
  let ?i = "trim_space path" and ?c = "containerName dv (ua_instance a) releaseID"
  from stopApp_accepted [OF assms(1,2)] obtain a' key where "owned_app ?i (p_id p) (work d) = Some a'" "ua_status a' = ''running''"
    and w: "work d' = stopped_by ce a' (old_container ?i (work d)) key (work d)" by blast
  moreover have "life_ids (work d)" using assms(3) by (simp add: life_ok_def)
  ultimately have a: "a' = a" "ua_id a = ?i" "ua_status a = ''running''" using owned_app_of(1,2) assms(4) by fastforce+
  let ?j = "new_stop ce a ?c key"
  have ok': "life_ok (work d')" using control_requests.run_ok [OF assms(3), of "StopApp p ce path body" flt] assms(1) by simp
  have old: "oldest sj_created (stop_due (dp_now dv)) (stop_jobs (work d')) = Some ?j"
    using assms(6,12) oldest_new [OF assms(13)] by (simp add: w a stopped_by_def drop_routes_def new_stop_def stop_due_def)
  have app: "app_of ?i (work d') = Some (a\<lparr>ua_status := ''stopping'', ua_reason := None\<rparr>)"
    using assms(4) a by (simp add: w stopped_by_def app_of_set)
  have "stop_container dv en (instance_of False (sj_app ?j) (work d')) ?j = None"
    using container_matches [OF assms(7-9), of "ua_instance a" releaseID] assms(5,10,11) a(2) app
    by (auto simp: stop_container_def new_stop_def instance_of_def stop_release_def engine_willing_def)
  from stop_pass_completes [OF ok' old this] a(2) obtain d'' where d'': "processStopOne dv en clock no_faults False missed no_faults d' = (StopFinished, d'')"
    "app_state ?i (work d'') = (app_state ?i (work d'))\<lparr>as_status := ''stopped'', as_stops := 0\<rparr>" by (auto simp: new_stop_def)
  have st: "as_status (app_state ?i (work d')) = ''stopping''" "as_released (app_state ?i (work d'))" using app_state_known [OF app] assms(5) by simp_all
  moreover have "app_ok (app_state ?i (work d'))" using ok' by (simp add: life_ok_def)
  ultimately have "as_jobs (app_state ?i (work d')) = []" "\<not> as_routed (app_state ?i (work d'))" by (auto simp: app_ok_def)
  then show ?thesis using d'' st by (intro exI [of _ d'']) simp
qed

section \<open>Domains\<close>

text \<open>C18: A scheduled domain refresh never takes effect: whatever the database, the labels and the faults, its transaction ends
  without a commit, since the audit row it writes has no request id.\<close>

theorem domain_refresh_never_commits: "snd (run (processDomainRefreshOne now raws) flt d) = d"
  using processDomainRefreshOne_no_commit by (auto simp: run_def split: txout.split)

section \<open>Examples\<close>

definition example_instance :: string where
  "example_instance = ''11111111-1111-4111-8111-111111111111''"

definition example_current :: string where
  "example_current = ''22222222-2222-4222-8222-222222222222''"

definition example_executor :: executor where
  "example_executor = \<lparr>ex_network = (\<lambda>_. None), ex_connect = (\<lambda>_ _ _. None), ex_image = (\<lambda>_. True), ex_pull = (\<lambda>_ _ _ _ _. Pulled), ex_helper = (\<lambda>_. None),
     ex_create = (\<lambda>_ _ _ _ _ _. Inr ''c''), ex_start = (\<lambda>_. None), ex_published = (\<lambda>_ _. Inr 1), ex_healthy = (\<lambda>_. Inr True),
     ex_probe = (\<lambda>_ _ _ _ _ _. None), ex_gateway = (\<lambda>_. Inr ''g'')\<rparr>"

definition example_worker :: deploy_env where
  "example_worker = deploy_example_env\<lparr>dp_sha256 := (\<lambda>_. replicate 32 CHR ''a''), dp_executor := Some example_executor\<rparr>"

definition example_container :: string where
  "example_container = containerName example_worker example_instance example_current"

definition example_engine :: engine where
  "example_engine = \<lparr>en_stop = (\<lambda>_. None), en_remove = (\<lambda>_. None), en_names = (\<lambda>_. Some [example_container])\<rparr>"

definition example_control :: control_env where
  "example_control = \<lparr>ct_now = 50, ct_uuid = (\<lambda>s. s = ''A''), ct_collate = sort, ct_render = (\<lambda>_. []), ct_bool = (\<lambda>s. if s = ''true'' then Some True else None),
     ct_stop = ''S'', ct_release = ''R2'', ct_job = ''J2'', ct_deletion = ''D''\<rparr>"

definition example_owner :: control_principal where
  "example_owner = \<lparr>p_id = ''U'', p_request = ''req'', p_actor = [], p_impersonating = False\<rparr>"

definition example_live_db :: "string \<Rightarrow> db" where
  "example_live_db st = empty_db\<lparr>work := empty_worker_db\<lparr>apps := [example_app\<lparr>ua_status := st, ua_instance := example_instance, ua_release := Some example_current\<rparr>],
     releases := [example_release\<lparr>rl_id := example_current, rl_state := ''active''\<rparr>],
     routes := (if st = ''running'' then [\<lparr>rt_app = ''A'', rt_instance = example_instance, rt_release = example_current, rt_path = ''//a-u.d/'', rt_host = [], rt_port = 80,
       rt_container = example_container, rt_network = [], rt_container_id = [], rt_host_port = None\<rparr>] else []),
     settings := Some \<lparr>ss_reserve = 0, ss_domain = ''d'', ss_port_min = 1, ss_port_max = 2, ss_delete_days = 0\<rparr>\<rparr>\<rparr>"

lemmas example_live_simps = example_live_db_def example_app_def example_release_def empty_db_def empty_worker_db_def

lemma example_names: "sha_ok example_worker" "regexpUUID example_instance" "regexpUUID example_current" "dp_executor example_worker \<noteq> None" "dp_now example_worker = 100"
  by (simp_all add: sha_ok_def example_worker_def deploy_example_env_def regexpUUID_def example_instance_def example_current_def hex_block_def is_hex_def is_digit_def byte_def)

lemma example_live_ok: "st \<in> {''running'', ''stopped''} \<Longrightarrow> life_ok (work (example_live_db st))"
  by (auto simp: life_ok_def life_ids_def app_ok_def app_state_def app_of_def example_live_simps)

lemma trim_A [simp]: "trim_space ''A'' = ''A''" "trim_space ''k'' = ''k''"
  by (simp_all add: trim_space_visible visible_def byte_def)

lemmas example_control_simps = run_def bindT_def begin_tx_def example_control_def example_owner_def decodeAppControlRequest_def owned_app_def
  active_job_def active_restore_def active_stop_def Let_def auditActorID_def audit_def

lemma example_stop: "\<exists>r d'. run (stopApp example_owner example_control ''A'' (Inr ''k'')) no_faults (example_live_db ''running'') = (r, d') \<and> status_of r = 202"
  by (simp add: stopApp_def stop_owned_def queue_stop_def example_control_simps find_stop_def stop_insert_def new_stop_def stop_dependents_def stop_candidate_def
      example_live_simps drop_routes_def app_set_def app_update_def)

lemma example_snapshot: "snapshotRuntime [] = []" "RuntimeDependencies [] = Inr []" "missingSnapshotSecrets [] = Inr []" "enforceRuntimeEntitlements [] = Inr ()"
  by code_simp+

lemma example_start: "\<exists>r d'. run (startApp example_owner example_control ''A'' (Inr ''k'')) no_faults (example_live_db ''stopped'') = (r, d') \<and> status_of r = 202"
  by (simp add: startApp_def start_owned_def queue_start_def check_start_def missingRuntimeDependencies_def example_snapshot
      example_control_simps find_job_def job_insert_def release_insert_def start_job_def start_release_row_def enforceDeploymentConcurrency_def
      enforceMinimumStartupBalance_def credit_total_def live_grants_def wallet_of_def in64_def wrap64_def release_of_def next_release_number_def example_current_def
      example_live_simps app_set_def app_update_def)

text \<open>Witnesses.\<close>

theorem container_name_roundtrip_witness:
  "runtimeContainerIdentity example_worker example_container = Some (example_instance, example_current, False) \<and>
   stopContainerMatches example_worker example_instance example_current example_container"
  using container_name_roundtrip [OF example_names(1-3), of example_instance example_current] by (simp add: example_container_def)

lemma example_identities: "identities_ok (work (example_live_db st))"
  by (simp add: identities_ok_def example_live_simps)




theorem start_accepted_witness:
  "\<exists>r d'. run (startApp example_owner example_control ''A'' (Inr ''k'')) no_faults (example_live_db ''stopped'') = (r, d') \<and>
     funded 50 ''U'' (example_live_db ''stopped'') \<and> \<not> active_job ''A'' (work (example_live_db ''stopped''))"
proof -
  from example_start obtain r d' where r: "run (startApp example_owner example_control ''A'' (Inr ''k'')) no_faults (example_live_db ''stopped'') = (r, d')" "status_of r = 202" by blast
  from start_accepted [OF r] show ?thesis using r by (auto simp: example_owner_def example_control_def owned_app_def example_live_simps)
qed

theorem stop_replay_witness:
  "\<exists>r d'. run (stopApp example_owner example_control ''A'' (Inr ''k'')) no_faults (example_live_db ''running'') = (r, d') \<and>
     run (stopApp example_owner (example_control\<lparr>ct_stop := ''T'', ct_now := 60\<rparr>) ''A'' (Inr ''k'')) no_faults d' =
       (Json 200 [(''appId'', VStr ''A''), (''stopJobId'', VStr ''S''), (''status'', VStr ''queued''), (''idempotent'', VBool True)], d')"
proof -
  from example_stop obtain r d' where r: "run (stopApp example_owner example_control ''A'' (Inr ''k'')) no_faults (example_live_db ''running'') = (r, d')" "status_of r = 202" by blast
  from stop_replay [OF r, where other = "''T''" and later = 60 and flt' = no_faults] show ?thesis using r by (auto simp: example_control_def)
qed

theorem stop_request_completes_witness:
  "\<exists>r d' d''. run (stopApp example_owner example_control ''A'' (Inr ''k'')) no_faults (example_live_db ''running'') = (r, d') \<and>
     processStopOne example_worker example_engine 110 no_faults False False no_faults d' = (StopFinished, d'') \<and> as_status (app_state ''A'' (work d'')) = ''stopped''"
proof -
  from example_stop obtain r d' where r: "run (stopApp example_owner example_control ''A'' (Inr ''k'')) no_faults (example_live_db ''running'') = (r, d')" "status_of r = 202" by blast
  let ?a = "hd (apps (work (example_live_db ''running'')))"
  have "engine_willing example_engine x" for x
    by (simp add: engine_willing_def example_engine_def StopIfExists_def RemoveIfExists_def)
  moreover have "app_of ''A'' (work (example_live_db ''running'')) = Some ?a" "ua_release ?a = Some example_current" "ua_instance ?a = example_instance"
    "old_container ''A'' (work (example_live_db ''running'')) = example_container" "\<not> list_ex (stop_due (dp_now example_worker)) (stop_jobs (work (example_live_db ''running'')))"
    by (simp_all add: app_of_def old_container_def example_live_simps)
  ultimately have "\<exists>d''. processStopOne example_worker example_engine 110 no_faults False False no_faults d' = (StopFinished, d'') \<and>
     app_state (trim_space ''A'') (work d'') = \<lparr>as_status = ''stopped'', as_released = True, as_routed = False, as_jobs = [], as_stops = 0\<rparr>"
    by (intro stop_request_completes [where a = ?a and releaseID = example_current, OF r example_live_ok]) (simp_all add: example_names example_container_def example_control_def)
  then show ?thesis using r by auto
qed

text \<open>A deleted application can be started again: the delete request leaves the row stopped with its release, and the start
  request does not look at the time of deletion, so both are accepted and a job to deploy it is queued beside the deletion job.\<close>

theorem deleted_app_restarts:
  "let (r1, d1) = run (deleteApp example_owner example_control ''A'') no_faults (example_live_db ''running'');
       (r2, d2) = run (startApp example_owner example_control ''A'' (Inr ''k'')) no_faults d1 in
   status_of r1 = 202 \<and> status_of r2 = 202 \<and> map ua_deleted (apps (work d2)) = [Some 50] \<and> map ua_status (apps (work d2)) = [''updating''] \<and>
   active_job ''A'' (work d2) \<and> map dj_status (deletion_jobs (work d2)) = [''queued'']"
  by (simp add: deleteApp_def app_busy_def delete_dependents_def delete_dependent_def spec_elements_def mget_def drop_mappings_def mark_deleted_def deletion_insert_def drop_routes_def
      startApp_def start_owned_def queue_start_def check_start_def missingRuntimeDependencies_def example_snapshot
      example_control_simps find_job_def job_insert_def release_insert_def start_job_def start_release_row_def enforceDeploymentConcurrency_def
      enforceMinimumStartupBalance_def credit_total_def live_grants_def wallet_of_def in64_def wrap64_def release_of_def next_release_number_def example_current_def
      example_live_simps app_set_def app_update_def)

end
