(* ===== verification/Docker_Executor.thy ===== *)
theory Docker_Executor
  imports Lifecycle Secretbox_Config
begin

text \<open>
  The Docker executor (\<^verbatim>\<open>internal/runtime/docker_executor.go\<close>): programs that send requests to the Docker engine.  A program
  extends a trace of requests and answers and ends with an error text or a value.  The engine is an argument: a function that
  answers a request after any trace, so that it may behave in any way.  The parameters of the executor hold what the standard library
  does with texts: decoding of JSON, where whole numbers are read as \<^const>\<open>VInt\<close>, formatting, query escaping, and the product of two
  doubles.
\<close>

section \<open>Programs over the engine\<close>

record docker_env =
  de_owner :: string
  de_sha256 :: "string \<Rightarrow> string"
  de_unmarshal :: "string \<Rightarrow> string + goval"
  de_events :: "string \<Rightarrow> (string + goval) list"
  de_marshal :: "goval \<Rightarrow> string"
  de_query :: "string \<Rightarrow> string"
  de_type_error :: string
  de_done :: string
  de_sprint :: "goval \<Rightarrow> string"
  de_errorf :: "goerr \<Rightarrow> string"
  de_quote :: "string \<Rightarrow> string"
  de_gib :: "gofloat \<Rightarrow> string"
  de_mul :: "gofloat \<Rightarrow> gofloat \<Rightarrow> gofloat"
  de_age :: "goval \<Rightarrow> string + int"
  de_ticks :: nat

definition NewDockerExecutor :: "string \<Rightarrow> docker_env \<Rightarrow> docker_env" where
  "NewDockerExecutor owner de = de\<lparr>de_owner := trim_space owner\<rparr>"

record docker_call =
  dc_method :: string
  dc_path :: string
  dc_body :: goval
  dc_auth :: string

datatype docker_answer = Unreached string | Answered int string

type_synonym docker_trace = "(docker_call \<times> docker_answer) list"
type_synonym daemon = "docker_trace \<Rightarrow> docker_call \<Rightarrow> docker_answer"
type_synonym 'a docker = "daemon \<Rightarrow> docker_trace \<Rightarrow> (string + 'a) \<times> docker_trace"

definition returnD :: "'a \<Rightarrow> 'a docker" where
  "returnD a dm tr = (Inr a, tr)"

definition failD :: "string \<Rightarrow> 'a docker" where
  "failD e dm tr = (Inl e, tr)"

definition bindD :: "'a docker \<Rightarrow> ('a \<Rightarrow> 'b docker) \<Rightarrow> 'b docker" where
  "bindD m k dm tr = (case m dm tr of (Inl e, t) \<Rightarrow> (Inl e, t) | (Inr a, t) \<Rightarrow> k a dm t)"

text \<open>\<^verbatim>\<open>err := ...\<close>, with the error as a value, and \<^verbatim>\<open>defer\<close>.\<close>

definition tryD :: "'a docker \<Rightarrow> (string + 'a) docker" where
  "tryD m dm tr = (case m dm tr of (r, t) \<Rightarrow> (Inr r, t))"

definition deferD :: "'b docker \<Rightarrow> 'a docker \<Rightarrow> 'a docker" where
  "deferD late m dm tr = (case m dm tr of (r, t) \<Rightarrow> (r, snd (late dm t)))"

definition liftD :: "string + 'a \<Rightarrow> 'a docker" where
  "liftD r = (case r of Inl e \<Rightarrow> failD e | Inr a \<Rightarrow> returnD a)"

definition resultD :: "docker_env \<Rightarrow> 'a result \<Rightarrow> 'a docker" where
  "resultD de r = (case r of Inl e \<Rightarrow> failD (de_errorf de e) | Inr a \<Rightarrow> returnD a)"

definition bindS :: "'e + 'a \<Rightarrow> ('a \<Rightarrow> 'e + 'b) \<Rightarrow> 'e + 'b" where
  "bindS r f = (case r of Inl e \<Rightarrow> Inl e | Inr a \<Rightarrow> f a)"

text \<open>At most a mebibyte of an answer is read.\<close>

definition rawRequest :: "string \<Rightarrow> string \<Rightarrow> goval \<Rightarrow> string docker" where
  "rawRequest verb path body dm tr = (let c = \<lparr>dc_method = verb, dc_path = path, dc_body = body, dc_auth = []\<rparr>; a = dm tr c; t = tr @ [(c, a)] in
     case a of Unreached e \<Rightarrow> (Inl e, t)
     | Answered status full \<Rightarrow> let data = take (2 ^ 20) full in
        if status < 200 \<or> status \<ge> 300 then (Inl (''docker engine '' @ verb @ '' '' @ path @ '': '' @ trim_space data), t) else (Inr data, t))"

definition request :: "string \<Rightarrow> string \<Rightarrow> goval \<Rightarrow> unit docker" where
  "request verb path body = bindD (rawRequest verb path body) (\<lambda>_. returnD ())"

definition requestOut :: "docker_env \<Rightarrow> string \<Rightarrow> string \<Rightarrow> goval \<Rightarrow> goval docker" where
  "requestOut de verb path body = bindD (rawRequest verb path body) (\<lambda>data. if data = [] then returnD VNil else liftD (de_unmarshal de data))"

section \<open>Decoding into typed values\<close>

definition decodeStruct :: "docker_env \<Rightarrow> goval \<Rightarrow> string + gomap" where
  "decodeStruct de v = (case v of VNil \<Rightarrow> Inr [] | VObj m \<Rightarrow> Inr m | _ \<Rightarrow> Inl (de_type_error de))"

definition decodeString :: "docker_env \<Rightarrow> goval \<Rightarrow> string + string" where
  "decodeString de v = (case v of VNil \<Rightarrow> Inr [] | VStr s \<Rightarrow> Inr s | _ \<Rightarrow> Inl (de_type_error de))"

definition decodeBool :: "docker_env \<Rightarrow> goval \<Rightarrow> string + bool" where
  "decodeBool de v = (case v of VNil \<Rightarrow> Inr False | VBool b \<Rightarrow> Inr b | _ \<Rightarrow> Inl (de_type_error de))"

definition decodeInt :: "docker_env \<Rightarrow> int \<Rightarrow> int \<Rightarrow> goval \<Rightarrow> string + int" where
  "decodeInt de lo hi v = (case v of VNil \<Rightarrow> Inr 0 | VInt i \<Rightarrow> if lo \<le> i \<and> i < hi then Inr i else Inl (de_type_error de) | _ \<Rightarrow> Inl (de_type_error de))"

definition decodeArray :: "docker_env \<Rightarrow> goval \<Rightarrow> string + goval list" where
  "decodeArray de v = (case v of VNil \<Rightarrow> Inr [] | VArr vs \<Rightarrow> Inr vs | _ \<Rightarrow> Inl (de_type_error de))"

fun decodeAll :: "('a \<Rightarrow> string + 'b) \<Rightarrow> 'a list \<Rightarrow> string + 'b list" where
  "decodeAll f [] = Inr []"
| "decodeAll f (v # vs) = bindS (f v) (\<lambda>x. bindS (decodeAll f vs) (\<lambda>xs. Inr (x # xs)))"

definition decodeStrings :: "docker_env \<Rightarrow> goval \<Rightarrow> string + string list" where
  "decodeStrings de v = bindS (decodeArray de v) (decodeAll (decodeString de))"

definition decodeStringMap :: "docker_env \<Rightarrow> goval \<Rightarrow> string + (string \<times> string) list" where
  "decodeStringMap de v = bindS (decodeStruct de v) (decodeAll (\<lambda>(k, x). bindS (decodeString de x) (\<lambda>s. Inr (k, s))))"

type_synonym labels = "(string \<times> string) list"

definition label_of :: "labels \<Rightarrow> string \<Rightarrow> string" where
  "label_of ls k = (case map_of ls k of Some v \<Rightarrow> v | None \<Rightarrow> [])"

definition decodeLabels :: "docker_env \<Rightarrow> goval \<Rightarrow> string + labels" where
  "decodeLabels de v = bindS (decodeStruct de v) (\<lambda>m. decodeStringMap de (mget m ''Labels''))"

definition decodeConfigLabels :: "docker_env \<Rightarrow> goval \<Rightarrow> string + labels" where
  "decodeConfigLabels de v = bindS (decodeStruct de v) (\<lambda>m. decodeLabels de (mget m ''Config''))"

section \<open>Ownership\<close>

fun urlEscape :: "string \<Rightarrow> string" where
  "urlEscape [] = []"
| "urlEscape (c # cs) = (if c = CHR ''/'' then ''%2F'' else if c = CHR '' '' then ''%20'' else if c = CHR ''?'' then ''%3F''
     else if c = CHR ''#'' then ''%23'' else [c]) @ urlEscape cs"

definition isDockerNotFound :: "string \<Rightarrow> bool" where
  "isDockerNotFound err = (let message = to_lower err in contains message ''no such'' \<or> contains message ''not found'')"

definition ownsLabels :: "docker_env \<Rightarrow> labels \<Rightarrow> bool" where
  "ownsLabels de ls = (if de_owner de = [] then True
     else let owner = label_of ls ''cloudmeter.owner'' in
       owner = de_owner de \<or> (owner = [] \<and> UsesLegacyResourceNames (de_owner de)))"

definition managedLabels :: "docker_env \<Rightarrow> labels \<Rightarrow> labels" where
  "managedLabels de extra = extra @ (if de_owner de \<noteq> [] then [(''cloudmeter.owner'', de_owner de)] else []) @ [(''cloudmeter.managed'', ''true'')]"

definition containerPath :: "string \<Rightarrow> string \<Rightarrow> string" where
  "containerPath name rest = ''/containers/'' @ urlEscape name @ rest"

definition foreign_owner :: "string \<Rightarrow> string \<Rightarrow> string" where
  "foreign_owner kind name = ''docker '' @ kind @ '' '' @ name @ '' belongs to a different runtime owner''"

definition assertContainerOwner :: "docker_env \<Rightarrow> string \<Rightarrow> unit docker" where
  "assertContainerOwner de name = (if de_owner de = [] then returnD ()
     else bindD (requestOut de ''GET'' (containerPath name ''/json'') VNil) (\<lambda>out.
     bindD (liftD (decodeConfigLabels de out)) (\<lambda>ls.
     if ownsLabels de ls then returnD () else failD (foreign_owner ''container'' name))))"

definition assertNetworkOwner :: "docker_env \<Rightarrow> string \<Rightarrow> unit docker" where
  "assertNetworkOwner de name = (if de_owner de = [] then returnD ()
     else bindD (requestOut de ''GET'' (''/networks/'' @ urlEscape name) VNil) (\<lambda>out.
     bindD (liftD (decodeLabels de out)) (\<lambda>ls.
     if ownsLabels de ls then returnD () else failD (foreign_owner ''network'' name))))"

definition assertVolumeOwner :: "docker_env \<Rightarrow> string \<Rightarrow> unit docker" where
  "assertVolumeOwner de name = (if de_owner de = [] then returnD ()
     else bindD (requestOut de ''GET'' (''/volumes/'' @ urlEscape name) VNil) (\<lambda>out.
     bindD (liftD (decodeLabels de out)) (\<lambda>ls.
     if ownsLabels de ls then returnD () else failD (foreign_owner ''volume'' name))))"

section \<open>Images\<close>

record DockerImage =
  im_id :: string
  im_tags :: "string list"
  im_size :: int
  im_created :: int
  im_references :: nat

definition decode64 :: "docker_env \<Rightarrow> goval \<Rightarrow> string + int" where
  "decode64 de = decodeInt de (- (2 ^ 63)) (2 ^ 63)"

definition decodeImage :: "docker_env \<Rightarrow> goval \<Rightarrow> string + DockerImage" where
  "decodeImage de v = bindS (decodeStruct de v) (\<lambda>m. bindS (decodeString de (mget m ''Id'')) (\<lambda>i. bindS (decodeStrings de (mget m ''RepoTags'')) (\<lambda>tags.
     bindS (decode64 de (mget m ''Size'')) (\<lambda>size. bindS (decode64 de (mget m ''Created'')) (\<lambda>created.
     Inr \<lparr>im_id = i, im_tags = tags, im_size = size, im_created = created, im_references = 0\<rparr>)))))"

definition Images :: "docker_env \<Rightarrow> DockerImage list docker" where
  "Images de =
    bindD (requestOut de ''GET'' ''/images/json?all=false'' VNil) (\<lambda>out.
    bindD (liftD (bindS (decodeArray de out) (decodeAll (decodeImage de)))) (\<lambda>images.
    bindD (requestOut de ''GET'' ''/containers/json?all=true'' VNil) (\<lambda>out2.
    bindD (liftD (bindS (decodeArray de out2) (decodeAll (\<lambda>v. bindS (decodeStruct de v) (\<lambda>m. decodeString de (mget m ''ImageID'')))))) (\<lambda>used.
    returnD (map (\<lambda>im. im\<lparr>im_references := count_list used (im_id im)\<rparr>) images)))))"

definition ImageExists :: "docker_env \<Rightarrow> string \<Rightarrow> bool docker" where
  "ImageExists de reference = bindD (tryD (
     bindD (requestOut de ''GET'' ''/images/json?all=false'' VNil) (\<lambda>out.
     liftD (bindS (decodeArray de out) (decodeAll (\<lambda>v. bindS (decodeStruct de v) (\<lambda>m. bindS (decodeString de (mget m ''Id'')) (\<lambda>i.
       bindS (decodeStrings de (mget m ''RepoTags'')) (\<lambda>_. bindS (decodeStrings de (mget m ''RepoDigests'')) (\<lambda>ds. Inr (i # ds))))))))))) (\<lambda>r.
     returnD (case r of Inl e \<Rightarrow> False | Inr images \<Rightarrow> list_ex (\<lambda>names. reference \<in> set names) images))"

definition RemoveImage :: "string \<Rightarrow> unit docker" where
  "RemoveImage imageID = (if \<not> has_prefix imageID ''sha256:'' \<or> length imageID \<noteq> 71 then failD ''invalid docker image ID''
     else request ''DELETE'' (''/images/'' @ urlEscape imageID @ ''?force=false&noprune=false'') VNil)"

definition sendPull :: "string \<Rightarrow> string \<Rightarrow> (string + string) docker" where
  "sendPull path auth dm tr = (let c = \<lparr>dc_method = ''POST'', dc_path = path, dc_body = VNil, dc_auth = auth\<rparr>; a = dm tr c; t = tr @ [(c, a)] in
     case a of Unreached e \<Rightarrow> (Inr (Inl e), t)
     | Answered status full \<Rightarrow> if status < 200 \<or> status \<ge> 300 then (Inl (''docker engine POST '' @ path @ '': '' @ trim_space (take (2 ^ 20) full)), t) else (Inr (Inr full), t))"

fun pull_events :: "docker_env \<Rightarrow> string \<Rightarrow> (string + goval) list \<Rightarrow> unit docker" where
  "pull_events de name [] = returnD ()"
| "pull_events de name (ev # evs) = (case bindS ev (\<lambda>v. bindS (decodeStruct de v) (\<lambda>m. bindS (decodeString de (mget m ''error'')) (\<lambda>e.
       bindS (decodeStruct de (mget m ''errorDetail'')) (\<lambda>dt. bindS (decodeString de (mget dt ''message'')) (\<lambda>msg. Inr (e, msg)))))) of
     Inl err \<Rightarrow> failD (''docker image pull '' @ name @ '' response: '' @ err)
   | Inr (e, msg) \<Rightarrow> if e \<noteq> [] then failD (''docker image pull '' @ name @ '': '' @ e)
       else if msg \<noteq> [] then failD (''docker image pull '' @ name @ '': '' @ msg) else pull_events de name evs)"

definition inspectImage :: "docker_env \<Rightarrow> string \<Rightarrow> gomap docker" where
  "inspectImage de name = bindD (requestOut de ''GET'' (''/images/'' @ urlEscape name @ ''/json'') VNil) (\<lambda>out. liftD (decodeStruct de out))"

definition PullWithRegistry :: "docker_env \<Rightarrow> string \<Rightarrow> string \<Rightarrow> string \<Rightarrow> string \<Rightarrow> unit docker" where
  "PullWithRegistry de name username password serverAddress =
    bindD (tryD (inspectImage de name)) (\<lambda>found. case found of Inr _ \<Rightarrow> returnD () | Inl _ \<Rightarrow>
    (let path = ''/images/create?fromImage='' @ de_query de name;
         auth = (if username \<noteq> [] \<or> password \<noteq> [] then b64_enc std_alphabet True (de_marshal de (VStrMap
           [(''username'', username), (''password'', password), (''serveraddress'', serverAddress)])) else []) in
     bindD (sendPull path auth) (\<lambda>answer. case answer of
       Inl err \<Rightarrow> failD (''docker image pull '' @ name @ '': '' @ err)
     | Inr stream \<Rightarrow>
       bindD (pull_events de name (de_events de stream)) (\<lambda>_.
       bindD (tryD (inspectImage de name)) (\<lambda>again. case again of
         Inl err \<Rightarrow> failD (''docker image pull completed but image '' @ name @ '' is unavailable: '' @ err)
       | Inr _ \<Rightarrow> returnD ())))))"

record DockerDaemonSettings =
  ds_mirrors :: "string list"
  ds_http :: string
  ds_https :: string
  ds_no_proxy :: string

definition DaemonSettings :: "docker_env \<Rightarrow> DockerDaemonSettings docker" where
  "DaemonSettings de =
    bindD (requestOut de ''GET'' ''/info'' VNil) (\<lambda>out.
    liftD (bindS (decodeStruct de out) (\<lambda>m. bindS (decodeStruct de (mget m ''RegistryConfig'')) (\<lambda>r. bindS (decodeStrings de (mget r ''Mirrors'')) (\<lambda>mirrors.
      bindS (decodeString de (mget m ''HttpProxy'')) (\<lambda>http. bindS (decodeString de (mget m ''HttpsProxy'')) (\<lambda>https. bindS (decodeString de (mget m ''NoProxy'')) (\<lambda>np.
      Inr \<lparr>ds_mirrors = mirrors, ds_http = http, ds_https = https, ds_no_proxy = np\<rparr>))))))))"

definition Ping :: "unit docker" where
  "Ping = request ''GET'' ''/_ping'' VNil"

section \<open>Listings\<close>

definition name_filter :: "docker_env \<Rightarrow> string \<Rightarrow> string" where
  "name_filter de namePrefix = de_query de (de_marshal de (VObj [(''name'', VStrs [namePrefix])]))"

definition ContainerNames :: "docker_env \<Rightarrow> string \<Rightarrow> string list docker" where
  "ContainerNames de namePrefix =
    bindD (requestOut de ''GET'' (''/containers/json?all=true&filters='' @ name_filter de namePrefix) VNil) (\<lambda>out.
    bindD (liftD (bindS (decodeArray de out) (decodeAll (\<lambda>v. bindS (decodeStruct de v) (\<lambda>m.
      bindS (decodeStrings de (mget m ''Names'')) (\<lambda>names. bindS (decodeStringMap de (mget m ''Labels'')) (\<lambda>ls. Inr (names, ls)))))))) (\<lambda>items.
    returnD (concat (map (\<lambda>(names, ls). if ownsLabels de ls then filter (\<lambda>n. has_prefix n namePrefix) (map (\<lambda>n. trim_prefix n ''/'') names) else []) items))))"

definition NetworkNames :: "docker_env \<Rightarrow> string \<Rightarrow> string list docker" where
  "NetworkNames de namePrefix =
    bindD (requestOut de ''GET'' (''/networks?filters='' @ name_filter de namePrefix) VNil) (\<lambda>out.
    bindD (liftD (bindS (decodeArray de out) (decodeAll (\<lambda>v. bindS (decodeStruct de v) (\<lambda>m.
      bindS (decodeString de (mget m ''Name'')) (\<lambda>name. bindS (decodeStringMap de (mget m ''Labels'')) (\<lambda>ls. Inr (name, ls)))))))) (\<lambda>items.
    returnD (map fst (filter (\<lambda>(name, ls). ownsLabels de ls \<and> has_prefix name namePrefix) items))))"

section \<open>Networks\<close>

definition EnsureNetwork :: "docker_env \<Rightarrow> string \<Rightarrow> unit docker" where
  "EnsureNetwork de name =
    bindD (tryD (bindD (requestOut de ''GET'' (''/networks/'' @ name) VNil) (\<lambda>out.
      liftD (bindS (decodeStruct de out) (\<lambda>m. bindS (decodeString de (mget m ''Id'')) (\<lambda>_. decodeStringMap de (mget m ''Labels''))))))) (\<lambda>r. case r of
      Inr ls \<Rightarrow> if ownsLabels de ls then returnD () else failD (foreign_owner ''network'' name)
    | Inl err \<Rightarrow> if \<not> isDockerNotFound err then failD err
        else bindD (requestOut de ''POST'' ''/networks/create'' (VObj [(''Name'', VStr name), (''Driver'', VStr ''bridge''), (''Internal'', VBool True),
          (''Labels'', VStrMap (managedLabels de [])), (''Options'', VStrMap [(''com.docker.network.bridge.enable_icc'', ''true'')])])) (\<lambda>out.
        bindD (liftD (bindS (decodeStruct de out) (\<lambda>m. bindS (decodeString de (mget m ''Id'')) (\<lambda>_. decodeStringMap de (mget m ''Labels''))))) (\<lambda>_. returnD ())))"

definition tolerate :: "string list \<Rightarrow> unit docker \<Rightarrow> unit docker" where
  "tolerate texts m = bindD (tryD m) (\<lambda>r. case r of Inr _ \<Rightarrow> returnD ()
     | Inl err \<Rightarrow> if list_ex (contains (to_lower err)) texts then returnD () else failD err)"

definition endpoint_of :: "string list \<Rightarrow> goval" where
  "endpoint_of aliases = VObj (if aliases \<noteq> [] then [(''Aliases'', VStrs aliases)] else [])"

definition ConnectNetwork :: "docker_env \<Rightarrow> string \<Rightarrow> string \<Rightarrow> string list \<Rightarrow> unit docker" where
  "ConnectNetwork de network container aliases =
    bindD (assertNetworkOwner de network) (\<lambda>_.
    bindD (assertContainerOwner de container) (\<lambda>_.
    tolerate [''already exists''] (request ''POST'' (''/networks/'' @ urlEscape network @ ''/connect'')
      (VObj [(''Container'', VStr container), (''EndpointConfig'', endpoint_of aliases)]))))"

text \<open>An owner check that treats a missing resource as nothing to do.\<close>

definition unless_missing :: "unit docker \<Rightarrow> unit docker \<Rightarrow> unit docker" where
  "unless_missing check m = bindD (tryD check) (\<lambda>r. case r of Inr _ \<Rightarrow> m
     | Inl err \<Rightarrow> if isDockerNotFound err then returnD () else failD err)"

definition DisconnectNetwork :: "docker_env \<Rightarrow> string \<Rightarrow> string \<Rightarrow> unit docker" where
  "DisconnectNetwork de network container =
    unless_missing (assertNetworkOwner de network)
    (unless_missing (assertContainerOwner de container)
    (tolerate [''not connected'', ''not found''] (request ''POST'' (''/networks/'' @ urlEscape network @ ''/disconnect'')
      (VObj [(''Container'', VStr container), (''Force'', VBool True)]))))"

definition RemoveNetwork :: "docker_env \<Rightarrow> string \<Rightarrow> unit docker" where
  "RemoveNetwork de network =
    unless_missing (assertNetworkOwner de network)
    (tolerate [''not found''] (request ''DELETE'' (''/networks/'' @ urlEscape network) VNil))"

fun first_gateway :: "string list \<Rightarrow> string option" where
  "first_gateway [] = None"
| "first_gateway (g # gs) = (if g \<noteq> [] then Some g else first_gateway gs)"

definition NetworkGateway :: "docker_env \<Rightarrow> string \<Rightarrow> string docker" where
  "NetworkGateway de name =
    bindD (requestOut de ''GET'' (''/networks/'' @ urlEscape name) VNil) (\<lambda>out.
    bindD (liftD (bindS (decodeStruct de out) (\<lambda>m. bindS (decodeStruct de (mget m ''IPAM'')) (\<lambda>ipam. bindS (decodeArray de (mget ipam ''Config''))
      (decodeAll (\<lambda>v. bindS (decodeStruct de v) (\<lambda>c. decodeString de (mget c ''Gateway'')))))))) (\<lambda>gateways.
    case first_gateway gateways of Some g \<Rightarrow> returnD g | None \<Rightarrow> failD (''docker network '' @ name @ '' has no gateway'')))"

section \<open>Containers\<close>

definition StartContainer :: "docker_env \<Rightarrow> string \<Rightarrow> unit docker" where
  "StartContainer de name = bindD (assertContainerOwner de name) (\<lambda>_. request ''POST'' (containerPath name ''/start'') VNil)"

definition StopContainer :: "docker_env \<Rightarrow> string \<Rightarrow> unit docker" where
  "StopContainer de name = bindD (assertContainerOwner de name) (\<lambda>_. request ''POST'' (containerPath name ''/stop?t=20'') VNil)"

definition RemoveContainer :: "docker_env \<Rightarrow> string \<Rightarrow> unit docker" where
  "RemoveContainer de name = bindD (assertContainerOwner de name) (\<lambda>_. request ''DELETE'' (containerPath name ''?force=true'') VNil)"

definition StopContainerIfExists :: "docker_env \<Rightarrow> string \<Rightarrow> unit docker" where
  "StopContainerIfExists de name = tolerate [''no such container'', ''not found'', ''container already stopped'', ''not modified''] (StopContainer de name)"

definition RemoveContainerIfExists :: "docker_env \<Rightarrow> string \<Rightarrow> unit docker" where
  "RemoveContainerIfExists de name = tolerate [''no such container'', ''not found''] (RemoveContainer de name)"

definition inspectContainer :: "docker_env \<Rightarrow> string \<Rightarrow> gomap docker" where
  "inspectContainer de name = bindD (requestOut de ''GET'' (containerPath name ''/json'') VNil) (\<lambda>out. liftD (decodeStruct de out))"

record container_health =
  ch_running :: bool
  ch_restarting :: bool
  ch_health :: "string option"

definition decodeHealth :: "docker_env \<Rightarrow> gomap \<Rightarrow> string + container_health" where
  "decodeHealth de m = bindS (decodeStruct de (mget m ''State'')) (\<lambda>s. bindS (decodeBool de (mget s ''Running'')) (\<lambda>run. bindS (decodeBool de (mget s ''Restarting'')) (\<lambda>rest.
     if mget s ''Health'' = VNil then Inr \<lparr>ch_running = run, ch_restarting = rest, ch_health = None\<rparr>
     else bindS (decodeStruct de (mget s ''Health'')) (\<lambda>h. bindS (decodeString de (mget h ''Status'')) (\<lambda>st.
       Inr \<lparr>ch_running = run, ch_restarting = rest, ch_health = Some st\<rparr>)))))"

definition HealthyContainer :: "docker_env \<Rightarrow> string \<Rightarrow> bool docker" where
  "HealthyContainer de name =
    bindD (assertContainerOwner de name) (\<lambda>_.
    bindD (inspectContainer de name) (\<lambda>m.
    bindD (liftD (bindS (decodeHealth de m) (\<lambda>h. bindS (decodeStruct de (mget m ''State'')) (\<lambda>s. bindS (de_age de (mget s ''StartedAt'')) (\<lambda>age. Inr (h, age)))))) (\<lambda>(h, age).
    returnD (if \<not> ch_running h \<or> ch_restarting h \<or> age < 3 * 10 ^ 9 then False
      else case ch_health h of Some st \<Rightarrow> st = ''healthy'' | None \<Rightarrow> True))))"

text \<open>The published port is asked for at most ten times, with a pause in between that ends early when the context does.\<close>

definition decodeBindings :: "docker_env \<Rightarrow> gomap \<Rightarrow> string + (string \<times> string list) list" where
  "decodeBindings de m = bindS (decodeStruct de (mget m ''NetworkSettings'')) (\<lambda>n. bindS (decodeStruct de (mget n ''Ports''))
     (decodeAll (\<lambda>(k, v). bindS (decodeArray de v) (\<lambda>bs. bindS (decodeAll (\<lambda>b. bindS (decodeStruct de b) (\<lambda>x. decodeString de (mget x ''HostPort''))) bs) (\<lambda>ps. Inr (k, ps))))))"

fun first_port :: "string list \<Rightarrow> int option" where
  "first_port [] = None"
| "first_port (p # ps) = (if p = [] then first_port ps else case atoi p of Some i \<Rightarrow> Some i | None \<Rightarrow> first_port ps)"

primrec published_loop :: "docker_env \<Rightarrow> string \<Rightarrow> int \<Rightarrow> nat \<Rightarrow> int docker" where
  "published_loop de containerID internalPort 0 = failD (''no published host port found for container internal port '' @ show_int internalPort)"
| "published_loop de containerID internalPort (Suc n) =
    bindD (inspectContainer de containerID) (\<lambda>m.
    bindD (liftD (decodeBindings de m)) (\<lambda>ports.
    case first_port (case map_of ports (show_int internalPort @ ''/tcp'') of Some ps \<Rightarrow> ps | None \<Rightarrow> []) of
      Some port \<Rightarrow> returnD port
    | None \<Rightarrow> if n > 0 \<and> 9 - n \<ge> de_ticks de then failD (de_done de) else published_loop de containerID internalPort n))"

definition PublishedPort :: "docker_env \<Rightarrow> string \<Rightarrow> int \<Rightarrow> int docker" where
  "PublishedPort de containerID internalPort = published_loop de containerID internalPort 10"

section \<open>Services of the platform\<close>

definition restartableComposeServices :: "string list" where
  "restartableComposeServices = [''gateway'', ''web'', ''api'', ''app-router'', ''egress-proxy'', ''worker'']"

definition compose_owned :: "docker_env \<Rightarrow> string \<Rightarrow> labels \<Rightarrow> bool" where
  "compose_owned de service ls = (label_of ls ''com.docker.compose.project'' = de_owner de \<and> label_of ls ''com.docker.compose.service'' = service \<and>
     label_of ls ''cloudmeter.owner'' = de_owner de)"

definition wait_step :: "docker_env \<Rightarrow> string \<Rightarrow> string \<Rightarrow> unit docker \<Rightarrow> unit docker" where
  "wait_step de containerID service again =
    bindD (tryD (bindD (inspectContainer de containerID) (\<lambda>m.
      liftD (bindS (decodeLabels de (mget m ''Config'')) (\<lambda>ls. bindS (decodeHealth de m) (\<lambda>h. Inr (ls, h))))))) (\<lambda>r. case r of
      Inl _ \<Rightarrow> again
    | Inr (ls, h) \<Rightarrow> if \<not> compose_owned de service ls then failD (''compose service '' @ service @ '' labels changed during restart'')
        else if ch_running h \<and> \<not> ch_restarting h \<and> (ch_health h = None \<or> ch_health h = Some ''healthy'') then returnD ()
        else again)"

text \<open>The wait ends with the context; the argument counts the ticks before that.\<close>

primrec waitComposeServiceReady :: "docker_env \<Rightarrow> string \<Rightarrow> string \<Rightarrow> nat \<Rightarrow> unit docker" where
  "waitComposeServiceReady de containerID service 0 =
    wait_step de containerID service (failD (''compose service '' @ service @ '' did not become ready: '' @ de_done de))"
| "waitComposeServiceReady de containerID service (Suc n) =
    wait_step de containerID service (waitComposeServiceReady de containerID service n)"

definition compose_filter :: "docker_env \<Rightarrow> string \<Rightarrow> string" where
  "compose_filter de service = de_query de (de_marshal de (VObj [(''label'', VStrs [''com.docker.compose.project='' @ de_owner de,
     ''com.docker.compose.service='' @ service, ''cloudmeter.owner='' @ de_owner de])]))"

definition decodeListed :: "docker_env \<Rightarrow> goval \<Rightarrow> string + (string \<times> labels) list" where
  "decodeListed de out = bindS (decodeArray de out) (decodeAll (\<lambda>v. bindS (decodeStruct de v) (\<lambda>m.
     bindS (decodeString de (mget m ''Id'')) (\<lambda>i. bindS (decodeStringMap de (mget m ''Labels'')) (\<lambda>ls. Inr (i, ls))))))"

definition RestartComposeService :: "docker_env \<Rightarrow> string \<Rightarrow> bool \<Rightarrow> unit docker" where
  "RestartComposeService de raw waitReady = (let service = trim_space raw in
    if service \<notin> set restartableComposeServices then failD (''compose service '' @ de_quote de service @ '' is not restartable'')
    else if trim_space (de_owner de) = [] then failD ''runtime owner is required for platform restart''
    else
    bindD (tryD (bindD (requestOut de ''GET'' (''/containers/json?all=true&filters='' @ compose_filter de service) VNil) (\<lambda>out. liftD (decodeListed de out)))) (\<lambda>r. case r of
      Inl err \<Rightarrow> failD (''find compose service '' @ service @ '': '' @ err)
    | Inr listed \<Rightarrow> (case map fst (filter (\<lambda>(i, ls). i \<noteq> [] \<and> compose_owned de service ls) listed) of
        [containerID] \<Rightarrow>
          bindD (tryD (request ''POST'' (containerPath containerID ''/restart?t=10'') VNil)) (\<lambda>q. case q of
            Inl err \<Rightarrow> failD (''restart compose service '' @ service @ '': '' @ err)
          | Inr _ \<Rightarrow> if \<not> waitReady then returnD () else waitComposeServiceReady de containerID service (de_ticks de))
      | ms \<Rightarrow> failD (''compose service '' @ service @ '' expected exactly one owned container, found '' @ show_nat (length ms)))))"

section \<open>Volumes\<close>

definition EnsureVolume :: "docker_env \<Rightarrow> string \<Rightarrow> unit docker" where
  "EnsureVolume de name =
    bindD (tryD (bindD (requestOut de ''GET'' (''/volumes/'' @ urlEscape name) VNil) (\<lambda>out. liftD (decodeLabels de out)))) (\<lambda>r. case r of
      Inr ls \<Rightarrow> if ownsLabels de ls then returnD () else failD (foreign_owner ''volume'' name)
    | Inl err \<Rightarrow> if \<not> isDockerNotFound err then failD err
        else bindD (requestOut de ''POST'' ''/volumes/create'' (VObj [(''Name'', VStr name), (''Labels'', VStrMap (managedLabels de []))])) (\<lambda>out.
          bindD (liftD (decodeLabels de out)) (\<lambda>_. returnD ())))"

definition RemoveVolumeIfExists :: "docker_env \<Rightarrow> string \<Rightarrow> unit docker" where
  "RemoveVolumeIfExists de name =
    unless_missing (assertVolumeOwner de name)
    (tolerate [''no such'', ''not found''] (request ''DELETE'' (''/volumes/'' @ urlEscape name @ ''?force=true'') VNil))"

definition decodeUsage :: "docker_env \<Rightarrow> gomap \<Rightarrow> string + int option" where
  "decodeUsage de m = (if mget m ''UsageData'' = VNil then Inr None
     else bindS (decodeStruct de (mget m ''UsageData'')) (\<lambda>u. bindS (decode64 de (mget u ''Size'')) (\<lambda>s. Inr (Some s))))"

definition VolumeSize :: "docker_env \<Rightarrow> string \<Rightarrow> int docker" where
  "VolumeSize de name =
    bindD (assertVolumeOwner de name) (\<lambda>_.
    bindD (requestOut de ''GET'' (''/volumes/'' @ urlEscape name) VNil) (\<lambda>out.
    bindD (liftD (bindS (decodeStruct de out) (decodeUsage de))) (\<lambda>usage.
    if (case usage of Some s \<Rightarrow> s \<ge> 0 | None \<Rightarrow> False) then returnD (the usage)
    else
    bindD (requestOut de ''GET'' ''/system/df?type=volume'' VNil) (\<lambda>df.
    bindD (liftD (bindS (decodeStruct de df) (\<lambda>m. bindS (decodeArray de (mget m ''Volumes'')) (decodeAll (\<lambda>v. bindS (decodeStruct de v) (\<lambda>x.
      bindS (decodeString de (mget x ''Name'')) (\<lambda>n. bindS (decodeStringMap de (mget x ''Labels'')) (\<lambda>ls. bindS (decodeUsage de x) (\<lambda>u. Inr (n, ls, u)))))))))) (\<lambda>vols.
    case find (\<lambda>(n, _). n = name) vols of
      None \<Rightarrow> failD (''docker engine did not return volume '' @ name @ '' in disk usage'')
    | Some (n, ls, u) \<Rightarrow>
        if \<not> ownsLabels de ls then failD (foreign_owner ''volume'' name)
        else case u of None \<Rightarrow> failD (''docker engine did not report usage for volume '' @ name)
          | Some s \<Rightarrow> if s < 0 then failD (''docker engine did not report usage for volume '' @ name) else returnD s)))))"

section \<open>Creating containers\<close>

definition sprint :: "docker_env \<Rightarrow> goval \<Rightarrow> string" where
  "sprint de v = (case v of VStr s \<Rightarrow> s | _ \<Rightarrow> de_sprint de v)"

definition container_env :: "docker_env \<Rightarrow> gomap \<Rightarrow> string list" where
  "container_env de spec = (case as_obj (mget spec ''env'') of Some vs \<Rightarrow> map (\<lambda>(k, v). k @ ''='' @ sprint de v) vs | None \<Rightarrow> [])"

definition memory_bytes :: "docker_env \<Rightarrow> gofloat \<Rightarrow> int" where
  "memory_bytes de mib = wrap64 (int_of_gofloat (de_mul de (de_mul de mib (Fin 1024)) (Fin 1024)))"

definition nano_cpus :: "docker_env \<Rightarrow> gofloat \<Rightarrow> int" where
  "nano_cpus de cores = wrap64 (int_of_gofloat (de_mul de cores (Fin 1000000000)))"

definition no_privileges :: "string \<times> goval" where
  "no_privileges = (''SecurityOpt'', VStrs [''no-new-privileges:true''])"

text \<open>The request body, without the fields that are empty.\<close>

definition containerCreate :: "string \<Rightarrow> string list \<Rightarrow> string list \<Rightarrow> labels \<Rightarrow> gomap \<Rightarrow> gomap \<Rightarrow> gomap \<Rightarrow> goval" where
  "containerCreate img evs cmd ls exposed host networking = VObj ([(''Image'', VStr img)] @ (if evs \<noteq> [] then [(''Env'', VStrs evs)] else []) @
     (if cmd \<noteq> [] then [(''Cmd'', VStrs cmd)] else []) @ (if ls \<noteq> [] then [(''Labels'', VStrMap ls)] else []) @
     (if exposed \<noteq> [] then [(''ExposedPorts'', VObj exposed)] else []) @ (if host \<noteq> [] then [(''HostConfig'', VObj host)] else []) @
     (if networking \<noteq> [] then [(''NetworkingConfig'', VObj networking)] else []))"

definition createContainer :: "docker_env \<Rightarrow> string \<Rightarrow> goval \<Rightarrow> string docker" where
  "createContainer de name body =
    bindD (requestOut de ''POST'' (''/containers/create?name='' @ urlEscape name) body) (\<lambda>out.
    liftD (bindS (decodeStruct de out) (\<lambda>m. decodeString de (mget m ''Id''))))"

fun ensure_binds :: "docker_env \<Rightarrow> string \<Rightarrow> string list \<Rightarrow> VolumeMount list \<Rightarrow> string list docker" where
  "ensure_binds de appID binds [] = returnD binds"
| "ensure_binds de appID binds (mount # mounts) = (let volume = AppVolumeNameForOwner (de_sha256 de) (de_owner de) appID (vm_key mount) in
     bindD (EnsureVolume de volume) (\<lambda>_. ensure_binds de appID (binds @ [volume @ '':'' @ vm_mountPath mount]) mounts))"

definition published :: "PortMapping \<Rightarrow> bool" where
  "published m = (mp_enabled m \<and> mp_internal m \<ge> 1 \<and> mp_internal m \<le> 65535)"

definition port_key :: "PortMapping \<Rightarrow> string" where
  "port_key m = show_int (mp_internal m) @ ''/tcp''"

definition port_map :: "(PortMapping \<Rightarrow> goval) \<Rightarrow> PortMapping list \<Rightarrow> gomap" where
  "port_map f ms = fold (\<lambda>m. mput (port_key m) (f m)) (filter published ms) []"

definition CreateContainer :: "docker_env \<Rightarrow> string \<Rightarrow> string \<Rightarrow> string \<Rightarrow> string list \<Rightarrow> gomap \<Rightarrow> PortMapping list \<Rightarrow> string docker" where
  "CreateContainer de name img network aliases spec ms =
    bindD (assertNetworkOwner de network) (\<lambda>_.
    bindD (resultD de (RuntimeResources spec False)) (\<lambda>resources.
    bindD (resultD de (RuntimeStorage spec False)) (\<lambda>storage.
    bindD (ensure_binds de (sprint de (mget spec ''appId'')) [] (VolumeMounts spec)) (\<lambda>binds.
    bindD (resultD de (RuntimeCommand spec)) (\<lambda>command.
    let bindings = port_map (\<lambda>m. VArr [VObj [(''HostPort'', VStr (show_int (mp_host m)))]]) ms;
        exposed = port_map (\<lambda>m. VObj []) ms;
        host = [(''RestartPolicy'', VObj [(''Name'', VStr ''unless-stopped'')]), no_privileges,
          (''Memory'', VInt (memory_bytes de (MemoryMiB resources))), (''NanoCpus'', VInt (nano_cpus de (CPUCores resources))),
          (''StorageOpt'', VStrMap [(''size'', de_gib de (SystemDiskGiB storage) @ ''G'')])] @
          (if binds \<noteq> [] then [(''Binds'', VStrs binds)] else []) @ (if bindings \<noteq> [] then [(''PortBindings'', VObj bindings)] else []);
        endpoints = (if bindings \<noteq> [] then mput ''bridge'' (VObj []) [(network, endpoint_of aliases)] else [(network, endpoint_of aliases)]) in
    createContainer de name (containerCreate img (container_env de spec) command
      (managedLabels de [(''cloudmeter.app_id'', sprint de (mget spec ''appId''))]) exposed host [(''EndpointsConfig'', VObj endpoints)]))))))"

definition CreateProductTest :: "docker_env \<Rightarrow> string \<Rightarrow> string \<Rightarrow> string \<Rightarrow> string list \<Rightarrow> gomap \<Rightarrow> unit docker" where
  "CreateProductTest de name img network aliases spec =
    bindD (assertNetworkOwner de network) (\<lambda>_.
    bindD (resultD de (RuntimeResources spec False)) (\<lambda>resources.
    bindD (resultD de (RuntimeStorage spec False)) (\<lambda>storage.
    bindD (resultD de (RuntimeCommand spec)) (\<lambda>command.
    let tmpfs = fold (\<lambda>mount. AList.update (vm_mountPath mount) (''rw,nosuid,nodev,size='' @ show_int (wrap64 (int_of_gofloat
          (de_mul de (de_mul de (de_mul de (vm_sizeGiB mount) (Fin 1024)) (Fin 1024)) (Fin 1024)))))) (VolumeMounts spec) [];
        host = [(''RestartPolicy'', VObj [(''Name'', VStr ''no'')]), no_privileges,
          (''Memory'', VInt (memory_bytes de (MemoryMiB resources))), (''NanoCpus'', VInt (nano_cpus de (CPUCores resources))),
          (''StorageOpt'', VStrMap [(''size'', de_gib de (SystemDiskGiB storage) @ ''G'')])] @
          (if tmpfs \<noteq> [] then [(''Tmpfs'', VStrMap tmpfs)] else []) in
    bindD (createContainer de name (containerCreate img (container_env de spec) command
      (managedLabels de [(''cloudmeter.product_test_id'', sprint de (mget spec ''testId''))]) [] host
      [(''EndpointsConfig'', VObj [(network, endpoint_of aliases)])])) (\<lambda>_. returnD ())))))"

section \<open>Helper containers\<close>

text \<open>The frames of a log: a header of eight bytes, the last four of them the length.  A frame that is cut off ends the text with what is
  left of the data.\<close>

definition frame_size :: "string \<Rightarrow> nat" where
  "frame_size data = ((byte (data ! 4) * 256 + byte (data ! 5)) * 256 + byte (data ! 6)) * 256 + byte (data ! 7)"

function logs_loop :: "string \<Rightarrow> string \<Rightarrow> string" where
  "logs_loop out data = (if length data < 8 then (if out = [] then data else out)
     else if length data < 8 + frame_size data then data
     else logs_loop (out @ take (frame_size data) (drop 8 data)) (drop (8 + frame_size data) data))"
  by pat_completeness auto
termination by (relation "measure (\<lambda>(out, data). length data)") auto

declare logs_loop.simps [simp del]

definition decodeDockerLogs :: "string \<Rightarrow> string" where
  "decodeDockerLogs data = logs_loop [] data"

definition helper_body :: "docker_env \<Rightarrow> string \<Rightarrow> string list \<Rightarrow> string list \<Rightarrow> goval" where
  "helper_body de img cmd binds = containerCreate img [] cmd (managedLabels de [(''cloudmeter.helper'', ''true'')]) []
     [(''Binds'', VStrs binds), (''NetworkMode'', VStr ''none''), no_privileges] []"

definition waitContainer :: "docker_env \<Rightarrow> string \<Rightarrow> gomap docker" where
  "waitContainer de name = bindD (requestOut de ''POST'' (containerPath name ''/wait?condition=not-running'') VNil) (\<lambda>out. liftD (decodeStruct de out))"

definition runHelperOutput :: "docker_env \<Rightarrow> string \<Rightarrow> string \<Rightarrow> string list \<Rightarrow> string list \<Rightarrow> string docker" where
  "runHelperOutput de name img cmd binds =
    bindD (createContainer de name (helper_body de img cmd binds)) (\<lambda>_.
    deferD (RemoveContainer de name)
    (bindD (StartContainer de name) (\<lambda>_.
     bindD (waitContainer de name) (\<lambda>m.
     bindD (liftD (bindS (decode64 de (mget m ''StatusCode'')) (\<lambda>st. bindS (decodeStruct de (mget m ''Error'')) (\<lambda>e. bindS (decodeString de (mget e ''Message''))
       (\<lambda>msg. Inr (st, msg)))))) (\<lambda>(st, msg).
     if st \<noteq> 0 then failD ((if msg \<noteq> [] then msg else ''helper exited unsuccessfully'') @ '': '' @ name)
     else bindD (rawRequest ''GET'' (containerPath name ''/logs?stdout=true&stderr=true'') VNil) (\<lambda>data. returnD (decodeDockerLogs data)))))))"

definition runHelper :: "docker_env \<Rightarrow> string \<Rightarrow> string \<Rightarrow> string list \<Rightarrow> string list \<Rightarrow> unit docker" where
  "runHelper de name img cmd binds = bindD (runHelperOutput de name img cmd binds) (\<lambda>_. returnD ())"

definition ArchiveVolume :: "docker_env \<Rightarrow> string \<Rightarrow> string \<Rightarrow> string \<Rightarrow> string \<Rightarrow> string \<Rightarrow> int docker" where
  "ArchiveVolume de helperImage backupVolume sourceVolume storageKey jobID =
    bindD (EnsureVolume de backupVolume) (\<lambda>_.
    bindD (assertVolumeOwner de sourceVolume) (\<lambda>_.
    bindD (runHelperOutput de (HelperContainerName (de_sha256 de) (de_owner de) ''backup'' jobID) helperImage
      [''/bin/sh'', ''-c'', ''tar -czf /backup/'' @ storageKey @ '' -C /source . && stat -c %s /backup/'' @ storageKey]
      [sourceVolume @ '':/source:ro'', backupVolume @ '':/backup'']) (\<lambda>output.
    case atoi (trim_space output) of None \<Rightarrow> failD ''backup size output is invalid''
    | Some n \<Rightarrow> if n < 0 then failD ''backup size output is invalid'' else returnD n)))"

definition DeleteBackup :: "docker_env \<Rightarrow> string \<Rightarrow> string \<Rightarrow> string \<Rightarrow> string \<Rightarrow> unit docker" where
  "DeleteBackup de helperImage backupVolume storageKey jobID =
    bindD (assertVolumeOwner de backupVolume) (\<lambda>_.
    (let name = HelperContainerName (de_sha256 de) (de_owner de) ''backup-delete'' jobID in
     bindD (RemoveContainerIfExists de name) (\<lambda>_.
     runHelper de name helperImage [''/bin/sh'', ''-c'', ''rm -f /backup/'' @ storageKey] [backupVolume @ '':/backup''])))"

definition RestoreVolume :: "docker_env \<Rightarrow> string \<Rightarrow> string \<Rightarrow> string \<Rightarrow> string \<Rightarrow> string \<Rightarrow> unit docker" where
  "RestoreVolume de helperImage backupVolume targetVolume storageKey jobID =
    bindD (assertVolumeOwner de backupVolume) (\<lambda>_.
    bindD (assertVolumeOwner de targetVolume) (\<lambda>_.
    runHelper de (HelperContainerName (de_sha256 de) (de_owner de) ''restore'' jobID) helperImage
      [''/bin/sh'', ''-c'', ''find /target -mindepth 1 -maxdepth 1 -exec rm -rf {} + && tar -xzf /backup/'' @ storageKey @ '' -C /target'']
      [targetVolume @ '':/target'', backupVolume @ '':/backup:ro'']))"

section \<open>Probes\<close>

text \<open>\<^verbatim>\<open>(?i)HTTP/[0-9.]+[ \t]+([0-9]{3})(?:[ \t]|$)\<close> at the head of a text: the code and what follows the match.\<close>

definition blank :: "char \<Rightarrow> bool" where
  "blank c = (c = CHR '' '' \<or> byte c = 9)"

definition match_status :: "string \<Rightarrow> (string \<times> string) option" where
  "match_status s = (if map lower_byte (take 5 s) \<noteq> ''http/'' then None
     else let version = takeWhile (\<lambda>c. is_digit c \<or> c = CHR ''.'') (drop 5 s); s1 = drop (5 + length version) s; s2 = dropWhile blank s1;
              code = take 3 s2; rest = drop 3 s2 in
       if version = [] \<or> length s2 = length s1 \<or> length code < 3 \<or> \<not> list_all is_digit code then None
       else case rest of [] \<Rightarrow> Some (code, []) | c # cs \<Rightarrow> if blank c then Some (code, cs) else None)"

lemma match_status_shorter: "match_status s = Some (code, rest) \<Longrightarrow> length rest < length s"
proof -
  assume m: "match_status s = Some (code, rest)"
  define v where "v = takeWhile (\<lambda>c. is_digit c \<or> c = CHR ''.'') (drop 5 s)"
  define s2 where "s2 = dropWhile blank (drop (5 + length v) s)"
  have "length s2 \<le> length (drop (5 + length v) s)" unfolding s2_def by (rule length_dropWhile_le)
  then have 1: "length s2 \<le> length s" by simp
  have 2: "\<not> length (take 3 s2) < 3" "drop 3 s2 = rest \<or> (\<exists>c. drop 3 s2 = c # rest)"
    using m unfolding match_status_def Let_def v_def [symmetric] s2_def [symmetric] by (auto split: if_split_asm list.split_asm)
  then have "length rest \<le> length (drop 3 s2)" by (elim disjE exE) (simp_all del: length_drop)
  then show "length rest < length s" using 1 2(1) by simp
qed

function status_codes :: "string \<Rightarrow> string list" where
  "status_codes s = (case match_status s of Some (code, rest) \<Rightarrow> code # status_codes rest
     | None \<Rightarrow> (case s of [] \<Rightarrow> [] | c # cs \<Rightarrow> status_codes cs))"
  by pat_completeness auto
termination by (relation "measure length") (auto dest: match_status_shorter)

declare status_codes.simps [simp del]

definition lastHTTPStatusCode :: "string \<Rightarrow> int option" where
  "lastHTTPStatusCode s = (case status_codes s of [] \<Rightarrow> None | codes \<Rightarrow> atoi (last codes))"

definition last_bytes :: "nat \<Rightarrow> string \<Rightarrow> string" where
  "last_bytes n s = (if length s > n then drop (length s - n) s else s)"

definition probe_failure :: "int list \<Rightarrow> int \<Rightarrow> string + string \<Rightarrow> unit docker" where
  "probe_failure accepted exitCode logs = (let detail = (case logs of Inl _ \<Rightarrow> [] | Inr data \<Rightarrow> trim_space (decodeDockerLogs data)) in
     if (case lastHTTPStatusCode detail of Some c \<Rightarrow> c \<in> set accepted | None \<Rightarrow> False) then returnD ()
     else failD (''HTTP health probe failed with exit code '' @ show_int exitCode @ (if detail \<noteq> [] then '': '' @ last_bytes 1200 detail else [])))"

definition ProbeHTTP :: "docker_env \<Rightarrow> string \<Rightarrow> string \<Rightarrow> string \<Rightarrow> string \<Rightarrow> int \<Rightarrow> int list \<Rightarrow> unit docker" where
  "ProbeHTTP de name img network target seconds accepted = (let timeout = (if seconds < 1 then 5 else seconds) in
    bindD (assertNetworkOwner de network) (\<lambda>_.
    bindD (RemoveContainerIfExists de name) (\<lambda>_.
    bindD (createContainer de name (containerCreate img [] [''wget'', ''-S'', ''-T'', show_int timeout, ''-O'', ''/dev/null'', ''--'', target]
      (managedLabels de [(''cloudmeter.health_probe'', ''true'')]) []
      [(''NetworkMode'', VStr network), no_privileges, (''CapDrop'', VStrs [''ALL''])] [])) (\<lambda>_.
    deferD (RemoveContainer de name)
    (bindD (StartContainer de name) (\<lambda>_.
     bindD (waitContainer de name) (\<lambda>m.
     bindD (liftD (decode64 de (mget m ''StatusCode''))) (\<lambda>exitCode.
     if exitCode \<noteq> 0
     then bindD (tryD (rawRequest ''GET'' (containerPath name ''/logs?stdout=true&stderr=true&tail=40'') VNil)) (probe_failure accepted exitCode)
     else returnD ()))))))))"

definition truth :: "bool \<Rightarrow> string" where
  "truth b = (if b then ''true'' else ''false'')"

definition ContainerDiagnostics :: "docker_env \<Rightarrow> string \<Rightarrow> int \<Rightarrow> string docker" where
  "ContainerDiagnostics de name lines = (let tail = (if lines < 1 \<or> lines > 500 then 80 else lines) in
    bindD (assertContainerOwner de name) (\<lambda>_.
    bindD (inspectContainer de name) (\<lambda>m.
    bindD (liftD (bindS (decodeStruct de (mget m ''State'')) (\<lambda>s. bindS (decodeString de (mget s ''Status'')) (\<lambda>status. bindS (decodeBool de (mget s ''Running'')) (\<lambda>running.
      bindS (decodeBool de (mget s ''Restarting'')) (\<lambda>restarting. bindS (decodeBool de (mget s ''OOMKilled'')) (\<lambda>oom. bindS (decode64 de (mget s ''ExitCode'')) (\<lambda>exit.
      bindS (decodeString de (mget s ''Error'')) (\<lambda>err. Inr (bytes [231, 138, 182, 230, 128, 129] @ ''='' @ status @ '' running='' @ truth running @ '' restarting='' @ truth restarting @
        '' oomKilled='' @ truth oom @ '' exitCode='' @ show_int exit @ (if err \<noteq> [] then '' error='' @ err else []))))))))))) (\<lambda>state.
    bindD (rawRequest ''GET'' (containerPath name (''/logs?stdout=true&stderr=true&tail='' @ show_int tail)) VNil) (\<lambda>data.
    returnD (state @ bytes [10] @ last_bytes 6000 (trim_space (decodeDockerLogs data))))))))"

section \<open>Usage\<close>

text \<open>Counters are unsigned 64-bit integers.  The processor share is the quotient of two differences times the number of processors,
  here exact, in the code rounded to a double.\<close>

record docker_stats =
  st_total :: int
  st_system :: int
  st_online :: int
  st_pre_total :: int
  st_pre_system :: int
  st_usage :: int
  st_memory :: "(string \<times> int) list"

definition decodeU64 :: "docker_env \<Rightarrow> goval \<Rightarrow> string + int" where
  "decodeU64 de = decodeInt de 0 (2 ^ 64)"

definition decodeStats :: "docker_env \<Rightarrow> goval \<Rightarrow> string + docker_stats" where
  "decodeStats de v = bindS (decodeStruct de v) (\<lambda>m.
     bindS (decodeStruct de (mget m ''cpu_stats'')) (\<lambda>c. bindS (decodeStruct de (mget c ''cpu_usage'')) (\<lambda>cu. bindS (decodeU64 de (mget cu ''total_usage'')) (\<lambda>total.
     bindS (decodeU64 de (mget c ''system_cpu_usage'')) (\<lambda>system. bindS (decodeU64 de (mget c ''online_cpus'')) (\<lambda>online.
     bindS (decodeStruct de (mget m ''precpu_stats'')) (\<lambda>p. bindS (decodeStruct de (mget p ''cpu_usage'')) (\<lambda>pu. bindS (decodeU64 de (mget pu ''total_usage'')) (\<lambda>ptotal.
     bindS (decodeU64 de (mget p ''system_cpu_usage'')) (\<lambda>psystem.
     bindS (decodeStruct de (mget m ''memory_stats'')) (\<lambda>me. bindS (decodeU64 de (mget me ''usage'')) (\<lambda>usage.
     bindS (bindS (decodeStruct de (mget me ''stats'')) (decodeAll (\<lambda>(k, x). bindS (decodeU64 de x) (\<lambda>n. Inr (k, n))))) (\<lambda>stats.
     Inr \<lparr>st_total = total, st_system = system, st_online = online, st_pre_total = ptotal, st_pre_system = psystem, st_usage = usage, st_memory = stats\<rparr>)))))))))))))"

definition memory_stat :: "docker_stats \<Rightarrow> string \<Rightarrow> int" where
  "memory_stat s k = (case map_of (st_memory s) k of Some n \<Rightarrow> n | None \<Rightarrow> 0)"

definition working_memory :: "docker_stats \<Rightarrow> int" where
  "working_memory s = (let inactive0 = memory_stat s ''total_inactive_file'';
     inactive = (if inactive0 = 0 then memory_stat s ''inactive_file'' else inactive0) in
     if inactive < st_usage s then st_usage s - inactive else st_usage s)"

definition processor_share :: "docker_stats \<Rightarrow> rat" where
  "processor_share s = (if st_total s < st_pre_total s \<or> st_system s < st_pre_system s \<or> st_system s - st_pre_system s = 0 then 0
     else of_int (st_total s - st_pre_total s) / of_int (st_system s - st_pre_system s) * of_int (if st_online s = 0 then 1 else st_online s))"

definition Stats :: "docker_env \<Rightarrow> string \<Rightarrow> (rat \<times> int) docker" where
  "Stats de name =
    bindD (assertContainerOwner de name) (\<lambda>_.
    bindD (requestOut de ''GET'' (containerPath name ''/stats?stream=false'') VNil) (\<lambda>out.
    bindD (liftD (decodeStats de out)) (\<lambda>s. returnD (processor_share s, wrap64 (working_memory s)))))"

section \<open>The operations\<close>

datatype docker_operation =
    OpRemoveImage string
  | OpPull string string string string
  | OpEnsureNetwork string
  | OpConnect string string "string list"
  | OpDisconnect string string
  | OpRemoveNetwork string
  | OpStart string
  | OpStop string
  | OpStopIfExists string
  | OpRemove string
  | OpRemoveIfExists string
  | OpRestart string bool
  | OpEnsureVolume string
  | OpRemoveVolume string
  | OpCreate string string string "string list" gomap "PortMapping list"
  | OpCreateTest string string string "string list" gomap
  | OpArchive string string string string string
  | OpDeleteBackup string string string string
  | OpRestore string string string string string
  | OpProbe string string string string int "int list"

definition ignoring :: "'a docker \<Rightarrow> unit docker" where
  "ignoring m = bindD m (\<lambda>_. returnD ())"

fun perform :: "docker_env \<Rightarrow> docker_operation \<Rightarrow> unit docker" where
  "perform de (OpRemoveImage i) = RemoveImage i"
| "perform de (OpPull i u p s) = PullWithRegistry de i u p s"
| "perform de (OpEnsureNetwork n) = EnsureNetwork de n"
| "perform de (OpConnect n c al) = ConnectNetwork de n c al"
| "perform de (OpDisconnect n c) = DisconnectNetwork de n c"
| "perform de (OpRemoveNetwork n) = RemoveNetwork de n"
| "perform de (OpStart c) = StartContainer de c"
| "perform de (OpStop c) = StopContainer de c"
| "perform de (OpStopIfExists c) = StopContainerIfExists de c"
| "perform de (OpRemove c) = RemoveContainer de c"
| "perform de (OpRemoveIfExists c) = RemoveContainerIfExists de c"
| "perform de (OpRestart s w) = RestartComposeService de s w"
| "perform de (OpEnsureVolume v) = EnsureVolume de v"
| "perform de (OpRemoveVolume v) = RemoveVolumeIfExists de v"
| "perform de (OpCreate c i n al sp ms) = ignoring (CreateContainer de c i n al sp ms)"
| "perform de (OpCreateTest c i n al sp) = CreateProductTest de c i n al sp"
| "perform de (OpArchive h b v k j) = ignoring (ArchiveVolume de h b v k j)"
| "perform de (OpDeleteBackup h b k j) = DeleteBackup de h b k j"
| "perform de (OpRestore h b v k j) = RestoreVolume de h b v k j"
| "perform de (OpProbe c i n t s a) = ProbeHTTP de c i n t s a"

end
