(* ===== verification/Docker_Guard.thy ===== *)
theory Docker_Guard
  imports Docker_Executor
begin

text \<open>
  What the executor asks of the engine: with an owner set, no operation touches a container, network or volume of another owner, and what
  it creates carries the owner's label.  Programs are checked with triples over traces: facts that an answer has established stay true as
  the trace grows, so a step may rely on every fact collected before it.
\<close>

section \<open>What a trace shows\<close>

text \<open>The value an answer is decoded to.\<close>

definition decoded :: "docker_env \<Rightarrow> docker_answer \<Rightarrow> goval option" where
  "decoded de a = (case a of Unreached e \<Rightarrow> None
     | Answered status full \<Rightarrow> if status < 200 \<or> status \<ge> 300 then None
        else let data = take (2 ^ 20) full in if data = [] then Some VNil else case de_unmarshal de data of Inl e \<Rightarrow> None | Inr v \<Rightarrow> Some v)"

definition owned_labels :: "docker_env \<Rightarrow> string + labels \<Rightarrow> bool" where
  "owned_labels de r = (case r of Inl e \<Rightarrow> False | Inr ls \<Rightarrow> ownsLabels de ls)"

definition shows_owned :: "docker_env \<Rightarrow> string \<Rightarrow> string \<Rightarrow> docker_call \<Rightarrow> goval \<Rightarrow> bool" where
  "shows_owned de k x c v = (if k = ''containers''
     then (dc_path c = ''/containers/'' @ x @ ''/json'' \<and> owned_labels de (decodeConfigLabels de v)) \<or>
          (has_prefix (dc_path c) ''/containers/json?'' \<and> (case decodeListed de v of Inl e \<Rightarrow> False
             | Inr ls \<Rightarrow> list_ex (\<lambda>(i, l). urlEscape i = x \<and> ownsLabels de l) ls))
     else dc_path c = ''/'' @ k @ ''/'' @ x \<and> owned_labels de (decodeLabels de v))"

text \<open>The engine has answered, earlier in the trace, that the resource is the owner's.\<close>

definition owned :: "docker_env \<Rightarrow> docker_trace \<Rightarrow> string \<Rightarrow> string \<Rightarrow> bool" where
  "owned de tr k x = list_ex (\<lambda>(c, a). dc_method c = ''GET'' \<and> (case decoded de a of None \<Rightarrow> False | Some v \<Rightarrow> shows_owned de k x c v)) tr"

definition made_volume :: "docker_env \<Rightarrow> docker_trace \<Rightarrow> string \<Rightarrow> bool" where
  "made_volume de tr name = list_ex (\<lambda>(c, a). dc_method c = ''POST'' \<and> dc_path c = ''/volumes/create'' \<and> mget (obj_or_empty (dc_body c)) ''Name'' = VStr name \<and>
     decoded de a \<noteq> None) tr"

definition mountable :: "docker_env \<Rightarrow> docker_trace \<Rightarrow> string \<Rightarrow> bool" where
  "mountable de tr name = (owned de tr ''volumes'' (urlEscape name) \<or> made_volume de tr name)"

section \<open>What a request may do\<close>

definition labelled :: "docker_env \<Rightarrow> goval \<Rightarrow> bool" where
  "labelled de body = (case mget (obj_or_empty body) ''Labels'' of VStrMap ls \<Rightarrow> label_of ls ''cloudmeter.owner'' = de_owner de | _ \<Rightarrow> False)"

definition network_ok :: "docker_env \<Rightarrow> docker_trace \<Rightarrow> string \<Rightarrow> bool" where
  "network_ok de tr n = (n = ''bridge'' \<or> n = ''none'' \<or> owned de tr ''networks'' (urlEscape n))"

text \<open>A new container gains no privileges, is on networks of the owner or the default bridge, and mounts only volumes of the owner.\<close>

definition host_ok :: "docker_env \<Rightarrow> docker_trace \<Rightarrow> gomap \<Rightarrow> bool" where
  "host_ok de tr host = (mget host ''SecurityOpt'' = VStrs [''no-new-privileges:true''] \<and> \<not> has_key host ''Privileged'' \<and>
     (case mget host ''Binds'' of VNil \<Rightarrow> True | VStrs bs \<Rightarrow> (\<forall>b \<in> set bs. \<exists>name rest. b = name @ '':'' @ rest \<and> mountable de tr name) | _ \<Rightarrow> False) \<and>
     (case mget host ''NetworkMode'' of VNil \<Rightarrow> True | VStr n \<Rightarrow> network_ok de tr n | _ \<Rightarrow> False))"

definition confined :: "docker_env \<Rightarrow> docker_trace \<Rightarrow> goval \<Rightarrow> bool" where
  "confined de tr body = (let m = obj_or_empty body in host_ok de tr (obj_or_empty (mget m ''HostConfig'')) \<and>
     (\<forall>(n, e) \<in> set (obj_or_empty (mget (obj_or_empty (mget m ''NetworkingConfig'')) ''EndpointsConfig'')). network_ok de tr n))"

definition resource_kinds :: "string list" where
  "resource_kinds = [''containers'', ''networks'', ''volumes'']"

definition call_parts :: "string \<Rightarrow> string list" where
  "call_parts path = split_on CHR ''/'' (takeWhile (\<lambda>c. c \<noteq> CHR ''?'') path)"

definition ok_call :: "docker_env \<Rightarrow> docker_trace \<Rightarrow> docker_call \<Rightarrow> bool" where
  "ok_call de tr c = (dc_method c = ''GET'' \<or> (case call_parts (dc_path c) of
     [e, k, x] \<Rightarrow> if k \<notin> set resource_kinds then True
        else if dc_method c = ''POST'' then labelled de (dc_body c) \<and> (k = ''containers'' \<longrightarrow> confined de tr (dc_body c))
        else owned de tr k x
   | [e, k, x, action] \<Rightarrow> if k \<notin> set resource_kinds then True
        else owned de tr k x \<and> (k = ''networks'' \<longrightarrow> (case mget (obj_or_empty (dc_body c)) ''Container'' of
            VStr name \<Rightarrow> owned de tr ''containers'' (urlEscape name) | _ \<Rightarrow> False))
   | _ \<Rightarrow> False))"

definition guarded :: "docker_env \<Rightarrow> docker_trace \<Rightarrow> bool" where
  "guarded de tr = (\<forall>i < length tr. ok_call de (take i tr) (fst (tr ! i)))"

lemma guarded_Nil [simp]: "guarded de []"
  by (simp add: guarded_def)

lemma guarded_snoc: "guarded de (tr @ [(c, a)]) \<longleftrightarrow> guarded de tr \<and> ok_call de tr c"
  by (auto simp: guarded_def less_Suc_eq nth_append)

section \<open>Triples\<close>

datatype fact = Seen string goval | Owned string string | Made string

fun holds :: "docker_env \<Rightarrow> docker_trace \<Rightarrow> fact \<Rightarrow> bool" where
  "holds de tr (Seen path v) = list_ex (\<lambda>(c, a). dc_method c = ''GET'' \<and> dc_path c = path \<and> decoded de a = Some v) tr"
| "holds de tr (Owned k x) = owned de tr k x"
| "holds de tr (Made name) = mountable de tr name"

lemma holds_mono: "holds de tr f \<Longrightarrow> holds de (tr @ us) f"
  by (cases f) (auto simp: owned_def mountable_def made_volume_def list_ex_iff)

definition triple :: "docker_env \<Rightarrow> fact set \<Rightarrow> 'a docker \<Rightarrow> ('a \<Rightarrow> fact set) \<Rightarrow> bool" where
  "triple de F m G = (\<forall>dm tr r t. guarded de tr \<longrightarrow> (\<forall>f \<in> F. holds de tr f) \<longrightarrow> m dm tr = (r, t) \<longrightarrow>
     guarded de t \<and> (\<exists>us. t = tr @ us) \<and> (\<forall>a. r = Inr a \<longrightarrow> (\<forall>f \<in> G a. holds de t f)))"

named_theorems triple_intros "rules for triples"

lemma tripleI:
  assumes "\<And>dm tr r t. guarded de tr \<Longrightarrow> \<forall>f \<in> F. holds de tr f \<Longrightarrow> m dm tr = (r, t) \<Longrightarrow>
     guarded de t \<and> (\<exists>us. t = tr @ us) \<and> (\<forall>a. r = Inr a \<longrightarrow> (\<forall>f \<in> G a. holds de t f))"
  shows "triple de F m G"
  unfolding triple_def by (intro allI impI) (rule assms)

lemma tripleD:
  assumes "triple de F m G" "guarded de tr" "\<forall>f \<in> F. holds de tr f" "m dm tr = (r, t)"
  shows "guarded de t" "\<exists>us. t = tr @ us" "\<And>a. r = Inr a \<Longrightarrow> \<forall>f \<in> G a. holds de t f"
proof -
  have "guarded de t \<and> (\<exists>us. t = tr @ us) \<and> (\<forall>a. r = Inr a \<longrightarrow> (\<forall>f \<in> G a. holds de t f))"
    by (rule assms(1) [unfolded triple_def, THEN spec, THEN spec, THEN spec, THEN spec, THEN mp, THEN mp, THEN mp, OF assms(2,3,4)])
  then show "guarded de t" "\<exists>us. t = tr @ us" "\<And>a. r = Inr a \<Longrightarrow> \<forall>f \<in> G a. holds de t f" by simp_all
qed

lemma triple_bind_value:
  assumes m: "triple de F m G" and P: "\<And>dm tr a t. m dm tr = (Inr a, t) \<Longrightarrow> P a" and k: "\<And>a. P a \<Longrightarrow> triple de (F \<union> G a) (k a) H"
  shows "triple de F (bindD m k) H"
proof (rule tripleI)
  fix dm tr r2 t2
  assume g: "guarded de tr" and F: "\<forall>f \<in> F. holds de tr f" and b: "bindD m k dm tr = (r2, t2)"
  obtain r t where r: "m dm tr = (r, t)" by fastforce
  note 1 = tripleD [OF m g F r]
  obtain us where us: "t = tr @ us" using 1(2) by blast
  show "guarded de t2 \<and> (\<exists>us. t2 = tr @ us) \<and> (\<forall>a. r2 = Inr a \<longrightarrow> (\<forall>f \<in> H a. holds de t2 f))"
  proof (cases r)
    case (Inl e)
    then have "r2 = Inl e" "t2 = t" using b by (simp_all add: bindD_def r)
    then show ?thesis using 1(1,2) by simp
  next
    case (Inr a)
    have 2: "k a dm t = (r2, t2)" using b by (simp add: bindD_def r Inr)
    have "\<forall>f \<in> F \<union> G a. holds de t f" using F 1(3) [OF Inr] us holds_mono by blast
    note 3 = tripleD [OF k 1(1) this 2]
    have "P a" using P [of dm tr a t] r Inr by simp
    from 3 [OF this] us show ?thesis by auto
  qed
qed

lemma triple_bind [triple_intros]: "triple de F m G \<Longrightarrow> (\<And>a. triple de (F \<union> G a) (k a) H) \<Longrightarrow> triple de F (bindD m k) H"
  by (rule triple_bind_value [where P = "\<lambda>_. True"]) simp_all

lemma triple_try [triple_intros]:
  assumes "triple de F m G"
  shows "triple de F (tryD m) (\<lambda>r. case r of Inl e \<Rightarrow> {} | Inr a \<Rightarrow> G a)"
proof (rule tripleI)
  fix dm tr r t
  assume g: "guarded de tr" and F: "\<forall>f \<in> F. holds de tr f" and b: "tryD m dm tr = (r, t)"
  obtain q where q: "m dm tr = (q, t)" "r = Inr q" using b by (auto simp: tryD_def split: prod.split_asm)
  show "guarded de t \<and> (\<exists>us. t = tr @ us) \<and> (\<forall>a. r = Inr a \<longrightarrow> (\<forall>f \<in> (case a of Inl e \<Rightarrow> {} | Inr a \<Rightarrow> G a). holds de t f))"
    using tripleD [OF assms g F q(1)] by (cases q) (auto simp: q(2))
qed

lemma triple_defer [triple_intros]:
  assumes m: "triple de F m G" and late: "triple de F late H"
  shows "triple de F (deferD late m) G"
proof (rule tripleI)
  fix dm tr r t3
  assume g: "guarded de tr" and F: "\<forall>f \<in> F. holds de tr f" and b: "deferD late m dm tr = (r, t3)"
  obtain t where t: "m dm tr = (r, t)" and "snd (late dm t) = t3" using b by (auto simp: deferD_def split: prod.split_asm)
  then obtain r2 where r2: "late dm t = (r2, t3)" by (metis prod.collapse)
  note 1 = tripleD [OF m g F t]
  obtain us where us: "t = tr @ us" using 1(2) by blast
  have "\<forall>f \<in> F. holds de t f" using F us holds_mono by blast
  note 2 = tripleD [OF late 1(1) this r2]
  obtain vs where "t3 = t @ vs" using 2(2) by blast
  then show "guarded de t3 \<and> (\<exists>us. t3 = tr @ us) \<and> (\<forall>a. r = Inr a \<longrightarrow> (\<forall>f \<in> G a. holds de t3 f))"
    using 1(3) 2(1) us holds_mono [of de t _ vs] by simp
qed

lemma triple_fail [triple_intros]: "triple de F (failD e) G"
  by (simp add: triple_def failD_def)

lemma triple_return: "(\<And>tr. \<forall>f \<in> F. holds de tr f \<Longrightarrow> \<forall>f \<in> G a. holds de tr f) \<Longrightarrow> triple de F (returnD a) G"
  by (auto simp: triple_def returnD_def intro: exI [of _ "[]"])

lemma triple_return_any [triple_intros]: "triple de F (returnD a) (\<lambda>_. {})"
  by (rule triple_return) simp

lemma triple_weaken:
  assumes "triple de F m G" "\<And>a. H a \<subseteq> G a"
  shows "triple de F m H"
proof (rule tripleI)
  fix dm tr r t
  assume "guarded de tr" "\<forall>f \<in> F. holds de tr f" "m dm tr = (r, t)"
  note 1 = tripleD [OF assms(1) this]
  show "guarded de t \<and> (\<exists>us. t = tr @ us) \<and> (\<forall>a. r = Inr a \<longrightarrow> (\<forall>f \<in> H a. holds de t f))" using 1(1,2) 1(3) assms(2) by blast
qed

lemma triple_keeps:
  assumes "triple de F m G"
  shows "triple de F m (\<lambda>a. G a \<union> F)"
proof (rule tripleI)
  fix dm tr r t
  assume "guarded de tr" and F: "\<forall>f \<in> F. holds de tr f" and m: "m dm tr = (r, t)"
  note 1 = tripleD [OF assms this]
  obtain us where "t = tr @ us" using 1(2) by blast
  then have "\<forall>f \<in> F. holds de t f" using F holds_mono by blast
  then show "guarded de t \<and> (\<exists>us. t = tr @ us) \<and> (\<forall>a. r = Inr a \<longrightarrow> (\<forall>f \<in> G a \<union> F. holds de t f))" using 1 by blast
qed

lemma triple_stronger:
  assumes "triple de F m G" "F \<subseteq> F'"
  shows "triple de F' m G"
proof (rule tripleI)
  fix dm tr r t
  assume "guarded de tr" and F: "\<forall>f \<in> F'. holds de tr f" and m: "m dm tr = (r, t)"
  have "\<forall>f \<in> F. holds de tr f" using F assms(2) by blast
  note 1 = tripleD [OF assms(1) \<open>guarded de tr\<close> this m]
  show "guarded de t \<and> (\<exists>us. t = tr @ us) \<and> (\<forall>a. r = Inr a \<longrightarrow> (\<forall>f \<in> G a. holds de t f))" using 1 by simp
qed

lemma triple_cases [triple_intros]:
  "(c \<Longrightarrow> triple de F a G) \<Longrightarrow> (\<not> c \<Longrightarrow> triple de F b G) \<Longrightarrow> triple de F (if c then a else b) G"
  "(opt = None \<Longrightarrow> triple de F n G) \<Longrightarrow> (\<And>x. opt = Some x \<Longrightarrow> triple de F (s x) G) \<Longrightarrow> triple de F (case opt of None \<Rightarrow> n | Some x \<Rightarrow> s x) G"
  "(\<And>x. sm = Inl x \<Longrightarrow> triple de F (l x) G) \<Longrightarrow> (\<And>y. sm = Inr y \<Longrightarrow> triple de F (r y) G) \<Longrightarrow> triple de F (case sm of Inl x \<Rightarrow> l x | Inr y \<Rightarrow> r y) G"
  "(\<And>x y. pr = (x, y) \<Longrightarrow> triple de F (p x y) G) \<Longrightarrow> triple de F (case pr of (x, y) \<Rightarrow> p x y) G"
  by (auto split: option.split sum.split prod.split)

lemma triple_lift: "(\<And>a. r = Inr a \<Longrightarrow> (\<And>tr. \<forall>f \<in> F. holds de tr f \<Longrightarrow> \<forall>f \<in> G a. holds de tr f)) \<Longrightarrow> triple de F (liftD r) G"
  unfolding liftD_def by (cases r) (auto intro: triple_fail triple_return)

lemma triple_lift_any [triple_intros]: "triple de F (liftD r) (\<lambda>_. {})" "triple de F (resultD e q) (\<lambda>_. {})"
  unfolding liftD_def resultD_def by (auto intro!: triple_intros)

lemma triple_bind_lift: "(\<And>a. r = Inr a \<Longrightarrow> triple de F (k a) G) \<Longrightarrow> triple de F (bindD (liftD r) k) G"
proof (cases r)
  case (Inl e)
  have "bindD (liftD (Inl e)) k = failD e" by (intro ext) (simp add: bindD_def liftD_def failD_def)
  then show ?thesis by (simp add: Inl triple_fail)
next
  case (Inr a)
  assume "\<And>a. r = Inr a \<Longrightarrow> triple de F (k a) G"
  moreover have "bindD (liftD (Inr a)) k = k a" by (intro ext) (simp add: bindD_def liftD_def returnD_def)
  ultimately show ?thesis by (simp add: Inr)
qed

section \<open>Requests\<close>

lemma triple_raw:
  assumes "\<And>tr. \<forall>f \<in> F. holds de tr f \<Longrightarrow> ok_call de tr \<lparr>dc_method = verb, dc_path = path, dc_body = body, dc_auth = []\<rparr>"
  shows "triple de F (rawRequest verb path body) (\<lambda>_. {})"
  using assms by (auto simp: triple_def rawRequest_def Let_def guarded_snoc split: docker_answer.split_asm if_split_asm)

lemma ok_get [simp]: "ok_call de tr \<lparr>dc_method = ''GET'', dc_path = path, dc_body = body, dc_auth = u\<rparr>"
  by (simp add: ok_call_def)

lemma triple_request:
  assumes "\<And>tr. \<forall>f \<in> F. holds de tr f \<Longrightarrow> ok_call de tr \<lparr>dc_method = verb, dc_path = path, dc_body = body, dc_auth = []\<rparr>"
  shows "triple de F (request verb path body) (\<lambda>_. {})"
  unfolding request_def by (rule triple_bind [OF triple_raw [OF assms]]) (auto intro: triple_intros)

lemma triple_out:
  assumes "\<And>tr. \<forall>f \<in> F. holds de tr f \<Longrightarrow> ok_call de tr \<lparr>dc_method = verb, dc_path = path, dc_body = body, dc_auth = []\<rparr>"
  shows "triple de F (requestOut de verb path body) (\<lambda>_. {})"
  unfolding requestOut_def by (rule triple_bind [OF triple_raw [OF assms]]) (auto intro!: triple_intros)

lemma triple_get: "triple de F (requestOut de ''GET'' path body) (\<lambda>v. {Seen path v})"
  unfolding triple_def requestOut_def bindD_def rawRequest_def Let_def
  by (auto simp: guarded_snoc decoded_def Let_def returnD_def liftD_def failD_def list_ex_iff split: docker_answer.split_asm sum.split_asm if_split_asm)

lemma triple_get_raw [triple_intros]: "triple de F (rawRequest ''GET'' path body) (\<lambda>_. {})"
  by (rule triple_raw) simp

lemma triple_get_any [triple_intros]: "triple de F (requestOut de ''GET'' path body) (\<lambda>_. {})"
  by (rule triple_out) simp

section \<open>Paths\<close>

lemma urlEscape_plain: "CHR ''/'' \<notin> set (urlEscape s)" "CHR ''?'' \<notin> set (urlEscape s)"
  by (induction s) auto

lemma takeWhile_query:
  assumes "CHR ''?'' \<notin> set p" "q = [] \<or> hd q = CHR ''?''"
  shows "takeWhile (\<lambda>c. c \<noteq> CHR ''?'') (p @ q) = p"
proof -
  have "takeWhile (\<lambda>c. c \<noteq> CHR ''?'') q = []" using assms(2) by (cases q) auto
  moreover have "\<forall>c \<in> set p. c \<noteq> CHR ''?''" using assms(1) by auto
  ultimately show ?thesis by (simp add: takeWhile_append2)
qed

lemma split_step: "CHR ''/'' \<notin> set p \<Longrightarrow> split_on CHR ''/'' (p @ CHR ''/'' # r) = p # split_on CHR ''/'' r"
  by (induction p) auto

lemma split_last: "CHR ''/'' \<notin> set p \<Longrightarrow> split_on CHR ''/'' p = [p]"
  by (induction p) auto

lemma parts_resource:
  assumes "CHR ''/'' \<notin> set k" "CHR ''?'' \<notin> set k" "CHR ''/'' \<notin> set x" "CHR ''?'' \<notin> set x" "q = [] \<or> hd q = CHR ''?''"
  shows "call_parts (''/'' @ k @ ''/'' @ x @ q) = [[], k, x]"
proof -
  have "takeWhile (\<lambda>c. c \<noteq> CHR ''?'') ((''/'' @ k @ ''/'' @ x) @ q) = ''/'' @ k @ ''/'' @ x" using assms by (intro takeWhile_query) auto
  then show ?thesis using assms by (simp add: call_parts_def split_step split_last)
qed

lemma parts_action:
  assumes "CHR ''/'' \<notin> set k" "CHR ''?'' \<notin> set k" "CHR ''/'' \<notin> set x" "CHR ''?'' \<notin> set x" "CHR ''/'' \<notin> set action" "CHR ''?'' \<notin> set action" "q = [] \<or> hd q = CHR ''?''"
  shows "call_parts (''/'' @ k @ ''/'' @ x @ ''/'' @ action @ q) = [[], k, x, action]"
proof -
  have "takeWhile (\<lambda>c. c \<noteq> CHR ''?'') ((''/'' @ k @ ''/'' @ x @ ''/'' @ action) @ q) = ''/'' @ k @ ''/'' @ x @ ''/'' @ action" using assms by (intro takeWhile_query) auto
  then show ?thesis using assms by (simp add: call_parts_def split_step split_last)
qed

lemma parts_of [simp]:
  "call_parts (containerPath name ''/start'') = [[], ''containers'', urlEscape name, ''start'']"
  "call_parts (containerPath name ''/stop?t=20'') = [[], ''containers'', urlEscape name, ''stop'']"
  "call_parts (containerPath name ''/restart?t=10'') = [[], ''containers'', urlEscape name, ''restart'']"
  "call_parts (containerPath name ''/wait?condition=not-running'') = [[], ''containers'', urlEscape name, ''wait'']"
  "call_parts (containerPath name ''?force=true'') = [[], ''containers'', urlEscape name]"
  "call_parts (''/networks/'' @ urlEscape name @ ''/connect'') = [[], ''networks'', urlEscape name, ''connect'']"
  "call_parts (''/networks/'' @ urlEscape name @ ''/disconnect'') = [[], ''networks'', urlEscape name, ''disconnect'']"
  "call_parts (''/networks/'' @ urlEscape name) = [[], ''networks'', urlEscape name]"
  "call_parts (''/volumes/'' @ urlEscape name @ ''?force=true'') = [[], ''volumes'', urlEscape name]"
  "call_parts (''/images/'' @ urlEscape name @ ''?force=false&noprune=false'') = [[], ''images'', urlEscape name]"
  "call_parts ''/networks/create'' = [[], ''networks'', ''create'']" "call_parts ''/volumes/create'' = [[], ''volumes'', ''create'']"
  "call_parts (''/containers/create?name='' @ q) = [[], ''containers'', ''create'']" "call_parts (''/images/create?fromImage='' @ q) = [[], ''images'', ''create'']"
  using parts_action [of "''containers''" "urlEscape name" "''start''" "[]"] parts_action [of "''containers''" "urlEscape name" "''stop''" "''?t=20''"]
    parts_action [of "''containers''" "urlEscape name" "''restart''" "''?t=10''"] parts_action [of "''containers''" "urlEscape name" "''wait''" "''?condition=not-running''"]
    parts_resource [of "''containers''" "urlEscape name" "''?force=true''"] parts_action [of "''networks''" "urlEscape name" "''connect''" "[]"]
    parts_action [of "''networks''" "urlEscape name" "''disconnect''" "[]"] parts_resource [of "''networks''" "urlEscape name" "[]"]
    parts_resource [of "''volumes''" "urlEscape name" "''?force=true''"] parts_resource [of "''images''" "urlEscape name" "''?force=false&noprune=false''"]
    parts_resource [of "''networks''" "''create''" "[]"] parts_resource [of "''volumes''" "''create''" "[]"]
    parts_resource [of "''containers''" "''create''" "''?name='' @ q"] parts_resource [of "''images''" "''create''" "''?fromImage='' @ q"]
  by (simp_all add: urlEscape_plain containerPath_def)

lemmas parts_unfolded [simp] = parts_of [unfolded append.simps]

section \<open>Owner checks\<close>

abbreviation Container :: "string \<Rightarrow> fact" where "Container name \<equiv> Owned ''containers'' (urlEscape name)"
abbreviation Network :: "string \<Rightarrow> fact" where "Network name \<equiv> Owned ''networks'' (urlEscape name)"
abbreviation Volume :: "string \<Rightarrow> fact" where "Volume name \<equiv> Owned ''volumes'' (urlEscape name)"

lemma seen_owned:
  assumes "holds de tr (Seen path v)" "shows_owned de k x \<lparr>dc_method = ''GET'', dc_path = path, dc_body = VNil, dc_auth = []\<rparr> v"
  shows "owned de tr k x"
  using assms by (force simp: owned_def list_ex_iff shows_owned_def)

lemma triple_owned:
  assumes "\<And>v ls. dec v = Inr ls \<Longrightarrow> ownsLabels de ls \<Longrightarrow> shows_owned de k x \<lparr>dc_method = ''GET'', dc_path = path, dc_body = VNil, dc_auth = []\<rparr> v"
  shows "triple de F (bindD (requestOut de ''GET'' path VNil) (\<lambda>out. bindD (liftD (dec out)) (\<lambda>ls. if ownsLabels de ls then returnD () else failD e))) (\<lambda>_. {Owned k x})"
proof (rule triple_bind [OF triple_get])
  fix v
  show "triple de (F \<union> {Seen path v}) (bindD (liftD (dec v)) (\<lambda>ls. if ownsLabels de ls then returnD () else failD e)) (\<lambda>_. {Owned k x})"
    by (intro triple_bind_lift triple_cases(1) triple_fail triple_return) (auto intro: seen_owned dest: assms)
qed

lemma triple_assert:
  assumes "de_owner de \<noteq> []"
  shows "triple de F (assertContainerOwner de name) (\<lambda>_. {Container name})" "triple de F (assertNetworkOwner de name) (\<lambda>_. {Network name})"
    "triple de F (assertVolumeOwner de name) (\<lambda>_. {Volume name})"
  using assms unfolding assertContainerOwner_def assertNetworkOwner_def assertVolumeOwner_def
  by (auto intro!: triple_owned simp: shows_owned_def containerPath_def owned_labels_def)

lemma label_managed: "map_of extra ''cloudmeter.owner'' = None \<Longrightarrow> de_owner de \<noteq> [] \<Longrightarrow> label_of (managedLabels de extra) ''cloudmeter.owner'' = de_owner de"
  by (simp add: label_of_def managedLabels_def map_add_def)

lemma triple_tolerate [triple_intros]: "triple de F m G \<Longrightarrow> triple de F (tolerate ts m) (\<lambda>_. {})"
  unfolding tolerate_def by (rule triple_bind [OF triple_try], assumption) (auto intro!: triple_intros split: sum.split)

lemma triple_unless [triple_intros]: "triple de F check G \<Longrightarrow> triple de (F \<union> G ()) m H \<Longrightarrow> triple de F (unless_missing check m) (\<lambda>_. {})"
  unfolding unless_missing_def
  by (rule triple_bind [OF triple_try], assumption) (auto intro!: triple_intros intro: triple_weaken split: sum.split)

section \<open>Operations on what exists\<close>

lemma ok_action [simp]:
  "ok_call de tr \<lparr>dc_method = ''POST'', dc_path = containerPath name ''/start'', dc_body = b, dc_auth = u\<rparr> = owned de tr ''containers'' (urlEscape name)"
  "ok_call de tr \<lparr>dc_method = ''POST'', dc_path = containerPath name ''/stop?t=20'', dc_body = b, dc_auth = u\<rparr> = owned de tr ''containers'' (urlEscape name)"
  "ok_call de tr \<lparr>dc_method = ''POST'', dc_path = containerPath name ''/restart?t=10'', dc_body = b, dc_auth = u\<rparr> = owned de tr ''containers'' (urlEscape name)"
  "ok_call de tr \<lparr>dc_method = ''POST'', dc_path = containerPath name ''/wait?condition=not-running'', dc_body = b, dc_auth = u\<rparr> = owned de tr ''containers'' (urlEscape name)"
  "ok_call de tr \<lparr>dc_method = ''DELETE'', dc_path = containerPath name ''?force=true'', dc_body = b, dc_auth = u\<rparr> = owned de tr ''containers'' (urlEscape name)"
  by (simp_all add: ok_call_def resource_kinds_def)

lemma triple_container:
  assumes "de_owner de \<noteq> []"
  shows "triple de F (StartContainer de name) (\<lambda>_. {Container name})" "triple de F (StopContainer de name) (\<lambda>_. {})" "triple de F (RemoveContainer de name) (\<lambda>_. {})"
    "triple de F (StopContainerIfExists de name) (\<lambda>_. {})" "triple de F (RemoveContainerIfExists de name) (\<lambda>_. {})"
proof -
  note a = triple_assert(1) [OF assms, of F name]
  have r: "triple de (F \<union> {Container name}) (request ''POST'' (containerPath name ''/start'') VNil) (\<lambda>_. {})"
    by (rule triple_request) simp
  show "triple de F (StartContainer de name) (\<lambda>_. {Container name})"
    unfolding StartContainer_def
  proof (rule triple_bind [OF a])
    fix x :: unit
    show "triple de (F \<union> {Container name}) (request ''POST'' (containerPath name ''/start'') VNil) (\<lambda>_. {Container name})"
      unfolding request_def by (rule triple_bind [OF triple_raw]) (auto intro!: triple_return)
  qed
  show s: "triple de F (StopContainer de name) (\<lambda>_. {})" unfolding StopContainer_def by (rule triple_bind [OF a], rule triple_request) simp
  show m: "triple de F (RemoveContainer de name) (\<lambda>_. {})" unfolding RemoveContainer_def by (rule triple_bind [OF a], rule triple_request) simp
  show "triple de F (StopContainerIfExists de name) (\<lambda>_. {})" unfolding StopContainerIfExists_def by (rule triple_tolerate [OF s])
  show "triple de F (RemoveContainerIfExists de name) (\<lambda>_. {})" unfolding RemoveContainerIfExists_def by (rule triple_tolerate [OF m])
qed

lemma triple_network:
  assumes "de_owner de \<noteq> []"
  shows "triple de F (ConnectNetwork de network container aliases) (\<lambda>_. {})" "triple de F (DisconnectNetwork de network container) (\<lambda>_. {})"
    "triple de F (RemoveNetwork de network) (\<lambda>_. {})"
proof -
  note n = triple_assert(2) [OF assms, of _ network] and c = triple_assert(1) [OF assms, of _ container]
  show "triple de F (ConnectNetwork de network container aliases) (\<lambda>_. {})"
    unfolding ConnectNetwork_def
    by (rule triple_bind [OF n], rule triple_bind [OF c], rule triple_tolerate, rule triple_request) (auto simp: ok_call_def resource_kinds_def mget_def obj_or_empty_def)
  show "triple de F (DisconnectNetwork de network container) (\<lambda>_. {})"
    unfolding DisconnectNetwork_def
    by (rule triple_unless [OF n], rule triple_unless [OF c], rule triple_tolerate, rule triple_request) (auto simp: ok_call_def resource_kinds_def mget_def obj_or_empty_def)
  show "triple de F (RemoveNetwork de network) (\<lambda>_. {})"
    unfolding RemoveNetwork_def
    by (rule triple_unless [OF n], rule triple_tolerate, rule triple_request) (auto simp: ok_call_def resource_kinds_def)
qed

lemma triple_RemoveVolume: "de_owner de \<noteq> [] \<Longrightarrow> triple de F (RemoveVolumeIfExists de name) (\<lambda>_. {})"
  unfolding RemoveVolumeIfExists_def
  by (rule triple_unless [OF triple_assert(3)], assumption, rule triple_tolerate, rule triple_request) (auto simp: ok_call_def resource_kinds_def)

lemma triple_image: "triple de F (RemoveImage i) (\<lambda>_. {})" "triple de F (PullWithRegistry de i u p s) (\<lambda>_. {})"
proof -
  show "triple de F (RemoveImage i) (\<lambda>_. {})" unfolding RemoveImage_def
    by (intro triple_cases triple_fail triple_request) (simp add: ok_call_def resource_kinds_def)
  have send: "triple de F (sendPull (''/images/create?fromImage='' @ q) auth) (\<lambda>_. {})" for F q auth
  proof (rule tripleI)
    fix dm tr r t
    assume "guarded de tr" "sendPull (''/images/create?fromImage='' @ q) auth dm tr = (r, t)"
    then show "guarded de t \<and> (\<exists>us. t = tr @ us) \<and> (\<forall>a. r = Inr a \<longrightarrow> (\<forall>f \<in> {}. holds de t f))"
      by (auto simp: sendPull_def Let_def guarded_snoc ok_call_def resource_kinds_def split: docker_answer.split_asm if_split_asm)
  qed
  have ev: "triple de F (pull_events de i evs) (\<lambda>_. {})" for F evs
    by (induction evs) (auto intro!: triple_intros split: sum.split prod.split)
  have ins: "triple de F (inspectImage de i) (\<lambda>_. {})" for F unfolding inspectImage_def by (rule triple_bind [OF triple_get_any]) (rule triple_lift_any)
  show "triple de F (PullWithRegistry de i u p s) (\<lambda>_. {})" unfolding PullWithRegistry_def Let_def
    by (intro triple_cases(3) triple_return_any triple_fail triple_bind [OF send] triple_bind [OF ev] triple_bind [OF triple_try [OF ins]])
qed

section \<open>Creation\<close>

lemma triple_EnsureNetwork: "de_owner de \<noteq> [] \<Longrightarrow> triple de F (EnsureNetwork de name) (\<lambda>_. {})"
  unfolding EnsureNetwork_def
  by (rule triple_bind [OF triple_try [OF triple_bind [OF triple_get_any triple_lift_any(1)]]])
    (auto intro!: triple_bind [OF triple_out] triple_bind [OF triple_lift_any(1)] triple_return_any triple_fail
      simp: ok_call_def resource_kinds_def labelled_def obj_or_empty_def mget_def label_managed split: sum.split)

lemma triple_EnsureVolume:
  assumes "de_owner de \<noteq> []"
  shows "triple de F (EnsureVolume de name) (\<lambda>_. {Made name})"
proof -
  let ?path = "''/volumes/'' @ urlEscape name"
  have create: "triple de F (bindD (requestOut de ''POST'' ''/volumes/create'' (VObj [(''Name'', VStr name), (''Labels'', VStrMap (managedLabels de []))]))
      (\<lambda>out. bindD (liftD (decodeLabels de out)) (\<lambda>_. returnD ()))) (\<lambda>_. {Made name})" for F
  proof (rule triple_bind)
    show "triple de F (requestOut de ''POST'' ''/volumes/create'' (VObj [(''Name'', VStr name), (''Labels'', VStrMap (managedLabels de []))])) (\<lambda>_. {Made name})"
    proof (rule tripleI)
      fix dm tr r t
      assume "guarded de tr" "requestOut de ''POST'' ''/volumes/create'' (VObj [(''Name'', VStr name), (''Labels'', VStrMap (managedLabels de []))]) dm tr = (r, t)"
      then show "guarded de t \<and> (\<exists>us. t = tr @ us) \<and> (\<forall>a. r = Inr a \<longrightarrow> (\<forall>f \<in> {Made name}. holds de t f))"
        using assms by (auto simp: requestOut_def bindD_def rawRequest_def Let_def guarded_snoc ok_call_def resource_kinds_def labelled_def obj_or_empty_def mget_def
          label_managed mountable_def made_volume_def decoded_def returnD_def failD_def liftD_def split: docker_answer.split_asm if_split_asm sum.split_asm)
    qed
  qed (auto intro!: triple_bind_lift triple_return)
  have get: "triple de F (bindD (requestOut de ''GET'' ?path VNil) (\<lambda>out. liftD (decodeLabels de out))) (\<lambda>ls. if ownsLabels de ls then {Made name} else {})"
  proof (rule triple_bind [OF triple_get], rule triple_lift)
    fix v ls tr
    assume "decodeLabels de v = Inr ls" "\<forall>f \<in> F \<union> {Seen ?path v}. holds de tr f"
    then show "\<forall>f \<in> (if ownsLabels de ls then {Made name} else {}). holds de tr f"
      using seen_owned [of de tr ?path v "''volumes''" "urlEscape name"] by (auto simp: mountable_def shows_owned_def owned_labels_def)
  qed
  show ?thesis unfolding EnsureVolume_def
    by (rule triple_bind [OF triple_try [OF get]]) (auto intro!: triple_return triple_fail create split: sum.split)
qed

lemma triple_list: "(xs = [] \<Longrightarrow> triple de F n G) \<Longrightarrow> (\<And>y ys. xs = y # ys \<Longrightarrow> triple de F (c y ys) G) \<Longrightarrow> triple de F (case xs of [] \<Rightarrow> n | y # ys \<Rightarrow> c y ys) G"
  by (cases xs) auto

lemma compose_owned_owns: "compose_owned de service ls \<Longrightarrow> ownsLabels de ls"
  by (simp add: compose_owned_def ownsLabels_def)

lemma triple_wait_step: "triple de F again (\<lambda>_. {}) \<Longrightarrow> triple de F (wait_step de cid service again) (\<lambda>_. {})"
proof -
  assume again: "triple de F again (\<lambda>_. {})"
  have i: "triple de F (bindD (inspectContainer de cid) (\<lambda>m. liftD (g m))) (\<lambda>_. {})" for g :: "gomap \<Rightarrow> string + labels \<times> container_health"
    unfolding inspectContainer_def by (intro triple_bind [OF triple_bind [OF triple_get_any triple_lift_any(1)]] triple_lift_any)
  show ?thesis unfolding wait_step_def
    by (rule triple_bind [OF triple_try [OF i]]) (auto intro!: triple_intros again intro: triple_stronger [OF again] split: sum.split prod.split)
qed

lemma triple_ready: "triple de F (waitComposeServiceReady de cid service n) (\<lambda>_. {})"
  by (induction n) (auto intro!: triple_wait_step triple_fail)

lemma triple_restart: "triple de F (RestartComposeService de raw w) (\<lambda>_. {})"
proof -
  define service where "service = trim_space raw"
  let ?path = "''/containers/json?all=true&filters='' @ compose_filter de service"
  let ?G = "\<lambda>ls. Owned ''containers'' ` (urlEscape ` fst ` {e \<in> set ls. ownsLabels de (snd e)})"
  have get: "triple de F (bindD (requestOut de ''GET'' ?path VNil) (\<lambda>out. liftD (decodeListed de out))) ?G"
  proof (rule triple_bind [OF triple_get], rule triple_lift)
    fix v ls tr
    assume "decodeListed de v = Inr ls" "\<forall>f \<in> F \<union> {Seen ?path v}. holds de tr f"
    then have v: "decodeListed de v = Inr ls" and seen: "holds de tr (Seen ?path v)" by blast+
    show "\<forall>f \<in> ?G ls. holds de tr f"
    proof
      fix f
      assume "f \<in> ?G ls"
      then obtain e where e: "e \<in> set ls" "ownsLabels de (snd e)" "f = Owned ''containers'' (urlEscape (fst e))" by auto
      have "list_ex (\<lambda>(i, l). urlEscape i = urlEscape (fst e) \<and> ownsLabels de l) ls" unfolding list_ex_iff by (rule bexI [OF _ e(1)]) (use e(2) in \<open>simp add: case_prod_beta\<close>)
      moreover have "has_prefix ?path ''/containers/json?''" by (simp add: has_prefix_def)
      ultimately have "shows_owned de ''containers'' (urlEscape (fst e)) \<lparr>dc_method = ''GET'', dc_path = ?path, dc_body = VNil, dc_auth = []\<rparr> v"
        by (simp add: shows_owned_def v)
      from seen_owned [OF seen this] show "holds de tr f" by (simp add: e(3))
    qed
  qed
  have restart: "triple de F' (request ''POST'' (containerPath cid ''/restart?t=10'') VNil) (\<lambda>_. {})"
    if "Owned ''containers'' (urlEscape cid) \<in> F'" for F' cid
    by (rule triple_request) (use that in force)
  show ?thesis unfolding RestartComposeService_def Let_def service_def [symmetric]
  proof (intro triple_cases(1) triple_fail, rule triple_bind [OF triple_try [OF get]])
    fix r :: "string + (string \<times> labels) list"
    show "triple de (F \<union> (case r of Inl e \<Rightarrow> {} | Inr a \<Rightarrow> ?G a)) (case r of
      Inl err \<Rightarrow> failD (''find compose service '' @ service @ '': '' @ err)
    | Inr listed \<Rightarrow> (case map fst (filter (\<lambda>(i, ls). i \<noteq> [] \<and> compose_owned de service ls) listed) of
        [containerID] \<Rightarrow>
          bindD (tryD (request ''POST'' (containerPath containerID ''/restart?t=10'') VNil)) (\<lambda>q. case q of
            Inl err \<Rightarrow> failD (''restart compose service '' @ service @ '': '' @ err)
          | Inr _ \<Rightarrow> if \<not> w then returnD () else waitComposeServiceReady de containerID service (de_ticks de))
      | ms \<Rightarrow> failD (''compose service '' @ service @ '' expected exactly one owned container, found '' @ show_nat (length ms)))) (\<lambda>_. {})"
    proof (intro triple_cases(3) triple_fail triple_list)
      fix listed cid rest
      assume r: "r = Inr listed" and m: "map fst (filter (\<lambda>(i, ls). i \<noteq> [] \<and> compose_owned de service ls) listed) = cid # rest"
      have "cid \<in> set (map fst (filter (\<lambda>(i, ls). i \<noteq> [] \<and> compose_owned de service ls) listed))" unfolding m by simp
      then obtain ls where ls: "(cid, ls) \<in> set listed" "compose_owned de service ls" by auto
      have "Owned ''containers'' (urlEscape cid) \<in> ?G listed" by (intro imageI image_eqI [of cid fst "(cid, ls)"]) (simp_all add: ls(1) compose_owned_owns [OF ls(2)])
      then have "Owned ''containers'' (urlEscape cid) \<in> F \<union> (case r of Inl e \<Rightarrow> {} | Inr a \<Rightarrow> ?G a)" by (simp add: r)
      from triple_try [OF restart [OF this]]
      show "triple de (F \<union> (case r of Inl e \<Rightarrow> {} | Inr a \<Rightarrow> ?G a)) (bindD (tryD (request ''POST'' (containerPath cid ''/restart?t=10'') VNil)) (\<lambda>q. case q of
            Inl err \<Rightarrow> failD (''restart compose service '' @ service @ '': '' @ err)
          | Inr _ \<Rightarrow> if \<not> w then returnD () else waitComposeServiceReady de cid service (de_ticks de))) (\<lambda>_. {})"
        by (rule triple_bind) (intro triple_cases(1,3) triple_fail triple_return_any triple_ready)
    qed
  qed
qed

text \<open>New containers.\<close>

lemma create_fields:
  assumes "ls \<noteq> []" "host \<noteq> []"
  shows "mget (obj_or_empty (containerCreate img evs cmd ls exposed host networking)) ''Labels'' = VStrMap ls"
    "mget (obj_or_empty (containerCreate img evs cmd ls exposed host networking)) ''HostConfig'' = VObj host"
    "mget (obj_or_empty (containerCreate img evs cmd ls exposed host networking)) ''NetworkingConfig'' = (if networking = [] then VNil else VObj networking)"
  using assms by (simp_all add: containerCreate_def obj_or_empty_def mget_def)

lemma triple_create:
  assumes "de_owner de \<noteq> []" "map_of extra ''cloudmeter.owner'' = None" "host \<noteq> []"
    "\<And>tr. \<forall>f \<in> F. holds de tr f \<Longrightarrow> host_ok de tr host"
    "\<And>tr n e. \<forall>f \<in> F. holds de tr f \<Longrightarrow> (n, e) \<in> set (obj_or_empty (mget networking ''EndpointsConfig'')) \<Longrightarrow> network_ok de tr n"
  shows "triple de F (createContainer de name (containerCreate img evs cmd (managedLabels de extra) exposed host networking)) (\<lambda>_. {})"
proof -
  have ne: "managedLabels de extra \<noteq> []" by (simp add: managedLabels_def)
  have "ok_call de tr \<lparr>dc_method = ''POST'', dc_path = ''/containers/create?name='' @ urlEscape name,
      dc_body = containerCreate img evs cmd (managedLabels de extra) exposed host networking, dc_auth = []\<rparr>" if "\<forall>f \<in> F. holds de tr f" for tr
  proof -
    have "obj_or_empty (if networking = [] then VNil else VObj networking) = networking" by (simp add: obj_or_empty_def)
    then have "confined de tr (containerCreate img evs cmd (managedLabels de extra) exposed host networking)"
      using assms(4,5) [OF that] by (auto simp: confined_def Let_def create_fields [OF ne assms(3)] obj_or_empty_def [of "VObj host"])
    moreover have "labelled de (containerCreate img evs cmd (managedLabels de extra) exposed host networking)"
      using label_managed [OF assms(2,1)] by (simp add: labelled_def create_fields [OF ne assms(3)])
    ultimately show ?thesis by (simp add: ok_call_def resource_kinds_def)
  qed
  then show ?thesis unfolding createContainer_def by (intro triple_bind [OF triple_out] triple_lift_any) blast
qed

lemma ensure_binds_value: "ensure_binds de appID binds mounts dm tr = (Inr bs, t) \<Longrightarrow>
    bs = binds @ map (\<lambda>m. AppVolumeNameForOwner (de_sha256 de) (de_owner de) appID (vm_key m) @ '':'' @ vm_mountPath m) mounts"
proof (induction mounts arbitrary: binds tr)
  case (Cons m ms)
  from Cons.prems obtain u where "ensure_binds de appID (binds @ [AppVolumeNameForOwner (de_sha256 de) (de_owner de) appID (vm_key m) @ '':'' @ vm_mountPath m]) ms dm u = (Inr bs, t)"
    by (auto simp: bindD_def Let_def split: prod.split_asm sum.split_asm)
  from Cons.IH [OF this] show ?case by simp
qed (simp add: returnD_def)

lemma triple_binds:
  assumes "de_owner de \<noteq> []"
  shows "triple de F (ensure_binds de appID binds mounts) (\<lambda>_. {Made (AppVolumeNameForOwner (de_sha256 de) (de_owner de) appID (vm_key m)) | m. m \<in> set mounts})"
proof (induction mounts arbitrary: F binds)
  case Nil
  show ?case by (simp add: triple_return)
next
  case (Cons m ms)
  let ?v = "\<lambda>m. AppVolumeNameForOwner (de_sha256 de) (de_owner de) appID (vm_key m)"
  show ?case unfolding ensure_binds.simps Let_def
  proof (rule triple_bind [OF triple_EnsureVolume [OF assms]])
    fix x :: unit
    have "triple de (F \<union> {Made (?v m)}) (ensure_binds de appID (binds @ [?v m @ '':'' @ vm_mountPath m]) ms)
        (\<lambda>_. {Made (?v m') | m'. m' \<in> set ms} \<union> (F \<union> {Made (?v m)}))" by (rule triple_keeps) (rule Cons.IH)
    then show "triple de (F \<union> {Made (?v m)}) (ensure_binds de appID (binds @ [?v m @ '':'' @ vm_mountPath m]) ms) (\<lambda>_. {Made (?v m') | m'. m' \<in> set (m # ms)})"
      by (rule triple_weaken) auto
  qed
qed

lemma host_plain: "\<not> has_key host ''Privileged'' \<Longrightarrow> mget host ''SecurityOpt'' = VStrs [''no-new-privileges:true''] \<Longrightarrow>
    mget host ''Binds'' = VNil \<Longrightarrow> mget host ''NetworkMode'' = VNil \<Longrightarrow> host_ok de tr host"
  by (simp add: host_ok_def)

lemma triple_CreateContainer:
  assumes "de_owner de \<noteq> []"
  shows "triple de F (CreateContainer de name img network aliases spec ms) (\<lambda>_. {})"
proof -
  define vol where "vol = (\<lambda>m :: VolumeMount. AppVolumeNameForOwner (de_sha256 de) (de_owner de) (sprint de (mget spec ''appId'')) (vm_key m))"
  define mounts where "mounts = VolumeMounts spec"
  have host: "host_ok de tr ([(''RestartPolicy'', rp), no_privileges, (''Memory'', me), (''NanoCpus'', nc), (''StorageOpt'', so)] @
      (if binds \<noteq> [] then [(''Binds'', VStrs binds)] else []) @ (if bindings \<noteq> [] then [(''PortBindings'', VObj bindings)] else []))"
    if "binds = map (\<lambda>m. vol m @ '':'' @ vm_mountPath m) mounts" "\<And>m. m \<in> set mounts \<Longrightarrow> mountable de tr (vol m)" for tr rp me nc so binds bindings
  proof -
    have "\<forall>b \<in> set binds. \<exists>name rest. b = name @ '':'' @ rest \<and> mountable de tr name" using that by auto
    then show ?thesis by (auto simp: host_ok_def no_privileges_def mget_def has_key_def)
  qed
  have ends: "network_ok de tr n" if "owned de tr ''networks'' (urlEscape network)"
    "(n, e) \<in> set (obj_or_empty (mget [(''EndpointsConfig'', VObj (if b then mput ''bridge'' (VObj []) [(network, ep)] else [(network, ep)]))] ''EndpointsConfig''))" for tr n e b ep
    using that by (auto simp: obj_or_empty_def mget_def mput_def network_ok_def split: if_split_asm)
  have made: "mountable de tr (vol m)" if "\<forall>f \<in> F' \<union> {Made (AppVolumeNameForOwner (de_sha256 de) (de_owner de) (sprint de (mget spec ''appId'')) (vm_key m)) | m. m \<in> set mounts} \<union> {}. holds de tr f"
    "m \<in> set mounts" for F' tr m
  proof -
    have "holds de tr (Made (vol m))" using that unfolding vol_def by blast
    then show ?thesis by simp
  qed
  show ?thesis unfolding CreateContainer_def Let_def mounts_def [symmetric]
    apply (rule triple_bind [OF triple_assert(2) [OF assms]], rule triple_bind [OF triple_lift_any(2)], rule triple_bind [OF triple_lift_any(2)],
      rule triple_bind_value [OF triple_binds [OF assms] ensure_binds_value], assumption, rule triple_bind [OF triple_lift_any(2)], rule triple_create [OF assms])
    subgoal by simp
    subgoal by simp
    subgoal premises p by (rule host, simp add: p(1) vol_def, rule made [OF p(2)])
    subgoal premises p by (rule ends [OF _ p(3)]) (use p(2) in simp)
    done
qed

lemma triple_CreateProductTest:
  assumes "de_owner de \<noteq> []"
  shows "triple de F (CreateProductTest de name img network aliases spec) (\<lambda>_. {})"
  unfolding CreateProductTest_def Let_def
  apply (rule triple_bind [OF triple_assert(2) [OF assms]], rule triple_bind [OF triple_lift_any(2)], rule triple_bind [OF triple_lift_any(2)],
      rule triple_bind [OF triple_lift_any(2)], rule triple_bind [OF triple_create [OF assms] triple_return_any])
  subgoal by simp
  subgoal by simp
  subgoal by (rule host_plain) (simp_all add: no_privileges_def mget_def has_key_def)
  subgoal by (auto simp: obj_or_empty_def mget_def network_ok_def)
  done

lemma triple_waitContainer: "Container name \<in> F \<Longrightarrow> triple de F (waitContainer de name) (\<lambda>_. {})"
  unfolding waitContainer_def by (rule triple_bind [OF triple_out triple_lift_any(1)]) force

lemma triple_helper:
  assumes "de_owner de \<noteq> []" "\<And>b. b \<in> set binds \<Longrightarrow> \<exists>v rest. b = v @ '':'' @ rest \<and> (Volume v \<in> F \<or> Made v \<in> F)"
  shows "triple de F (runHelperOutput de name img cmd binds) (\<lambda>_. {})"
proof -
  have "mountable de tr v" if "\<forall>f \<in> F. holds de tr f" "Volume v \<in> F \<or> Made v \<in> F" for tr v
    using that by (auto simp: mountable_def dest: bspec)
  then have host: "host_ok de tr [(''Binds'', VStrs binds), (''NetworkMode'', VStr ''none''), no_privileges]" if "\<forall>f \<in> F. holds de tr f" for tr
    using assms(2) that by (simp add: host_ok_def no_privileges_def mget_def has_key_def network_ok_def) blast
  have body: "triple de F' (bindD (StartContainer de name) (\<lambda>_. bindD (waitContainer de name) (\<lambda>m. bindD (liftD (dec m)) (\<lambda>(st, msg).
      if st \<noteq> 0 then failD (err msg) else bindD (rawRequest ''GET'' path VNil) (\<lambda>data. returnD (decodeDockerLogs data)))))) (\<lambda>_. {})"
    for F' and dec :: "gomap \<Rightarrow> string + int \<times> string" and err path
    by (rule triple_bind [OF triple_container(1) [OF assms(1)]], rule triple_bind [OF triple_waitContainer], simp)
      (intro triple_bind [OF triple_lift_any(1)] triple_cases triple_fail triple_bind [OF triple_get_raw] triple_return_any)
  show ?thesis unfolding runHelperOutput_def helper_body_def
    by (rule triple_bind [OF triple_create [OF assms(1)]], simp, simp, erule host, simp add: obj_or_empty_def mget_def)
      (rule triple_defer [OF body triple_container(3) [OF assms(1)]])
qed

lemma triple_backup:
  assumes "de_owner de \<noteq> []"
  shows "triple de F (ArchiveVolume de helper backup source key job) (\<lambda>_. {})" "triple de F (DeleteBackup de helper backup key job) (\<lambda>_. {})"
    "triple de F (RestoreVolume de helper backup target key job) (\<lambda>_. {})"
proof -
  note v = triple_assert(3) [OF assms]
  show "triple de F (ArchiveVolume de helper backup source key job) (\<lambda>_. {})" unfolding ArchiveVolume_def
    by (rule triple_bind [OF triple_EnsureVolume [OF assms]], rule triple_bind [OF v], rule triple_bind [OF triple_helper [OF assms]])
      (auto intro!: triple_intros)
  show "triple de F (DeleteBackup de helper backup key job) (\<lambda>_. {})" unfolding DeleteBackup_def Let_def runHelper_def
    by (rule triple_bind [OF v], rule triple_bind [OF triple_container(5) [OF assms]], rule triple_bind [OF triple_helper [OF assms]]) (auto intro!: triple_intros)
  show "triple de F (RestoreVolume de helper backup target key job) (\<lambda>_. {})" unfolding RestoreVolume_def runHelper_def
    by (rule triple_bind [OF v], rule triple_bind [OF v], rule triple_bind [OF triple_helper [OF assms]]) (auto intro!: triple_intros)
qed

lemma triple_ProbeHTTP:
  assumes "de_owner de \<noteq> []"
  shows "triple de F (ProbeHTTP de name img network target seconds accepted) (\<lambda>_. {})"
proof -
  have fail: "triple de F' (probe_failure accepted c logs) (\<lambda>_. {})" for F' c logs
    unfolding probe_failure_def Let_def by (intro triple_cases(1) triple_return_any triple_fail)
  have body: "triple de F' (bindD (StartContainer de name) (\<lambda>_. bindD (waitContainer de name) (\<lambda>m. bindD (liftD (dec m)) (\<lambda>c.
      if c \<noteq> 0 then bindD (tryD (rawRequest ''GET'' path VNil)) (probe_failure accepted c) else returnD ())))) (\<lambda>_. {})"
    for F' and dec :: "gomap \<Rightarrow> string + int" and path
    by (rule triple_bind [OF triple_container(1) [OF assms]], rule triple_bind [OF triple_waitContainer], simp)
      (intro triple_bind [OF triple_lift_any(1)] triple_cases triple_bind [OF triple_try [OF triple_get_raw]] triple_return_any fail)
  show ?thesis unfolding ProbeHTTP_def Let_def
    apply (rule triple_bind [OF triple_assert(2) [OF assms]], rule triple_bind [OF triple_container(5) [OF assms]], rule triple_bind [OF triple_create [OF assms]])
    subgoal by simp
    subgoal by simp
    subgoal by (simp add: host_ok_def no_privileges_def mget_def has_key_def network_ok_def)
    subgoal by (simp add: obj_or_empty_def mget_def)
    subgoal by (rule triple_defer [OF body triple_container(3) [OF assms]])
    done
qed

section \<open>Every operation\<close>

lemma triple_perform:
  assumes "de_owner de \<noteq> []"
  shows "triple de F (perform de op) (\<lambda>_. {})"
  by (cases op) (simp_all add: ignoring_def triple_image triple_network triple_restart triple_EnsureNetwork triple_RemoveVolume
      triple_container triple_backup triple_CreateProductTest triple_ProbeHTTP assms
      triple_bind [OF triple_CreateContainer triple_return_any] triple_bind [OF triple_backup(1) triple_return_any]
      triple_weaken [OF triple_container(1)] triple_weaken [OF triple_EnsureVolume])

section \<open>Ownership\<close>

text \<open>C19: For every executor with an owner, every operation and every engine, however it answers: before a request that starts, stops,
  restarts, removes, connects or disconnects a container, a network or a volume, the engine has answered in the same operation that the
  resource is the owner's; whatever is created carries the owner's label; and a created container gains no privileges, joins only
  networks of the owner or the default bridge, and mounts only volumes of the owner.\<close>

theorem executor_guarded:
  assumes "de_owner de \<noteq> []"
  shows "guarded de (snd (perform de operation dm []))"
proof -
  obtain r t where "perform de operation dm [] = (r, t)" by fastforce
  then show ?thesis using tripleD(1) [OF triple_perform [OF assms, of "{}" operation], of "[]" dm r t] by simp
qed

definition example_docker :: docker_env where
  "example_docker = \<lparr>de_owner = ''cm'', de_sha256 = id, de_unmarshal = (\<lambda>s. if s = ''owned'' then Inr (VObj [(''Config'', VObj [(''Labels'', VObj [(''cloudmeter.owner'', VStr ''cm'')])])])
       else Inr (VObj [(''Config'', VObj [(''Labels'', VObj [(''cloudmeter.owner'', VStr ''other'')])])])),
     de_events = (\<lambda>_. []), de_marshal = (\<lambda>_. []), de_query = id, de_type_error = ''t'', de_done = ''d'', de_sprint = (\<lambda>_. []), de_errorf = (\<lambda>_. ''e''), de_quote = id,
     de_gib = (\<lambda>_. []), de_mul = (\<lambda>x y. x), de_age = (\<lambda>_. Inr 0), de_ticks = 0\<rparr>"

definition example_daemon :: "string \<Rightarrow> daemon" where
  "example_daemon body tr c = Answered 200 body"

text \<open>The container is removed after the inspection; one of another owner is inspected and left alone.\<close>

theorem executor_guarded_witness:
  "guarded example_docker (snd (perform example_docker (OpRemove ''c'') (example_daemon ''owned'') [])) \<and>
   map (\<lambda>(c, a). (dc_method c, dc_path c)) (snd (perform example_docker (OpRemove ''c'') (example_daemon ''owned'') [])) =
     [(''GET'', ''/containers/c/json''), (''DELETE'', ''/containers/c?force=true'')] \<and>
   map (\<lambda>(c, a). (dc_method c, dc_path c)) (snd (perform example_docker (OpRemove ''c'') (example_daemon ''foreign'') [])) =
     [(''GET'', ''/containers/c/json'')]"
  using executor_guarded [of example_docker "OpRemove ''c''" "example_daemon ''owned''"]
  by (simp add: example_docker_def example_daemon_def RemoveContainer_def assertContainerOwner_def request_def requestOut_def rawRequest_def bindD_def Let_def
      liftD_def returnD_def failD_def containerPath_def decodeConfigLabels_def decodeLabels_def decodeStringMap_def decodeStruct_def decodeString_def bindS_def mget_def
      ownsLabels_def label_of_def UsesLegacyResourceNames_def DefaultRuntimeOwner_def equal_fold_def fold_rune_def trim_space_visible visible_def byte_def)

text \<open>C20: An executor recognises exactly what an executor with the same owner has created: of what another owner's executor created, nothing
  is taken for its own, not even by the owner of the unlabelled resources of old installations.\<close>

theorem ownership_exclusive:
  assumes "de_owner d1 \<noteq> []" "de_owner d2 \<noteq> []" "map_of extra ''cloudmeter.owner'' = None"
  shows "ownsLabels d2 (managedLabels d1 extra) \<longleftrightarrow> de_owner d2 = de_owner d1"
  using label_managed [OF assms(3,1)] assms(1,2) by (auto simp: ownsLabels_def Let_def)

theorem ownership_exclusive_witness:
  "ownsLabels example_docker (managedLabels example_docker [(''cloudmeter.app_id'', ''A'')]) \<and>
   \<not> ownsLabels (example_docker\<lparr>de_owner := ''cloudmeter''\<rparr>) (managedLabels example_docker [(''cloudmeter.app_id'', ''A'')])"
  using ownership_exclusive [of example_docker example_docker "[(''cloudmeter.app_id'', ''A'')]"]
    ownership_exclusive [of example_docker "example_docker\<lparr>de_owner := ''cloudmeter''\<rparr>" "[(''cloudmeter.app_id'', ''A'')]"]
  by (simp add: example_docker_def)

text \<open>The model of the stop and deletion passes takes the errors of the engine as arguments; they are the errors of these programs.\<close>

definition error_of :: "string + 'a \<Rightarrow> string option" where
  "error_of r = (case r of Inl e \<Rightarrow> Some e | Inr _ \<Rightarrow> None)"

lemma stop_error_of:
  assumes "en_stop en name = error_of (fst (StopContainer de name dm tr))"
  shows "error_of (fst (StopContainerIfExists de name dm tr)) = StopIfExists en name"
  using assms unfolding StopContainerIfExists_def tolerate_def StopIfExists_def
  by (auto simp: bindD_def tryD_def returnD_def failD_def error_of_def Let_def split: prod.split sum.split)

lemma remove_error_of:
  assumes "en_remove en name = error_of (fst (RemoveContainer de name dm tr))"
  shows "error_of (fst (RemoveContainerIfExists de name dm tr)) = RemoveIfExists en name"
  using assms unfolding RemoveContainerIfExists_def tolerate_def RemoveIfExists_def
  by (auto simp: bindD_def tryD_def returnD_def failD_def error_of_def split: prod.split sum.split)

section \<open>Logs\<close>

definition frame_head :: "char \<Rightarrow> nat \<Rightarrow> string" where
  "frame_head kind n = [kind, char_of (0::nat), char_of (0::nat), char_of (0::nat), char_of (n div 2 ^ 24), char_of (n div 2 ^ 16), char_of (n div 2 ^ 8), char_of n]"

definition log_frame :: "char \<Rightarrow> string \<Rightarrow> string" where
  "log_frame kind payload = frame_head kind (length payload) @ payload"

lemma frame_size_head:
  assumes "n < 2 ^ 32"
  shows "frame_size (frame_head kind n @ rest) = n"
proof -
  have lt: "n div 2 ^ 24 < 256" using assms by simp
  have "((n div 2 ^ 24 * 256 + n div 2 ^ 16 mod 256) * 256 + n div 2 ^ 8 mod 256) * 256 + n mod 256 = n"
  proof -
    have a: "n div 2 ^ 24 = n div 2 ^ 16 div 256" by (simp add: div_mult2_eq [symmetric])
    have b: "n div 2 ^ 16 = n div 2 ^ 8 div 256" "n div 2 ^ 8 = n div 256" by (simp_all add: div_mult2_eq [symmetric])
    have c: "m div 256 * 256 + m mod 256 = m" for m :: nat by simp
    show ?thesis by (simp only: a c b)
  qed
  then show ?thesis using mod_less [OF lt] by (simp add: frame_size_def frame_head_def)
qed

lemma logs_loop_frame:
  assumes "length payload < 2 ^ 32"
  shows "logs_loop out (log_frame kind payload @ rest) = logs_loop (out @ payload) rest"
proof -
  let ?d = "log_frame kind payload @ rest"
  have d: "?d = frame_head kind (length payload) @ payload @ rest" by (simp add: log_frame_def)
  have s: "frame_size ?d = length payload" unfolding d by (rule frame_size_head [OF assms])
  have h: "length (frame_head kind (length payload)) = 8" by (simp add: frame_head_def)
  show ?thesis unfolding logs_loop.simps [of out ?d] s by (simp add: d h)
qed

lemma logs_loop_frames:
  assumes "\<And>p. p \<in> set ps \<Longrightarrow> length (snd p) < 2 ^ 32"
  shows "logs_loop out (concat (map (\<lambda>(k, p). log_frame k p) ps) @ rest) = logs_loop (out @ concat (map snd ps)) rest"
  using assms
proof (induction ps arbitrary: out)
  case (Cons p ps)
  then show ?case by (simp add: case_prod_beta logs_loop_frame)
qed simp

text \<open>C21: Decoding the log stream of a container gives back the bytes written to standard output and standard error, in order, for every
  sequence of frames.\<close>

theorem logs_round_trip:
  assumes "list_all (\<lambda>p. length (snd p) < 2 ^ 32) ps"
  shows "decodeDockerLogs (concat (map (\<lambda>(k, p). log_frame k p) ps)) = concat (map snd ps)"
proof -
  have "logs_loop [] (concat (map (\<lambda>(k, p). log_frame k p) ps) @ []) = logs_loop (concat (map snd ps)) []"
    using logs_loop_frames [of ps "[]" "[]"] assms by (simp add: list_all_iff)
  then show ?thesis by (simp add: decodeDockerLogs_def logs_loop.simps [of _ "[]"])
qed

theorem logs_round_trip_witness:
  "decodeDockerLogs (concat (map (\<lambda>(k, p). log_frame k p) [(CHR 0x01, ''12''), (CHR 0x02, []), (CHR 0x01, ''34'')])) = ''1234''"
  using logs_round_trip [of "[(CHR 0x01, ''12''), (CHR 0x02, []), (CHR 0x01, ''34'')]"] by simp

text \<open>When the last frame is cut off, as by the limit of a mebibyte, everything before it is lost: the result is the cut frame with its header.\<close>

lemma logs_cut_off:
  assumes "list_all (\<lambda>p. length (snd p) < 2 ^ 32) ps" "length payload < n" "n < 2 ^ 32"
  shows "decodeDockerLogs (concat (map (\<lambda>(k, p). log_frame k p) ps) @ frame_head kind n @ payload) = frame_head kind n @ payload"
proof -
  let ?d = "frame_head kind n @ payload"
  have "logs_loop out ?d = ?d" for out
    unfolding logs_loop.simps [of out ?d] frame_size_head [OF assms(3)] using assms(2) by (simp add: frame_head_def)
  then show ?thesis using logs_loop_frames [of ps "[]" ?d] assms(1) by (simp add: decodeDockerLogs_def list_all_iff)
qed

end
