(* ===== verification/Net_Base.thy ===== *)
theory Net_Base
  imports Secretbox_Config
begin

text \<open>
  The parts of \<^verbatim>\<open>net\<close> and \<^verbatim>\<open>net/http\<close> that the router and the egress proxy use: header tables,
  \<^verbatim>\<open>SplitHostPort\<close>, basic authentication, and IP addresses as byte lists.
\<close>

section \<open>Headers\<close>

type_synonym header = "(string \<times> string list) list"

text \<open>Keys are in canonical form, as \<^verbatim>\<open>http.Header\<close> stores them.\<close>

definition header_values :: "header \<Rightarrow> string \<Rightarrow> string list" where
  "header_values h k = (case map_of h k of Some vs \<Rightarrow> vs | None \<Rightarrow> [])"

definition header_get :: "header \<Rightarrow> string \<Rightarrow> string" where
  "header_get h k = (case header_values h k of [] \<Rightarrow> [] | v # _ \<Rightarrow> v)"

definition header_set :: "string \<Rightarrow> string \<Rightarrow> header \<Rightarrow> header" where
  "header_set k v h = AList.update k [v] h"

definition header_add :: "string \<Rightarrow> string \<Rightarrow> header \<Rightarrow> header" where
  "header_add k v h = AList.update k (header_values h k @ [v]) h"

definition header_del :: "string \<Rightarrow> header \<Rightarrow> header" where
  "header_del k h = AList.delete k h"

lemma header_values_set [simp]: "header_values (header_set k v h) k' = (if k = k' then [v] else header_values h k')"
  by (simp add: header_values_def header_set_def update_conv')

lemma header_values_add [simp]:
  "header_values (header_add k v h) k' = (if k = k' then header_values h k @ [v] else header_values h k')"
  by (simp add: header_values_def header_add_def update_conv')

lemma header_values_del [simp]: "header_values (header_del k h) k' = (if k = k' then [] else header_values h k')"
  by (simp add: header_values_def header_del_def delete_conv')

section \<open>Host and port\<close>

definition last_index :: "char \<Rightarrow> string \<Rightarrow> nat option" where
  "last_index c s = (case filter (\<lambda>i. s ! i = c) (rev [0..<length s]) of [] \<Rightarrow> None | i # _ \<Rightarrow> Some i)"

definition first_index :: "char \<Rightarrow> string \<Rightarrow> nat option" where
  "first_index c s = (case filter (\<lambda>i. s ! i = c) [0..<length s] of [] \<Rightarrow> None | i # _ \<Rightarrow> Some i)"

definition split_host_port :: "string \<Rightarrow> (string \<times> string) option" where
  "split_host_port hostport =
    (case last_index CHR '':'' hostport of None \<Rightarrow> None
     | Some i \<Rightarrow>
        if hd hostport = CHR ''['' then
          (case first_index CHR '']'' hostport of None \<Rightarrow> None
           | Some e \<Rightarrow>
              if Suc e \<noteq> i then None
              else if CHR ''['' \<in> set (drop 1 hostport) \<or> CHR '']'' \<in> set (drop (Suc e) hostport) then None
              else Some (take (e - 1) (drop 1 hostport), drop (Suc i) hostport))
        else if CHR '':'' \<in> set (take i hostport) then None
        else if CHR ''['' \<in> set hostport \<or> CHR '']'' \<in> set hostport then None
        else Some (take i hostport, drop (Suc i) hostport))"

section \<open>Basic authentication\<close>

definition parse_basic_auth :: "string \<Rightarrow> (string \<times> string) option" where
  "parse_basic_auth auth =
    (if length auth < 6 \<or> map lower_byte (take 6 auth) \<noteq> ''basic '' then None
     else case b64_decode std_alphabet True (drop 6 auth) of None \<Rightarrow> None
     | Some cs \<Rightarrow> (case cut_on CHR '':'' cs of (user, password, found) \<Rightarrow>
         if found then Some (user, password) else None))"

section \<open>IP addresses\<close>

unbundle bit_operations_syntax

type_synonym ip = "nat list"

definition wf_ip :: "ip \<Rightarrow> bool" where
  "wf_ip a = ((length a = 4 \<or> length a = 16) \<and> (\<forall>b \<in> set a. b < 256))"

definition v4_prefix :: ip where
  "v4_prefix = replicate 10 0 @ [255, 255]"

definition to4 :: "ip \<Rightarrow> ip option" where
  "to4 a = (if length a = 4 then Some a
     else if length a = 16 \<and> take 12 a = v4_prefix then Some (drop 12 a) else None)"

definition ip_equal :: "ip \<Rightarrow> ip \<Rightarrow> bool" where
  "ip_equal a b = (if length a = length b then a = b
     else if length a = 4 \<and> length b = 16 then take 12 b = v4_prefix \<and> a = drop 12 b
     else if length a = 16 \<and> length b = 4 then take 12 a = v4_prefix \<and> drop 12 a = b
     else False)"

definition v6_loopback :: ip where
  "v6_loopback = replicate 15 0 @ [1]"

definition isUnspecified :: "ip \<Rightarrow> bool" where
  "isUnspecified a = (ip_equal a (v4_prefix @ [0, 0, 0, 0]) \<or> ip_equal a (replicate 16 0))"

definition isLoopback :: "ip \<Rightarrow> bool" where
  "isLoopback a = (case to4 a of Some q \<Rightarrow> q ! 0 = 127 | None \<Rightarrow> ip_equal a v6_loopback)"

definition isMulticast :: "ip \<Rightarrow> bool" where
  "isMulticast a = (case to4 a of Some q \<Rightarrow> q ! 0 AND 240 = 224 | None \<Rightarrow> length a = 16 \<and> a ! 0 = 255)"

definition isLinkLocalUnicast :: "ip \<Rightarrow> bool" where
  "isLinkLocalUnicast a = (case to4 a of Some q \<Rightarrow> q ! 0 = 169 \<and> q ! 1 = 254
     | None \<Rightarrow> length a = 16 \<and> a ! 0 = 254 \<and> a ! 1 AND 192 = 128)"

definition isPrivate :: "ip \<Rightarrow> bool" where
  "isPrivate a = (case to4 a of
     Some q \<Rightarrow> q ! 0 = 10 \<or> (q ! 0 = 172 \<and> q ! 1 AND 240 = 16) \<or> (q ! 0 = 192 \<and> q ! 1 = 168)
   | None \<Rightarrow> length a = 16 \<and> a ! 0 AND 254 = 252)"

definition isGlobalUnicast :: "ip \<Rightarrow> bool" where
  "isGlobalUnicast a = ((length a = 4 \<or> length a = 16) \<and> \<not> ip_equal a (v4_prefix @ [255, 255, 255, 255]) \<and>
     \<not> isUnspecified a \<and> \<not> isLoopback a \<and> \<not> isMulticast a \<and> \<not> isLinkLocalUnicast a)"

text \<open>A network is its masked address and its mask; an address of the other family is outside.\<close>

definition net_contains :: "ip \<times> ip \<Rightarrow> ip \<Rightarrow> bool" where
  "net_contains n a = (case n of (nn, m) \<Rightarrow>
     (let x = (case to4 a of Some q \<Rightarrow> q | None \<Rightarrow> a) in
      length x = length nn \<and> list_all (\<lambda>i. nn ! i AND m ! i = x ! i AND m ! i) [0..<length x]))"

lemma and_high:
  fixes x :: nat
  assumes "x < 256" "m + k = 8"
  shows "x AND push_bit k (mask m) = x div 2 ^ k * 2 ^ k"
proof -
  have "take_bit 8 x = x" using assms(1) by (simp add: take_bit_eq_mod)
  then have "k \<le> n \<Longrightarrow> bit x n \<Longrightarrow> n - k < m" for n
    using assms(2) by (metis bit_take_bit_iff add.commute less_diff_conv2)
  then have "x AND push_bit k (mask m) = push_bit k (drop_bit k x)"
    using assms(2) by (intro bit_eqI)
      (auto simp: bit_and_iff bit_push_bit_iff bit_mask_iff bit_drop_bit_eq)
  then show ?thesis by (simp add: push_bit_eq_mult drop_bit_eq_div)
qed

lemma block_iff: "0 < c \<Longrightarrow> (x div c * c = k * c) = (k * c \<le> x \<and> x < k * c + c)" for x :: nat
  by (simp add: div_eq_dividend_iff) (metis add.commute div_nat_eqI dividend_less_times_div
      mult.commute mult_Suc_right times_div_less_eq_dividend)

lemma mask_interval:
  assumes "x < (256::nat)"
  shows "(x AND 240 = 224) = (224 \<le> x \<and> x < 240)" "(x AND 192 = 128) = (128 \<le> x \<and> x < 192)"
    "(x AND 240 = 16) = (16 \<le> x \<and> x < 32)" "(x AND 254 = 252) = (252 \<le> x \<and> x < 254)"
    "(x AND 192 = 64) = (64 \<le> x \<and> x < 128)" "(x AND 254 = 18) = (18 \<le> x \<and> x < 20)" "x AND 255 = x"
proof -
  have m: "x AND 240 = x div 16 * 16" "x AND 192 = x div 64 * 64" "x AND 254 = x div 2 * 2" "x AND 255 = x"
    using and_high [OF assms, of 4 4] and_high [OF assms, of 2 6] and_high [OF assms, of 7 1]
      and_high [OF assms, of 8 0] by (simp_all add: mask_eq_exp_minus_1 push_bit_eq_mult)
  show "(x AND 240 = 224) = (224 \<le> x \<and> x < 240)" using block_iff [of 16 x 14] by (simp add: m)
  show "(x AND 192 = 128) = (128 \<le> x \<and> x < 192)" using block_iff [of 64 x 2] by (simp add: m)
  show "(x AND 240 = 16) = (16 \<le> x \<and> x < 32)" using block_iff [of 16 x 1] by (simp add: m)
  show "(x AND 254 = 252) = (252 \<le> x \<and> x < 254)" using block_iff [of 2 x 126] by (simp add: m)
  show "(x AND 192 = 64) = (64 \<le> x \<and> x < 128)" using block_iff [of 64 x 1] by (simp add: m)
  show "(x AND 254 = 18) = (18 \<le> x \<and> x < 20)" using block_iff [of 2 x 9] by (simp add: m)
  show "x AND 255 = x" by (rule m)
qed

end
