(* ===== verification/Egress.thy ===== *)
theory Egress
  imports Net_Base
begin

text \<open>
  The egress proxy (\<^verbatim>\<open>apps/egress-proxy/main.go\<close>): authentication of an application by its HMAC
  token, the restriction to public addresses, forwarding and tunnelling, and the metering report.
  The network is a record of functions: name resolution, dialling, the HTTP exchange, the tunnel and
  the control plane's answers.  What a request does to the outside is the list of \<open>effect\<close>s.
\<close>

section \<open>Addresses\<close>

unbundle bit_operations_syntax

text \<open>The parsed forms of 100.64.0.0/10, 192.0.0.0/24, 198.18.0.0/15, 2001:db8::/32 and fc00::/7.\<close>

definition blocked :: "(ip \<times> ip) list" where
  "blocked = [([100, 64, 0, 0], [255, 192, 0, 0]), ([192, 0, 0, 0], [255, 255, 255, 0]),
     ([198, 18, 0, 0], [255, 254, 0, 0]),
     ([32, 1, 13, 184] @ replicate 12 0, replicate 4 255 @ replicate 12 0),
     ([252] @ replicate 15 0, [254] @ replicate 15 0)]"

definition publicIP :: "ip \<Rightarrow> bool" where
  "publicIP a = (if \<not> isGlobalUnicast a \<or> isPrivate a \<or> isLoopback a \<or> isLinkLocalUnicast a \<or> isUnspecified a
     then False else \<not> list_ex (\<lambda>network. net_contains network a) blocked)"

section \<open>Network and effects\<close>

record 'c network =
  lookupIP :: "string \<Rightarrow> ip list option"
  dial :: "ip \<Rightarrow> string \<Rightarrow> 'c option"
  roundTrip :: "'c \<Rightarrow> header \<Rightarrow> int list \<times> (nat \<times> header) option"
  hijack :: "bool option"
  tunnel :: "'c \<Rightarrow> int"
  newRequestOK :: bool
  control :: "nat \<Rightarrow> nat option"
  unixNano :: int

datatype effect = Dialled ip string | Sent header | Tunnelled | Reported string string int

datatype reply = Reply nat string | Forwarded nat header | TunnelOpen | NoReply

section \<open>Dialling\<close>

fun dial_loop :: "'c network \<Rightarrow> string \<Rightarrow> ip list \<Rightarrow> effect list \<times> 'c option" where
  "dial_loop net port [] = ([], None)"
| "dial_loop net port (ip # ips) =
    (if \<not> publicIP ip then dial_loop net port ips
     else case dial net ip port of Some conn \<Rightarrow> ([Dialled ip port], Some conn)
       | None \<Rightarrow> (case dial_loop net port ips of (es, r) \<Rightarrow> (Dialled ip port # es, r)))"

definition dialPublic :: "'c network \<Rightarrow> string \<Rightarrow> string \<Rightarrow> effect list \<times> 'c option" where
  "dialPublic net address defaultPort =
    (case (case split_host_port address of Some hp \<Rightarrow> hp | None \<Rightarrow> (address, defaultPort)) of (host, port) \<Rightarrow>
       if atoi port = None then ([], None)
       else case lookupIP net host of None \<Rightarrow> ([], None) | Some ips \<Rightarrow> dial_loop net port ips)"

section \<open>Authentication\<close>

text \<open>\<open>hmac key message\<close> is HMAC-SHA256.  The first component is the application identifier, which the
  source returns with both outcomes.\<close>

definition authenticate :: "(string \<Rightarrow> string \<Rightarrow> string) \<Rightarrow> string \<Rightarrow> header \<Rightarrow> string \<times> bool" where
  "authenticate hmac token h =
    (let raw = trim_space (header_get h ''Proxy-Authorization'') in
     if \<not> has_prefix raw ''Basic '' then ([], False)
     else case b64_decode std_alphabet True (trim_prefix raw ''Basic '') of None \<Rightarrow> ([], False)
     | Some decoded \<Rightarrow>
        (case cut_on CHR '':'' decoded of (part0, part1, found) \<Rightarrow>
          if \<not> found \<or> length part0 \<noteq> 36 then ([], False)
          else let expected = hex_encode (hmac token part0) in
            (part0, length part1 = length expected \<and> part1 = expected)))"

section \<open>Metering\<close>

definition counting_write :: "int \<Rightarrow> int \<Rightarrow> int" where
  "counting_write written n = wrap64 (written + n)"

text \<open>At most three attempts; every attempt carries the same sample identifier.\<close>

fun report_loop :: "'c network \<Rightarrow> string \<Rightarrow> string \<Rightarrow> int \<Rightarrow> nat \<Rightarrow> nat \<Rightarrow> effect list" where
  "report_loop net appID sampleID byteDelta attempt 0 = []"
| "report_loop net appID sampleID byteDelta attempt (Suc left) =
    (if \<not> newRequestOK net then []
     else Reported appID sampleID byteDelta #
       (if control net attempt = Some 202 then []
        else report_loop net appID sampleID byteDelta (Suc attempt) left))"

definition report :: "'c network \<Rightarrow> string \<Rightarrow> int \<Rightarrow> effect list" where
  "report net appID byteDelta =
    (if byteDelta \<le> 0 then []
     else report_loop net appID (appID @ ''/'' @ show_int (unixNano net)) byteDelta 0 3)"

section \<open>Requests\<close>

record proxy_request =
  pr_method :: string
  pr_scheme :: string
  pr_urlHost :: string
  pr_host :: string
  pr_header :: header

definition connect :: "'c network \<Rightarrow> proxy_request \<Rightarrow> string \<Rightarrow> effect list \<times> reply" where
  "connect net r appID =
    (case dialPublic net (pr_host r) ''443'' of
       (es, None) \<Rightarrow> (es, Reply 403 ''target is not publicly routable'')
     | (es, Some target) \<Rightarrow>
        (case hijack net of
           None \<Rightarrow> (es, Reply 500 ''tunneling unavailable'')
         | Some False \<Rightarrow> (es, NoReply)
         | Some True \<Rightarrow> (es @ [Tunnelled] @ report net appID (tunnel net target), TunnelOpen)))"

fun add_values :: "string \<Rightarrow> string list \<Rightarrow> header \<Rightarrow> header" where
  "add_values key [] dst = dst"
| "add_values key (v # vs) dst = add_values key vs (header_add key v dst)"

fun copyHeaders :: "header \<Rightarrow> header \<Rightarrow> header" where
  "copyHeaders dst [] = dst"
| "copyHeaders dst ((key, values) # src) = copyHeaders (add_values key values dst) src"

definition outbound_header :: "header \<Rightarrow> header" where
  "outbound_header h = header_del ''Proxy-Connection'' (header_del ''Proxy-Authorization'' h)"

definition ServeHTTP :: "(string \<Rightarrow> string \<Rightarrow> string) \<Rightarrow> string \<Rightarrow> 'c network \<Rightarrow> proxy_request \<Rightarrow> effect list \<times> reply" where
  "ServeHTTP hmac token net r =
    (case authenticate hmac token (pr_header r) of
       (appID, False) \<Rightarrow> ([], Reply 407 ''proxy authentication required'')
     | (appID, True) \<Rightarrow>
        if pr_method r = ''CONNECT'' then connect net r appID
        else if pr_scheme r \<noteq> ''http'' \<or> pr_urlHost r = []
        then ([], Reply 400 ''only HTTP proxy requests are accepted'')
        else case dialPublic net (pr_urlHost r) ''80'' of
          (es, None) \<Rightarrow> (es, Reply 403 ''target is not publicly routable'')
        | (es, Some conn) \<Rightarrow>
           (let out = outbound_header (pr_header r) in
            case roundTrip net conn out of
              (writes, None) \<Rightarrow> (es @ [Sent out], Reply 502 ''upstream unavailable'')
            | (writes, Some (status, h)) \<Rightarrow>
                (es @ [Sent out] @ report net appID (foldl counting_write 0 writes),
                 Forwarded status (copyHeaders [] h))))"

section \<open>Address filter\<close>

lemma to4_4 [simp]: "length a = 4 \<Longrightarrow> to4 a = Some a"
  by (simp add: to4_def)

lemma to4_mapped [simp]: "length a = 4 \<Longrightarrow> to4 (v4_prefix @ a) = Some a"
  by (simp add: to4_def v4_prefix_def)

lemma length_v4_prefix [simp]: "length v4_prefix = 12"
  by (simp add: v4_prefix_def)

lemma mapped_equal: "length a = 4 \<Longrightarrow> length b = 16 \<Longrightarrow> ip_equal (v4_prefix @ a) b = ip_equal a b"
  by (auto simp: ip_equal_def) (metis append_take_drop_id append_eq_conv_conj length_v4_prefix)+

text \<open>An IPv4 address and its form inside IPv6 are treated alike.\<close>

lemma publicIP_mapped: "length a = 4 \<Longrightarrow> publicIP (v4_prefix @ a) = publicIP a"
  by (simp add: publicIP_def isGlobalUnicast_def isPrivate_def isLoopback_def isLinkLocalUnicast_def
      isUnspecified_def isMulticast_def net_contains_def mapped_equal)

lemma v4_equal: "length a = 4 \<Longrightarrow> length b = 4 \<Longrightarrow> ip_equal a (v4_prefix @ b) = (a = b)"
  by (simp add: ip_equal_def)

lemma v4_not_v6: "length a = 4 \<Longrightarrow> \<not> ip_equal a (replicate 16 0)"
  by (simp add: ip_equal_def v4_prefix_def numeral_eq_Suc)

lemma blocked_v4:
  assumes "a < 256" "b < 256" "c < 256" "d < 256"
  shows "list_ex (\<lambda>n. net_contains n [a, b, c, d]) blocked \<longleftrightarrow>
    (a = 100 \<and> 64 \<le> b \<and> b < 128) \<or> (a = 192 \<and> b = 0 \<and> c = 0) \<or> (a = 198 \<and> 18 \<le> b \<and> b < 20)"
proof -
  have "net_contains ([100, 64, 0, 0], [255, 192, 0, 0]) [a, b, c, d] \<longleftrightarrow> a = 100 \<and> 64 \<le> b \<and> b < 128"
    using mask_interval(5) [OF assms(2)] mask_interval(7) [OF assms(1)]
    by (auto simp: net_contains_def upt_rec)
  moreover have "net_contains ([192, 0, 0, 0], [255, 255, 255, 0]) [a, b, c, d] \<longleftrightarrow> a = 192 \<and> b = 0 \<and> c = 0"
    using mask_interval(7) [OF assms(1)] mask_interval(7) [OF assms(2)] mask_interval(7) [OF assms(3)]
    by (auto simp: net_contains_def upt_rec)
  moreover have "net_contains ([198, 18, 0, 0], [255, 254, 0, 0]) [a, b, c, d] \<longleftrightarrow> a = 198 \<and> 18 \<le> b \<and> b < 20"
    using mask_interval(6) [OF assms(2)] mask_interval(7) [OF assms(1)]
    by (auto simp: net_contains_def upt_rec)
  moreover have "\<not> net_contains ([32, 1, 13, 184] @ replicate 12 0, m) [a, b, c, d]"
    "\<not> net_contains ([252] @ replicate 15 0, m) [a, b, c, d]" for m
    by (simp_all add: net_contains_def)
  ultimately show ?thesis by (simp add: blocked_def)
qed

text \<open>C36: The egress proxy's address filter admits an IPv4 address, also when it is written as an IPv6
  address, exactly when it is outside the loopback, private, link-local, shared, benchmarking,
  protocol-assignment and multicast ranges and is neither the limited broadcast nor the unspecified
  address.\<close>

theorem publicIP_v4:
  assumes "a < 256" "b < 256" "c < 256" "d < 256"
  shows "publicIP (v4_prefix @ [a, b, c, d]) = publicIP [a, b, c, d] \<and>
    (publicIP [a, b, c, d] \<longleftrightarrow>
      \<not> (a = 127 \<or> a = 10 \<or> (a = 172 \<and> 16 \<le> b \<and> b < 32) \<or> (a = 192 \<and> b = 168) \<or> (a = 169 \<and> b = 254) \<or>
         (a = 100 \<and> 64 \<le> b \<and> b < 128) \<or> (a = 192 \<and> b = 0 \<and> c = 0) \<or> (a = 198 \<and> 18 \<le> b \<and> b < 20) \<or>
         (224 \<le> a \<and> a < 240) \<or> [a, b, c, d] = [255, 255, 255, 255] \<or> [a, b, c, d] = [0, 0, 0, 0]))"
proof
  show "publicIP (v4_prefix @ [a, b, c, d]) = publicIP [a, b, c, d]" by (rule publicIP_mapped) simp
  have len: "length [a, b, c, d] = 4" by simp
  show "publicIP [a, b, c, d] \<longleftrightarrow>
      \<not> (a = 127 \<or> a = 10 \<or> (a = 172 \<and> 16 \<le> b \<and> b < 32) \<or> (a = 192 \<and> b = 168) \<or> (a = 169 \<and> b = 254) \<or>
         (a = 100 \<and> 64 \<le> b \<and> b < 128) \<or> (a = 192 \<and> b = 0 \<and> c = 0) \<or> (a = 198 \<and> 18 \<le> b \<and> b < 20) \<or>
         (224 \<le> a \<and> a < 240) \<or> [a, b, c, d] = [255, 255, 255, 255] \<or> [a, b, c, d] = [0, 0, 0, 0])"
    unfolding publicIP_def blocked_v4 [OF assms] isGlobalUnicast_def isPrivate_def isLoopback_def
      isLinkLocalUnicast_def isUnspecified_def isMulticast_def to4_4 [OF len]
    using mask_interval(1) [OF assms(1)] mask_interval(3) [OF assms(2)] v4_not_v6 [OF len]
    by (simp add: v4_equal)
qed

theorem publicIP_v4_witness:
  "publicIP [8, 8, 8, 8] \<and> \<not> publicIP (v4_prefix @ [169, 254, 169, 254]) \<and> \<not> publicIP [100, 127, 0, 1]"
  using publicIP_v4 [of 8 8 8 8] publicIP_v4 [of 169 254 169 254] publicIP_v4 [of 100 127 0 1] by simp

section \<open>What a request can cause\<close>

definition dial_effects_public :: "effect list \<Rightarrow> bool" where
  "dial_effects_public es = (\<forall>e \<in> set es. case e of Dialled ip port \<Rightarrow> publicIP ip | _ \<Rightarrow> False)"

lemma dial_loop_public: "dial_effects_public (fst (dial_loop net port ips))"
  by (induction net port ips rule: dial_loop.induct)
    (auto simp: dial_effects_public_def split: option.splits prod.splits)

lemma dialPublic_public: "dial_effects_public (fst (dialPublic net address p))"
  using dial_loop_public
  by (fastforce simp: dialPublic_def dial_effects_public_def split: option.splits prod.splits)

lemma report_loop_effects:
  "e \<in> set (report_loop net app sample delta n left) \<Longrightarrow> e = Reported app sample delta"
  by (induction left arbitrary: n) (auto split: if_splits)

lemma report_loop_bound: "length (report_loop net app sample delta n left) \<le> left"
  by (induction left arbitrary: n) auto

lemma report_effects:
  "e \<in> set (report net app delta) \<Longrightarrow> \<exists>sample. e = Reported app sample delta \<and> 0 < delta"
  by (auto simp: report_def dest: report_loop_effects split: if_splits)

definition allowed_effect :: "string \<Rightarrow> effect \<Rightarrow> bool" where
  "allowed_effect app e = (case e of
     Dialled ip port \<Rightarrow> publicIP ip
   | Sent h \<Rightarrow> header_values h ''Proxy-Authorization'' = [] \<and> header_values h ''Proxy-Connection'' = []
   | Tunnelled \<Rightarrow> True
   | Reported a sample delta \<Rightarrow> a = app \<and> 0 < delta)"

lemma dialled_allowed: "dial_effects_public es \<Longrightarrow> e \<in> set es \<Longrightarrow> allowed_effect app e"
  by (auto simp: dial_effects_public_def allowed_effect_def split: effect.splits)

lemma reported_allowed: "e \<in> set (report net app delta) \<Longrightarrow> allowed_effect app e"
  by (auto dest!: report_effects simp: allowed_effect_def)

lemma sent_allowed: "allowed_effect app (Sent (outbound_header h))"
  by (simp add: allowed_effect_def outbound_header_def)

lemma connect_allowed: "e \<in> set (fst (connect net r app)) \<Longrightarrow> allowed_effect app e"
  using dialPublic_public [of net "pr_host r" "''443''"] dialled_allowed reported_allowed
  by (auto simp: connect_def allowed_effect_def split: prod.splits option.splits bool.splits)


lemma cut_on_append: "c \<notin> set a \<Longrightarrow> cut_on c (a @ c # b) = (a, b, True)"
  by (induction a) auto

lemma cut_on_found: "cut_on c s = (a, b, True) \<Longrightarrow> s = a @ c # b \<and> c \<notin> set a"
  by (induction s arbitrary: a) (auto split: if_splits prod.splits)

definition client_header :: "(string \<Rightarrow> string \<Rightarrow> string) \<Rightarrow> string \<Rightarrow> string \<Rightarrow> string" where
  "client_header hmac token app =
     ''Basic '' @ b64_enc std_alphabet True (app @ '':'' @ hex_encode (hmac token app))"

lemma b64_enc_visible: "c \<in> set (b64_enc std_alphabet padded s) \<Longrightarrow> visible c"
proof -
  assume "c \<in> set (b64_enc std_alphabet padded s)"
  then have "c \<in> set std_alphabet \<or> c = CHR ''=''" using b64_enc_chars [OF good_alphabets(1)] by blast
  moreover have "list_all visible std_alphabet" "visible CHR ''=''"
    by (simp_all add: std_alphabet_def visible_def byte_def)
  ultimately show ?thesis by (auto simp: list_all_iff)
qed

text \<open>The proxy authenticates exactly the applications that present the HMAC of their identifier:
  the header built from an identifier of 36 characters and its tag is accepted as that identifier, and
  whenever a header is accepted its decoded credentials are the identifier and that tag.\<close>

theorem authenticate_exact:
  assumes "length app = 36" and "CHR '':'' \<notin> set app"
  shows "authenticate hmac token [(''Proxy-Authorization'', [client_header hmac token app])] = (app, True) \<and>
    (\<forall>h who. authenticate hmac token h = (who, True) \<longrightarrow> length who = 36 \<and>
       b64_decode std_alphabet True (trim_prefix (trim_space (header_get h ''Proxy-Authorization'')) ''Basic '') =
         Some (who @ '':'' @ hex_encode (hmac token who)))"
proof
  let ?enc = "b64_enc std_alphabet True (app @ '':'' @ hex_encode (hmac token app))"
  obtain x xs where app: "app = x # xs" using assms(1) by (cases app) auto
  have ne: "?enc \<noteq> []" using b64_round_trip [of std_alphabet True "app @ '':'' @ hex_encode (hmac token app)"]
    by (auto simp: b64_decode_def)
  have "visible (last ?enc)" using b64_enc_visible last_in_set [OF ne] by blast
  then have "trim_space (client_header hmac token app) = client_header hmac token app"
    using ne by (intro trim_space_visible) (auto simp: client_header_def visible_def byte_def)
  then show "authenticate hmac token [(''Proxy-Authorization'', [client_header hmac token app])] = (app, True)"
    using assms
    by (simp add: authenticate_def header_get_def header_values_def client_header_def has_prefix_def
        trim_prefix_def b64_round_trip cut_on_append)
  show "\<forall>h who. authenticate hmac token h = (who, True) \<longrightarrow> length who = 36 \<and>
       b64_decode std_alphabet True (trim_prefix (trim_space (header_get h ''Proxy-Authorization'')) ''Basic '') =
         Some (who @ '':'' @ hex_encode (hmac token who))"
    by (auto simp: authenticate_def Let_def dest!: cut_on_found split: if_splits option.splits prod.splits)
qed

theorem authenticate_exact_witness:
  "authenticate (\<lambda>k m. k) ''tok'' [(''Proxy-Authorization'',
      [client_header (\<lambda>k m. k) ''tok'' ''0123abcd-0000-4000-8000-0123456789ab''])] =
   (''0123abcd-0000-4000-8000-0123456789ab'', True)"
  using authenticate_exact [of "''0123abcd-0000-4000-8000-0123456789ab''" "\<lambda>k m. k" "''tok''"] by simp


text \<open>A sample of outgoing traffic is reported at most three times, always under one sample
  identifier and with the measured number of bytes; it is reported once when the control plane accepts
  the first attempt, and not at all when nothing was sent.\<close>

theorem report_bounded:
  "length (report net app delta) \<le> 3 \<and>
   (\<exists>sample. set (report net app delta) \<subseteq> {Reported app sample delta}) \<and>
   (delta \<le> 0 \<longrightarrow> report net app delta = []) \<and>
   (0 < delta \<and> newRequestOK net \<and> control net 0 = Some 202 \<longrightarrow> length (report net app delta) = 1)"
  using report_loop_bound [of net app "app @ ''/'' @ show_int (unixNano net)" delta 0 3]
    report_loop_effects [of _ net app "app @ ''/'' @ show_int (unixNano net)" delta 0 3]
  by (auto simp: report_def numeral_3_eq_3)

theorem report_bounded_witness:
  "length (report \<lparr>lookupIP = \<lambda>h. None, dial = \<lambda>i p. Some (), roundTrip = \<lambda>c h. ([], None), hijack = None,
      tunnel = \<lambda>c. 0, newRequestOK = True, control = \<lambda>n. Some 202, unixNano = 0\<rparr> ''a'' 5) = 1"
  using report_bounded [of "\<lparr>lookupIP = \<lambda>h. None, dial = \<lambda>i p. Some (), roundTrip = \<lambda>c h. ([], None), hijack = None,
      tunnel = \<lambda>c. 0, newRequestOK = True, control = \<lambda>n. Some 202, unixNano = 0\<rparr>" "''a''" 5] by simp

end
