(* ===== verification/Router.thy ===== *)
theory Router
  imports Net_Base
begin

text \<open>
  The application router (\<^verbatim>\<open>apps/router/main.go\<close>): the token check in front of it, the resolution of
  a host name to the active release of a running application, the basic access check, and the rewritten
  request.  The four tables of the lookup query are lists of rows; \<open>bcrypt hash password\<close> is the
  comparison of \<^verbatim>\<open>golang.org/x/crypto/bcrypt\<close>.  A database error is \<^const>\<open>None\<close> for the settings
  query and a flag for the lookup.
\<close>

section \<open>Rows\<close>

record app_route_row =
  ar_user_app_id :: string
  ar_instance_id :: string
  ar_release_id :: string
  ar_upstream_port :: int

record user_app_row =
  ua_id :: string
  ua_user_id :: string
  ua_instance_id :: string
  ua_deleted :: bool
  ua_status :: string
  ua_last_successful_release_id :: "string option"
  ua_route_host_label :: string
  ua_access_password_enabled :: bool
  ua_access_username :: string
  ua_access_password_hash :: string

record user_row =
  us_id :: string
  us_status :: string

record app_release_row =
  rel_id :: string
  rel_user_app_id :: string
  rel_state :: string
  rel_route_spec :: gomap

record router_db =
  app_routes :: "app_route_row list"
  user_apps :: "user_app_row list"
  router_users :: "user_row list"
  app_releases :: "app_release_row list"

record route_target =
  rt_host :: string
  rt_port :: int
  rt_spec :: gomap
  rt_passwordEnabled :: bool
  rt_username :: string
  rt_passwordHash :: string

section \<open>Helpers\<close>

definition normalizeHostname :: "string \<Rightarrow> string" where
  "normalizeHostname v = trim_suffix (to_lower (trim_space v)) ''.''"

definition requestHostname :: "string \<Rightarrow> string" where
  "requestHostname v0 = (let v = trim_space v0 in
     case split_host_port v of Some (host, _) \<Rightarrow> normalizeHostname host
     | None \<Rightarrow> normalizeHostname (trim_right_set (trim_left_set v ''[]'') ''[]''))"

definition routeBoolean :: "gomap \<Rightarrow> string \<Rightarrow> bool \<Rightarrow> bool" where
  "routeBoolean spec key fallback = (case as_bool (mget spec key) of None \<Rightarrow> fallback | Some v \<Rightarrow> v)"

definition routeString :: "gomap \<Rightarrow> string \<Rightarrow> string \<Rightarrow> string" where
  "routeString spec key fallback = (case as_str (mget spec key) of None \<Rightarrow> fallback
     | Some v \<Rightarrow> if v = [] then fallback else v)"

definition joinURLPath :: "string \<Rightarrow> string \<Rightarrow> string" where
  "joinURLPath base sfx =
    (if base = [] \<or> base = ''/'' then
       (if sfx = [] then ''/'' else if has_prefix sfx ''/'' then sfx else ''/'' @ sfx)
     else if sfx = [] \<or> sfx = ''/'' then trim_right_set base ''/'' @ ''/''
     else trim_right_set base ''/'' @ ''/'' @ trim_left_set sfx ''/'')"

record http_request =
  hr_host :: string
  hr_path :: string
  hr_header :: header

definition isWebSocketRequest :: "http_request \<Rightarrow> bool" where
  "isWebSocketRequest r = (equal_fold (trim_space (header_get (hr_header r) ''Upgrade'')) ''websocket'' \<and>
     contains (to_lower (header_get (hr_header r) ''Connection'')) ''upgrade'')"

definition setProtectedCacheHeaders :: "header \<Rightarrow> header" where
  "setProtectedCacheHeaders h0 =
    (let h = header_set ''Cache-Control'' ''private, no-store'' h0 in
     if list_ex (\<lambda>v. list_ex (\<lambda>field. equal_fold (trim_space field) ''Authorization'') (split_on CHR '','' v))
          (header_values h ''Vary'')
     then h else header_add ''Vary'' ''Authorization'' h)"

datatype outcome = HttpError nat string header | NotFound | Proxy "http_request \<times> string \<times> int \<times> bool \<times> bool"

text \<open>\<open>Proxy (request, host, port, flush, protect)\<close> is the request sent to the upstream container, whether
  responses are flushed immediately, and whether the cache headers of the response are protected.\<close>

definition authorizeBasicAccess :: "(string \<Rightarrow> string \<Rightarrow> bool) \<Rightarrow> http_request \<Rightarrow> bool \<Rightarrow> string \<Rightarrow> string \<Rightarrow> outcome option" where
  "authorizeBasicAccess bcrypt r enabled expectedUsername passwordHash =
    (if \<not> enabled then None
     else case parse_basic_auth (header_get (hr_header r) ''Authorization'') of
       Some (username, password) \<Rightarrow>
         if username = expectedUsername \<and> bcrypt passwordHash password then None
         else Some (HttpError 401 ''application authentication required''
           (header_set ''Www-Authenticate'' ''Basic realm=\"Application\", charset=\"UTF-8\"'' (setProtectedCacheHeaders [])))
     | None \<Rightarrow> Some (HttpError 401 ''application authentication required''
           (header_set ''Www-Authenticate'' ''Basic realm=\"Application\", charset=\"UTF-8\"'' (setProtectedCacheHeaders []))))"

section \<open>Lookup\<close>

definition release_host :: "string \<Rightarrow> string" where
  "release_host rid = ''release-'' @ take 12 (replace_char CHR ''-'' [] rid)"

definition live_route :: "router_db \<Rightarrow> string \<Rightarrow> app_route_row \<times> user_app_row \<times> app_release_row \<Rightarrow> bool" where
  "live_route db label row = (case row of (ar, a, rel) \<Rightarrow>
     ua_id a = ar_user_app_id ar \<and> ua_instance_id a = ar_instance_id ar \<and>
     list_ex (\<lambda>u. us_id u = ua_user_id a \<and> us_status u = ''active'') (router_users db) \<and>
     rel_id rel = ar_release_id ar \<and> rel_user_app_id rel = ua_id a \<and>
     \<not> ua_deleted a \<and> (ua_status a = ''running'' \<or> ua_status a = ''updating'') \<and>
     ua_last_successful_release_id a = Some (rel_id rel) \<and> rel_state rel = ''active'' \<and>
     ua_route_host_label a = label)"

definition route_candidates :: "router_db \<Rightarrow> (app_route_row \<times> user_app_row \<times> app_release_row) list" where
  "route_candidates db = concat (map (\<lambda>ar. concat (map (\<lambda>a. map (\<lambda>rel. (ar, a, rel)) (app_releases db)) (user_apps db)))
     (app_routes db))"

definition lookup_route :: "router_db \<Rightarrow> string \<Rightarrow> route_target option" where
  "lookup_route db label = (case find (live_route db label) (route_candidates db) of None \<Rightarrow> None
     | Some (ar, a, rel) \<Rightarrow> Some \<lparr>rt_host = release_host (rel_id rel), rt_port = ar_upstream_port ar,
         rt_spec = rel_route_spec rel, rt_passwordEnabled = ua_access_password_enabled a,
         rt_username = ua_access_username a, rt_passwordHash = ua_access_password_hash a\<rparr>)"

section \<open>Handlers\<close>

text \<open>The director of \<^verbatim>\<open>httputil.NewSingleHostReverseProxy\<close> for a target without a path.\<close>

definition single_joining_slash :: "string \<Rightarrow> string" where
  "single_joining_slash p = (if has_prefix p ''/'' then p else ''/'' @ p)"

definition direct_request :: "route_target \<Rightarrow> http_request \<Rightarrow> http_request" where
  "direct_request t r =
    (let path0 = single_joining_slash (hr_path r);
         path = (if path0 = [] then ''/'' else path0) in
     r\<lparr>hr_header := (if rt_passwordEnabled t then header_del ''Authorization'' (hr_header r) else hr_header r),
       hr_path := joinURLPath (routeString (rt_spec t) ''basePath'' ''/'') path\<rparr>)"

definition serve_target :: "(string \<Rightarrow> string \<Rightarrow> bool) \<Rightarrow> http_request \<Rightarrow> route_target \<Rightarrow> outcome" where
  "serve_target bcrypt r t =
    (case authorizeBasicAccess bcrypt r (rt_passwordEnabled t) (rt_username t) (rt_passwordHash t) of
       Some denied \<Rightarrow> denied
     | None \<Rightarrow>
        if isWebSocketRequest r \<and> \<not> routeBoolean (rt_spec t) ''websocket'' True
        then HttpError 426 ''websocket is disabled for this application'' []
        else if contains (to_lower (header_get (hr_header r) ''Accept'')) ''text/event-stream''
                \<and> \<not> routeBoolean (rt_spec t) ''sse'' True
        then HttpError 406 ''server-sent events are disabled for this application'' []
        else Proxy (direct_request t r, rt_host t, rt_port t,
               routeBoolean (rt_spec t) ''sse'' True, rt_passwordEnabled t))"

definition routeHandler :: "(string \<Rightarrow> string \<Rightarrow> bool) \<Rightarrow> string option \<Rightarrow> bool \<Rightarrow> router_db \<Rightarrow> http_request \<Rightarrow> outcome" where
  "routeHandler bcrypt settings lookupFails db r =
    (if to_lower (trim_space (header_get (hr_header r) ''X-Cloudmeter-Route-Mode'')) \<noteq> ''subdomain''
     then HttpError 421 ''misdirected request'' []
     else case settings of None \<Rightarrow> HttpError 502 ''route settings unavailable'' []
     | Some domain \<Rightarrow>
        let appBaseDomain = normalizeHostname domain; hostname = requestHostname (hr_host r);
            sfx = ''.'' @ appBaseDomain in
        if appBaseDomain = [] \<or> \<not> has_suffix hostname sfx then HttpError 421 ''misdirected request'' []
        else let hostMatch = trim_suffix hostname sfx in
        if hostMatch = [] \<or> contains hostMatch ''.'' then HttpError 421 ''misdirected request'' []
        else if lookupFails then HttpError 502 ''route lookup failed'' []
        else case lookup_route db hostMatch of None \<Rightarrow> NotFound
          | Some t \<Rightarrow> serve_target bcrypt r t)"

definition requireRouterToken :: "string \<Rightarrow> (http_request \<Rightarrow> outcome) \<Rightarrow> http_request \<Rightarrow> outcome" where
  "requireRouterToken token nxt r =
    (let provided = header_get (hr_header r) ''X-Cloudmeter-Router-Token'' in
     if length provided \<noteq> length token \<or> provided \<noteq> token then HttpError 403 ''forbidden'' [] else nxt r)"

section \<open>Properties\<close>

lemma routeHandler_Proxy:
  assumes "routeHandler bcrypt settings fails db r = Proxy p"
  obtains domain label t where "settings = Some domain" "normalizeHostname domain \<noteq> []"
    "label \<noteq> []" "CHR ''.'' \<notin> set label" "requestHostname (hr_host r) = label @ ''.'' @ normalizeHostname domain"
    "lookup_route db label = Some t" "serve_target bcrypt r t = Proxy p"
proof -
  from assms obtain domain where d: "settings = Some domain"
    by (auto simp: routeHandler_def split: if_splits option.splits)
  define base where "base = normalizeHostname domain"
  define host where "host = requestHostname (hr_host r)"
  from assms d obtain t where b: "base \<noteq> []" "suffix (''.'' @ base) host"
    "trim_suffix host (''.'' @ base) \<noteq> []" "\<not> contains (trim_suffix host (''.'' @ base)) ''.''"
    "lookup_route db (trim_suffix host (''.'' @ base)) = Some t" "serve_target bcrypt r t = Proxy p"
    by (auto simp: routeHandler_def Let_def base_def host_def has_suffix_def split: if_splits option.splits)
  from b(2) obtain label where h: "host = label @ ''.'' @ base" by (auto simp: suffix_def)
  have l: "trim_suffix host (''.'' @ base) = label"
    unfolding trim_suffix_def h by (simp add: suffix_def)
  have "CHR ''.'' \<notin> set label"
  proof
    assume "CHR ''.'' \<in> set label"
    then obtain ps ss where "label = ps @ CHR ''.'' # ss" by (meson split_list)
    then show False using b(4) l by (auto simp: contains_def sublist_def)
  qed
  with that [of domain label t] d b h l show ?thesis by (simp add: base_def host_def)
qed

lemma serve_target_Proxy:
  assumes "serve_target bcrypt r t = Proxy p"
  shows "p = (direct_request t r, rt_host t, rt_port t, routeBoolean (rt_spec t) ''sse'' True, rt_passwordEnabled t) \<and>
    (rt_passwordEnabled t \<longrightarrow> (\<exists>password. parse_basic_auth (header_get (hr_header r) ''Authorization'') =
        Some (rt_username t, password) \<and> bcrypt (rt_passwordHash t) password))"
  using assms
  by (auto simp: serve_target_def authorizeBasicAccess_def split: option.splits if_splits prod.splits)

lemma lookup_route_live:
  assumes "lookup_route db label = Some t"
  obtains ar a rel where "ar \<in> set (app_routes db)" "a \<in> set (user_apps db)" "rel \<in> set (app_releases db)"
    "live_route db label (ar, a, rel)" "t = \<lparr>rt_host = release_host (rel_id rel), rt_port = ar_upstream_port ar,
         rt_spec = rel_route_spec rel, rt_passwordEnabled = ua_access_password_enabled a,
         rt_username = ua_access_username a, rt_passwordHash = ua_access_password_hash a\<rparr>"
  using assms
  by (auto simp: lookup_route_def find_Some_iff route_candidates_def split: option.splits
      dest!: nth_mem)

text \<open>C38: The router forwards a request only if it carries the router token and names, as one label below
  the base domain, an application that is not deleted, is running or updating, belongs to an active
  user and whose last successful release is active; the request goes to that release's container and
  port, and when the application is protected the right credentials were given and are not passed on.\<close>

theorem router_forwards_only_live_apps:
  assumes "requireRouterToken token (routeHandler bcrypt settings fails db) r = Proxy (out, host, port, flush, protect)"
  shows "header_get (hr_header r) ''X-Cloudmeter-Router-Token'' = token \<and>
    (\<exists>domain ar a rel. settings = Some domain \<and>
       ar \<in> set (app_routes db) \<and> a \<in> set (user_apps db) \<and> rel \<in> set (app_releases db) \<and>
       requestHostname (hr_host r) = ua_route_host_label a @ ''.'' @ normalizeHostname domain \<and>
       CHR ''.'' \<notin> set (ua_route_host_label a) \<and>
       \<not> ua_deleted a \<and> ua_status a \<in> {''running'', ''updating''} \<and>
       (\<exists>u \<in> set (router_users db). us_id u = ua_user_id a \<and> us_status u = ''active'') \<and>
       ua_last_successful_release_id a = Some (rel_id rel) \<and> rel_state rel = ''active'' \<and>
       rel_user_app_id rel = ua_id a \<and> host = release_host (rel_id rel) \<and> port = ar_upstream_port ar \<and>
       (ua_access_password_enabled a \<longrightarrow> protect \<and> header_values (hr_header out) ''Authorization'' = [] \<and>
          (\<exists>password. parse_basic_auth (header_get (hr_header r) ''Authorization'') =
             Some (ua_access_username a, password) \<and> bcrypt (ua_access_password_hash a) password)))"
proof -
  from assms have tok: "header_get (hr_header r) ''X-Cloudmeter-Router-Token'' = token"
    and rh: "routeHandler bcrypt settings fails db r = Proxy (out, host, port, flush, protect)"
    by (auto simp: requireRouterToken_def Let_def split: if_splits)
  from rh obtain domain label t where p: "settings = Some domain" "CHR ''.'' \<notin> set label"
    "requestHostname (hr_host r) = label @ ''.'' @ normalizeHostname domain"
    "lookup_route db label = Some t" "serve_target bcrypt r t = Proxy (out, host, port, flush, protect)"
    by (rule routeHandler_Proxy)
  from p(4) obtain ar a rel where l: "ar \<in> set (app_routes db)" "a \<in> set (user_apps db)" "rel \<in> set (app_releases db)"
    "live_route db label (ar, a, rel)" "t = \<lparr>rt_host = release_host (rel_id rel), rt_port = ar_upstream_port ar,
         rt_spec = rel_route_spec rel, rt_passwordEnabled = ua_access_password_enabled a,
         rt_username = ua_access_username a, rt_passwordHash = ua_access_password_hash a\<rparr>"
    by (rule lookup_route_live)
  from serve_target_Proxy [OF p(5)] l(5) have s: "host = release_host (rel_id rel)" "port = ar_upstream_port ar"
    "ua_access_password_enabled a \<longrightarrow> protect \<and> header_values (hr_header out) ''Authorization'' = [] \<and>
       (\<exists>password. parse_basic_auth (header_get (hr_header r) ''Authorization'') =
          Some (ua_access_username a, password) \<and> bcrypt (ua_access_password_hash a) password)"
    by (auto simp: direct_request_def Let_def)
  have "settings = Some domain \<and>
       ar \<in> set (app_routes db) \<and> a \<in> set (user_apps db) \<and> rel \<in> set (app_releases db) \<and>
       requestHostname (hr_host r) = ua_route_host_label a @ ''.'' @ normalizeHostname domain \<and>
       CHR ''.'' \<notin> set (ua_route_host_label a) \<and>
       \<not> ua_deleted a \<and> ua_status a \<in> {''running'', ''updating''} \<and>
       (\<exists>u \<in> set (router_users db). us_id u = ua_user_id a \<and> us_status u = ''active'') \<and>
       ua_last_successful_release_id a = Some (rel_id rel) \<and> rel_state rel = ''active'' \<and>
       rel_user_app_id rel = ua_id a"
    using p(1-3) l(1-4) by (auto simp: live_route_def list_ex_iff)
  with tok s show ?thesis by blast
qed

definition example_router_db :: router_db where
  "example_router_db = \<lparr>
     app_routes = [\<lparr>ar_user_app_id = ''A'', ar_instance_id = ''I'', ar_release_id = ''R-1'', ar_upstream_port = 80\<rparr>],
     user_apps = [\<lparr>ua_id = ''A'', ua_user_id = ''U'', ua_instance_id = ''I'', ua_deleted = False, ua_status = ''running'',
       ua_last_successful_release_id = Some ''R-1'', ua_route_host_label = ''a'', ua_access_password_enabled = False,
       ua_access_username = [], ua_access_password_hash = []\<rparr>],
     router_users = [\<lparr>us_id = ''U'', us_status = ''active''\<rparr>],
     app_releases = [\<lparr>rel_id = ''R-1'', rel_user_app_id = ''A'', rel_state = ''active'', rel_route_spec = []\<rparr>]\<rparr>"

definition example_request :: http_request where
  "example_request = \<lparr>hr_host = ''A.ex:443'', hr_path = ''/x'',
     hr_header = [(''X-Cloudmeter-Router-Token'', [''T'']), (''X-Cloudmeter-Route-Mode'', [''subdomain''])]\<rparr>"

lemmas text_simps = trim_space_visible visible_def byte_def to_lower_def runes.simps rune_width_def lower_rune_def
  lower_byte_def is_upper_def between_def is_cont_def char_of_def bit_0

lemma example_host:
  "requestHostname (hr_host example_request) = ''a.ex''" "normalizeHostname ''ex'' = ''ex''"
proof -
  have l: "last_index CHR '':'' ''A.ex:443'' = Some 4" by (simp add: last_index_def upt_rec)
  then have "split_host_port ''A.ex:443'' = Some (''A.ex'', ''443'')" by (simp add: split_host_port_def)
  moreover have "trim_space ''A.ex:443'' = ''A.ex:443''" "trim_space ''A.ex'' = ''A.ex''" "trim_space ''ex'' = ''ex''"
    by (simp_all add: trim_space_visible visible_def byte_def)
  moreover have "to_lower ''A.ex'' = ''a.ex''" "to_lower ''ex'' = ''ex''" by (simp_all add: text_simps)
  ultimately show "requestHostname (hr_host example_request) = ''a.ex''" "normalizeHostname ''ex'' = ''ex''"
    by (simp_all add: example_request_def requestHostname_def normalizeHostname_def trim_suffix_def suffix_to_prefix)
qed

lemma example_mode:
  "to_lower (trim_space (header_get (hr_header example_request) ''X-Cloudmeter-Route-Mode'')) = ''subdomain''"
proof -
  have "trim_space ''subdomain'' = ''subdomain''" by (simp add: trim_space_visible visible_def byte_def)
  then show ?thesis
    by (simp add: example_request_def header_get_def header_values_def text_simps)
qed

lemma example_lookup_route: "\<exists>t. lookup_route example_router_db ''a'' = Some t \<and> \<not> rt_passwordEnabled t \<and> rt_spec t = []"
  by (simp add: lookup_route_def route_candidates_def live_route_def example_router_db_def)

lemma example_served: "\<exists>p. requireRouterToken ''T'' (routeHandler (\<lambda>h p. False) (Some ''ex'') False example_router_db)
    example_request = Proxy p"
proof -
  obtain t where t: "lookup_route example_router_db ''a'' = Some t" "\<not> rt_passwordEnabled t" "rt_spec t = []"
    using example_lookup_route by blast
  have "\<exists>p. serve_target (\<lambda>h p. False) example_request t = Proxy p"
    using t(2,3) by (simp add: serve_target_def authorizeBasicAccess_def routeBoolean_def mget_def) blast
  then show ?thesis using t(1)
    by (simp add: requireRouterToken_def routeHandler_def Let_def example_host example_mode has_suffix_def
        suffix_to_prefix trim_suffix_def contains_def sublist_code)
      (simp add: example_request_def header_get_def header_values_def)
qed

theorem router_forwards_only_live_apps_witness:
  "\<exists>out host port flush protect.
     requireRouterToken ''T'' (routeHandler (\<lambda>h p. False) (Some ''ex'') False example_router_db) example_request =
       Proxy (out, host, port, flush, protect) \<and> host = release_host ''R-1''"
proof -
  obtain out host port flush protect where p:
    "requireRouterToken ''T'' (routeHandler (\<lambda>h p. False) (Some ''ex'') False example_router_db) example_request =
       Proxy (out, host, port, flush, protect)"
    using example_served by (metis prod.exhaust)
  from router_forwards_only_live_apps [OF p] have "host = release_host ''R-1''"
    by (auto simp: example_router_db_def)
  with p show ?thesis by blast
qed

text \<open>The path sent upstream is absolute and lies below the release's base path, whatever path the
  client sent.\<close>

theorem joinURLPath_below_base:
  assumes "base = [] \<or> has_prefix base ''/''"
  shows "has_prefix (joinURLPath base path) ''/'' \<and>
    has_prefix (joinURLPath base path) (trim_right_set base ''/'' @ ''/'')"
proof -
  have root: "trim_right_set ''/'' ''/'' = []" "trim_right_set [] ''/'' = []" by (simp_all add: trim_right_set_def)
  have slash: "has_prefix (trim_right_set base ''/'' @ ''/'' @ s) ''/''" for s
  proof (cases "trim_right_set base ''/''")
    case (Cons c cs)
    have "prefix (trim_right_set base ''/'') base"
      unfolding trim_right_set_def using suffix_dropWhile [of _ "rev base"] by (simp add: suffix_to_prefix)
    with assms Cons show ?thesis by (auto simp: has_prefix_def prefix_def)
  qed (simp add: has_prefix_def)
  show ?thesis using slash [of "[]"] slash root
    by (auto simp: joinURLPath_def has_prefix_def)
qed

theorem joinURLPath_below_base_witness:
  "has_prefix (joinURLPath ''/app/'' ''x'') ''/'' \<and> joinURLPath ''/app/'' ''x'' = ''/app/x''"
  using joinURLPath_below_base [of "''/app/''" "''x''"]
  by (simp add: has_prefix_def joinURLPath_def trim_right_set_def trim_left_set_def)

definition varies_on_authorization :: "header \<Rightarrow> bool" where
  "varies_on_authorization h = list_ex (\<lambda>v. list_ex (\<lambda>field. equal_fold (trim_space field) ''Authorization'')
     (split_on CHR '','' v)) (header_values h ''Vary'')"

lemma authorization_field: "equal_fold (trim_space ''Authorization'') ''Authorization''"
  by (simp add: trim_space_visible visible_def byte_def equal_fold_def)

lemma header_set_same: "header_values h k = [v] \<Longrightarrow> header_set k v h = h"
  by (induction h) (auto simp: header_set_def header_values_def)

text \<open>After the cache headers of a protected response are set, shared caches may not store it and it
  varies on the credentials: \<^verbatim>\<open>Cache-Control\<close> has exactly the one private value and some \<^verbatim>\<open>Vary\<close> field is
  \<^verbatim>\<open>Authorization\<close>; setting them again changes nothing.\<close>

theorem protected_cache_headers:
  "header_values (setProtectedCacheHeaders h) ''Cache-Control'' = [''private, no-store''] \<and>
   varies_on_authorization (setProtectedCacheHeaders h) \<and>
   setProtectedCacheHeaders (setProtectedCacheHeaders h) = setProtectedCacheHeaders h"
proof -
  let ?s = "setProtectedCacheHeaders h"
  have cc: "header_values ?s ''Cache-Control'' = [''private, no-store'']"
    by (simp add: setProtectedCacheHeaders_def Let_def)
  have va: "varies_on_authorization ?s"
    by (auto simp: setProtectedCacheHeaders_def Let_def varies_on_authorization_def authorization_field)
  have "setProtectedCacheHeaders ?s = ?s"
    using va unfolding setProtectedCacheHeaders_def [of ?s] Let_def header_set_same [OF cc] varies_on_authorization_def
    by simp
  with cc va show ?thesis by blast
qed

end
