(* ===== verification/Product_Spec.thy ===== *)
theory Product_Spec
  imports Runtime_Spec
begin

text \<open>
  The declarations of a product version besides its runtime specification
  (\<^verbatim>\<open>src/internal/httpapi/product_spec.go\<close>): the listeners of a route, and the normalisation of the
  route, health and update specifications that happens before a version is stored and again when a
  release is assembled from it.  A function of the source that writes into the map it is given
  returns the changed map here; when it fails, its callers drop the map.
\<close>

section \<open>Listeners\<close>

definition defaultDataPolicy :: string where
  "defaultDataPolicy = ''volume_compatible''"

definition listenerPortKeyPattern :: "string \<Rightarrow> bool" where
  "listenerPortKeyPattern = pat is_lower slug_char 31"

record routeListener =
  li_Key :: string
  li_ContainerPort :: int
  li_Remark :: string
  li_Primary :: bool
  li_UserEditable :: bool
  li_MappingAvailable :: bool
  li_MappingEnabled :: bool

definition exactInteger :: "goval \<Rightarrow> int option" where
  "exactInteger raw = (case raw of
     VFloat (Fin q) \<Rightarrow> if q = of_int (trunc_rat q) then Some (int_of_gofloat (Fin q)) else None
   | _ \<Rightarrow> None)"

definition bool_or_false :: "goval \<Rightarrow> bool" where
  "bool_or_false v = (as_bool v = Some True)"

definition routePortMappingAvailable :: "gomap \<Rightarrow> bool" where
  "routePortMappingAvailable routeSpec = (case as_obj (mget routeSpec ''portMapping'') of
     None \<Rightarrow> False | Some mapping \<Rightarrow> bool_or_false (mget mapping ''available''))"

definition encodeRouteListener :: "routeListener \<Rightarrow> goval" where
  "encodeRouteListener l = VObj
    [(''key'', VStr (li_Key l)), (''containerPort'', VFloat (Fin (of_int (li_ContainerPort l)))),
     (''remark'', VStr (li_Remark l)), (''primary'', VBool (li_Primary l)),
     (''userEditable'', VBool (li_UserEditable l)), (''mappingAvailable'', VBool (li_MappingAvailable l)),
     (''mappingEnabled'', VBool (li_MappingEnabled l))]"

definition encodeRouteListeners :: "routeListener list \<Rightarrow> goval list" where
  "encodeRouteListeners listeners = map encodeRouteListener listeners"

definition port_in_range :: "int \<Rightarrow> bool" where
  "port_in_range p = (1 \<le> p \<and> p \<le> 65535)"

fun listeners_loop :: "routeListener list \<Rightarrow> goval list \<Rightarrow> routeListener list result" where
  "listeners_loop listeners [] = Inr listeners"
| "listeners_loop listeners (value # rest) =
    (case as_obj value of None \<Rightarrow> Inl (Errorf ''route listener must be an object'' [])
     | Some item \<Rightarrow>
        let key = str_or_empty (mget item ''key''); port = exactInteger (mget item ''containerPort'');
            remark = str_or_empty (mget item ''remark''); primary = bool_or_false (mget item ''primary'');
            editable = bool_or_false (mget item ''userEditable'');
            mappingAvailable = bool_or_false (mget item ''mappingAvailable'');
            mappingEnabled = bool_or_false (mget item ''mappingEnabled'') in
        if \<not> listenerPortKeyPattern key \<or> key \<in> set (map li_Key listeners)
        then Inl (Errorf ''route listener key is invalid or duplicated'' [])
        else case port of None \<Rightarrow> Inl (Errorf ''route listener port is invalid or duplicated'' [])
        | Some p \<Rightarrow>
          if \<not> port_in_range p \<or> p \<in> set (map li_ContainerPort listeners)
          then Inl (Errorf ''route listener port is invalid or duplicated'' [])
          else if rune_count remark > 120
          then Inl (Errorf ''route listener remark cannot exceed 120 characters'' [])
          else if mappingEnabled \<and> \<not> mappingAvailable
          then Inl (Errorf ''route listener mapping cannot be enabled when unavailable'' [])
          else listeners_loop (listeners @ [\<lparr>li_Key = key, li_ContainerPort = p, li_Remark = remark,
                 li_Primary = primary, li_UserEditable = editable, li_MappingAvailable = mappingAvailable,
                 li_MappingEnabled = mappingEnabled\<rparr>]) rest)"

definition web_entry_remark :: string where
  "web_entry_remark = ''Web '' @ bytes [229, 133, 165, 229, 143, 163]"

definition routeListeners :: "gomap \<Rightarrow> routeListener list result" where
  "routeListeners spec =
    (let raw = (case as_arr (mget spec ''listeners'') of Some vs \<Rightarrow> vs | None \<Rightarrow> []) in
     if raw = [] then
       (case exactInteger (mget spec ''containerPort'') of
          None \<Rightarrow> Inl (Errorf ''route containerPort must be an integer from 1 to 65535'' [])
        | Some port \<Rightarrow>
           if \<not> port_in_range port
           then Inl (Errorf ''route containerPort must be an integer from 1 to 65535'' [])
           else Inr [\<lparr>li_Key = ''web'', li_ContainerPort = port, li_Remark = web_entry_remark, li_Primary = True,
                      li_UserEditable = False, li_MappingAvailable = routePortMappingAvailable spec,
                      li_MappingEnabled = False\<rparr>])
     else if length raw > 16 then Inl (Errorf ''route listeners cannot exceed 16 ports'' [])
     else bindR (listeners_loop [] raw) (\<lambda>listeners.
       if length (filter li_Primary listeners) \<noteq> 1
       then Inl (Errorf ''route listeners must contain exactly one primary port'' [])
       else Inr listeners))"

definition routeHasEnabledMapping :: "gomap \<Rightarrow> bool" where
  "routeHasEnabledMapping routeSpec = (case routeListeners routeSpec of
     Inl _ \<Rightarrow> False | Inr listeners \<Rightarrow> list_ex li_MappingEnabled listeners)"

section \<open>Normalisation\<close>

definition contains_any :: "string \<Rightarrow> string \<Rightarrow> bool" where
  "contains_any s cs = list_ex (\<lambda>c. c \<in> set cs) s"

definition path_blanks :: string where
  "path_blanks = [CHR 0x20, CHR 0x0D, CHR 0x0A, CHR 0x09, CHR ''?'', CHR ''#'']"

definition normalizedAbsolutePath :: "goval \<Rightarrow> string \<Rightarrow> bool \<Rightarrow> string result" where
  "normalizedAbsolutePath raw label optional =
    (if raw = VNil then Inr (if optional then [] else ''/'')
     else case as_str raw of None \<Rightarrow> Inl (Errorf ''%s must be an absolute path'' [label])
     | Some value0 \<Rightarrow>
        let value = trim_space value0 in
        if value = [] \<and> optional then Inr []
        else if value = [] \<or> \<not> has_prefix value ''/'' \<or> contains_any value path_blanks \<or>
                contains value ''..'' \<or> length value > 512
        then Inl (Errorf ''%s must be an absolute path without whitespace, query, fragment, or parent traversal'' [label])
        else Inr (if value \<noteq> ''/'' then trim_right_set value ''/'' else value))"

definition normalizedBoolean :: "gomap \<Rightarrow> string \<Rightarrow> bool \<Rightarrow> (gomap \<times> bool) result" where
  "normalizedBoolean spec key fallback =
    (if has_key spec key then
       (case as_bool (mget spec key) of None \<Rightarrow> Inl (Errorf ''route %s must be a boolean'' [key])
        | Some parsed \<Rightarrow> Inr (mput key (VBool parsed) spec, parsed))
     else Inr (mput key (VBool fallback) spec, fallback))"

definition primary_port :: "routeListener list \<Rightarrow> int" where
  "primary_port listeners =
    fold (\<lambda>listener port. if li_Primary listener then li_ContainerPort listener else port) listeners 0"

definition normalize_portMapping :: "gomap \<Rightarrow> gomap result" where
  "normalize_portMapping spec = (case as_obj (mget spec ''portMapping'') of
     None \<Rightarrow> Inr (mdel ''portMapping'' spec)
   | Some mapping \<Rightarrow> bindR (normalizedBoolean mapping ''available'' False) (\<lambda>(mapping', available).
       Inr (mput ''portMapping'' (VObj [(''available'', VBool available)]) spec)))"

definition normalizeRouteSpec :: "gomap \<Rightarrow> gomap result" where
  "normalizeRouteSpec spec =
    bindR (routeListeners spec) (\<lambda>listeners.
    let spec = mput ''containerPort'' (VFloat (Fin (of_int (primary_port listeners)))) spec;
        spec = mput ''listeners'' (VArr (encodeRouteListeners listeners)) spec;
        spec = mdel ''portEnvVar'' (mdel ''portEditable'' spec) in
    bindR (normalizedAbsolutePath (mget spec ''basePath'') ''route basePath'' False) (\<lambda>path.
    let basePath = (if path = [] then ''/'' else path);
        spec = mdel ''stripPrefix'' (mput ''basePath'' (VStr basePath) spec) in
    bindR (normalizedBoolean spec ''websocket'' True) (\<lambda>(spec, _).
    bindR (normalizedBoolean spec ''sse'' True) (\<lambda>(spec, _).
    normalize_portMapping (mdel ''cookiePath'' spec)))))"

fun status_loop :: "int list \<Rightarrow> goval list \<Rightarrow> int list result" where
  "status_loop codes [] = Inr codes"
| "status_loop codes (rawValue # rest) =
    (case exactInteger rawValue of
       None \<Rightarrow> Inl (Errorf ''health acceptedStatusCodes values must be integers from 100 to 599'' [])
     | Some value \<Rightarrow>
        if value < 100 \<or> value > 599
        then Inl (Errorf ''health acceptedStatusCodes values must be integers from 100 to 599'' [])
        else status_loop (if value \<in> set codes then codes else codes @ [value]) rest)"

definition int_slice :: "goval \<Rightarrow> goval list option" where
  "int_slice raw = (case raw of VArr vs \<Rightarrow> Some vs
     | VInts ns \<Rightarrow> Some (map (\<lambda>n. VFloat (Fin (of_int n))) ns) | _ \<Rightarrow> None)"

definition normalizedAcceptedStatusCodes :: "goval \<Rightarrow> int list result" where
  "normalizedAcceptedStatusCodes raw =
    (if raw = VNil then Inr []
     else case int_slice raw of None \<Rightarrow> Inl (Errorf ''health acceptedStatusCodes must be an array'' [])
     | Some values \<Rightarrow>
        if length values > 32
        then Inl (Errorf ''health acceptedStatusCodes cannot contain more than 32 values'' [])
        else status_loop [] values)"

definition health_field :: "string \<Rightarrow> int \<Rightarrow> int \<Rightarrow> int \<Rightarrow> string list \<Rightarrow> gomap \<Rightarrow> gomap result" where
  "health_field name defaultValue minimum maximum limits spec =
    (if has_key spec name then
       (case exactInteger (mget spec name) of
          None \<Rightarrow> Inl (Errorf ''health %s must be an integer from %d to %d'' (name # limits))
        | Some parsed \<Rightarrow>
           if parsed < minimum \<or> parsed > maximum
           then Inl (Errorf ''health %s must be an integer from %d to %d'' (name # limits))
           else Inr (mput name (VFloat (Fin (of_int parsed))) spec))
     else Inr (mput name (VFloat (Fin (of_int defaultValue))) spec))"

definition normalizeHealthSpec :: "gomap \<Rightarrow> gomap result" where
  "normalizeHealthSpec spec =
    bindR (normalizedAbsolutePath (mget spec ''path'') ''health path'' True) (\<lambda>path.
    let spec = mput ''path'' (VStr path) spec in
    bindR (normalizedAcceptedStatusCodes (mget spec ''acceptedStatusCodes'')) (\<lambda>codes.
    let spec = mput ''acceptedStatusCodes'' (VInts codes) spec in
    bindR (health_field ''intervalSeconds'' 5 1 120 [''1'', ''120''] spec)
      (health_field ''timeoutSeconds'' 5 1 30 [''1'', ''30''])))"

definition normalizeUpdateSpec :: "gomap \<Rightarrow> (gomap \<times> string) result" where
  "normalizeUpdateSpec spec =
    bindR (if has_key spec ''dataPolicy'' then
             (case as_str (mget spec ''dataPolicy'') of
                None \<Rightarrow> Inl (Errorf ''update dataPolicy must be a string'' [])
              | Some value \<Rightarrow> Inr (trim_space value))
           else Inr defaultDataPolicy) (\<lambda>policy.
    if policy \<in> {''stateless'', ''volume_compatible'', ''backup_required''}
    then Inr (mput ''dataPolicy'' (VStr policy) spec, policy)
    else Inl (Errorf ''update dataPolicy must be stateless, volume_compatible, or backup_required'' []))"

definition normalizeProductVersionSpecs ::
  "gomap \<Rightarrow> gomap \<Rightarrow> gomap \<Rightarrow> gomap \<Rightarrow> (gomap \<times> gomap \<times> gomap) result" where
  "normalizeProductVersionSpecs runtimeSpec routeSpec healthSpec updateSpec =
    bindR (normalizeRouteSpec routeSpec) (\<lambda>routeSpec.
    bindR (normalizeHealthSpec healthSpec) (\<lambda>healthSpec.
    bindR (normalizeUpdateSpec updateSpec) (\<lambda>(updateSpec, policy).
    if policy = ''stateless'' \<and>
       (case as_arr (mget runtimeSpec ''volumes'') of Some volumes \<Rightarrow> volumes \<noteq> [] | None \<Rightarrow> False)
    then Inl (Errorf ''stateless versions cannot declare data volumes'' [])
    else Inr (routeSpec, healthSpec, updateSpec))))"

definition snapshotDataPolicy :: "gomap \<Rightarrow> string" where
  "snapshotDataPolicy snapshot = (case as_obj (mget snapshot ''update_spec'') of
     None \<Rightarrow> defaultDataPolicy
   | Some updateSpec \<Rightarrow> (case as_str (mget updateSpec ''dataPolicy'') of
       Some policy \<Rightarrow> policy | None \<Rightarrow> defaultDataPolicy))"


section \<open>Listeners survive encoding\<close>

text \<open>What the code promises of a list of listeners, and the listener that one JSON object stands for.\<close>

definition listener_ok :: "routeListener \<Rightarrow> bool" where
  "listener_ok l = (listenerPortKeyPattern (li_Key l) \<and> port_in_range (li_ContainerPort l) \<and>
     rune_count (li_Remark l) \<le> 120 \<and> (li_MappingEnabled l \<longrightarrow> li_MappingAvailable l))"

definition listeners_ok :: "routeListener list \<Rightarrow> bool" where
  "listeners_ok ls = (ls \<noteq> [] \<and> length ls \<le> 16 \<and> list_all listener_ok ls \<and> distinct (map li_Key ls) \<and>
     distinct (map li_ContainerPort ls) \<and> length (filter li_Primary ls) = 1)"

lemma exactInteger_port [simp]: "port_in_range p \<Longrightarrow> exactInteger (VFloat (Fin (of_int p))) = Some p"
  by (simp add: exactInteger_def int_of_gofloat_def port_in_range_def in64_def)

lemma bool_or_false_VBool [simp]: "bool_or_false (VBool b) = b"
  by (simp add: bool_or_false_def)

lemma listeners_loop_Inr:
  "listeners_loop acc raw = Inr ls \<Longrightarrow>
   \<exists>new. ls = acc @ new \<and> length new = length raw \<and> list_all listener_ok new \<and> distinct (map li_Key new) \<and>
     distinct (map li_ContainerPort new) \<and> set (map li_Key new) \<inter> set (map li_Key acc) = {} \<and>
     set (map li_ContainerPort new) \<inter> set (map li_ContainerPort acc) = {}"
proof (induction raw arbitrary: acc)
  case (Cons v raw)
  then obtain item p where item: "v = VObj item" and p: "exactInteger (mget item ''containerPort'') = Some p"
    by (cases v) (auto simp: Let_def split: if_splits option.splits)
  define l where "l = \<lparr>li_Key = str_or_empty (mget item ''key''), li_ContainerPort = p,
    li_Remark = str_or_empty (mget item ''remark''), li_Primary = bool_or_false (mget item ''primary''),
    li_UserEditable = bool_or_false (mget item ''userEditable''),
    li_MappingAvailable = bool_or_false (mget item ''mappingAvailable''),
    li_MappingEnabled = bool_or_false (mget item ''mappingEnabled'')\<rparr>"
  from Cons.prems item p have l: "listener_ok l" "li_Key l \<notin> li_Key ` set acc"
      "li_ContainerPort l \<notin> li_ContainerPort ` set acc"
    and rest: "listeners_loop (acc @ [l]) raw = Inr ls"
    by (auto simp: Let_def l_def listener_ok_def split: if_splits)
  from Cons.IH [OF rest] obtain new where "ls = (acc @ [l]) @ new" "length new = length raw" "list_all listener_ok new"
    "distinct (map li_Key new)" "distinct (map li_ContainerPort new)"
    "set (map li_Key new) \<inter> set (map li_Key (acc @ [l])) = {}"
    "set (map li_ContainerPort new) \<inter> set (map li_ContainerPort (acc @ [l])) = {}" by blast
  with l show ?case by (intro exI [of _ "l # new"]) auto
qed simp

lemma listeners_loop_encode:
  assumes "list_all listener_ok ls" "distinct (map li_Key (acc @ ls))" "distinct (map li_ContainerPort (acc @ ls))"
  shows "listeners_loop acc (encodeRouteListeners ls) = Inr (acc @ ls)"
  using assms
proof (induction ls arbitrary: acc)
  case (Cons l ls)
  have "listeners_loop acc (encodeRouteListeners (l # ls)) = listeners_loop (acc @ [l]) (encodeRouteListeners ls)"
    using Cons.prems
    by (cases l) (auto simp: encodeRouteListeners_def encodeRouteListener_def mget_def listener_ok_def Let_def)
  then show ?case using Cons.IH [of "acc @ [l]"] Cons.prems by simp
qed (simp add: encodeRouteListeners_def)

lemma rune_count_le: "rune_count s \<le> length s"
proof (induction s rule: runes.induct)
  case (1 s)
  show ?case
  proof (cases "s = []")
    case False
    have "rune_count s = Suc (rune_count (drop (rune_width s) s))"
      using False unfolding rune_count_def by (subst runes.simps) simp
    also have "\<dots> \<le> Suc (length s - rune_width s)" using 1 [OF False] by simp
    also have "\<dots> \<le> length s" using rune_width_pos [of s] length_greater_0_conv [of s] False by linarith
    finally show ?thesis .
  qed (simp add: rune_count_def runes.simps)
qed

lemma web_entry_remark_short: "rune_count web_entry_remark \<le> 120"
  using rune_count_le [of web_entry_remark] by (simp add: web_entry_remark_def bytes_def)

lemma web_key_ok: "listenerPortKeyPattern ''web''"
  by (simp add: listenerPortKeyPattern_def pat_def char_class_simps)

lemma routeListeners_ok:
  assumes "routeListeners spec = Inr ls"
  shows "listeners_ok ls"
proof -
  define raw where "raw = (case as_arr (mget spec ''listeners'') of Some vs \<Rightarrow> vs | None \<Rightarrow> [])"
  show ?thesis
  proof (cases "raw = []")
    case True
    with assms show ?thesis
      by (auto simp: routeListeners_def raw_def [symmetric] listeners_ok_def listener_ok_def web_entry_remark_short web_key_ok
          split: option.splits if_splits)
  next
    case False
    with assms have "listeners_loop [] raw = Inr ls" "length raw \<le> 16" "length (filter li_Primary ls) = 1"
      by (auto simp: routeListeners_def raw_def [symmetric] split: if_splits)
    with listeners_loop_Inr [of "[]" raw ls] False show ?thesis by (auto simp: listeners_ok_def)
  qed
qed

lemma routeListeners_encode:
  assumes "listeners_ok ls" "mget spec ''listeners'' = VArr (encodeRouteListeners ls)"
  shows "routeListeners spec = Inr ls"
proof -
  have "encodeRouteListeners ls \<noteq> []" "length (encodeRouteListeners ls) \<le> 16"
    using assms(1) by (auto simp: encodeRouteListeners_def listeners_ok_def)
  then show ?thesis using assms listeners_loop_encode [of ls "[]"]
    by (auto simp: routeListeners_def listeners_ok_def)
qed

text \<open>Every list of listeners that \<^verbatim>\<open>routeListeners\<close> reads is well formed: one to sixteen
  listeners, keys of the allowed form and ports from 1 to 65535, keys and ports pairwise different,
  exactly one primary listener, no direct mapping where none is available.  Written back by
  \<^verbatim>\<open>encodeRouteListeners\<close> into any route specification, it is read again unchanged.\<close>

theorem listeners_round_trip:
  assumes "routeListeners spec = Inr ls"
  shows "listeners_ok ls \<and> routeListeners (mput ''listeners'' (VArr (encodeRouteListeners ls)) other) = Inr ls"
  using routeListeners_ok [OF assms] by (simp add: routeListeners_encode)

definition example_route :: gomap where
  "example_route = [(''listeners'', VArr
     [VObj [(''key'', VStr ''web''), (''containerPort'', VFloat (Fin 8080)), (''primary'', VBool True)],
      VObj [(''key'', VStr ''api''), (''containerPort'', VFloat (Fin 9000)), (''userEditable'', VBool True)]])]"

definition example_listeners :: "routeListener list" where
  "example_listeners =
    [\<lparr>li_Key = ''web'', li_ContainerPort = 8080, li_Remark = [], li_Primary = True, li_UserEditable = False,
      li_MappingAvailable = False, li_MappingEnabled = False\<rparr>,
     \<lparr>li_Key = ''api'', li_ContainerPort = 9000, li_Remark = [], li_Primary = False, li_UserEditable = True,
      li_MappingAvailable = False, li_MappingEnabled = False\<rparr>]"

lemma exactInteger_numeral [simp]:
  "numeral n \<le> (65535 :: int) \<Longrightarrow> exactInteger (VFloat (Fin (numeral n))) = Some (numeral n)"
  using exactInteger_port [of "numeral n"] by (simp add: port_in_range_def)

lemma example_route_listeners: "routeListeners example_route = Inr example_listeners"
proof -
  have keys: "listenerPortKeyPattern ''web''" "listenerPortKeyPattern ''api''"
    by (simp_all add: listenerPortKeyPattern_def pat_def char_class_simps)
  have empty: "str_or_empty VNil = []" "rune_count [] = 0" "bool_or_false VNil = False"
    by (simp_all add: str_or_empty_def rune_count_def runes.simps bool_or_false_def)
  show ?thesis
    by (simp add: routeListeners_def example_route_def example_listeners_def mget_def keys empty port_in_range_def)
qed

theorem listeners_round_trip_witness:
  "listeners_ok example_listeners \<and>
   routeListeners (mput ''listeners'' (VArr (encodeRouteListeners example_listeners)) []) = Inr example_listeners"
  using listeners_round_trip [OF example_route_listeners, of "[]"] .


section \<open>Normalisation is stable\<close>

lemma mput_same: "map_of m k = Some v \<Longrightarrow> mput k v m = m"
  unfolding mput_def by (induction m) (auto split: if_splits)

lemma mdel_absent: "\<not> has_key m k \<Longrightarrow> mdel k m = m"
  by (simp add: mdel_def has_key_iff delete_id)

lemma map_of_mget: "has_key m k \<Longrightarrow> mget m k = v \<Longrightarrow> map_of m k = Some v"
  by (auto simp: has_key_def mget_def)

lemmas mput_mget = mput_same [OF map_of_mget]

lemma trim_right_set_prefix: "prefix (trim_right_set s cs) s"
proof -
  have "suffix (dropWhile (\<lambda>c. c \<in> set cs) (rev s)) (rev s)" by (rule suffix_dropWhile)
  then show ?thesis by (simp add: trim_right_set_def suffix_to_prefix)
qed

lemma trim_right_set_idem [simp]: "trim_right_set (trim_right_set s cs) cs = trim_right_set s cs"
  by (simp add: trim_right_set_def dropWhile_idem)

lemma trim_space_slash [simp]: "trim_space ''/'' = ''/''"
  by (rule trim_space_visible) (simp_all add: visible_def byte_def)

lemma no_dots_slash [simp]: "\<not> sublist ''..'' ''/''"
  by (auto dest: sublist_length_le)

lemma absolute_path_stable:
  assumes "normalizedAbsolutePath raw label optional = Inr p" "trim_space p = p" "p \<noteq> []"
  shows "normalizedAbsolutePath (VStr p) label' optional' = Inr p"
proof (cases "p = ''/''")
  case True
  then show ?thesis
    by (simp add: normalizedAbsolutePath_def has_prefix_def contains_any_def path_blanks_def contains_def Let_def)
next
  case False
  from assms False obtain v where p: "p = trim_right_set v ''/''"
    and ok: "has_prefix v ''/''" "\<not> contains_any v path_blanks" "\<not> contains v ''..''" "length v \<le> 512"
    by (auto simp: normalizedAbsolutePath_def Let_def split: if_splits option.splits)
  have pre: "prefix p v" unfolding p by (rule trim_right_set_prefix)
  have "has_prefix p ''/''" using ok(1) pre assms(3) by (cases p; cases v) (auto simp: has_prefix_def)
  moreover have "\<not> contains_any p path_blanks"
    using ok(2) set_mono_prefix [OF pre] by (auto simp: contains_any_def list_ex_iff)
  moreover have "\<not> contains p ''..''"
    using ok(3) sublist_order.order_trans [OF _ prefix_imp_sublist [OF pre]] by (auto simp: contains_def)
  moreover have "length p \<le> 512" using ok(4) prefix_length_le [OF pre] by simp
  moreover have "trim_right_set p ''/'' = p" unfolding p by simp
  ultimately show ?thesis using assms(2,3) by (auto simp: normalizedAbsolutePath_def Let_def)
qed

text \<open>The form in which a normalised route specification is stored.\<close>

definition route_normal :: "gomap \<Rightarrow> bool" where
  "route_normal r = (\<exists>ls bp ws sse raw label.
     listeners_ok ls \<and> map_of r ''listeners'' = Some (VArr (encodeRouteListeners ls)) \<and>
     map_of r ''containerPort'' = Some (VFloat (Fin (of_int (primary_port ls)))) \<and>
     map_of r ''basePath'' = Some (VStr bp) \<and> (bp = ''/'' \<or> bp \<noteq> [] \<and> normalizedAbsolutePath raw label False = Inr bp) \<and>
     map_of r ''websocket'' = Some (VBool ws) \<and> map_of r ''sse'' = Some (VBool sse) \<and>
     \<not> has_key r ''portEditable'' \<and> \<not> has_key r ''portEnvVar'' \<and> \<not> has_key r ''stripPrefix'' \<and>
     \<not> has_key r ''cookiePath'' \<and>
     (\<not> has_key r ''portMapping'' \<or> (\<exists>b. map_of r ''portMapping'' = Some (VObj [(''available'', VBool b)]))))"

lemma normalizedBoolean_Inr:
  "normalizedBoolean spec key fallback = Inr (spec', b) \<Longrightarrow> spec' = mput key (VBool b) spec"
  by (auto simp: normalizedBoolean_def split: if_splits option.splits)

lemma normalizedBoolean_stable:
  "map_of spec key = Some (VBool b) \<Longrightarrow> normalizedBoolean spec key fallback = Inr (spec, b)"
  by (simp add: normalizedBoolean_def has_key_def mget_def mput_same)

lemma portMapping_Inr:
  "normalize_portMapping spec = Inr r \<Longrightarrow>
   r = mdel ''portMapping'' spec \<or> (\<exists>b. r = mput ''portMapping'' (VObj [(''available'', VBool b)]) spec)"
  by (auto simp: normalize_portMapping_def split: option.splits)

lemma map_of_mput [simp]: "map_of (mput k v m) k' = (if k = k' then Some v else map_of m k')"
  by (simp add: mput_def update_conv')

lemma map_of_mdel [simp]: "map_of (mdel k m) k' = (if k = k' then None else map_of m k')"
  by (simp add: mdel_def delete_conv')

lemma normalizeRouteSpec_normal:
  assumes "normalizeRouteSpec spec = Inr r"
  shows "route_normal r"
proof -
  obtain ls path ws sse spec' where ls: "routeListeners spec = Inr ls"
    and path: "normalizedAbsolutePath (mget spec ''basePath'') ''route basePath'' False = Inr path"
    and r: "normalize_portMapping (mdel ''cookiePath'' spec') = Inr r"
    and spec': "spec' = mput ''sse'' (VBool sse) (mput ''websocket'' (VBool ws) (mdel ''stripPrefix''
      (mput ''basePath'' (VStr (if path = [] then ''/'' else path)) (mdel ''portEnvVar'' (mdel ''portEditable''
      (mput ''listeners'' (VArr (encodeRouteListeners ls))
      (mput ''containerPort'' (VFloat (Fin (of_int (primary_port ls)))) spec)))))))"
    using assms by (auto simp: normalizeRouteSpec_def Let_def dest!: normalizedBoolean_Inr)
  define bp where "bp = (if path = [] then ''/'' else path)"
  have look: "map_of spec' ''listeners'' = Some (VArr (encodeRouteListeners ls))"
    "map_of spec' ''containerPort'' = Some (VFloat (Fin (of_int (primary_port ls))))" "map_of spec' ''basePath'' = Some (VStr bp)"
    "map_of spec' ''websocket'' = Some (VBool ws)" "map_of spec' ''sse'' = Some (VBool sse)"
    "map_of spec' ''portEditable'' = None" "map_of spec' ''portEnvVar'' = None" "map_of spec' ''stripPrefix'' = None"
    by (simp_all add: spec' bp_def)
  have fr: "map_of r k = map_of spec' k" if "k \<noteq> ''portMapping''" "k \<noteq> ''cookiePath''" for k
    using portMapping_Inr [OF r] that by (elim disjE exE) simp_all
  have gone: "map_of r ''cookiePath'' = None" using portMapping_Inr [OF r] by (elim disjE exE) simp_all
  have pm: "\<not> has_key r ''portMapping'' \<or> (\<exists>b. map_of r ''portMapping'' = Some (VObj [(''available'', VBool b)]))"
    using portMapping_Inr [OF r] by (elim disjE exE) (simp_all add: has_key_def)
  have "bp = ''/'' \<or> bp \<noteq> [] \<and> normalizedAbsolutePath (mget spec ''basePath'') ''route basePath'' False = Inr bp"
    using path by (simp add: bp_def)
  then show ?thesis
    unfolding route_normal_def using routeListeners_ok [OF ls] pm
    by (intro exI [of _ ls] exI [of _ bp] exI [of _ ws] exI [of _ sse] exI [of _ "mget spec ''basePath''"]
        exI [of _ "''route basePath''"] conjI) (assumption | simp add: has_key_def fr look gone)+
qed

lemma normalizeRouteSpec_stable:
  assumes "route_normal r" "mget r ''basePath'' = VStr bp" "trim_space bp = bp"
  shows "normalizeRouteSpec r = Inr r"
proof -
  from assms(1) obtain ls bp' ws sse raw label where
    ls: "listeners_ok ls" "map_of r ''listeners'' = Some (VArr (encodeRouteListeners ls))"
    and port: "map_of r ''containerPort'' = Some (VFloat (Fin (of_int (primary_port ls))))"
    and bp': "map_of r ''basePath'' = Some (VStr bp')"
      "bp' = ''/'' \<or> bp' \<noteq> [] \<and> normalizedAbsolutePath raw label False = Inr bp'"
    and bools: "map_of r ''websocket'' = Some (VBool ws)" "map_of r ''sse'' = Some (VBool sse)"
    and gone: "\<not> has_key r ''portEditable''" "\<not> has_key r ''portEnvVar''" "\<not> has_key r ''stripPrefix''"
      "\<not> has_key r ''cookiePath''"
    and pm: "\<not> has_key r ''portMapping'' \<or> (\<exists>b. map_of r ''portMapping'' = Some (VObj [(''available'', VBool b)]))"
    unfolding route_normal_def by blast
  have "bp' = bp" using bp'(1) assms(2) by (simp add: mget_def)
  note bp = bp' [unfolded this]
  have "routeListeners r = Inr ls" using ls by (simp add: routeListeners_encode mget_def)
  moreover have "normalizedAbsolutePath (VStr bp) ''route basePath'' False = Inr bp" "bp \<noteq> []"
    using bp(2) assms(3) absolute_path_stable [of raw label False bp]
      absolute_path_stable [of VNil "[]" False "''/''"] by (auto simp: normalizedAbsolutePath_def [of VNil])
  moreover have "normalize_portMapping r = Inr r"
    using pm by (auto simp: normalize_portMapping_def mdel_absent mput_same mget_def has_key_def normalizedBoolean_def
        split: option.splits)
  ultimately show ?thesis
    using ls port bp bools gone
    by (simp add: normalizeRouteSpec_def Let_def mput_same mdel_absent normalizedBoolean_stable mget_def)
qed


lemma status_loop_Inr:
  assumes "status_loop acc raw = Inr codes" "distinct acc" "list_all (\<lambda>c. 100 \<le> c \<and> c \<le> 599) acc"
  shows "distinct codes \<and> list_all (\<lambda>c. 100 \<le> c \<and> c \<le> 599) codes \<and> length codes \<le> length acc + length raw"
  using assms
proof (induction raw arbitrary: acc)
  case (Cons v raw)
  from Cons.prems(1) obtain n where n: "100 \<le> n" "n \<le> 599"
    "status_loop (if n \<in> set acc then acc else acc @ [n]) raw = Inr codes"
    by (cases "exactInteger v") (auto simp: not_less split: if_split_asm)
  from Cons.IH [OF n(3)] n Cons.prems show ?case by (auto split: if_splits)
qed simp

lemma status_loop_stable:
  "distinct (acc @ codes) \<Longrightarrow> list_all (\<lambda>c. 100 \<le> c \<and> c \<le> 599) codes \<Longrightarrow>
   status_loop acc (map (\<lambda>n. VFloat (Fin (of_int n))) codes) = Inr (acc @ codes)"
proof (induction codes arbitrary: acc)
  case (Cons c codes)
  then have "exactInteger (VFloat (Fin (of_int c))) = Some c" by (simp add: port_in_range_def)
  with Cons.IH [of "acc @ [c]"] Cons.prems show ?case by simp
qed simp

lemma status_codes_stable:
  assumes "normalizedAcceptedStatusCodes raw = Inr codes"
  shows "normalizedAcceptedStatusCodes (VInts codes) = Inr codes"
proof (cases "raw = VNil")
  case True
  with assms show ?thesis by (simp add: normalizedAcceptedStatusCodes_def int_slice_def)
next
  case False
  with assms obtain vs where "status_loop [] vs = Inr codes" "length vs \<le> 32"
    by (auto simp: normalizedAcceptedStatusCodes_def split: option.splits if_splits)
  with status_loop_Inr [of "[]" vs codes] status_loop_stable [of "[]" codes] show ?thesis
    by (simp add: normalizedAcceptedStatusCodes_def int_slice_def)
qed

lemma health_field_Inr:
  assumes "health_field name dflt lo hi limits spec = Inr r" "lo \<le> dflt" "dflt \<le> hi"
  shows "\<exists>n. lo \<le> n \<and> n \<le> hi \<and> r = mput name (VFloat (Fin (of_int n))) spec"
  using assms by (cases "exactInteger (mget spec name)") (auto simp: health_field_def not_less split: if_split_asm)

lemma health_field_stable:
  assumes "map_of r name = Some (VFloat (Fin (of_int n)))" "lo \<le> n" "n \<le> hi" "1 \<le> lo" "hi \<le> 120"
  shows "health_field name dflt lo hi limits r = Inr r"
proof -
  have "exactInteger (VFloat (Fin (of_int n))) = Some n" using assms by (simp add: port_in_range_def)
  then show ?thesis using assms by (simp add: health_field_def has_key_def mget_def mput_same)
qed

lemma normalizeHealthSpec_parts:
  assumes "normalizeHealthSpec spec = Inr h"
  obtains path codes i t where
    "normalizedAbsolutePath (mget spec ''path'') ''health path'' True = Inr path"
    "normalizedAcceptedStatusCodes (mget spec ''acceptedStatusCodes'') = Inr codes"
    "1 \<le> i" "i \<le> 120" "1 \<le> t" "t \<le> (30 :: int)"
    "h = mput ''timeoutSeconds'' (VFloat (Fin (of_int t))) (mput ''intervalSeconds'' (VFloat (Fin (of_int i)))
      (mput ''acceptedStatusCodes'' (VInts codes) (mput ''path'' (VStr path) spec)))"
  using assms by (auto simp: normalizeHealthSpec_def Let_def dest!: health_field_Inr)

lemma normalizeHealthSpec_stable:
  assumes "normalizeHealthSpec spec = Inr h" "mget h ''path'' = VStr path" "trim_space path = path"
  shows "normalizeHealthSpec h = Inr h"
proof -
  obtain p codes i t where
    path: "normalizedAbsolutePath (mget spec ''path'') ''health path'' True = Inr p"
    and codes: "normalizedAcceptedStatusCodes (mget spec ''acceptedStatusCodes'') = Inr codes"
    and it: "1 \<le> i" "i \<le> 120" "1 \<le> t" "t \<le> (30 :: int)"
    and h: "h = mput ''timeoutSeconds'' (VFloat (Fin (of_int t))) (mput ''intervalSeconds'' (VFloat (Fin (of_int i)))
      (mput ''acceptedStatusCodes'' (VInts codes) (mput ''path'' (VStr p) spec)))"
    using assms(1) by (rule normalizeHealthSpec_parts)
  have "p = path" using assms(2) by (simp add: h)
  have "normalizedAbsolutePath (VStr path) ''health path'' True = Inr path"
    using path assms(3) absolute_path_stable [of "mget spec ''path''" "''health path''" True path]
    by (cases "path = []") (auto simp: \<open>p = path\<close> normalizedAbsolutePath_def [of "VStr []"])
  moreover have "map_of h ''path'' = Some (VStr path)" "map_of h ''acceptedStatusCodes'' = Some (VInts codes)"
    "map_of h ''intervalSeconds'' = Some (VFloat (Fin (of_int i)))"
    "map_of h ''timeoutSeconds'' = Some (VFloat (Fin (of_int t)))" by (simp_all add: h \<open>p = path\<close>)
  ultimately show ?thesis using status_codes_stable [OF codes] it
    by (simp add: normalizeHealthSpec_def Let_def mput_same mget_def health_field_stable)
qed

lemma normalizeUpdateSpec_stable:
  assumes "normalizeUpdateSpec spec = Inr (u, policy)"
  shows "normalizeUpdateSpec u = Inr (u, policy)"
proof -
  have u: "u = mput ''dataPolicy'' (VStr policy) spec" "policy \<in> {''stateless'', ''volume_compatible'', ''backup_required''}"
    using assms by (auto simp: normalizeUpdateSpec_def split: if_splits option.splits)
  have "trim_space policy = policy" using u(2)
    by (auto intro!: trim_space_visible simp: visible_def byte_def)
  then show ?thesis using u by (simp add: normalizeUpdateSpec_def mput_same)
qed

text \<open>C27: Normalisation of a product version's route, health and update specifications is
  idempotent: applied to what it returned it succeeds and changes nothing, provided the two paths it
  stored have no white space at their ends (a path such as slash, a, vertical tab, slash does not
  qualify: the trailing slash is removed after the trimming).\<close>

theorem normalize_idempotent:
  assumes "normalizeProductVersionSpecs runtimeSpec routeSpec healthSpec updateSpec = Inr (route, health, update)"
    and "mget route ''basePath'' = VStr basePath" "trim_space basePath = basePath"
    and "mget health ''path'' = VStr path" "trim_space path = path"
  shows "normalizeProductVersionSpecs runtimeSpec route health update = Inr (route, health, update)"
proof -
  obtain policy where route: "normalizeRouteSpec routeSpec = Inr route" and health: "normalizeHealthSpec healthSpec = Inr health"
    and update: "normalizeUpdateSpec updateSpec = Inr (update, policy)"
    and vols: "\<not> (policy = ''stateless'' \<and>
       (case as_arr (mget runtimeSpec ''volumes'') of Some volumes \<Rightarrow> volumes \<noteq> [] | None \<Rightarrow> False))"
    using assms(1) by (auto simp: normalizeProductVersionSpecs_def split: if_splits)
  show ?thesis
    using normalizeRouteSpec_stable [OF normalizeRouteSpec_normal [OF route] assms(2,3)]
      normalizeHealthSpec_stable [OF health assms(4,5)] normalizeUpdateSpec_stable [OF update] vols
    by (simp add: normalizeProductVersionSpecs_def)
qed

definition normal_route :: gomap where
  "normal_route = [(''listeners'', VArr (encodeRouteListeners example_listeners)), (''containerPort'', VFloat (Fin 8080)),
     (''basePath'', VStr ''/''), (''websocket'', VBool True), (''sse'', VBool True)]"

definition normal_health :: gomap where
  "normal_health = [(''path'', VStr []), (''acceptedStatusCodes'', VInts []),
     (''intervalSeconds'', VFloat (Fin 5)), (''timeoutSeconds'', VFloat (Fin 5))]"

definition normal_update :: gomap where
  "normal_update = [(''dataPolicy'', VStr ''volume_compatible'')]"

lemma example_route_normal: "normalizeRouteSpec example_route = Inr normal_route"
  unfolding normalizeRouteSpec_def example_route_listeners
  by (simp add: example_route_def normal_route_def Let_def primary_port_def example_listeners_def mput_def mdel_def
      mget_def normalizedAbsolutePath_def normalizedBoolean_def has_key_def normalize_portMapping_def)

lemma example_normalized:
  "normalizeProductVersionSpecs [] example_route [] [] = Inr (normal_route, normal_health, normal_update)"
proof -
  have "normalizeHealthSpec [] = Inr normal_health"
    by (simp add: normalizeHealthSpec_def normal_health_def normalizedAbsolutePath_def Let_def mput_def mget_def
        normalizedAcceptedStatusCodes_def health_field_def has_key_def)
  then show ?thesis
    by (simp add: normalizeProductVersionSpecs_def example_route_normal normalizeUpdateSpec_def normal_update_def defaultDataPolicy_def
        has_key_def mput_def)
qed

theorem normalize_idempotent_witness:
  "normalizeProductVersionSpecs [] normal_route normal_health normal_update = Inr (normal_route, normal_health, normal_update)"
  by (rule normalize_idempotent [OF example_normalized, of "''/''" "[]"])
    (simp_all add: normal_route_def normal_health_def mget_def)

text \<open>A path with a vertical tab before its trailing slash is accepted and normalised differently by a
  second pass.\<close>

definition vt_path :: string where "vt_path = ''/a'' @ [CHR 0x0B]"

lemma trim_vt: "trim_space (vt_path @ ''/'') = vt_path @ ''/''" "trim_space vt_path = ''/a''"
proof -
  show "trim_space (vt_path @ ''/'') = vt_path @ ''/''"
    by (rule trim_space_visible) (simp_all add: vt_path_def visible_def byte_def)
  have "find (\<lambda>p. p \<noteq> [] \<and> prefix p (rev vt_path)) (map rev space_encodings) = Some [CHR 0x0B]" by code_simp
  then have "strip_prefixes (map rev space_encodings) (rev vt_path) = strip_prefixes (map rev space_encodings) ''a/''"
    by (subst strip_prefixes.simps) (simp add: vt_path_def)
  also have "\<dots> = ''a/''"
    by (rule strip_stripped, rule stripped_visible) (use space_ends in \<open>auto simp: visible_def byte_def hd_rev\<close>)
  finally have "trim_right_space vt_path = ''/a''" by (simp add: trim_right_space_def)
  moreover have "trim_left_space vt_path = vt_path"
    by (rule trim_left_visible) (simp add: vt_path_def visible_def byte_def)
  ultimately show "trim_space vt_path = ''/a''" by (simp add: trim_space_def)
qed

theorem vertical_tab_unstable:
  "normalizedAbsolutePath (VStr (vt_path @ ''/'')) label False = Inr vt_path \<and>
   normalizedAbsolutePath (VStr vt_path) label False = Inr ''/a''"
proof -
  have "\<not> sublist ''..'' (vt_path @ ''/'')" "\<not> sublist ''..'' ''/a''"
    by (auto simp: vt_path_def sublist_Cons_right)
  then show ?thesis using trim_vt
    by (simp add: normalizedAbsolutePath_def Let_def has_prefix_def contains_any_def path_blanks_def contains_def
        vt_path_def trim_right_set_def)
qed

end
