(* ===== verification/Spec_Selection.thy ===== *)
theory Spec_Selection
  imports Product_Spec "HOL-Library.Log_Nat"
begin

text \<open>
  The specifications of a release: what a tenant may choose on top of a published product version
  (\<^verbatim>\<open>selectedRuntimeSpec\<close>, \<^verbatim>\<open>selectedRouteSpec\<close> and \<^verbatim>\<open>validateInternalRoutePort\<close> of
  \<^verbatim>\<open>src/internal/httpapi/server.go\<close>) and how an update carries the choices of the active release over
  to a newer version (\<^verbatim>\<open>runtimeSpecForUpdate\<close> of \<^verbatim>\<open>src/internal/httpapi/app_lifecycle.go\<close>).  A pointer
  or a slice of the request that may be nil is an option.
\<close>

section \<open>The copy through JSON\<close>

text \<open>The source copies a template with \<^verbatim>\<open>json.Marshal\<close> and \<^verbatim>\<open>json.Unmarshal\<close> into a
  \<^verbatim>\<open>map[string]any\<close>: numbers become \<^verbatim>\<open>float64\<close>, slices \<^verbatim>\<open>[]any\<close>, maps \<^verbatim>\<open>map[string]any\<close>,
  an invalid byte of a string becomes U+FFFD, and a number that is not finite is an error.\<close>

definition nearest_float :: "int \<Rightarrow> rat" where
  "nearest_float n = (let a = nat \<bar>n\<bar>; e = floorlog 2 a - 53; q = a div 2 ^ e; r = a mod 2 ^ e;
      q' = (if 2 * r > 2 ^ e \<or> (e > 0 \<and> 2 * r = 2 ^ e \<and> odd q) then q + 1 else q)
    in of_int (sgn n) * of_nat (q' * 2 ^ e))"

definition valid_rune :: "string \<Rightarrow> bool" where
  "valid_rune r = (length r \<noteq> 1 \<or> byte (hd r) < 128)"

definition json_string :: "string \<Rightarrow> string" where
  "json_string s = concat (map (\<lambda>r. if valid_rune r then r else bytes [239, 191, 189]) (runes s))"

definition json_object :: "gomap \<Rightarrow> gomap" where
  "json_object m = fold (\<lambda>(k, v). mput k v) m []"

fun json_copy :: "goval \<Rightarrow> goval result" and json_copies :: "goval list \<Rightarrow> goval list result"
  and json_entries :: "(string \<times> goval) list \<Rightarrow> (string \<times> goval) list result" where
  "json_copy VNil = Inr VNil"
| "json_copy (VBool b) = Inr (VBool b)"
| "json_copy (VFloat f) = (if isNaN f \<or> isInf f
     then Inl (Errorf ''json: unsupported value: %s'' [if f = NaN then ''NaN'' else if f = PosInf then ''+Inf'' else ''-Inf''])
     else Inr (VFloat f))"
| "json_copy (VInt n) = Inr (VFloat (Fin (nearest_float n)))"
| "json_copy (VStr s) = Inr (VStr (json_string s))"
| "json_copy (VArr vs) = bindR (json_copies vs) (\<lambda>ws. Inr (VArr ws))"
| "json_copy (VObj m) = bindR (json_entries m) (\<lambda>es. Inr (VObj (json_object es)))"
| "json_copy (VStrs ss) = Inr (VArr (map (\<lambda>s. VStr (json_string s)) ss))"
| "json_copy (VInts ns) = Inr (VArr (map (\<lambda>n. VFloat (Fin (nearest_float n))) ns))"
| "json_copy (VStrMap m) = Inr (VObj (json_object (map (\<lambda>(k, s). (json_string k, VStr (json_string s))) m)))"
| "json_copies [] = Inr []"
| "json_copies (v # vs) = bindR (json_copy v) (\<lambda>w. bindR (json_copies vs) (\<lambda>ws. Inr (w # ws)))"
| "json_entries [] = Inr []"
| "json_entries ((k, v) # m) = bindR (json_copy v) (\<lambda>w. bindR (json_entries m) (\<lambda>es. Inr ((json_string k, w) # es)))"

definition json_copy_map :: "gomap \<Rightarrow> gomap result" where
  "json_copy_map m = bindR (json_entries m) (\<lambda>es. Inr (json_object es))"

section \<open>Requests\<close>

record selectedDependency =
  sd_Key :: string
  sd_ProductID :: string
  sd_ServiceSlug :: string
  sd_Required :: bool

record selectedListenerPort =
  sl_Key :: string
  sl_ContainerPort :: int
  sl_MappingEnabled :: bool

record selectedResources =
  sr_CPUCores :: "gofloat option"
  sr_MemoryMiB :: "gofloat option"
  sr_DataVolumeGiB :: "gofloat option"
  sr_VolumeSizes :: "(string \<times> gofloat) list"
  sr_Command :: "string list option"
  sr_Environment :: "(string \<times> string) list option"
  sr_Dependencies :: "selectedDependency list option"
  sr_PortMappingEnabled :: "bool option"
  sr_ContainerPort :: "int option"
  sr_ListenerPorts :: "selectedListenerPort list"

definition no_selection :: selectedResources where
  "no_selection = \<lparr>sr_CPUCores = None, sr_MemoryMiB = None, sr_DataVolumeGiB = None, sr_VolumeSizes = [],
     sr_Command = None, sr_Environment = None, sr_Dependencies = None, sr_PortMappingEnabled = None,
     sr_ContainerPort = None, sr_ListenerPorts = []\<rparr>"

definition editableRuntimeOption :: "gomap \<Rightarrow> string \<Rightarrow> bool \<Rightarrow> bool" where
  "editableRuntimeOption spec key legacyDefault = (case as_obj (mget spec ''editableOptions'') of
     None \<Rightarrow> legacyDefault
   | Some options \<Rightarrow> if \<not> has_key options key then False else as_bool (mget options key) = Some True)"

section \<open>Choosing the runtime specification\<close>

definition select_value :: "gofloat \<Rightarrow> gofloat option \<Rightarrow> bool \<Rightarrow> string \<Rightarrow> gofloat result" where
  "select_value minimum chosen editable message =
    (case chosen of None \<Rightarrow> Inr minimum
     | Some v \<Rightarrow> if editable then Inr v else Inl (Errorf message []))"

definition data_volume_or_zero :: "gomap \<Rightarrow> gofloat" where
  "data_volume_or_zero spec = (case RuntimeDataVolumeGiB spec False of Inr v \<Rightarrow> v | Inl _ \<Rightarrow> Fin 0)"

definition chosen_volume :: "gofloat \<Rightarrow> (string \<times> gofloat) list \<Rightarrow> gofloat" where
  "chosen_volume start sizes = fold (\<lambda>(_, chosen) v. if chosen > v then chosen else v) sizes start"

definition set_volume_size :: "gofloat \<Rightarrow> goval \<Rightarrow> goval" where
  "set_volume_size v raw = (case as_obj raw of None \<Rightarrow> raw | Some volume \<Rightarrow> VObj (mput ''sizeGiB'' (VFloat v) volume))"

definition apply_volume :: "gofloat \<Rightarrow> gomap \<Rightarrow> gomap" where
  "apply_volume v spec = (case as_arr (mget spec ''volumes'') of
     None \<Rightarrow> mdel ''dataVolumeGiB'' spec
   | Some volumes \<Rightarrow>
      if volumes = [] then mdel ''dataVolumeGiB'' spec
      else mput ''dataVolumeGiB'' (VFloat v) (mput ''volumes'' (VArr (map (set_volume_size v) volumes)) spec))"

definition select_compute :: "gomap \<Rightarrow> selectedResources \<Rightarrow> gomap result" where
  "select_compute spec sel =
    bindR (RuntimeResources spec True) (\<lambda>minimum.
    bindR (select_value (CPUCores minimum) (sr_CPUCores sel) (editableRuntimeOption spec ''cpu'' True)
             ''CPU is not editable for this product'') (\<lambda>cpu.
    bindR (select_value (MemoryMiB minimum) (sr_MemoryMiB sel) (editableRuntimeOption spec ''memory'' True)
             ''memory is not editable for this product'') (\<lambda>memory.
    if cpu < CPUCores minimum \<or> memory < MemoryMiB minimum
    then Inl (Errorf ''selected CPU and memory must meet the product minimum'' [])
    else Inr (mput ''systemDiskGiB'' (VFloat DefaultSystemDiskGiB) (mput ''memoryMiB'' (VFloat memory)
                (mput ''cpuCores'' (VFloat cpu) spec))))))"

definition select_volume :: "(gofloat \<Rightarrow> string) \<Rightarrow> gomap \<Rightarrow> selectedResources \<Rightarrow> gomap result" where
  "select_volume fmt spec sel =
    (let minimumVolume = data_volume_or_zero spec;
         dataVolumeEditable = editableRuntimeOption spec ''dataVolume'' False in
     bindR (select_value minimumVolume (sr_DataVolumeGiB sel) dataVolumeEditable
              ''data volume capacity is not editable for this product'') (\<lambda>start.
     if sr_VolumeSizes sel \<noteq> [] \<and> \<not> dataVolumeEditable
     then Inl (Errorf ''data volume capacity is not editable for this product'' [])
     else let v = chosen_volume start (sr_VolumeSizes sel) in
     if v < minimumVolume
     then Inl (Errorf ''data volume capacity must be at least %.0f GiB'' [fmt minimumVolume])
     else Inr (if dataVolumeEditable then apply_volume v spec else spec)))"

definition select_command :: "gomap \<Rightarrow> selectedResources \<Rightarrow> gomap result" where
  "select_command spec sel = (case sr_Command sel of None \<Rightarrow> Inr spec
     | Some command \<Rightarrow>
        if \<not> editableRuntimeOption spec ''command'' False
        then Inl (Errorf ''command is not editable for this product'' [])
        else Inr (mput ''command'' (VStrs command) spec))"

definition editable_env_keys :: "gomap \<Rightarrow> string list" where
  "editable_env_keys spec = (case as_arr (mget spec ''editableEnvKeys'') of None \<Rightarrow> []
     | Some rawKeys \<Rightarrow> List.map_filter as_str rawKeys)"

fun env_overlay :: "string list \<Rightarrow> gomap \<Rightarrow> (string \<times> string) list \<Rightarrow> gomap result" where
  "env_overlay allowed environment [] = Inr environment"
| "env_overlay allowed environment ((key, val) # rest) =
    (if key \<notin> set allowed then Inl (Errorf ''environment variable %s is not editable for this product'' [key])
     else env_overlay allowed (mput key (VStr val) environment) rest)"

definition select_environment :: "gomap \<Rightarrow> selectedResources \<Rightarrow> gomap result" where
  "select_environment spec sel = (case sr_Environment sel of None \<Rightarrow> Inr spec
     | Some chosen \<Rightarrow>
        if \<not> editableRuntimeOption spec ''environment'' False
        then Inl (Errorf ''environment variables are not editable for this product'' [])
        else bindR (env_overlay (editable_env_keys spec) (spec_env spec) chosen) (\<lambda>environment.
          Inr (mput ''env'' (VObj environment) spec)))"

definition dependency_value :: "selectedDependency \<Rightarrow> goval" where
  "dependency_value d = VObj [(''key'', VStr (sd_Key d)), (''productId'', VStr (sd_ProductID d)),
     (''serviceSlug'', VStr (sd_ServiceSlug d)), (''required'', VBool (sd_Required d))]"

definition select_dependencies :: "gomap \<Rightarrow> selectedResources \<Rightarrow> gomap result" where
  "select_dependencies spec sel = (case sr_Dependencies sel of None \<Rightarrow> Inr spec
     | Some chosen \<Rightarrow>
        if \<not> editableRuntimeOption spec ''dependencies'' False
        then Inl (Errorf ''dependencies are not editable for this product'' [])
        else Inr (mput ''dependencies'' (VArr (map dependency_value chosen)) spec))"

text \<open>\<open>fmt\<close> is the rendering of a number by the verb \<^verbatim>\<open>%.0f\<close>; it only occurs in messages.\<close>

definition selectedRuntimeSpec :: "(gofloat \<Rightarrow> string) \<Rightarrow> gomap \<Rightarrow> selectedResources \<Rightarrow> gomap result" where
  "selectedRuntimeSpec fmt template sel =
    bindR (json_copy_map template) (\<lambda>spec.
    bindR (select_compute spec sel) (\<lambda>spec.
    bindR (select_volume fmt spec sel) (\<lambda>spec.
    bindR (select_command spec sel) (\<lambda>spec.
    bindR (select_environment spec sel) (\<lambda>spec.
    bindR (select_dependencies spec sel) (\<lambda>spec.
    bindR (ValidateRuntimeSpec spec) (\<lambda>_. Inr spec)))))))"


section \<open>Choosing the route specification\<close>

fun requested_ports :: "(string \<times> selectedListenerPort) list \<Rightarrow> selectedListenerPort list \<Rightarrow>
    (string \<times> selectedListenerPort) list result" where
  "requested_ports requested [] = Inr requested"
| "requested_ports requested (item # rest) =
    (if map_of requested (sl_Key item) \<noteq> None
     then Inl (Errorf ''listener port %s is duplicated'' [sl_Key item])
     else requested_ports (AList.update (sl_Key item) item requested) rest)"

definition listener_choice :: "(string \<times> selectedListenerPort) list \<Rightarrow> bool option \<Rightarrow> routeListener \<Rightarrow>
    selectedListenerPort option" where
  "listener_choice requested mapping l = (case map_of requested (li_Key l) of
     Some choice \<Rightarrow> Some choice
   | None \<Rightarrow> (case mapping of
       Some enabled \<Rightarrow> if li_Primary l \<and> li_MappingAvailable l
         then Some \<lparr>sl_Key = li_Key l, sl_ContainerPort = li_ContainerPort l, sl_MappingEnabled = enabled\<rparr> else None
     | None \<Rightarrow> None))"

definition apply_choice :: "selectedListenerPort \<Rightarrow> routeListener \<Rightarrow> routeListener result" where
  "apply_choice choice l =
    (if sl_ContainerPort choice \<noteq> li_ContainerPort l \<and> \<not> li_UserEditable l
     then Inl (Errorf ''listener port %s is not editable'' [li_Key l])
     else if \<not> port_in_range (sl_ContainerPort choice)
     then Inl (Errorf ''listener port %s must be between 1 and 65535'' [li_Key l])
     else if sl_MappingEnabled choice \<and> \<not> li_MappingAvailable l
     then Inl (Errorf ''listener port %s does not allow direct mapping'' [li_Key l])
     else Inr (l\<lparr>li_ContainerPort := sl_ContainerPort choice, li_MappingEnabled := sl_MappingEnabled choice\<rparr>))"

fun select_listeners :: "bool option \<Rightarrow> (string \<times> selectedListenerPort) list \<Rightarrow> routeListener list \<Rightarrow>
    ((string \<times> selectedListenerPort) list \<times> routeListener list) result" where
  "select_listeners mapping requested [] = Inr (requested, [])"
| "select_listeners mapping requested (l # ls) =
    (case listener_choice requested mapping l of
       None \<Rightarrow> bindR (select_listeners mapping requested ls) (\<lambda>(requested, ls'). Inr (requested, l # ls'))
     | Some choice \<Rightarrow> bindR (apply_choice choice l) (\<lambda>l'.
         bindR (select_listeners mapping (AList.delete (li_Key l) requested) ls) (\<lambda>(requested, ls').
         Inr (requested, l' # ls'))))"

definition selectedRouteSpec :: "gomap \<Rightarrow> selectedResources \<Rightarrow> gomap result" where
  "selectedRouteSpec template sel =
    bindR (json_copy_map template) (\<lambda>spec.
    bindR (normalizeRouteSpec spec) (\<lambda>spec.
    bindR (routeListeners spec) (\<lambda>listeners.
    bindR (requested_ports [] (sr_ListenerPorts sel)) (\<lambda>requested.
    bindR (select_listeners (sr_PortMappingEnabled sel) requested listeners) (\<lambda>(requested, listeners).
    if requested \<noteq> [] then Inl (Errorf ''request contains an unknown listener port'' [])
    else
    let spec = mput ''listeners'' (VArr (encodeRouteListeners listeners)) spec in
    bindR (routeListeners spec) (\<lambda>_.
    Inr (case find li_Primary listeners of None \<Rightarrow> spec
         | Some l \<Rightarrow> mput ''containerPort'' (VFloat (Fin (of_int (li_ContainerPort l)))) spec)))))))"

definition validateInternalRoutePort :: "gomap \<Rightarrow> gomap \<Rightarrow> unit result" where
  "validateInternalRoutePort runtimeSpec routeSpec = (case exactInteger (mget routeSpec ''containerPort'') of
     None \<Rightarrow> Inl (Errorf ''container port must be between 1 and 65535'' [])
   | Some port \<Rightarrow>
      if \<not> port_in_range port then Inl (Errorf ''container port must be between 1 and 65535'' [])
      else ValidateRuntimeSpec runtimeSpec)"

section \<open>Updating an application\<close>

definition math_max :: "gofloat \<Rightarrow> gofloat \<Rightarrow> gofloat" where
  "math_max x y = (if x = PosInf \<or> y = PosInf then PosInf else if x = NaN \<or> y = NaN then NaN
     else if x > y then x else y)"

definition keep_compute :: "gomap \<Rightarrow> gomap \<Rightarrow> Resources \<Rightarrow> selectedResources \<Rightarrow> selectedResources" where
  "keep_compute template current minimum sel =
    (let sel = (if editableRuntimeOption template ''cpu'' True \<and> sr_CPUCores sel = None then
                  (case RuntimeResources current False of Inl _ \<Rightarrow> sel
                   | Inr res \<Rightarrow> sel\<lparr>sr_CPUCores := Some (math_max (CPUCores res) (CPUCores minimum))\<rparr>)
                else sel)
     in if editableRuntimeOption template ''memory'' True \<and> sr_MemoryMiB sel = None then
          (case RuntimeResources current False of Inl _ \<Rightarrow> sel
           | Inr res \<Rightarrow> sel\<lparr>sr_MemoryMiB := Some (math_max (MemoryMiB res) (MemoryMiB minimum))\<rparr>)
        else sel)"

definition keep_volume :: "(gofloat \<Rightarrow> string) \<Rightarrow> gomap \<Rightarrow> gomap \<Rightarrow> selectedResources \<Rightarrow> selectedResources result" where
  "keep_volume fmt template current sel =
    (let targetVolumes = VolumeMounts template; editable = editableRuntimeOption template ''dataVolume'' True in
     bindR (RuntimeDataVolumeGiB current False) (\<lambda>currentCapacity.
     bindR (RuntimeDataVolumeGiB template False) (\<lambda>minimumCapacity.
     if currentCapacity > Fin 0 \<and> targetVolumes = []
     then Inl (Errorf ''the latest product version removes the existing shared data volume; data volumes can only be expanded'' [])
     else if currentCapacity > minimumCapacity \<and> \<not> editable
     then Inl (Errorf ''the latest product version fixes shared data volume capacity below the current %.0f GiB; data volumes can only be expanded''
                 [fmt currentCapacity])
     else if targetVolumes = [] then
       (if sr_DataVolumeGiB sel \<noteq> None \<or> sr_VolumeSizes sel \<noteq> []
        then Inl (Errorf ''this product version does not declare a data volume'' []) else Inr sel)
     else if editable then
       (case sr_DataVolumeGiB sel of
          None \<Rightarrow> (let v = math_max currentCapacity minimumCapacity in
            Inr (if v > Fin 0 then sel\<lparr>sr_DataVolumeGiB := Some v\<rparr> else sel))
        | Some v \<Rightarrow> if currentCapacity > Fin 0 \<and> v < currentCapacity
            then Inl (Errorf ''shared data volume capacity can only be expanded (current %.0f GiB)'' [fmt currentCapacity])
            else Inr sel)
     else Inr sel)))"

definition keep_command :: "gomap \<Rightarrow> gomap \<Rightarrow> selectedResources \<Rightarrow> selectedResources result" where
  "keep_command template current sel =
    (if editableRuntimeOption template ''command'' False \<and> sr_Command sel = None then
       bindR (RuntimeCommand current) (\<lambda>command.
       Inr (if command \<noteq> [] then sel\<lparr>sr_Command := Some command\<rparr> else sel))
     else Inr sel)"

definition kept_variable :: "gomap \<Rightarrow> gomap \<Rightarrow> string \<Rightarrow> string option" where
  "kept_variable template current key = (case as_str (mget (spec_env current) key) of
     Some v \<Rightarrow> Some v | None \<Rightarrow> as_str (mget (spec_env template) key))"

definition merged_environment :: "gomap \<Rightarrow> gomap \<Rightarrow> string list \<Rightarrow> (string \<times> string) list \<Rightarrow> (string \<times> string) list" where
  "merged_environment template current editableEnv chosen =
    fold (\<lambda>(key, v) m. AList.update key v m) chosen
      (fold (\<lambda>key m. case kept_variable template current key of Some v \<Rightarrow> AList.update key v m | None \<Rightarrow> m) editableEnv [])"

definition keep_environment :: "gomap \<Rightarrow> gomap \<Rightarrow> selectedResources \<Rightarrow> selectedResources" where
  "keep_environment template current sel =
    (let editableEnv = editable_env_keys template in
     if editableEnv \<noteq> [] \<and> editableRuntimeOption template ''environment'' False
     then sel\<lparr>sr_Environment := Some (merged_environment template current editableEnv
            (case sr_Environment sel of Some chosen \<Rightarrow> chosen | None \<Rightarrow> []))\<rparr>
     else sel)"

text \<open>\<^verbatim>\<open>RuntimeDependencies\<close> returns nil exactly when the key is missing.\<close>

definition keep_dependencies :: "gomap \<Rightarrow> gomap \<Rightarrow> selectedResources \<Rightarrow> selectedResources result" where
  "keep_dependencies template current sel =
    (if editableRuntimeOption template ''dependencies'' False \<and> sr_Dependencies sel = None then
       bindR (RuntimeDependencies current) (\<lambda>dependencies.
       Inr (if has_key current ''dependencies''
            then sel\<lparr>sr_Dependencies := Some (map (\<lambda>d. \<lparr>sd_Key = dep_key d, sd_ProductID = dep_productId d,
                   sd_ServiceSlug = dep_serviceSlug d, sd_Required = dep_required d\<rparr>) dependencies)\<rparr>
            else sel))
     else Inr sel)"

definition runtimeSpecForUpdate :: "(gofloat \<Rightarrow> string) \<Rightarrow> gomap \<Rightarrow> gomap \<Rightarrow> selectedResources option \<Rightarrow> gomap result" where
  "runtimeSpecForUpdate fmt template current requested =
    (let sel = (case requested of Some sel \<Rightarrow> sel | None \<Rightarrow> no_selection) in
     bindR (RuntimeResources template True) (\<lambda>minimum.
     bindR (keep_volume fmt template current (keep_compute template current minimum sel)) (\<lambda>sel.
     bindR (keep_command template current sel) (\<lambda>sel.
     bindR (keep_dependencies template current (keep_environment template current sel)) (\<lambda>sel.
     selectedRuntimeSpec fmt template sel)))))"


section \<open>The copy of a decoded document\<close>

text \<open>Values that \<^verbatim>\<open>encoding/json\<close> decodes into \<^verbatim>\<open>any\<close>: product versions and snapshots are read
  from the database this way, and the copy through JSON is the identity on them.\<close>

definition valid_utf8 :: "string \<Rightarrow> bool" where
  "valid_utf8 s = list_all valid_rune (runes s)"

fun json_value :: "goval \<Rightarrow> bool" and json_values :: "goval list \<Rightarrow> bool" and json_map :: "(string \<times> goval) list \<Rightarrow> bool" where
  "json_value VNil = True"
| "json_value (VBool b) = True"
| "json_value (VFloat f) = (\<not> isNaN f \<and> \<not> isInf f)"
| "json_value (VStr s) = valid_utf8 s"
| "json_value (VArr vs) = json_values vs"
| "json_value (VObj m) = json_map m"
| "json_value _ = False"
| "json_values [] = True"
| "json_values (v # vs) = (json_value v \<and> json_values vs)"
| "json_map [] = True"
| "json_map ((k, v) # m) = (valid_utf8 k \<and> k \<notin> fst ` set m \<and> json_value v \<and> json_map m)"

lemma concat_runes: "concat (runes s) = s"
proof (induction s rule: runes.induct)
  case (1 s)
  then show ?case by (subst runes.simps) simp
qed

lemma json_string_id [simp]: "valid_utf8 s \<Longrightarrow> json_string s = s"
proof -
  assume "valid_utf8 s"
  then have "map (\<lambda>r. if valid_rune r then r else bytes [239, 191, 189]) (runes s) = runes s"
    by (intro map_idI) (auto simp: valid_utf8_def list_all_iff)
  then show ?thesis by (simp add: json_string_def concat_runes)
qed

lemma mput_fresh: "k \<notin> fst ` set m \<Longrightarrow> mput k v m = m @ [(k, v)]"
  unfolding mput_def by (induction m) auto

lemma json_object_fold: "distinct (map fst (acc @ m)) \<Longrightarrow> fold (\<lambda>(k, v). mput k v) m acc = acc @ m"
  by (induction m arbitrary: acc) (auto simp: mput_fresh)

lemma json_map_distinct: "json_map m \<Longrightarrow> distinct (map fst m)"
  by (induction m rule: list.induct) force+

lemma json_copy_id: "json_value v \<Longrightarrow> json_copy v = Inr v" "json_values vs \<Longrightarrow> json_copies vs = Inr vs"
  "json_map m \<Longrightarrow> json_entries m = Inr m"
proof (induction v and vs and m rule: json_value_json_values_json_map.induct)
  case (6 m)
  then show ?case using json_object_fold [of "[]" m] by (simp add: json_map_distinct json_object_def)
qed auto

lemma json_copy_map_id [simp]: "json_map m \<Longrightarrow> json_copy_map m = Inr m"
  using json_object_fold [of "[]" m] by (simp add: json_copy_map_def json_copy_id json_map_distinct json_object_def)

lemma ascii_width: "byte c < 128 \<Longrightarrow> rune_width (c # s) = 1"
proof -
  assume c: "byte c < 128"
  then have "c \<noteq> char_of n" if "128 \<le> n" "n < 256" for n :: nat using that by auto
  moreover have "\<not> between lo hi c" if "128 \<le> lo" for lo hi using c that by (simp add: between_def)
  ultimately show ?thesis by (simp add: rune_width_def split: list.split)
qed

lemma ascii_utf8: "list_all (\<lambda>c. byte c < 128) s \<Longrightarrow> valid_utf8 s"
proof (induction s rule: runes.induct)
  case (1 s)
  show ?case
  proof (cases "s = []")
    case False
    have w: "rune_width s = 1" using 1(2) False ascii_width by (cases s) auto
    then have "valid_rune (take (rune_width s) s)" using 1(2) False by (cases s) (auto simp: valid_rune_def)
    moreover have "valid_utf8 (drop (rune_width s) s)"
      using 1(1) [OF False] 1(2) w by (cases s) auto
    ultimately show ?thesis unfolding valid_utf8_def using False by (subst runes.simps) simp
  qed (simp add: valid_utf8_def runes.simps)
qed


section \<open>A selection stays within its template\<close>

lemma editable_cong: "mget r ''editableOptions'' = mget t ''editableOptions'' \<Longrightarrow>
    editableRuntimeOption r = editableRuntimeOption t"
  by (intro ext) (simp add: editableRuntimeOption_def)

lemma editable_env_keys_cong: "mget r ''editableEnvKeys'' = mget t ''editableEnvKeys'' \<Longrightarrow> editable_env_keys r = editable_env_keys t"
  by (simp add: editable_env_keys_def)

lemma map_of_mget_eq: "map_of r k = map_of t k \<Longrightarrow> mget r k = mget t k"
  by (simp add: mget_def)

lemma select_value_Inr:
  "select_value m c e msg = Inr v \<longleftrightarrow> (c = None \<and> v = m \<or> e \<and> c = Some v)"
  by (auto simp: select_value_def split: option.splits)

lemma select_compute_Inr:
  assumes "select_compute t sel = Inr r"
  obtains minimum cpu memory where "RuntimeResources t True = Inr minimum"
    "r = mput ''systemDiskGiB'' (VFloat (Fin 5)) (mput ''memoryMiB'' (VFloat memory) (mput ''cpuCores'' (VFloat cpu) t))"
    "\<not> cpu < CPUCores minimum" "\<not> memory < MemoryMiB minimum"
    "sr_CPUCores sel = None \<and> cpu = CPUCores minimum \<or> editableRuntimeOption t ''cpu'' True \<and> sr_CPUCores sel = Some cpu"
    "sr_MemoryMiB sel = None \<and> memory = MemoryMiB minimum \<or> editableRuntimeOption t ''memory'' True \<and> sr_MemoryMiB sel = Some memory"
  using assms by (auto simp: select_compute_def select_value_Inr DefaultSystemDiskGiB_def split: if_split_asm)

lemma select_volume_Inr:
  assumes "select_volume fmt t sel = Inr r"
  obtains v where "r = (if editableRuntimeOption t ''dataVolume'' False then apply_volume v t else t)"
    "\<not> v < data_volume_or_zero t"
    "\<exists>start. v = chosen_volume start (sr_VolumeSizes sel) \<and>
       (sr_DataVolumeGiB sel = None \<and> start = data_volume_or_zero t \<or>
        editableRuntimeOption t ''dataVolume'' False \<and> sr_DataVolumeGiB sel = Some start)"
    "editableRuntimeOption t ''dataVolume'' False \<or> sr_VolumeSizes sel = []"
  using assms by (auto simp: select_volume_def select_value_Inr Let_def split: if_split_asm)

lemma apply_volume_frame: "k \<notin> {''dataVolumeGiB'', ''volumes''} \<Longrightarrow> map_of (apply_volume v t) k = map_of t k"
  by (auto simp: apply_volume_def split: option.splits)

lemma select_volume_frame:
  "select_volume fmt t sel = Inr r \<Longrightarrow>
   k \<notin> (if editableRuntimeOption t ''dataVolume'' False then {''dataVolumeGiB'', ''volumes''} else {}) \<Longrightarrow>
   map_of r k = map_of t k"
  by (auto simp: apply_volume_frame elim!: select_volume_Inr split: if_splits)

lemma select_command_frame:
  "select_command t sel = Inr r \<Longrightarrow> k \<notin> (if editableRuntimeOption t ''command'' False then {''command''} else {}) \<Longrightarrow>
   map_of r k = map_of t k"
  by (auto simp: select_command_def split: option.splits if_splits)

lemma select_environment_frame:
  "select_environment t sel = Inr r \<Longrightarrow> k \<notin> (if editableRuntimeOption t ''environment'' False then {''env''} else {}) \<Longrightarrow>
   map_of r k = map_of t k"
  by (auto simp: select_environment_def split: option.splits if_splits)

lemma select_dependencies_frame:
  "select_dependencies t sel = Inr r \<Longrightarrow> k \<notin> (if editableRuntimeOption t ''dependencies'' False then {''dependencies''} else {}) \<Longrightarrow>
   map_of r k = map_of t k"
  by (auto simp: select_dependencies_def split: option.splits if_splits)

lemma select_compute_frame:
  assumes "select_compute t sel = Inr r"
    and "k \<notin> {''systemDiskGiB''} \<union> (if editableRuntimeOption t ''cpu'' True then {''cpuCores''} else {}) \<union>
      (if editableRuntimeOption t ''memory'' True then {''memoryMiB''} else {})"
  shows "map_of r k = map_of t k"
proof -
  obtain minimum cpu memory where res: "RuntimeResources t True = Inr minimum"
    and r: "r = mput ''systemDiskGiB'' (VFloat (Fin 5)) (mput ''memoryMiB'' (VFloat memory) (mput ''cpuCores'' (VFloat cpu) t))"
    and cpu: "editableRuntimeOption t ''cpu'' True \<or> cpu = CPUCores minimum"
    and memory: "editableRuntimeOption t ''memory'' True \<or> memory = MemoryMiB minimum"
    using assms(1) by (elim select_compute_Inr) blast
  from RuntimeResources_required [OF res]
  have "map_of t ''cpuCores'' = Some (VFloat (CPUCores minimum))" "map_of t ''memoryMiB'' = Some (VFloat (MemoryMiB minimum))"
    by (auto simp: mget_def split: option.splits)
  moreover have "k \<noteq> ''systemDiskGiB''" "k = ''cpuCores'' \<Longrightarrow> cpu = CPUCores minimum" "k = ''memoryMiB'' \<Longrightarrow> memory = MemoryMiB minimum"
    using assms(2) cpu memory by auto
  ultimately show ?thesis
    by (cases "k = ''cpuCores''"; cases "k = ''memoryMiB''") (simp_all add: r not_sym)
qed

text \<open>Every step of the selection is an overlay: it may write the keys its options release, leaves all others alone,
  and never touches the options themselves, so that later steps judge by the options of the template.\<close>

locale overlay_step =
  fixes step :: "gomap \<Rightarrow> selectedResources \<Rightarrow> gomap result"
    and writes :: "gomap \<Rightarrow> string set"
  assumes frame: "step t sel = Inr r \<Longrightarrow> k \<notin> writes t \<Longrightarrow> map_of r k = map_of t k"
    and spares_options: "''editableOptions'' \<notin> writes t"
begin

lemma keeps: "step t sel = Inr r \<Longrightarrow> k \<notin> writes t \<Longrightarrow> mget r k = mget t k"
  by (rule map_of_mget_eq) (rule frame)

lemma keeps_options: "step t sel = Inr r \<Longrightarrow> editableRuntimeOption r = editableRuntimeOption t"
  by (rule editable_cong) (rule keeps [OF _ spares_options])

end

abbreviation released :: "gomap \<Rightarrow> string \<Rightarrow> bool \<Rightarrow> string set \<Rightarrow> string set" where
  "released t option legacyDefault keys \<equiv> (if editableRuntimeOption t option legacyDefault then keys else {})"

interpretation compute: overlay_step select_compute
  "\<lambda>t. {''systemDiskGiB''} \<union> released t ''cpu'' True {''cpuCores''} \<union> released t ''memory'' True {''memoryMiB''}"
  by unfold_locales (erule select_compute_frame, simp_all)

interpretation volume: overlay_step "select_volume fmt" "\<lambda>t. released t ''dataVolume'' False {''dataVolumeGiB'', ''volumes''}" for fmt
  by unfold_locales (erule select_volume_frame, simp_all)

interpretation command: overlay_step select_command "\<lambda>t. released t ''command'' False {''command''}"
  by unfold_locales (erule select_command_frame, simp_all)

interpretation environment: overlay_step select_environment "\<lambda>t. released t ''environment'' False {''env''}"
  by unfold_locales (erule select_environment_frame, simp_all)

interpretation dependencies: overlay_step select_dependencies "\<lambda>t. released t ''dependencies'' False {''dependencies''}"
  by unfold_locales (erule select_dependencies_frame, simp_all)

text \<open>The keys of a specification that the template lets a tenant change.\<close>

definition overridable :: "gomap \<Rightarrow> string list" where
  "overridable t = ''systemDiskGiB'' #
     (if editableRuntimeOption t ''cpu'' True then [''cpuCores''] else []) @
     (if editableRuntimeOption t ''memory'' True then [''memoryMiB''] else []) @
     (if editableRuntimeOption t ''dataVolume'' False then [''dataVolumeGiB'', ''volumes''] else []) @
     (if editableRuntimeOption t ''command'' False then [''command''] else []) @
     (if editableRuntimeOption t ''environment'' False then [''env''] else []) @
     (if editableRuntimeOption t ''dependencies'' False then [''dependencies''] else [])"

lemma selectedRuntimeSpec_steps:
  assumes "json_map t" "selectedRuntimeSpec fmt t sel = Inr r"
  obtains r1 r2 r3 r4 where "select_compute t sel = Inr r1" "select_volume fmt r1 sel = Inr r2"
    "select_command r2 sel = Inr r3" "select_environment r3 sel = Inr r4" "select_dependencies r4 sel = Inr r"
    "ValidateRuntimeSpec r = Inr ()"
    "editableRuntimeOption r1 = editableRuntimeOption t" "editableRuntimeOption r2 = editableRuntimeOption t"
    "editableRuntimeOption r3 = editableRuntimeOption t" "editableRuntimeOption r4 = editableRuntimeOption t"
proof -
  from assms obtain r1 r2 r3 r4 where s: "select_compute t sel = Inr r1" "select_volume fmt r1 sel = Inr r2"
    "select_command r2 sel = Inr r3" "select_environment r3 sel = Inr r4" "select_dependencies r4 sel = Inr r"
    "ValidateRuntimeSpec r = Inr ()"
    by (auto simp: selectedRuntimeSpec_def)
  show ?thesis
    using that [OF s] compute.keeps_options [OF s(1)] volume.keeps_options [OF s(2)] command.keeps_options [OF s(3)]
      environment.keeps_options [OF s(4)] by simp
qed

lemma selectedRuntimeSpec_frame:
  assumes "json_map t" "selectedRuntimeSpec fmt t sel = Inr r" "k \<notin> set (overridable t)"
  shows "map_of r k = map_of t k"
proof -
  obtain r1 r2 r3 r4 where s: "select_compute t sel = Inr r1" "select_volume fmt r1 sel = Inr r2"
    "select_command r2 sel = Inr r3" "select_environment r3 sel = Inr r4" "select_dependencies r4 sel = Inr r"
    and e: "editableRuntimeOption r1 = editableRuntimeOption t" "editableRuntimeOption r2 = editableRuntimeOption t"
    "editableRuntimeOption r3 = editableRuntimeOption t" "editableRuntimeOption r4 = editableRuntimeOption t"
    using assms(1,2) by (rule selectedRuntimeSpec_steps)
  have "map_of r1 k = map_of t k" using assms(3) by (intro compute.frame [OF s(1)]) (auto simp: overridable_def)
  moreover have "map_of r2 k = map_of r1 k" using assms(3) by (intro volume.frame [OF s(2)]) (auto simp: e overridable_def)
  moreover have "map_of r3 k = map_of r2 k" using assms(3) by (intro command.frame [OF s(3)]) (auto simp: e overridable_def)
  moreover have "map_of r4 k = map_of r3 k" using assms(3) by (intro environment.frame [OF s(4)]) (auto simp: e overridable_def)
  moreover have "map_of r k = map_of r4 k" using assms(3) by (intro dependencies.frame [OF s(5)]) (auto simp: e overridable_def)
  ultimately show ?thesis by simp
qed

lemma env_overlay_frame: "env_overlay allowed e chosen = Inr e' \<Longrightarrow> k \<notin> set allowed \<Longrightarrow> map_of e' k = map_of e k"
  by (induction allowed e chosen rule: env_overlay.induct) (auto split: if_split_asm)

lemma spec_env_cong: "map_of r ''env'' = map_of t ''env'' \<Longrightarrow> spec_env r = spec_env t"
  by (simp add: spec_env_def mget_def)

lemma select_environment_keys:
  assumes "select_environment t sel = Inr r" "k \<notin> set (editable_env_keys t)"
  shows "map_of (spec_env r) k = map_of (spec_env t) k"
proof (cases "sr_Environment sel")
  case None
  then show ?thesis using assms by (simp add: select_environment_def)
next
  case (Some chosen)
  then obtain e where "env_overlay (editable_env_keys t) (spec_env t) chosen = Inr e" "r = mput ''env'' (VObj e) t"
    using assms(1) by (auto simp: select_environment_def split: if_split_asm)
  then show ?thesis using env_overlay_frame assms(2) by (simp add: spec_env_def [of "mput _ _ _"])
qed

abbreviation mount_targets :: "gomap \<Rightarrow> (string \<times> string) list" where
  "mount_targets spec \<equiv> map (\<lambda>m. (vm_key m, vm_mountPath m)) (VolumeMounts spec)"

lemma mount_targets_cong: "map_of r ''volumes'' = map_of t ''volumes'' \<Longrightarrow> mount_targets r = mount_targets t"
  by (simp add: VolumeMounts_def mget_def)

lemma apply_volume_targets: "mount_targets (apply_volume v t) = mount_targets t"
proof (cases "mget t ''volumes''")
  case (VArr vs)
  have "mount_targets (mput ''volumes'' (VArr (map (set_volume_size v) us)) s) = mount_targets (mput ''volumes'' (VArr us) s)" for us s
  proof (induction us)
    case (Cons u us)
    then show ?case by (cases u) (simp_all add: VolumeMounts_def set_volume_size_def Let_def)
  qed (simp add: VolumeMounts_def)
  from this [of vs t] VArr show ?thesis by (auto simp: apply_volume_def VolumeMounts_def)
qed (simp_all add: apply_volume_def VolumeMounts_def)

text \<open>C23: A runtime specification assembled from a product version and a tenant's request differs from the
  version only in what the version declares editable: every other key has the version's value (the
  system disk apart, which is always the platform's default), environment variables outside
  \<^verbatim>\<open>editableEnvKeys\<close> keep their values, and the volumes keep their names, paths and order.  The result
  passes the validation.\<close>

theorem selection_only_editable:
  assumes "json_map template" "selectedRuntimeSpec fmt template sel = Inr r"
  shows "ValidateRuntimeSpec r = Inr () \<and>
    (\<forall>k. k \<notin> set (overridable template) \<longrightarrow> map_of r k = map_of template k) \<and>
    (\<forall>k. k \<notin> set (editable_env_keys template) \<longrightarrow> map_of (spec_env r) k = map_of (spec_env template) k) \<and>
    mount_targets r = mount_targets template"
proof -
  obtain r1 r2 r3 r4 where s: "select_compute template sel = Inr r1" "select_volume fmt r1 sel = Inr r2"
    "select_command r2 sel = Inr r3" "select_environment r3 sel = Inr r4" "select_dependencies r4 sel = Inr r"
    and valid: "ValidateRuntimeSpec r = Inr ()"
    using assms by (rule selectedRuntimeSpec_steps)
  have env: "map_of r3 k = map_of template k" if "k \<in> {''env'', ''editableEnvKeys''}" for k
    using that compute.frame [OF s(1), of k] volume.frame [OF s(2), of k] command.frame [OF s(3), of k]
    by auto
  have "map_of (spec_env r) k = map_of (spec_env template) k" if "k \<notin> set (editable_env_keys template)" for k
  proof -
    have "spec_env r = spec_env r4" using dependencies.frame [OF s(5), of "''env''"] by (intro spec_env_cong) simp
    moreover have "spec_env r3 = spec_env template" using env by (intro spec_env_cong) simp
    moreover have "editable_env_keys r3 = editable_env_keys template"
      using env by (intro editable_env_keys_cong map_of_mget_eq) simp
    ultimately show ?thesis using select_environment_keys [OF s(4), of k] that by simp
  qed
  moreover have "mount_targets r = mount_targets template"
  proof -
    have "mount_targets r = mount_targets r2"
      using command.frame [OF s(3), of "''volumes''"] environment.frame [OF s(4), of "''volumes''"]
        dependencies.frame [OF s(5), of "''volumes''"] by (intro mount_targets_cong) simp
    also have "\<dots> = mount_targets r1" using s(2) by (elim select_volume_Inr) (simp add: apply_volume_targets)
    also have "\<dots> = mount_targets template" using compute.frame [OF s(1)] by (intro mount_targets_cong) simp
    finally show ?thesis .
  qed
  ultimately show ?thesis using valid selectedRuntimeSpec_frame [OF assms] by blast
qed

section \<open>A selection meets the minimum of its template\<close>

text \<open>The shared quota as a function of the two keys it depends on.\<close>

definition vol_values :: "gomap \<Rightarrow> goval list" where
  "vol_values spec = (case as_arr (mget spec ''volumes'') of Some vs \<Rightarrow> vs | None \<Rightarrow> [])"

definition vol_declared :: "gomap \<Rightarrow> gofloat option" where
  "vol_declared spec = (if vol_values spec = [] then None else numeric (mget spec ''dataVolumeGiB''))"

definition volume_quota :: "gomap \<Rightarrow> gofloat result" where
  "volume_quota spec = storage_loop False (vol_declared spec \<noteq> None)
     (case vol_declared spec of Some f \<Rightarrow> f | None \<Rightarrow> Fin 0) (vol_values spec)"

lemma storage_loop_optional: "storage_loop req dok d vs = Inr q \<Longrightarrow> storage_loop False dok d vs = Inr q"
  by (induction vs arbitrary: d) (auto simp del: storage_loop.simps(2) simp: storage_loop_step)

lemma data_volume_loop:
  assumes "RuntimeDataVolumeGiB spec req = Inr q"
  shows "storage_loop req (vol_declared spec \<noteq> None) (case vol_declared spec of Some f \<Rightarrow> f | None \<Rightarrow> Fin 0) (vol_values spec) = Inr q \<and>
    (vol_declared spec \<noteq> None \<longrightarrow> \<not> out_of_range MinVolumeGiB MaxVolumeGiB q)"
  using assms unfolding RuntimeDataVolumeGiB_def RuntimeStorage_def Let_def
    vol_values_def [symmetric] vol_declared_def [symmetric]
  by (cases "vol_declared spec") (auto split: if_split_asm)

lemma quota_of_data_volume: "RuntimeDataVolumeGiB spec req = Inr q \<Longrightarrow> volume_quota spec = Inr q"
  unfolding volume_quota_def by (blast dest: data_volume_loop intro: storage_loop_optional)

lemma data_volume_values:
  assumes "RuntimeDataVolumeGiB spec req = Inr q"
  shows "q = Fin 0 \<or> \<not> out_of_range MinVolumeGiB MaxVolumeGiB q"
proof (cases "vol_declared spec")
  case None
  with data_volume_loop [OF assms] have loop: "storage_loop req False (Fin 0) (vol_values spec) = Inr q" by simp
  obtain es where es: "vol_values spec = map VObj es" "\<forall>e \<in> set es. \<not> out_of_range MinVolumeGiB MaxVolumeGiB (entry_size e)"
    using storage_loop_entries [OF loop] by blast
  have "q = (if es = [] then Fin 0 else entry_size (last es))"
    using storage_loop_legacy [of req "Fin 0" es q] loop es(1) by simp
  then show ?thesis using es(2) by auto
qed (use data_volume_loop [OF assms] in simp)

lemma set_size_loop: "storage_loop req True v (map (set_volume_size v) vs) = Inr q \<Longrightarrow> q = v"
proof (induction vs)
  case (Cons u vs)
  then obtain e where u: "set_volume_size v u = VObj e"
    and rest: "storage_loop req True (if entry_size e > v then entry_size e else v) (map (set_volume_size v) vs) = Inr q"
    unfolding list.map storage_loop_step by auto
  from u have "entry_size e = v" by (cases u) (auto simp: set_volume_size_def entry_size_def)
  then show ?case using Cons.IH rest by (simp split: if_split_asm)
qed simp

lemma apply_volume_quota:
  assumes "volume_quota (apply_volume v t) = Inr q"
  shows "if vol_values t = [] then q = Fin 0 \<and> volume_quota t = Inr (Fin 0) else q = v"
proof (cases "\<exists>vs. mget t ''volumes'' = VArr vs \<and> vs \<noteq> []")
  case True
  then obtain vs where vs: "mget t ''volumes'' = VArr vs" "vs \<noteq> []" by blast
  then have "storage_loop False True v (map (set_volume_size v) vs) = Inr q"
    using assms by (simp add: volume_quota_def apply_volume_def vol_values_def vol_declared_def)
  then show ?thesis using set_size_loop vs by (simp add: vol_values_def)
next
  case False
  then show ?thesis using assms
    by (cases "mget t ''volumes''") (auto simp: volume_quota_def apply_volume_def vol_values_def vol_declared_def)
qed


lemma quota_cong:
  "mget r ''volumes'' = mget t ''volumes'' \<Longrightarrow> mget r ''dataVolumeGiB'' = mget t ''dataVolumeGiB'' \<Longrightarrow> volume_quota r = volume_quota t"
  by (simp add: volume_quota_def vol_declared_def vol_values_def)

lemma data_volume_default_disk:
  assumes "RuntimeDataVolumeGiB t req = Inr m" "mget r ''volumes'' = mget t ''volumes''"
    "mget r ''dataVolumeGiB'' = mget t ''dataVolumeGiB''" "mget r ''systemDiskGiB'' = VFloat (Fin 5)"
  shows "RuntimeDataVolumeGiB r req = Inr m"
proof -
  have "\<not> out_of_range MinSystemDiskGiB MaxSystemDiskGiB (Fin 5)"
    by (simp add: out_of_range_def const_defs isNaN_def isInf_def)
  with assms show ?thesis by (auto simp: RuntimeDataVolumeGiB_def RuntimeStorage_def Let_def split: if_split_asm)
qed

lemma chosen_volume_ge: "chosen_volume start sizes \<noteq> NaN \<Longrightarrow> start \<le> chosen_volume start sizes"
proof (induction sizes arbitrary: start)
  case (Cons kc sizes)
  obtain k c where kc: "kc = (k, c)" by (cases kc)
  let ?s = "if c > start then c else start"
  have step: "chosen_volume start (kc # sizes) = chosen_volume ?s sizes" by (simp add: chosen_volume_def kc)
  have "?s \<le> chosen_volume ?s sizes" using Cons step by simp
  moreover from this have "?s \<noteq> NaN" by (auto simp: less_eq_gofloat_def)
  then have "start \<le> ?s" by (cases start; cases c) (auto simp: less_eq_gofloat_def)
  ultimately show ?case unfolding step by (rule gofloat_le_trans [rotated])
qed (simp add: chosen_volume_def gofloat_refl)

lemma not_NaN_data_volume: "RuntimeDataVolumeGiB spec req = Inr q \<Longrightarrow> q \<noteq> NaN"
  using data_volume_values volume_in_range_not_NaN by fastforce

lemma selected_quota:
  assumes "json_map t" "selectedRuntimeSpec fmt t sel = Inr r" "RuntimeDataVolumeGiB t False = Inr m"
  obtains q where "RuntimeDataVolumeGiB r True = Inr q" "m \<le> q"
    "\<not> editableRuntimeOption t ''dataVolume'' False \<Longrightarrow> q = m"
    "\<And>d. vol_values t \<noteq> [] \<Longrightarrow> sr_DataVolumeGiB sel = Some d \<Longrightarrow> d \<le> q"
    "sr_DataVolumeGiB sel \<noteq> None \<Longrightarrow> editableRuntimeOption t ''dataVolume'' False"
proof -
  let ?E = "editableRuntimeOption t ''dataVolume'' False"
  obtain r1 r2 r3 r4 where s: "select_compute t sel = Inr r1" "select_volume fmt r1 sel = Inr r2"
    "select_command r2 sel = Inr r3" "select_environment r3 sel = Inr r4" "select_dependencies r4 sel = Inr r"
    and valid: "ValidateRuntimeSpec r = Inr ()" and e: "editableRuntimeOption r1 = editableRuntimeOption t"
    using assms(1,2) by (rule selectedRuntimeSpec_steps)
  have frame1: "mget r1 k = mget t k" if "k \<in> {''volumes'', ''dataVolumeGiB''}" for k
    using that compute.frame [OF s(1), of k] by (intro map_of_mget_eq) auto
  have frame2: "mget r k = mget r2 k" if "k \<in> {''volumes'', ''dataVolumeGiB''}" for k
    using that command.frame [OF s(3), of k] environment.frame [OF s(4), of k]
      dependencies.frame [OF s(5), of k] by (intro map_of_mget_eq) auto
  have "mget r1 ''systemDiskGiB'' = VFloat (Fin 5)" using s(1) by (elim select_compute_Inr) simp
  then have "RuntimeDataVolumeGiB r1 False = Inr m" using data_volume_default_disk [OF assms(3)] frame1 by simp
  then have r1: "volume_quota r1 = Inr m" "data_volume_or_zero r1 = m" "vol_values r1 = vol_values t"
    using quota_of_data_volume frame1 by (simp_all add: vol_values_def data_volume_or_zero_def)
  obtain q where q: "RuntimeDataVolumeGiB r True = Inr q"
    using valid by (elim validate_parts) (simp add: RuntimeDataVolumeGiB_def)
  have qr: "volume_quota r2 = Inr q" using quota_of_data_volume [OF q] quota_cong [of r r2] frame2 by simp
  obtain v start where v: "r2 = (if ?E then apply_volume v r1 else r1)" "\<not> v < m"
    "v = chosen_volume start (sr_VolumeSizes sel)"
    "sr_DataVolumeGiB sel = None \<and> start = m \<or> ?E \<and> sr_DataVolumeGiB sel = Some start"
    using s(2) by (elim select_volume_Inr) (auto simp: e r1)
  note nn = not_NaN_data_volume [OF q] not_NaN_data_volume [OF assms(3)]
  have qm: "q = m" if "\<not> ?E" using that v(1) qr r1(1) by simp
  have qv: "q = v" if "?E" "vol_values t \<noteq> []" using apply_volume_quota [of v r1 q] that v(1) qr r1 by simp
  have "m \<le> q"
  proof (cases "?E \<and> vol_values t \<noteq> []")
    case True
    then show ?thesis using qv v(2) nn gofloat_not_less by auto
  next
    case False
    then have "q = m" using qm apply_volume_quota [of v r1 q] v(1) qr r1 by (cases ?E) auto
    then show ?thesis using nn by (simp add: gofloat_refl)
  qed
  moreover have "d \<le> q" if "vol_values t \<noteq> []" "sr_DataVolumeGiB sel = Some d" for d
    using that v(3,4) qv nn chosen_volume_ge [of start "sr_VolumeSizes sel"] by auto
  ultimately show ?thesis using that q qm v(4) by auto
qed


lemma selected_compute:
  assumes "json_map t" "selectedRuntimeSpec fmt t sel = Inr r"
  obtains minimum res where "RuntimeResources t True = Inr minimum" "RuntimeResources r True = Inr res"
    "CPUCores minimum \<le> CPUCores res" "MemoryMiB minimum \<le> MemoryMiB res"
    "CPUCores res = (case sr_CPUCores sel of Some v \<Rightarrow> v | None \<Rightarrow> CPUCores minimum)"
    "MemoryMiB res = (case sr_MemoryMiB sel of Some v \<Rightarrow> v | None \<Rightarrow> MemoryMiB minimum)"
proof -
  obtain r1 r2 r3 r4 where s: "select_compute t sel = Inr r1" "select_volume fmt r1 sel = Inr r2"
    "select_command r2 sel = Inr r3" "select_environment r3 sel = Inr r4" "select_dependencies r4 sel = Inr r"
    and valid: "ValidateRuntimeSpec r = Inr ()"
    using assms by (rule selectedRuntimeSpec_steps)
  obtain minimum cpu memory where m: "RuntimeResources t True = Inr minimum"
    "r1 = mput ''systemDiskGiB'' (VFloat (Fin 5)) (mput ''memoryMiB'' (VFloat memory) (mput ''cpuCores'' (VFloat cpu) t))"
    "\<not> cpu < CPUCores minimum" "\<not> memory < MemoryMiB minimum"
    "sr_CPUCores sel = None \<and> cpu = CPUCores minimum \<or> editableRuntimeOption t ''cpu'' True \<and> sr_CPUCores sel = Some cpu"
    "sr_MemoryMiB sel = None \<and> memory = MemoryMiB minimum \<or> editableRuntimeOption t ''memory'' True \<and> sr_MemoryMiB sel = Some memory"
    using s(1) by (rule select_compute_Inr)
  have frame: "mget r k = mget r1 k" if "k \<in> {''cpuCores'', ''memoryMiB''}" for k
    using that volume.frame [OF s(2), of k] command.frame [OF s(3), of k]
      environment.frame [OF s(4), of k] dependencies.frame [OF s(5), of k]
    by (intro map_of_mget_eq) auto
  obtain res where res: "RuntimeResources r True = Inr res" using valid by (rule validate_parts)
  have eq: "CPUCores res = cpu" "MemoryMiB res = memory"
    using RuntimeResources_required [OF res] frame m(2) by simp_all
  have nn: "CPUCores res \<noteq> NaN" "MemoryMiB res \<noteq> NaN" "CPUCores minimum \<noteq> NaN" "MemoryMiB minimum \<noteq> NaN"
    using RuntimeResources_range [OF res] RuntimeResources_range [OF m(1)] by (auto simp: out_of_range_def isNaN_def)
  have "CPUCores minimum \<le> CPUCores res" "MemoryMiB minimum \<le> MemoryMiB res"
    using gofloat_not_less nn m(3,4) unfolding eq [symmetric] by blast+
  then show ?thesis using m(5,6) by (intro that [OF m(1) res]) (auto simp: eq)
qed

text \<open>The result of a selection reserves at least the CPU, memory and data volume of the product version;
  a requested CPU or memory value is taken over exactly and an omitted one is the version's.\<close>

theorem selection_meets_minimum:
  assumes "json_map template" "selectedRuntimeSpec fmt template sel = Inr r"
    and "RuntimeDataVolumeGiB template False = Inr volume"
  shows "\<exists>minimum res quota. RuntimeResources template True = Inr minimum \<and> RuntimeResources r True = Inr res \<and>
    RuntimeDataVolumeGiB r True = Inr quota \<and>
    CPUCores minimum \<le> CPUCores res \<and> MemoryMiB minimum \<le> MemoryMiB res \<and> volume \<le> quota \<and>
    CPUCores res = (case sr_CPUCores sel of Some v \<Rightarrow> v | None \<Rightarrow> CPUCores minimum) \<and>
    MemoryMiB res = (case sr_MemoryMiB sel of Some v \<Rightarrow> v | None \<Rightarrow> MemoryMiB minimum)"
proof -
  obtain q where "RuntimeDataVolumeGiB r True = Inr q" "volume \<le> q" using assms by (rule selected_quota)
  moreover obtain minimum res where "RuntimeResources template True = Inr minimum" "RuntimeResources r True = Inr res"
    "CPUCores minimum \<le> CPUCores res" "MemoryMiB minimum \<le> MemoryMiB res"
    "CPUCores res = (case sr_CPUCores sel of Some v \<Rightarrow> v | None \<Rightarrow> CPUCores minimum)"
    "MemoryMiB res = (case sr_MemoryMiB sel of Some v \<Rightarrow> v | None \<Rightarrow> MemoryMiB minimum)"
    using assms(1,2) by (rule selected_compute)
  ultimately show ?thesis
    by (intro exI [of _ minimum] exI [of _ res] exI [of _ q]) simp
qed

section \<open>Updates\<close>

lemma math_max_ge: "x \<noteq> NaN \<Longrightarrow> y \<noteq> NaN \<Longrightarrow> x \<le> math_max x y \<and> y \<le> math_max x y"
  by (cases x; cases y) (auto simp: math_max_def less_eq_gofloat_def)

lemma keep_simps [simp]:
  "sr_DataVolumeGiB (keep_compute t c m sel) = sr_DataVolumeGiB sel"
  "sr_VolumeSizes (keep_compute t c m sel) = sr_VolumeSizes sel"
  "sr_DataVolumeGiB (keep_environment t c sel) = sr_DataVolumeGiB sel"
  "sr_CPUCores (keep_environment t c sel) = sr_CPUCores sel"
  "sr_MemoryMiB (keep_environment t c sel) = sr_MemoryMiB sel"
  "sr_Command (keep_environment t c sel) = sr_Command sel"
  by (simp_all add: keep_compute_def keep_environment_def Let_def split: sum.splits)

lemma keep_command_Inr:
  "keep_command t c sel = Inr sel' \<Longrightarrow> \<exists>x. sel' = sel\<lparr>sr_Command := x\<rparr> \<and> (sr_Command sel \<noteq> None \<longrightarrow> x = sr_Command sel)"
  by (cases sel) (auto simp: keep_command_def split: if_split_asm)

lemma keep_dependencies_Inr:
  "keep_dependencies t c sel = Inr sel' \<Longrightarrow> \<exists>x. sel' = sel\<lparr>sr_Dependencies := x\<rparr>"
  by (cases sel) (auto simp: keep_dependencies_def split: if_split_asm)

lemma keep_volume_Inr:
  assumes "keep_volume fmt t c sel = Inr sel'"
  obtains cap m where "RuntimeDataVolumeGiB c False = Inr cap" "RuntimeDataVolumeGiB t False = Inr m"
    "\<exists>d. sel' = sel\<lparr>sr_DataVolumeGiB := d\<rparr>"
    "cap > Fin 0 \<Longrightarrow> VolumeMounts t \<noteq> []"
    "\<not> editableRuntimeOption t ''dataVolume'' True \<Longrightarrow> \<not> cap > m"
    "VolumeMounts t \<noteq> [] \<Longrightarrow> editableRuntimeOption t ''dataVolume'' True \<Longrightarrow>
     (case sr_DataVolumeGiB sel' of None \<Rightarrow> \<not> math_max cap m > Fin 0
      | Some d \<Rightarrow> (sr_DataVolumeGiB sel = Some d \<and> \<not> (cap > Fin 0 \<and> d < cap)) \<or> d = math_max cap m)"
proof -
  obtain cap m where q: "RuntimeDataVolumeGiB c False = Inr cap" "RuntimeDataVolumeGiB t False = Inr m"
    using assms by (auto simp: keep_volume_def Let_def)
  show ?thesis
    by (rule that [OF q]; cases sel; use assms q in \<open>auto simp: keep_volume_def Let_def split: if_split_asm option.splits\<close>)
qed

lemma runtimeSpecForUpdate_steps:
  assumes "runtimeSpecForUpdate fmt t c req = Inr r"
  obtains minimum sel0 sel1 sel where "RuntimeResources t True = Inr minimum"
    "sel0 = keep_compute t c minimum (case req of Some sel \<Rightarrow> sel | None \<Rightarrow> no_selection)"
    "keep_volume fmt t c sel0 = Inr sel1"
    "sr_DataVolumeGiB sel = sr_DataVolumeGiB sel1" "sr_CPUCores sel = sr_CPUCores sel0" "sr_MemoryMiB sel = sr_MemoryMiB sel0"
    "selectedRuntimeSpec fmt t sel = Inr r"
proof -
  obtain minimum sel1 sel2 sel where s: "RuntimeResources t True = Inr minimum"
    "keep_volume fmt t c (keep_compute t c minimum (case req of Some sel \<Rightarrow> sel | None \<Rightarrow> no_selection)) = Inr sel1"
    "keep_command t c sel1 = Inr sel2" "keep_dependencies t c (keep_environment t c sel2) = Inr sel"
    "selectedRuntimeSpec fmt t sel = Inr r"
    using assms unfolding runtimeSpecForUpdate_def Let_def by blast
  obtain d where "sel1 = (keep_compute t c minimum (case req of Some sel \<Rightarrow> sel | None \<Rightarrow> no_selection))\<lparr>sr_DataVolumeGiB := d\<rparr>"
    using s(2) by (elim keep_volume_Inr) blast
  then show ?thesis using that [OF s(1) refl s(2) _ _ _ s(5)] keep_command_Inr [OF s(3)] keep_dependencies_Inr [OF s(4)]
    by auto
qed


lemma keep_volume_capacity:
  assumes "keep_volume fmt t c sel = Inr sel'"
  obtains cap m where "RuntimeDataVolumeGiB c False = Inr cap" "RuntimeDataVolumeGiB t False = Inr m"
    "cap \<le> m \<or> VolumeMounts t \<noteq> [] \<and> (\<exists>d. sr_DataVolumeGiB sel' = Some d \<and> (d \<noteq> NaN \<longrightarrow> cap \<le> d))"
proof -
  obtain cap m where q: "RuntimeDataVolumeGiB c False = Inr cap" "RuntimeDataVolumeGiB t False = Inr m"
    and pos: "cap > Fin 0 \<longrightarrow> VolumeMounts t \<noteq> []"
    and fixed: "\<not> editableRuntimeOption t ''dataVolume'' True \<longrightarrow> \<not> cap > m"
    and chosen: "VolumeMounts t \<noteq> [] \<and> editableRuntimeOption t ''dataVolume'' True \<longrightarrow>
     (case sr_DataVolumeGiB sel' of None \<Rightarrow> \<not> math_max cap m > Fin 0
      | Some d \<Rightarrow> (sr_DataVolumeGiB sel = Some d \<and> \<not> (cap > Fin 0 \<and> d < cap)) \<or> d = math_max cap m)"
    using assms by (elim keep_volume_Inr) blast
  note nn = not_NaN_data_volume [OF q(1)] not_NaN_data_volume [OF q(2)]
  have mx: "cap \<le> math_max cap m" using math_max_ge [OF nn] ..
  consider "\<not> cap > Fin 0" | "cap > Fin 0" "editableRuntimeOption t ''dataVolume'' True"
    | "\<not> editableRuntimeOption t ''dataVolume'' True" by blast
  then show ?thesis
  proof cases
    case 1
    then have "cap = Fin 0" using data_volume_values [OF q(1)] by (auto simp: in_range_Fin const_defs)
    then have "cap \<le> m" using data_volume_values [OF q(2)] by (auto simp: in_range_Fin const_defs)
    then show ?thesis using that q by blast
  next
    case 2
    then have "math_max cap m > Fin 0" using mx by (cases cap; cases "math_max cap m") (auto simp: less_eq_gofloat_def)
    with 2 pos chosen obtain d where "sr_DataVolumeGiB sel' = Some d" "\<not> d < cap \<or> d = math_max cap m"
      by (auto split: option.splits)
    then show ?thesis using that [OF q] pos 2(1) mx nn(1) gofloat_not_less by blast
  next
    case 3
    then have "cap \<le> m" using fixed by (intro gofloat_not_less nn) blast
    then show ?thesis using that q by blast
  qed
qed


lemma declared_volume_positive:
  assumes "RuntimeDataVolumeGiB t req = Inr m" "vol_values t \<noteq> []"
  shows "Fin 0 < m"
proof (cases "vol_declared t")
  case None
  with data_volume_loop [OF assms(1)] have loop: "storage_loop req False (Fin 0) (vol_values t) = Inr m" by simp
  obtain es where es: "vol_values t = map VObj es" "\<forall>e \<in> set es. \<not> out_of_range MinVolumeGiB MaxVolumeGiB (entry_size e)"
    using storage_loop_entries [OF loop] by blast
  then have "m = entry_size (last es)" "es \<noteq> []"
    using storage_loop_legacy [of req "Fin 0" es m] loop assms(2) by auto
  then have "\<not> out_of_range (Fin 1) (Fin 16384) m" using es(2) by (simp add: const_defs)
  then show ?thesis by (auto simp: in_range_Fin)
next
  case (Some d)
  then have "\<not> out_of_range (Fin 1) (Fin 16384) m" using data_volume_loop [OF assms(1)] by (simp add: const_defs)
  then show ?thesis by (auto simp: in_range_Fin)
qed

text \<open>C25: A product version without \<^verbatim>\<open>editableOptions\<close> that declares a volume can never be the target of an
  update: \<^verbatim>\<open>runtimeSpecForUpdate\<close> treats the volume as editable and fills in a capacity, which
  \<^verbatim>\<open>selectedRuntimeSpec\<close>, where the same option defaults to fixed, then refuses.\<close>

theorem legacy_volume_update_refused:
  assumes "json_map template" "as_obj (mget template ''editableOptions'') = None" "VolumeMounts template \<noteq> []"
  shows "\<not> ok (runtimeSpecForUpdate fmt template current requested)"
proof
  assume "ok (runtimeSpecForUpdate fmt template current requested)"
  then obtain r where "runtimeSpecForUpdate fmt template current requested = Inr r" by (auto simp: ok_iff)
  then obtain sel0 sel1 sel where s: "keep_volume fmt template current sel0 = Inr sel1"
    "sr_DataVolumeGiB sel = sr_DataVolumeGiB sel1" "selectedRuntimeSpec fmt template sel = Inr r"
    by (rule runtimeSpecForUpdate_steps)
  have ed: "editableRuntimeOption template ''dataVolume'' b = b" for b using assms(2) by (simp add: editableRuntimeOption_def)
  obtain old m where q: "RuntimeDataVolumeGiB current False = Inr old" "RuntimeDataVolumeGiB template False = Inr m"
    and chosen: "sr_DataVolumeGiB sel1 = None \<longrightarrow> \<not> math_max old m > Fin 0"
    using s(1) assms(3) ed by (elim keep_volume_Inr) (auto split: option.splits)
  have "vol_values template \<noteq> []" using assms(3) by (auto simp: VolumeMounts_def vol_values_def split: option.splits)
  then have "Fin 0 < m" using q(2) declared_volume_positive by blast
  moreover have "m \<le> math_max old m" using math_max_ge not_NaN_data_volume q by blast
  ultimately have "Fin 0 < math_max old m" by (cases m; cases "math_max old m") (auto simp: less_eq_gofloat_def)
  then have "sr_DataVolumeGiB sel \<noteq> None" using chosen s(2) by auto
  then show False using selected_quota [OF assms(1) s(3) q(2)] ed by blast
qed


section \<open>A route selection keeps the published listeners\<close>

definition listener_within :: "routeListener \<Rightarrow> routeListener \<Rightarrow> bool" where
  "listener_within l l' = (li_Key l' = li_Key l \<and> li_Remark l' = li_Remark l \<and> li_Primary l' = li_Primary l \<and>
     li_UserEditable l' = li_UserEditable l \<and> li_MappingAvailable l' = li_MappingAvailable l \<and>
     (li_UserEditable l \<or> li_ContainerPort l' = li_ContainerPort l))"

lemma apply_choice_within: "apply_choice c l = Inr l' \<Longrightarrow> listener_within l l' \<and> port_in_range (li_ContainerPort l')"
  by (auto simp: apply_choice_def listener_within_def split: if_split_asm)

lemma select_listeners_within:
  "select_listeners mapping requested ls = Inr (requested', ls') \<Longrightarrow>
   list_all2 (\<lambda>l l'. listener_within l l' \<and> (l' = l \<or> port_in_range (li_ContainerPort l'))) ls ls'"
proof (induction ls arbitrary: requested ls')
  case (Cons l ls)
  show ?case
  proof (cases "listener_choice requested mapping l")
    case None
    with Cons show ?thesis by (auto simp: listener_within_def)
  next
    case (Some c)
    with Cons show ?thesis by (fastforce dest: apply_choice_within)
  qed
qed simp

lemma selected_ports:
  "list_all2 (\<lambda>l l'. P l l' \<and> (l' = l \<or> port_in_range (li_ContainerPort l'))) ls ls' \<Longrightarrow>
   \<forall>l \<in> set ls. port_in_range (li_ContainerPort l) \<Longrightarrow> \<forall>l \<in> set ls'. port_in_range (li_ContainerPort l)"
  by (induction rule: list_all2_induct) auto

lemma listeners_loop_decode:
  "listeners_loop acc (encodeRouteListeners ls) = Inr x \<Longrightarrow> \<forall>l \<in> set ls. port_in_range (li_ContainerPort l) \<Longrightarrow> x = acc @ ls"
proof (induction ls arbitrary: acc)
  case (Cons l ls)
  have "listeners_loop (acc @ [l]) (encodeRouteListeners ls) = Inr x"
    using Cons.prems
    by (cases l) (auto simp: encodeRouteListeners_def encodeRouteListener_def mget_def Let_def split: if_split_asm)
  then show ?case using Cons.IH [of "acc @ [l]"] Cons.prems(2) by simp
qed (simp add: encodeRouteListeners_def)

lemma routeListeners_decode:
  assumes "routeListeners spec = Inr x" "mget spec ''listeners'' = VArr (encodeRouteListeners ls)" "ls \<noteq> []"
    "\<forall>l \<in> set ls. port_in_range (li_ContainerPort l)"
  shows "x = ls"
proof -
  have "encodeRouteListeners ls \<noteq> []" using assms(3) by (simp add: encodeRouteListeners_def)
  then have "listeners_loop [] (encodeRouteListeners ls) = Inr x"
    using assms(1,2) by (auto simp: routeListeners_def Let_def split: if_split_asm)
  then show ?thesis using listeners_loop_decode [of "[]" ls x] assms(4) by simp
qed

lemma normalized_listeners:
  assumes "routeListeners spec = Inr ls" "normalizeRouteSpec spec = Inr r"
  shows "routeListeners r = Inr ls"
proof -
  have "map_of r ''listeners'' = Some (VArr (encodeRouteListeners ls))"
    using assms by (auto simp: normalizeRouteSpec_def Let_def dest!: normalizedBoolean_Inr portMapping_Inr)
  then show ?thesis using routeListeners_ok [OF assms(1)] by (simp add: routeListeners_encode mget_def)
qed

text \<open>C26: The route of a release has exactly the listeners of its product version, in their order: keys,
  remarks, the primary flag and the permissions are the version's, and so is the port unless the
  version lets the tenant edit it.  The listeners of the result are well formed, and its
  \<^verbatim>\<open>containerPort\<close> is the port of the primary listener.\<close>

theorem route_selection_within_template:
  assumes "json_map template" "selectedRouteSpec template sel = Inr r"
  shows "\<exists>ls ls' l. routeListeners template = Inr ls \<and> routeListeners r = Inr ls' \<and> list_all2 listener_within ls ls' \<and>
    listeners_ok ls' \<and> filter li_Primary ls' = [l] \<and> mget r ''containerPort'' = VFloat (Fin (of_int (li_ContainerPort l)))"
proof -
  obtain n listeners requested req' ls' x where n: "normalizeRouteSpec template = Inr n" "routeListeners n = Inr listeners"
    and sel: "select_listeners (sr_PortMappingEnabled sel) requested listeners = Inr (req', ls')"
    and x: "routeListeners (mput ''listeners'' (VArr (encodeRouteListeners ls')) n) = Inr x"
    and r: "r = (case find li_Primary ls' of None \<Rightarrow> mput ''listeners'' (VArr (encodeRouteListeners ls')) n
         | Some l \<Rightarrow> mput ''containerPort'' (VFloat (Fin (of_int (li_ContainerPort l))))
             (mput ''listeners'' (VArr (encodeRouteListeners ls')) n))"
    using assms by (auto simp: selectedRouteSpec_def Let_def split: if_split_asm)
  obtain ls where ls: "routeListeners template = Inr ls" using n(1) by (auto simp: normalizeRouteSpec_def)
  then have "listeners = ls" using normalized_listeners [OF ls n(1)] n(2) by simp
  note ok = routeListeners_ok [OF ls]
  have within: "list_all2 (\<lambda>l l'. listener_within l l' \<and> (l' = l \<or> port_in_range (li_ContainerPort l'))) ls ls'"
    using select_listeners_within [OF sel] \<open>listeners = ls\<close> by simp
  have ports: "\<forall>l \<in> set ls'. port_in_range (li_ContainerPort l)"
    using selected_ports [OF within] ok by (auto simp: listeners_ok_def list_all_iff listener_ok_def)
  have "ls' \<noteq> []" using within ok by (auto simp: listeners_ok_def)
  then have "x = ls'" using routeListeners_decode [OF x _ _ ports] by simp
  then have ok': "listeners_ok ls'" using routeListeners_ok [OF x] by simp
  then obtain l where l: "filter li_Primary ls' = [l]" by (auto simp: listeners_ok_def length_Suc_conv)
  have "find li_Primary ls' = Some l"
    using l by (induction ls') (auto split: if_split_asm)
  then have r': "mget r ''containerPort'' = VFloat (Fin (of_int (li_ContainerPort l)))"
    "mget r ''listeners'' = VArr (encodeRouteListeners ls')" by (simp_all add: r)
  have "list_all2 listener_within ls ls'" using within by (rule list_all2_mono) simp
  then show ?thesis using ls routeListeners_encode [OF ok' r'(2)] ok' l r'(1) by blast
qed


section \<open>An update keeps what the tenant chose\<close>

lemma env_overlay_lookup:
  "env_overlay allowed e chosen = Inr e' \<Longrightarrow> distinct (map fst chosen) \<Longrightarrow>
   map_of e' k = (case map_of chosen k of Some v \<Rightarrow> Some (VStr v) | None \<Rightarrow> map_of e k)"
proof (induction allowed e chosen rule: env_overlay.induct)
  case (2 allowed e key v rest)
  then have "map_of e' k = (case map_of rest k of Some v \<Rightarrow> Some (VStr v) | None \<Rightarrow> map_of (mput key (VStr v) e) k)"
    by (simp split: if_split_asm)
  moreover have "map_of rest key = None" using "2.prems"(2) by (simp add: map_of_eq_None_iff)
  ultimately show ?case by (auto split: option.split)
qed simp

lemma kept_fold:
  "map_of (fold (\<lambda>key m. case f key of Some v \<Rightarrow> AList.update key v m | None \<Rightarrow> m) keys m) k =
     (if k \<in> set keys \<and> f k \<noteq> None then f k else map_of m k)"
  by (induction keys arbitrary: m) (auto simp: update_conv' split: option.split)

lemma kept_fold_distinct:
  "distinct (map fst m) \<Longrightarrow>
   distinct (map fst (fold (\<lambda>key m. case f key of Some v \<Rightarrow> AList.update key v m | None \<Rightarrow> m) keys m))"
  by (induction keys arbitrary: m) (auto simp: distinct_update split: option.split)

lemma keep_compute_Inr:
  assumes "RuntimeResources current False = Inr old"
  shows "sr_CPUCores (keep_compute t current m no_selection) =
      (if editableRuntimeOption t ''cpu'' True then Some (math_max (CPUCores old) (CPUCores m)) else None)"
    "sr_MemoryMiB (keep_compute t current m no_selection) =
      (if editableRuntimeOption t ''memory'' True then Some (math_max (MemoryMiB old) (MemoryMiB m)) else None)"
    "sr_Command (keep_compute t current m no_selection) = None"
    "sr_Environment (keep_compute t current m no_selection) = None"
  using assms by (simp_all add: keep_compute_def Let_def no_selection_def)

lemma unrequested_update_steps:
  assumes "runtimeSpecForUpdate fmt t c None = Inr r" "RuntimeResources c False = Inr old"
  obtains minimum sel where "RuntimeResources t True = Inr minimum" "selectedRuntimeSpec fmt t sel = Inr r"
    "sr_CPUCores sel = (if editableRuntimeOption t ''cpu'' True then Some (math_max (CPUCores old) (CPUCores minimum)) else None)"
    "sr_MemoryMiB sel = (if editableRuntimeOption t ''memory'' True then Some (math_max (MemoryMiB old) (MemoryMiB minimum)) else None)"
    "editableRuntimeOption t ''environment'' False \<and> editable_env_keys t \<noteq> [] \<longrightarrow>
       sr_Environment sel = Some (merged_environment t c (editable_env_keys t) [])"
    "\<forall>cmd. editableRuntimeOption t ''command'' False \<and> RuntimeCommand c = Inr cmd \<and> cmd \<noteq> [] \<longrightarrow> sr_Command sel = Some cmd"
proof -
  obtain minimum sel1 sel2 sel where s: "RuntimeResources t True = Inr minimum"
    "keep_volume fmt t c (keep_compute t c minimum no_selection) = Inr sel1"
    "keep_command t c sel1 = Inr sel2" "keep_dependencies t c (keep_environment t c sel2) = Inr sel"
    "selectedRuntimeSpec fmt t sel = Inr r"
    using assms(1) unfolding runtimeSpecForUpdate_def Let_def option.case by blast
  obtain d where sel1: "sel1 = (keep_compute t c minimum no_selection)\<lparr>sr_DataVolumeGiB := d\<rparr>"
    using s(2) by (elim keep_volume_Inr) blast
  obtain x where sel2: "sel2 = sel1\<lparr>sr_Command := x\<rparr>" using keep_command_Inr [OF s(3)] by blast
  obtain y where sel: "sel = (keep_environment t c sel2)\<lparr>sr_Dependencies := y\<rparr>" using keep_dependencies_Inr [OF s(4)] by blast
  have env: "sr_Environment sel2 = None" using keep_compute_Inr(4) [OF assms(2)] by (simp add: sel2 sel1)
  have "sr_Command sel1 = None" using keep_compute_Inr(3) [OF assms(2)] by (simp add: sel1)
  then have cmd: "\<forall>cmd. editableRuntimeOption t ''command'' False \<and> RuntimeCommand c = Inr cmd \<and> cmd \<noteq> [] \<longrightarrow> sr_Command sel2 = Some cmd"
    using s(3) by (auto simp: keep_command_def)
  show ?thesis
    by (rule that [OF s(1,5)])
      (use cmd env keep_compute_Inr [OF assms(2)] in \<open>simp_all add: sel sel2 sel1 keep_environment_def Let_def\<close>)
qed

lemma selected_overlays:
  assumes "json_map t" "selectedRuntimeSpec fmt t sel = Inr r"
  shows "sr_Command sel = Some cmd \<Longrightarrow> mget r ''command'' = VStrs cmd"
    and "sr_Environment sel = Some chosen \<Longrightarrow> distinct (map fst chosen) \<Longrightarrow> map_of chosen k = Some v \<Longrightarrow>
      map_of (spec_env r) k = Some (VStr v)"
proof -
  obtain r1 r2 r3 r4 where s: "select_command r2 sel = Inr r3" "select_environment r3 sel = Inr r4" "select_dependencies r4 sel = Inr r"
    using assms by (rule selectedRuntimeSpec_steps)
  have frame: "map_of r k = map_of r4 k" if "k \<noteq> ''dependencies''" for k
    using that dependencies.frame [OF s(3), of k] by auto
  show "mget r ''command'' = VStrs cmd" if "sr_Command sel = Some cmd"
  proof -
    have "map_of r3 ''command'' = Some (VStrs cmd)" using s(1) that by (auto simp: select_command_def split: if_split_asm)
    then have "map_of r ''command'' = Some (VStrs cmd)"
      using frame [of "''command''"] environment.frame [OF s(2), of "''command''"] by simp
    then show ?thesis by (simp add: mget_def)
  qed
  show "map_of (spec_env r) k = Some (VStr v)"
    if chosen: "sr_Environment sel = Some chosen" "distinct (map fst chosen)" "map_of chosen k = Some v"
  proof -
    obtain e where e: "env_overlay (editable_env_keys r3) (spec_env r3) chosen = Inr e" "r4 = mput ''env'' (VObj e) r3"
      using s(2) chosen(1) by (auto simp: select_environment_def split: if_split_asm)
    have "spec_env r = spec_env r4" using frame by (intro spec_env_cong) simp
    then show ?thesis using env_overlay_lookup [OF e(1) chosen(2), of k] chosen(3) by (simp add: e(2) spec_env_def [of "mput _ _ _"])
  qed
qed

text \<open>C24: An update without a request keeps what the tenant chose before: an editable CPU or memory
  reservation is the larger of the active release's and the new version's, a fixed one is the
  version's; an editable command and every editable environment variable of the active release are
  carried over unchanged.\<close>

theorem update_keeps_choices:
  assumes "json_map template" "runtimeSpecForUpdate fmt template current None = Inr r"
    and "RuntimeResources current False = Inr old"
  shows "\<exists>minimum res. RuntimeResources template True = Inr minimum \<and> RuntimeResources r True = Inr res \<and>
    CPUCores res = (if editableRuntimeOption template ''cpu'' True then math_max (CPUCores old) (CPUCores minimum) else CPUCores minimum) \<and>
    MemoryMiB res = (if editableRuntimeOption template ''memory'' True then math_max (MemoryMiB old) (MemoryMiB minimum) else MemoryMiB minimum) \<and>
    (\<forall>cmd. editableRuntimeOption template ''command'' False \<and> RuntimeCommand current = Inr cmd \<and> cmd \<noteq> [] \<longrightarrow>
       mget r ''command'' = VStrs cmd) \<and>
    (\<forall>k v. editableRuntimeOption template ''environment'' False \<and> k \<in> set (editable_env_keys template) \<and>
       mget (spec_env current) k = VStr v \<longrightarrow> mget (spec_env r) k = VStr v)"
proof -
  obtain minimum sel where m: "RuntimeResources template True = Inr minimum" and sel: "selectedRuntimeSpec fmt template sel = Inr r"
    and cpu: "sr_CPUCores sel = (if editableRuntimeOption template ''cpu'' True then Some (math_max (CPUCores old) (CPUCores minimum)) else None)"
    and mem: "sr_MemoryMiB sel = (if editableRuntimeOption template ''memory'' True then Some (math_max (MemoryMiB old) (MemoryMiB minimum)) else None)"
    and env: "editableRuntimeOption template ''environment'' False \<and> editable_env_keys template \<noteq> [] \<longrightarrow>
       sr_Environment sel = Some (merged_environment template current (editable_env_keys template) [])"
    and cmd: "\<forall>cmd. editableRuntimeOption template ''command'' False \<and> RuntimeCommand current = Inr cmd \<and> cmd \<noteq> [] \<longrightarrow> sr_Command sel = Some cmd"
    using assms(2,3) by (rule unrequested_update_steps)
  obtain m' res where res: "RuntimeResources template True = Inr m'" "RuntimeResources r True = Inr res"
    "CPUCores res = (case sr_CPUCores sel of Some v \<Rightarrow> v | None \<Rightarrow> CPUCores m')"
    "MemoryMiB res = (case sr_MemoryMiB sel of Some v \<Rightarrow> v | None \<Rightarrow> MemoryMiB m')"
    using assms(1) sel by (rule selected_compute)
  have "mget (spec_env r) k = VStr v" if k: "editableRuntimeOption template ''environment'' False"
    "k \<in> set (editable_env_keys template)" "mget (spec_env current) k = VStr v" for k v
  proof -
    have "kept_variable template current k = Some v" using k(3) by (simp add: kept_variable_def)
    then have "map_of (merged_environment template current (editable_env_keys template) []) k = Some v"
      "distinct (map fst (merged_environment template current (editable_env_keys template) []))"
      using k(2) by (simp_all add: merged_environment_def kept_fold kept_fold_distinct)
    then show ?thesis using selected_overlays(2) [OF assms(1) sel] env k by (cases "editable_env_keys template") (auto simp: mget_def)
  qed
  then show ?thesis using m res cpu mem cmd selected_overlays(1) [OF assms(1) sel]
    by (intro exI [of _ minimum] exI [of _ res]) simp
qed


section \<open>Examples\<close>

definition fmt0 :: "gofloat \<Rightarrow> string" where "fmt0 f = []"

definition example_volume :: "rat \<Rightarrow> goval" where
  "example_volume n = VObj [(''name'', VStr ''db''), (''mountPath'', VStr ''/d''), (''sizeGiB'', VFloat (Fin n))]"

definition example_options :: goval where
  "example_options = VObj [(''cpu'', VBool True), (''dataVolume'', VBool True), (''command'', VBool True), (''environment'', VBool True)]"

definition example_template :: gomap where
  "example_template = [(''cpuCores'', VFloat (Fin 1)), (''memoryMiB'', VFloat (Fin 512)), (''dataVolumeGiB'', VFloat (Fin 10)),
     (''editableOptions'', example_options), (''command'', VArr [VStr ''new'']), (''env'', VObj [(''E'', VStr ''a''), (''F'', VStr ''b'')]),
     (''editableEnvKeys'', VArr [VStr ''E'']), (''volumes'', VArr [example_volume 10])]"

definition example_active :: gomap where
  "example_active = [(''cpuCores'', VFloat (Fin 2)), (''memoryMiB'', VFloat (Fin 1024)), (''dataVolumeGiB'', VFloat (Fin 20)),
     (''command'', VArr [VStr ''run'']), (''env'', VObj [(''E'', VStr ''k''), (''F'', VStr ''c'')]),
     (''volumes'', VArr [example_volume 20])]"

definition example_updated :: gomap where
  "example_updated = [(''cpuCores'', VFloat (Fin 2)), (''memoryMiB'', VFloat (Fin 512)), (''dataVolumeGiB'', VFloat (Fin 20)),
     (''editableOptions'', example_options), (''command'', VStrs [''run'']), (''env'', VObj [(''E'', VStr ''k''), (''F'', VStr ''b'')]),
     (''editableEnvKeys'', VArr [VStr ''E'']), (''volumes'', VArr [example_volume 20]), (''systemDiskGiB'', VFloat (Fin 5))]"

definition example_selection :: selectedResources where
  "example_selection = no_selection\<lparr>sr_CPUCores := Some (Fin 2), sr_DataVolumeGiB := Some (Fin 20),
     sr_Command := Some [''run''], sr_Environment := Some [(''E'', ''k'')]\<rparr>"

lemmas number_simps = const_defs out_of_range_def isNaN_def isInf_def

lemma example_template_json: "json_map example_template"
  by (simp add: example_template_def example_options_def example_volume_def ascii_utf8 byte_def number_simps)

lemma updated_lookup:
  "map_of example_updated ''cpuCores'' = Some (VFloat (Fin 2))" "map_of example_updated ''memoryMiB'' = Some (VFloat (Fin 512))"
  "map_of example_updated ''dataVolumeGiB'' = Some (VFloat (Fin 20))" "map_of example_updated ''systemDiskGiB'' = Some (VFloat (Fin 5))"
  "map_of example_updated ''editableOptions'' = Some example_options" "map_of example_updated ''command'' = Some (VStrs [''run''])"
  "map_of example_updated ''env'' = Some (VObj [(''E'', VStr ''k''), (''F'', VStr ''b'')])"
  "map_of example_updated ''editableEnvKeys'' = Some (VArr [VStr ''E''])" "map_of example_updated ''volumes'' = Some (VArr [example_volume 20])"
  "map_of example_updated ''privileged'' = None" "map_of example_updated ''networkMode'' = None"
  "map_of example_updated ''hostNetwork'' = None" "map_of example_updated ''dockerSocket'' = None"
  "map_of example_updated ''envDescriptions'' = None" "map_of example_updated ''secretKeys'' = None"
  "map_of example_updated ''secretDescriptions'' = None" "map_of example_updated ''editableSecretKeys'' = None"
  "map_of example_updated ''dependencies'' = None"
  by (simp_all add: example_updated_def)

lemmas updated_simps = mget_def has_key_def updated_lookup

lemma updated_resources: "RuntimeResources example_updated True = Inr \<lparr>CPUCores = Fin 2, MemoryMiB = Fin 512\<rparr>"
  by (simp add: RuntimeResources_def updated_simps number_simps)

lemma updated_storage: "RuntimeStorage example_updated True = Inr \<lparr>SystemDiskGiB = Fin 5, DataDiskGiB = Fin 20\<rparr>"
  by (simp add: RuntimeStorage_def updated_simps number_simps example_volume_def)

lemma updated_env: "check_env example_updated = Inr ()" "check_editableEnvKeys example_updated = Inr ()"
  by (simp_all add: check_env_def check_editableEnvKeys_def spec_env_def updated_simps environmentKeyPattern_def pat_def char_class_simps)

lemma updated_volumes: "check_volumes example_updated = Inr ()"
  by (simp add: check_volumes_def updated_simps example_volume_def volumeKeyPattern_def pat_def char_class_simps
      has_prefix_def contains_def sublist_code)

lemma updated_command: "RuntimeCommand example_updated = Inr [''run'']"
  by (simp add: RuntimeCommand_def any_slice_def updated_simps)

lemma updated_options: "check_editableOptions example_updated = Inr ()"
  by (simp add: check_editableOptions_def updated_simps example_options_def editable_option_names_def)

lemma updated_valid: "ValidateRuntimeSpec example_updated = Inr ()"
  by (simp add: ValidateRuntimeSpec_def updated_resources updated_storage updated_env updated_volumes updated_command updated_options
      updated_simps check_envDescriptions_def RuntimeSecretKeys_def RuntimeSecretOptions_def secret_descriptions_def
      editable_secrets_def check_secret_env_def RuntimeDependencies_def)


lemma example_editable:
  assumes "map_of spec ''editableOptions'' = Some example_options"
  shows "editableRuntimeOption spec ''cpu'' b" "\<not> editableRuntimeOption spec ''memory'' b"
    "editableRuntimeOption spec ''dataVolume'' b" "editableRuntimeOption spec ''command'' b"
    "editableRuntimeOption spec ''environment'' b" "\<not> editableRuntimeOption spec ''dependencies'' b"
  using assms by (simp_all add: editableRuntimeOption_def mget_def has_key_def example_options_def)

lemma template_lookup:
  "map_of example_template ''cpuCores'' = Some (VFloat (Fin 1))" "map_of example_template ''memoryMiB'' = Some (VFloat (Fin 512))"
  "map_of example_template ''dataVolumeGiB'' = Some (VFloat (Fin 10))" "map_of example_template ''systemDiskGiB'' = None"
  "map_of example_template ''editableOptions'' = Some example_options"
  "map_of example_template ''env'' = Some (VObj [(''E'', VStr ''a''), (''F'', VStr ''b'')])"
  "map_of example_template ''editableEnvKeys'' = Some (VArr [VStr ''E''])" "map_of example_template ''volumes'' = Some (VArr [example_volume 10])"
  by (simp_all add: example_template_def)

lemma current_lookup:
  "map_of example_active ''cpuCores'' = Some (VFloat (Fin 2))" "map_of example_active ''memoryMiB'' = Some (VFloat (Fin 1024))"
  "map_of example_active ''dataVolumeGiB'' = Some (VFloat (Fin 20))" "map_of example_active ''systemDiskGiB'' = None"
  "map_of example_active ''env'' = Some (VObj [(''E'', VStr ''k''), (''F'', VStr ''c'')])"
  "map_of example_active ''command'' = Some (VArr [VStr ''run''])" "map_of example_active ''volumes'' = Some (VArr [example_volume 20])"
  by (simp_all add: example_active_def)

lemmas example_simps = mget_def has_key_def template_lookup current_lookup

lemma example_views:
  "RuntimeResources example_template True = Inr \<lparr>CPUCores = Fin 1, MemoryMiB = Fin 512\<rparr>"
  "RuntimeResources example_active False = Inr \<lparr>CPUCores = Fin 2, MemoryMiB = Fin 1024\<rparr>"
  "RuntimeDataVolumeGiB example_template False = Inr (Fin 10)" "RuntimeDataVolumeGiB example_active False = Inr (Fin 20)"
  "RuntimeCommand example_active = Inr [''run'']" "editable_env_keys example_template = [''E'']"
  "VolumeMounts example_template = [\<lparr>vm_key = ''db'', vm_mountPath = ''/d'', vm_sizeGiB = Fin 10\<rparr>]"
  by (simp_all add: RuntimeResources_def RuntimeDataVolumeGiB_def RuntimeStorage_def RuntimeCommand_def any_slice_def
      editable_env_keys_def map_filter_simps VolumeMounts_def example_volume_def example_simps number_simps)

lemma example_selected: "selectedRuntimeSpec fmt0 example_template example_selection = Inr example_updated"
proof -
  define r1 where "r1 = mput ''systemDiskGiB'' (VFloat (Fin 5)) (mput ''memoryMiB'' (VFloat (Fin 512)) (mput ''cpuCores'' (VFloat (Fin 2)) example_template))"
  define r2 where "r2 = mput ''dataVolumeGiB'' (VFloat (Fin 20)) (mput ''volumes'' (VArr [example_volume 20]) r1)"
  define r3 where "r3 = mput ''command'' (VStrs [''run'']) r2"
  note ed = example_editable [of example_template, OF template_lookup(5)]
  have opts: "map_of r1 ''editableOptions'' = Some example_options" "map_of r2 ''editableOptions'' = Some example_options"
    "map_of r3 ''editableOptions'' = Some example_options" by (simp_all add: r3_def r2_def r1_def template_lookup)
  note ed1 = example_editable [OF opts(1)] and ed2 = example_editable [OF opts(2)] and ed3 = example_editable [OF opts(3)]
  have "select_compute example_template example_selection = Inr r1"
    by (simp add: select_compute_def example_views select_value_def ed example_selection_def no_selection_def r1_def DefaultSystemDiskGiB_def)
  moreover have "data_volume_or_zero r1 = Fin 10" "mget r1 ''volumes'' = VArr [example_volume 10]"
    "set_volume_size (Fin 20) (example_volume 10) = example_volume 20"
    using data_volume_default_disk [OF example_views(3), of r1]
    by (simp_all add: data_volume_or_zero_def r1_def mget_def template_lookup set_volume_size_def example_volume_def mput_def [of "''sizeGiB''"])
  then have "select_volume fmt0 r1 example_selection = Inr r2"
    by (simp add: select_volume_def select_value_def ed1 example_selection_def no_selection_def chosen_volume_def Let_def
        apply_volume_def r2_def)
  moreover have "select_command r2 example_selection = Inr r3"
    by (simp add: select_command_def ed2 example_selection_def r3_def)
  moreover have "mget r3 ''env'' = VObj [(''E'', VStr ''a''), (''F'', VStr ''b'')]" "editable_env_keys r3 = [''E'']"
    using example_views(6) by (simp_all add: r3_def r2_def r1_def mget_def template_lookup editable_env_keys_def)
  then have "select_environment r3 example_selection = Inr (mput ''env'' (VObj [(''E'', VStr ''k''), (''F'', VStr ''b'')]) r3)"
    by (simp add: select_environment_def ed3 example_selection_def spec_env_def mput_def)
  moreover have "mput ''env'' (VObj [(''E'', VStr ''k''), (''F'', VStr ''b'')]) r3 = example_updated"
    by (simp add: r3_def r2_def r1_def example_template_def example_updated_def mput_def)
  moreover have "select_dependencies example_updated example_selection = Inr example_updated"
    by (simp add: select_dependencies_def example_selection_def no_selection_def)
  ultimately show ?thesis by (simp add: selectedRuntimeSpec_def example_template_json updated_valid)
qed

lemma example_update: "runtimeSpecForUpdate fmt0 example_template example_active None = Inr example_updated"
proof -
  note ed = example_editable [of example_template, OF template_lookup(5)]
  let ?s1 = "no_selection\<lparr>sr_CPUCores := Some (Fin 2)\<rparr>"
  have "keep_compute example_template example_active \<lparr>CPUCores = Fin 1, MemoryMiB = Fin 512\<rparr> no_selection = ?s1"
    by (simp add: keep_compute_def ed example_views no_selection_def math_max_def)
  moreover have "keep_volume fmt0 example_template example_active ?s1 = Inr (?s1\<lparr>sr_DataVolumeGiB := Some (Fin 20)\<rparr>)"
    by (simp add: keep_volume_def ed example_views no_selection_def math_max_def)
  moreover have "keep_command example_template example_active (?s1\<lparr>sr_DataVolumeGiB := Some (Fin 20)\<rparr>) =
      Inr (?s1\<lparr>sr_DataVolumeGiB := Some (Fin 20), sr_Command := Some [''run'']\<rparr>)"
    by (simp add: keep_command_def ed example_views no_selection_def)
  moreover have "keep_environment example_template example_active (?s1\<lparr>sr_DataVolumeGiB := Some (Fin 20), sr_Command := Some [''run'']\<rparr>) =
      example_selection"
    by (simp add: keep_environment_def ed example_views merged_environment_def kept_variable_def spec_env_def example_simps
        no_selection_def example_selection_def)
  moreover have "keep_dependencies example_template example_active example_selection = Inr example_selection"
    by (simp add: keep_dependencies_def ed)
  ultimately show ?thesis by (simp add: runtimeSpecForUpdate_def example_views example_selected)
qed

theorem selection_only_editable_witness:
  "ValidateRuntimeSpec example_updated = Inr () \<and> map_of example_updated ''memoryMiB'' = map_of example_template ''memoryMiB'' \<and>
   map_of (spec_env example_updated) ''F'' = map_of (spec_env example_template) ''F'' \<and>
   mount_targets example_updated = mount_targets example_template"
proof -
  have "''memoryMiB'' \<notin> set (overridable example_template)"
    by (simp add: overridable_def example_editable [of example_template, OF template_lookup(5)])
  then show ?thesis
    using selection_only_editable [OF example_template_json example_selected] by (simp add: example_views(6))
qed

theorem selection_meets_minimum_witness:
  "\<exists>minimum res quota. RuntimeResources example_template True = Inr minimum \<and> RuntimeResources example_updated True = Inr res \<and>
    RuntimeDataVolumeGiB example_updated True = Inr quota \<and>
    CPUCores minimum \<le> CPUCores res \<and> MemoryMiB minimum \<le> MemoryMiB res \<and> Fin 10 \<le> quota \<and> CPUCores res = Fin 2"
  using selection_meets_minimum [OF example_template_json example_selected example_views(3)]
  by (auto simp: example_selection_def)


definition legacy_template :: gomap where
  "legacy_template = [(''cpuCores'', VFloat (Fin 1)), (''memoryMiB'', VFloat (Fin 512)), (''volumes'', VArr [example_volume 10])]"

theorem legacy_volume_update_refused_witness: "\<not> ok (runtimeSpecForUpdate fmt0 legacy_template legacy_template None)"
  by (rule legacy_volume_update_refused)
    (simp_all add: legacy_template_def example_volume_def ascii_utf8 byte_def number_simps mget_def VolumeMounts_def)

theorem update_keeps_choices_witness:
  "mget example_updated ''command'' = VStrs [''run''] \<and> mget (spec_env example_updated) ''E'' = VStr ''k'' \<and>
   (\<exists>res. RuntimeResources example_updated True = Inr res \<and> CPUCores res = Fin 2 \<and> MemoryMiB res = Fin 512)"
proof -
  note ed = example_editable [of example_template, OF template_lookup(5)]
  have "mget (spec_env example_active) ''E'' = VStr ''k''" by (simp add: spec_env_def example_simps)
  then show ?thesis
    using update_keeps_choices [OF example_template_json example_update example_views(2)]
    by (auto simp: ed example_views math_max_def)
qed

definition route_choice :: selectedResources where
  "route_choice = no_selection\<lparr>sr_ListenerPorts := [\<lparr>sl_Key = ''api'', sl_ContainerPort = 9001, sl_MappingEnabled = False\<rparr>]\<rparr>"

lemma example_route_selected: "ok (selectedRouteSpec example_route route_choice)"
proof -
  let ?ls = "[example_listeners ! 0, (example_listeners ! 1)\<lparr>li_ContainerPort := 9001\<rparr>]"
  have json: "json_map example_route"
    by (simp add: example_route_def ascii_utf8 byte_def number_simps)
  have n: "routeListeners normal_route = Inr example_listeners"
    using normalized_listeners [OF example_route_listeners example_route_normal] .
  have "listeners_ok ?ls"
    by (simp add: listeners_ok_def listener_ok_def example_listeners_def listenerPortKeyPattern_def pat_def char_class_simps
        port_in_range_def rune_count_def runes.simps)
  then have "routeListeners (mput ''listeners'' (VArr (encodeRouteListeners ?ls)) normal_route) = Inr ?ls"
    by (simp add: routeListeners_encode)
  moreover have "select_listeners None [(''api'', \<lparr>sl_Key = ''api'', sl_ContainerPort = 9001, sl_MappingEnabled = False\<rparr>)] example_listeners = Inr ([], ?ls)"
    by (simp add: example_listeners_def listener_choice_def apply_choice_def port_in_range_def)
  ultimately show ?thesis
    by (simp add: selectedRouteSpec_def json example_route_normal n route_choice_def no_selection_def Let_def)
qed

theorem route_selection_within_template_witness:
  "\<exists>r ls'. selectedRouteSpec example_route route_choice = Inr r \<and> routeListeners r = Inr ls' \<and>
     list_all2 listener_within example_listeners ls' \<and> listeners_ok ls'"
proof -
  obtain r where r: "selectedRouteSpec example_route route_choice = Inr r" using example_route_selected by (auto simp: ok_iff)
  have json: "json_map example_route"
    by (simp add: example_route_def ascii_utf8 byte_def number_simps)
  show ?thesis using route_selection_within_template [OF json r] r by (auto simp: example_route_listeners)
qed

end
