(* ===== verification/Spec2Isabelle.thy ===== *)
theory Spec2Isabelle
  imports Payment_Ledger Billing_Ledger Deployment_Rollout Metering_Correct Usage_Once Lifecycle_Correct Docker_Guard Egress Router Spec_Selection Secretbox_Config
begin

text \<open>
  CloudMeter is a platform that runs applications for users and bills what they use.  Four programs share one PostgreSQL
  database: the web server (\<^verbatim>\<open>apps/api\<close>, handlers in \<^verbatim>\<open>internal/httpapi\<close>), the worker
  (\<^verbatim>\<open>apps/worker\<close>), the router in front of the applications (\<^verbatim>\<open>apps/router\<close>) and the proxy for their
  outgoing traffic (\<^verbatim>\<open>apps/egress-proxy\<close>).  The web server takes money and requests, the worker deploys, meters
  and charges, the router lets only running applications be reached, and the proxy counts the bytes they send.

  \<^bold>\<open>How programs are modelled.\<close>  A handler or pass that talks to the database is a value of type
  \<^typ>\<open>('s, 'r, 'a) tx\<close> (theory \<^theory_text>\<open>Database\<close>): statements are numbered, an argument of type
  \<^typ>\<open>faults\<close> says which of them fail, and a program ends by giving up (nothing is changed) or by committing.  Theorems
  quantify over the faults, so every early return after a failed statement is a branch.  Rows are records, tables are lists in
  insertion order, constraints are tests of the inserting statement.  Amounts are integers with the 64-bit wrap-around written out
  (\<^const>\<open>wrap64\<close>, \<^const>\<open>in64\<close>), quantities of type \<^verbatim>\<open>numeric\<close> are rationals rounded as the column
  rounds.  JSON is \<^typ>\<open>goval\<close>, with Go's type assertions as option-valued selectors; strings are byte strings.  What is not in the
  repository (Docker, hash functions, ciphers, DNS, clocks, random identifiers, number formatting) is an argument; its laws are named
  hypotheses where a theorem needs them.  Row locks and advisory locks make the transactions of one row run one after another; the model
  runs transactions in an arbitrary order, one at a time.

  \<^bold>\<open>Theories and code.\<close>
  \<^item> \<^theory_text>\<open>Prelude\<close>: Go strings, numbers, JSON values and parsing of integers.
  \<^item> \<^theory_text>\<open>Domain_State\<close>: \<^verbatim>\<open>internal/domain/state.go\<close>; the locales \<open>state_machine\<close> and \<open>ranked_machine\<close> and what
    they give for histories of deployments, orders and refunds.
  \<^item> \<^theory_text>\<open>Worker_Db\<close>, \<^theory_text>\<open>Database\<close>: the tables, their constraints, the ledger invariant and the programs over them.
  \<^item> \<^theory_text>\<open>Runtime_Spec\<close>: \<^verbatim>\<open>internal/runtime/spec.go\<close>; a validated specification is isolated, bounded and has
    well-formed volumes, environment and dependencies; owners cannot reach names of other owners.
  \<^item> \<^theory_text>\<open>Product_Spec\<close>, \<^theory_text>\<open>Spec_Selection\<close>: \<^verbatim>\<open>product_spec.go\<close>, and \<^verbatim>\<open>selectedRuntimeSpec\<close>,
    \<^verbatim>\<open>selectedRouteSpec\<close> (\<^verbatim>\<open>server.go\<close>) and \<^verbatim>\<open>runtimeSpecForUpdate\<close> (\<^verbatim>\<open>app_lifecycle.go\<close>); normalisation is stable,
    listeners survive encoding, the locale \<open>overlay_step\<close> states which keys a step of a selection may write, a release changes only what its
    version releases, and an update never shrinks the data volume.
  \<^item> \<^theory_text>\<open>Secretbox_Config\<close>: \<^verbatim>\<open>internal/secretbox\<close> and \<^verbatim>\<open>internal/config\<close>; round trip and authenticity over the
    locale of an authenticated cipher, bounds of a loaded configuration.
  \<^item> \<^theory_text>\<open>Net_Base\<close>, \<^theory_text>\<open>Egress\<close>, \<^theory_text>\<open>Router\<close>: the two proxies; only public addresses are dialled, only live
    applications are served, credentials are compared exactly.
  \<^item> \<^theory_text>\<open>Wallets\<close>: wallet adjustment, credit, check-in and invitations (\<^verbatim>\<open>server.go\<close>, \<^verbatim>\<open>credit_features.go\<close>,
    \<^verbatim>\<open>checkin_features.go\<close>, \<^verbatim>\<open>invite_features.go\<close>); the locale \<open>ledger_service\<close> states what every money handler
    promises and derives histories from it.
  \<^item> \<^theory_text>\<open>Payments\<close>, \<^theory_text>\<open>Payment_Ledger\<close>: orders, the signed callback, refunds and provider operations
    (\<^verbatim>\<open>payment_features.go\<close>, \<^verbatim>\<open>epay_callback.go\<close>, \<^verbatim>\<open>payment_operations.go\<close>, \<^verbatim>\<open>payment_provider.go\<close>); an
    abstract payment process and the refinement of every handler to it.
  \<^item> \<^theory_text>\<open>Billing\<close>, \<^theory_text>\<open>Billing_Ledger\<close>: \<^verbatim>\<open>aggregateUsage\<close>, \<^verbatim>\<open>sealUnpricedUsage\<close> and \<^verbatim>\<open>billUsage\<close> of
    \<^verbatim>\<open>apps/worker/main.go\<close>; charges, bills, credit and ledger stay in agreement, aggregation loses nothing.
  \<^item> \<^theory_text>\<open>Docker_Settings\<close>, \<^theory_text>\<open>Deployment\<close>, \<^theory_text>\<open>Deployment_Moves\<close>, \<^theory_text>\<open>Deployment_Rollout\<close>:
    \<^verbatim>\<open>processOne\<close> and \<^verbatim>\<open>markJobError\<close> of the worker; the step relation of a job, refinement of every pass to it,
    bounds, progress, and the invariant of releases and routes.
  \<^item> \<^theory_text>\<open>Metering\<close>, \<^theory_text>\<open>Metering_Correct\<close>: \<^verbatim>\<open>meterRuntime\<close>, \<^verbatim>\<open>meterStorage\<close>, \<^verbatim>\<open>meterEgress\<close> and
    \<^verbatim>\<open>ingestEgressSample\<close>; exact quantities, windows and totals of traffic.
  \<^item> \<^theory_text>\<open>Lifecycle\<close>: the handlers that start, stop and delete applications (\<^verbatim>\<open>app_control.go\<close>,
    \<^verbatim>\<open>startup_balance.go\<close>, \<^verbatim>\<open>resource_deletion.go\<close>, \<^verbatim>\<open>product_dependencies.go\<close>) and the passes of the worker that carry
    them out, clean up after unpaid applications, reclaim containers and rotate domains.
  \<^item> \<^theory_text>\<open>Lifecycle_Machine\<close>, \<^theory_text>\<open>Lifecycle_Moves\<close>, \<^theory_text>\<open>Lifecycle_Correct\<close>: one application as a machine, the locale
    \<open>app_service\<close> of services whose transactions move every application along it, with the requests, the billing passes and the stop and
    deletion passes as instances, and what follows over all their histories: operations on one application exclude each other, an
    accepted stop ends, an accepted start is funded, and only unused containers are reclaimed.
  \<^item> \<^theory_text>\<open>Docker_Executor\<close>, \<^theory_text>\<open>Docker_Guard\<close>: \<^verbatim>\<open>internal/runtime/docker_executor.go\<close> as programs that send requests to an engine
    which answers in any way, and triples over traces that show every request to be guarded by a check of the owner.
  \<^item> \<^theory_text>\<open>Usage_Once\<close>: all passes that write usage, in any order: nothing is recorded twice or lost.
  \<^item> This theory: histories that mix every request and pass that moves money.

  \<^bold>\<open>Loops and bounds.\<close>  Loops over rows, strings and retries are structural recursion; no definition has fuel.  A deployment job needs at
  most the passes that \<open>deployment_bounded\<close> counts, because a health check is repeated at most eight times.

  \<^bold>\<open>Not modelled.\<close>  Handlers that only list rows or store a settings row; account, OAuth, mail and support handlers, which call external
  services; the gateway configuration; the Docker engine, whose answers are arguments; backup and restore jobs and the
  handlers that create them; the handlers that create, update and roll back applications around the
  specifications they assemble; subscriptions; the web front end.  Concurrency within one row is not modelled, since the code serialises it
  with locks.
\<close>

section \<open>All money requests\<close>

text \<open>Handlers answer a request; passes of the worker end with a log line.  A history mixes both.\<close>

datatype money_request =
    WalletRequest wallet_request
  | PaymentRequest payment_request
  | BillingPass billing_request

definition answering :: "('r \<Rightarrow> 'q) \<Rightarrow> ('s, 'r, 'r) tx \<Rightarrow> ('s, 'q, 'q) tx" where
  "answering f m flt n s = (case m flt n s of Stop r \<Rightarrow> Stop (f r) | Commit t r \<Rightarrow> Commit t (f r) | Next t n' r \<Rightarrow> Stop (f r))"

lemma run_answering [simp]: "run (answering f m) flt s = (f (fst (run m flt s)), snd (run m flt s))"
  by (auto simp: run_def answering_def split: txout.split)

lemma transactional_answering:
  assumes "transactional errs m"
  shows "transactional (f ` errs) (answering f m)"
  unfolding transactional_def
proof (intro allI)
  fix flt n s
  consider e where "m flt n s = Stop e" "e \<in> errs" | "m flt n s = m no_faults n s"
    using assms unfolding transactional_def by blast
  then show "answering f m flt n s \<in> Stop ` f ` errs \<or> answering f m flt n s = answering f m no_faults n s"
    by cases (simp_all add: answering_def)
qed

fun serve_money :: "money_request \<Rightarrow> (db, response + worker_end, response + worker_end) tx" where
  "serve_money (WalletRequest q) = answering Inl (serve_wallet q)"
| "serve_money (PaymentRequest q) = answering Inl (serve_payment q)"
| "serve_money (BillingPass q) = answering Inr (serve_billing q)"

fun money_admissible :: "money_request \<Rightarrow> bool" where
  "money_admissible (WalletRequest q) = wallet_admissible q"
| "money_admissible (PaymentRequest q) = True"
| "money_admissible (BillingPass q) = True"

definition money_errors :: "(response + worker_end) set" where
  "money_errors = payment_errors <+> billing_errors"

lemma transactional_serve_money: "transactional money_errors (serve_money q)"
proof (cases q)
  case (WalletRequest w)
  have "transactional payment_errors (serve_wallet w)" by (rule transactional_mono [OF wallet_service.atomic]) simp
  from transactional_answering [OF this, of Inl] WalletRequest show ?thesis
    by (auto simp: money_errors_def intro: transactional_mono)
next
  case (PaymentRequest p)
  from transactional_answering [OF transactional_serve_payment, of Inl p] PaymentRequest show ?thesis
    by (auto simp: money_errors_def intro: transactional_mono)
next
  case (BillingPass b)
  from transactional_answering [OF transactional_serve_billing, of Inr b] BillingPass show ?thesis
    by (auto simp: money_errors_def intro: transactional_mono)
qed

interpretation money_service: ledger_service serve_money money_admissible money_errors
proof (unfold_locales, goal_cases)
  case (1 q)
  then show ?case by (rule transactional_serve_money)
next
  case (2 q d)
  then show ?case by (cases q) (simp_all add: wallet_service.keeps payment_service.keeps billing_service.keeps)
next
  case (3 d q)
  then show ?case by (cases q) (simp_all add: wallet_service.appends payment_service.appends billing_service.appends)
next
  case (4 q d)
  then show ?case by (cases q) (simp_all add: wallet_service.same_wallets payment_service.same_wallets billing_service.same_wallets)
qed

text \<open>Billing does not touch what the payment process sees.\<close>

lemma pay_abs_work: "pay_abs (d\<lparr>work := w\<rparr>) = pay_abs d"
  by (simp add: pay_abs_def)

lemmas unchanged_pay_work [unchanged_intros] = unchanged_work [of pay_abs, OF pay_abs_work]

lemma unchanged_pay_spend [unchanged_intros]: "unchanged pay_abs (exec err (grant_spend g u))"
  by (rule unchanged_exec) (auto simp: grant_spend_def pay_abs_def split: if_splits)

lemma unchanged_pay_consume [unchanged_intros]: "unchanged pay_abs (consume_loop cid remaining gs)"
proof (induction gs arbitrary: remaining)
  case (Cons g gs)
  show ?case unfolding consume_loop.simps Let_def by (intro unchanged_intros Cons.IH)
qed (simp add: unchanged_intros)

lemma unchanged_pay_settle [unchanged_intros]: "unchanged pay_abs (settle_usage be a price amount w gs)"
  unfolding settle_usage_def bill_charge_def record_charge_def bill_line_def after_charge_def bill_insufficient_def
    charge_wallet_def reserve_suspension_def Let_def
  by (intro unchanged_intros; simp)

lemma unchanged_pay_billing: "unchanged pay_abs (serve_billing q)"
  by (cases q; simp only: serve_billing.simps billUsage_def aggregateUsage_def sealUnpricedUsage_def Let_def; intro unchanged_intros)

lemma serve_money_step:
  assumes "money_ok d"
  shows "pay_step_or_same (pay_abs d) (pay_abs (snd (run (serve_money q) flt d)))"
proof (cases q)
  case (WalletRequest w)
  then show ?thesis using unchanged_run [OF unchanged_pay_wallet, of w flt d] by (simp add: pay_step_or_same_def)
next
  case (PaymentRequest p)
  then show ?thesis using assms serve_payment_step_any [of d p flt] by (simp add: money_ok_def)
next
  case (BillingPass b)
  then show ?thesis using unchanged_run [OF unchanged_pay_billing, of b flt d] by (simp add: pay_step_or_same_def)
qed

lemma history_view_ok:
  assumes "money_service.serves d qs d'" "money_ok d" "view_ok (pay_abs d)"
  shows "view_ok (pay_abs d')"
  using assms
proof (induction rule: money_service.serves.induct)
  case (one d q flt qs d')
  have "view_ok (pay_abs (snd (run (serve_money q) flt d)))"
    using serve_money_step [OF one.prems(1), of q flt] one.prems(2) pay_step_ok by (auto simp: pay_step_or_same_def)
  then show ?case using one money_service.keeps_any by blast
qed




lemma example_paid_orders: "orders example_paid_db = [\<lparr>po_id = ''O'', po_user = ''U'', po_provider = ''manual'', po_type = [],
     po_amount = 700, po_status = ''paid'', po_key = ''k'', po_ref = None\<rparr>]"
  and example_paid_wallet: "map_option w_id (wallet_of ''U'' example_paid_db) = Some ''W''"
  by (simp_all add: example_refund_simps)


end
